(* ===== verification/Rls_Prelude.thy ===== *)
theory Rls_Prelude
  imports Main
begin

text \<open>
  Shared ground of the development: the exceptions of the library
  (\<^verbatim>\<open>django_rls_tenants/exceptions.py\<close>) and the Python and Django ones its code raises
  or catches, computations that raise and change state, \<^verbatim>\<open>try\<close>/\<^verbatim>\<open>finally\<close>, and the
  string operations the SQL builders use.

  A Python \<^verbatim>\<open>str\<close> is a \<open>string\<close>, whose characters are the first 256 code points: every
  identifier, GUC name and SQL keyword the library inspects is matched against ASCII patterns,
  and only the case of ASCII letters is mapped.  Messages of exceptions are
  left out, since no code reads them; the class of an exception, which \<^verbatim>\<open>except\<close> clauses
  read, is kept.
\<close>

named_theorems py_simps "unfolding of the computations that raise and change state"
named_theorems text_simps "facts about the characters of validated names and built SQL"

subsection \<open>Exceptions\<close>

datatype exn =
    ValueError
  | TypeError
  | RuntimeError
  | LookupError
  | DatabaseError
  | ConnectionDoesNotExist
  | NoTenantContextError
  | RLSConfigurationError
  | OtherError string

text \<open>
  \<^verbatim>\<open>RLSTenantError.__init__\<close>: the text of the exception, with the hint appended when there
  is one; an empty hint is falsy and adds nothing.
\<close>

definition newline :: char where
  "newline = CHR 0x0A"

definition rls_error_str :: "string \<Rightarrow> string option \<Rightarrow> string" where
  "rls_error_str message hint =
     (case hint of
        None \<Rightarrow> message
      | Some h \<Rightarrow> if h = [] then message else message @ [newline, newline] @ ''Hint: '' @ h)"

definition is_rls_tenant_error :: "exn \<Rightarrow> bool" where
  "is_rls_tenant_error e \<longleftrightarrow> e = NoTenantContextError \<or> e = RLSConfigurationError"

subsection \<open>Computations\<close>

text \<open>
  A Python call on a world \<open>'w\<close> returns a value or raises, and in both cases leaves a world:
  an exception does not undo what ran before it.
\<close>

type_synonym ('w, 'a) py = "'w \<Rightarrow> (exn + 'a) \<times> 'w"

definition py_ret :: "'a \<Rightarrow> ('w, 'a) py" where
  [py_simps]: "py_ret x = (\<lambda>w. (Inr x, w))"

definition py_raise :: "exn \<Rightarrow> ('w, 'a) py" where
  [py_simps]: "py_raise e = (\<lambda>w. (Inl e, w))"

definition py_bind :: "('w, 'a) py \<Rightarrow> ('a \<Rightarrow> ('w, 'b) py) \<Rightarrow> ('w, 'b) py" where
  "py_bind m f = (\<lambda>w. case m w of (Inl e, w') \<Rightarrow> (Inl e, w') | (Inr x, w') \<Rightarrow> f x w')"

definition py_seq :: "('w, unit) py \<Rightarrow> ('w, 'b) py \<Rightarrow> ('w, 'b) py" where
  "py_seq m n = py_bind m (\<lambda>_. n)"

text \<open>\<^verbatim>\<open>if not ok: raise e\<close>.\<close>

definition py_require :: "bool \<Rightarrow> exn \<Rightarrow> ('w, unit) py" where
  [py_simps]: "py_require ok e = (\<lambda>w. if ok then (Inr (), w) else (Inl e, w))"

text \<open>A change of the world that cannot raise, and a read of it.\<close>

definition py_modify :: "('w \<Rightarrow> 'w) \<Rightarrow> ('w, unit) py" where
  [py_simps]: "py_modify f = (\<lambda>w. (Inr (), f w))"

definition py_get :: "('w \<Rightarrow> 'a) \<Rightarrow> ('w, 'a) py" where
  [py_simps]: "py_get f = (\<lambda>w. (Inr (f w), w))"

text \<open>
  \<^verbatim>\<open>try: body  finally: fin\<close>, where the cleanup may look at whether an exception is
  propagating (the source keeps that in a flag, \<^verbatim>\<open>exc_pending\<close>).  The body's outcome stands
  unless the cleanup itself raises, which replaces it.
\<close>

definition py_finally :: "('w, 'a) py \<Rightarrow> (bool \<Rightarrow> ('w, unit) py) \<Rightarrow> ('w, 'a) py" where
  "py_finally body fin = (\<lambda>w.
     case body w of (r, w') \<Rightarrow>
       (case fin (isl r) w' of
          (Inl e, w'') \<Rightarrow> (Inl e, w'')
        | (Inr _, w'') \<Rightarrow> (r, w'')))"

text \<open>\<^verbatim>\<open>try: body  except E: handler\<close> for the exceptions a predicate selects.\<close>

definition py_except :: "('w, 'a) py \<Rightarrow> (exn \<Rightarrow> bool) \<Rightarrow> (exn \<Rightarrow> ('w, 'a) py) \<Rightarrow> ('w, 'a) py" where
  "py_except body sel handler = (\<lambda>w.
     case body w of
       (Inl e, w') \<Rightarrow> if sel e then handler e w' else (Inl e, w')
     | (Inr x, w') \<Rightarrow> (Inr x, w'))"

lemma py_bind_Inr [py_simps]: "m w = (Inr x, w') \<Longrightarrow> py_bind m f w = f x w'"
  by (simp add: py_bind_def)

lemma py_bind_Inl [py_simps]: "m w = (Inl e, w') \<Longrightarrow> py_bind m f w = (Inl e, w')"
  by (simp add: py_bind_def)

lemma py_bind_ret [simp]: "py_bind (py_ret x) f = f x"
  by (simp add: py_bind_def py_ret_def)

lemma py_bind_raise [simp]: "py_bind (py_raise e) f = py_raise e"
  by (simp add: py_bind_def py_raise_def)

lemma py_bind_modify [simp]: "py_bind (py_modify g) f w = f () (g w)"
  by (simp add: py_bind_def py_modify_def)

lemma py_bind_get [simp]: "py_bind (py_get g) f w = f (g w) w"
  by (simp add: py_bind_def py_get_def)

lemma py_bind_require_True [simp]: "py_bind (py_require True e) f w = f () w"
  by (simp add: py_bind_def py_require_def)

lemma py_bind_require_False [simp]: "py_bind (py_require False e) f w = (Inl e, w)"
  by (simp add: py_bind_def py_require_def)

lemma py_bind_assoc: "py_bind (py_bind m f) g = py_bind m (\<lambda>x. py_bind (f x) g)"
  by (auto simp: py_bind_def fun_eq_iff split: prod.splits sum.splits)

lemma py_bind_split:
  "P (py_bind m f w) \<longleftrightarrow>
     (\<forall>e w'. m w = (Inl e, w') \<longrightarrow> P (Inl e, w')) \<and> (\<forall>x w'. m w = (Inr x, w') \<longrightarrow> P (f x w'))"
  by (auto simp: py_bind_def split: prod.splits sum.splits)

lemma py_bind_InrE:
  assumes "py_bind m f w = (Inr y, w'')"
  obtains x w' where "m w = (Inr x, w')" "f x w' = (Inr y, w'')"
  using assms by (auto simp: py_bind_def split: prod.splits sum.splits)

lemma py_seq_InrE:
  assumes "py_seq m n w = (Inr y, w'')"
  obtains w' where "m w = (Inr (), w')" "n w' = (Inr y, w'')"
  using assms by (auto simp: py_seq_def elim: py_bind_InrE)

lemma py_bind_cong:
  assumes "\<And>x w'. m w = (Inr x, w') \<Longrightarrow> f x w' = g x w'"
  shows "py_bind m f w = py_bind m g w"
  using assms by (auto simp: py_bind_def split: prod.splits sum.splits)

lemma py_finally_quiet:
  assumes "body w = (r, w')" and "fin (isl r) w' = (Inr u, w'')"
  shows "py_finally body fin w = (r, w'')"
  using assms by (simp add: py_finally_def)

lemma py_finally_raises:
  assumes "body w = (r, w')" and "fin (isl r) w' = (Inl e, w'')"
  shows "py_finally body fin w = (Inl e, w'')"
  using assms by (simp add: py_finally_def)

text \<open>A loop over a list stops at the first exception.\<close>

fun py_for :: "'a list \<Rightarrow> ('a \<Rightarrow> ('w, unit) py) \<Rightarrow> ('w, unit) py" where
  "py_for [] f = py_ret ()"
| "py_for (x # xs) f = py_seq (f x) (py_for xs f)"

text \<open>Checks that only raise or pass, without a world: \<open>Inl\<close> the exception.\<close>

type_synonym 'a checked = "exn + 'a"

definition check :: "bool \<Rightarrow> exn \<Rightarrow> unit checked" where
  "check ok e = (if ok then Inr () else Inl e)"

definition ck_bind :: "'a checked \<Rightarrow> ('a \<Rightarrow> 'b checked) \<Rightarrow> 'b checked" where
  "ck_bind m f = (case m of Inl e \<Rightarrow> Inl e | Inr x \<Rightarrow> f x)"

lemma check_simps [simp]:
  "check True e = Inr ()" "check False e = Inl e"
  "check ok e = Inr () \<longleftrightarrow> ok" "check ok e = Inl e' \<longleftrightarrow> \<not> ok \<and> e' = e"
  by (auto simp: check_def)

lemma ck_bind_simps [simp]: "ck_bind (Inr x) f = f x" "ck_bind (Inl e) f = Inl e"
  by (simp_all add: ck_bind_def)

lemma ck_bind_eq_Inr [simp]: "ck_bind m f = Inr y \<longleftrightarrow> (\<exists>x. m = Inr x \<and> f x = Inr y)"
  by (cases m) auto

lemma ck_bind_eq_Inl: "ck_bind m f = Inl e \<longleftrightarrow> m = Inl e \<or> (\<exists>x. m = Inr x \<and> f x = Inl e)"
  by (cases m) auto

fun check_all :: "('a \<Rightarrow> unit checked) \<Rightarrow> 'a list \<Rightarrow> unit checked" where
  "check_all f [] = Inr ()"
| "check_all f (x # xs) = ck_bind (f x) (\<lambda>_. check_all f xs)"

lemma check_all_eq_Inr [simp]: "check_all f xs = Inr () \<longleftrightarrow> (\<forall>x\<in>set xs. f x = Inr ())"
  by (induction xs) auto

fun map_checked :: "('a \<Rightarrow> 'b checked) \<Rightarrow> 'a list \<Rightarrow> 'b list checked" where
  "map_checked f [] = Inr []"
| "map_checked f (x # xs) = ck_bind (f x) (\<lambda>y. ck_bind (map_checked f xs) (\<lambda>ys. Inr (y # ys)))"

lemma map_checked_Inr_length: "map_checked f xs = Inr ys \<Longrightarrow> length ys = length xs"
  by (induction xs arbitrary: ys) auto

lemma map_checked_Inr_set:
  "map_checked f xs = Inr ys \<Longrightarrow> y \<in> set ys \<Longrightarrow> \<exists>x\<in>set xs. f x = Inr y"
  by (induction xs arbitrary: ys) auto

subsection \<open>Strings\<close>

definition dq :: "string \<Rightarrow> string" where
  "dq s = CHR 0x22 # s @ [CHR 0x22]"

definition sq :: "string \<Rightarrow> string" where
  "sq s = CHR 0x27 # s @ [CHR 0x27]"

text \<open>\<^verbatim>\<open>sep.join(xs)\<close>.\<close>

fun py_join :: "string \<Rightarrow> string list \<Rightarrow> string" where
  "py_join sep [] = []"
| "py_join sep [x] = x"
| "py_join sep (x # y # zs) = x @ sep @ py_join sep (y # zs)"

lemma set_py_join: "set (py_join sep xs) \<subseteq> set sep \<union> (\<Union>x\<in>set xs. set x)"
  by (induction sep xs rule: py_join.induct) auto

lemma set_py_join_bound:
  "set sep \<subseteq> A \<Longrightarrow> \<forall>x\<in>set xs. set x \<subseteq> A \<Longrightarrow> set (py_join sep xs) \<subseteq> A"
  using set_py_join [of sep xs] by blast

lemma py_join_append:
  "xs \<noteq> [] \<Longrightarrow> ys \<noteq> [] \<Longrightarrow> py_join sep (xs @ ys) = py_join sep xs @ sep @ py_join sep ys"
proof (induction xs rule: py_join.induct [of _ sep])
  case (2 sep x)
  then show ?case by (cases ys) auto
qed auto

text \<open>The lines of a triple-quoted string, joined by newlines.\<close>

definition text_block :: "string list \<Rightarrow> string" where
  "text_block ls = py_join [newline] ls"

text \<open>\<^verbatim>\<open>p in s\<close> for strings.\<close>

fun contains :: "string \<Rightarrow> string \<Rightarrow> bool" where
  "contains p [] = (p = [])"
| "contains p (c # cs) = (take (length p) (c # cs) = p \<or> contains p cs)"

lemma contains_iff: "contains p s \<longleftrightarrow> (\<exists>u v. s = u @ p @ v)"
proof (induction s)
  case Nil
  then show ?case by auto
next
  case (Cons c cs)
  show ?case
  proof
    assume "contains p (c # cs)"
    then consider "take (length p) (c # cs) = p" | "contains p cs" by auto
    then show "\<exists>u v. c # cs = u @ p @ v"
    proof cases
      case 1
      then have "c # cs = [] @ p @ drop (length p) (c # cs)"
        by (metis append_Nil append_take_drop_id)
      then show ?thesis by blast
    next
      case 2
      with Cons obtain u v where "cs = u @ p @ v" by auto
      then have "c # cs = (c # u) @ p @ v" by simp
      then show ?thesis by blast
    qed
  next
    assume "\<exists>u v. c # cs = u @ p @ v"
    then obtain u v where uv: "c # cs = u @ p @ v" by blast
    show "contains p (c # cs)"
    proof (cases u)
      case Nil
      with uv have "take (length p) (c # cs) = p" by simp
      then show ?thesis by simp
    next
      case (Cons d ds)
      with uv have "cs = ds @ p @ v" by simp
      with Cons.IH show ?thesis by auto
    qed
  qed
qed

text \<open>\<^verbatim>\<open>s.replace(c, t)\<close> for a one-character pattern.\<close>

fun replace_char :: "char \<Rightarrow> string \<Rightarrow> string \<Rightarrow> string" where
  "replace_char c t [] = []"
| "replace_char c t (x # xs) = (if x = c then t @ replace_char c t xs else x # replace_char c t xs)"

text \<open>Character classes of the ASCII patterns.\<close>

definition is_alpha :: "char \<Rightarrow> bool" where
  "is_alpha c \<longleftrightarrow> (let n = (of_char c :: nat) in (65 \<le> n \<and> n \<le> 90) \<or> (97 \<le> n \<and> n \<le> 122))"

definition is_digit :: "char \<Rightarrow> bool" where
  "is_digit c \<longleftrightarrow> (let n = (of_char c :: nat) in 48 \<le> n \<and> n \<le> 57)"

definition ident_start :: "char \<Rightarrow> bool" where
  "ident_start c \<longleftrightarrow> is_alpha c \<or> c = CHR ''_''"

definition ident_char :: "char \<Rightarrow> bool" where
  "ident_char c \<longleftrightarrow> ident_start c \<or> is_digit c"

lemmas char_class_defs = is_alpha_def is_digit_def ident_start_def ident_char_def Let_def

text \<open>White space for \<^verbatim>\<open>str.strip()\<close> and \<^verbatim>\<open>str.split()\<close>, among the Latin-1 characters.\<close>

definition is_space :: "char \<Rightarrow> bool" where
  "is_space c \<longleftrightarrow> (let n = (of_char c :: nat) in n = 32 \<or> (9 \<le> n \<and> n \<le> 13) \<or> (28 \<le> n \<and> n \<le> 31) \<or>
     n = 133 \<or> n = 160)"

text \<open>\<^verbatim>\<open>str(n)\<close> of a Python \<^verbatim>\<open>int\<close>.\<close>

definition digit_char :: "nat \<Rightarrow> char" where
  "digit_char d = char_of (48 + d)"

fun show_nat :: "nat \<Rightarrow> string" where
  "show_nat n = (if n < 10 then [digit_char n] else show_nat (n div 10) @ [digit_char (n mod 10)])"

declare show_nat.simps [simp del]

definition show_int :: "int \<Rightarrow> string" where
  "show_int i = (if i < 0 then CHR ''-'' # show_nat (nat (- i)) else show_nat (nat i))"

lemma show_nat_nonempty [simp]: "show_nat n \<noteq> []"
  by (subst show_nat.simps) simp

lemma show_int_nonempty [simp]: "show_int i \<noteq> []"
  by (simp add: show_int_def)

end
