(* ===== verification/Guc.thy ===== *)
theory Guc
  imports Rls_Prelude
begin

text \<open>
  \<^verbatim>\<open>rls/guc.py\<close>: reading and writing PostgreSQL session variables (GUCs).

  The database behind Django's \<^verbatim>\<open>connections\<close> is not code of this repository, so it is a
  parameter: a \<open>db\<close> record holds what the code uses of it (the connection's flags and
  \<^verbatim>\<open>cursor.execute\<close>), over a world \<open>'w\<close>.  What PostgreSQL documents of \<^verbatim>\<open>set_config\<close>,
  \<^verbatim>\<open>SET LOCAL\<close> and \<^verbatim>\<open>current_setting\<close> is the hypothesis \<open>guc_laws\<close> of the lemmas
  that need it.
\<close>

record 'w db =
  db_known :: "string \<Rightarrow> 'w \<Rightarrow> bool"
  db_in_atomic :: "string \<Rightarrow> 'w \<Rightarrow> bool"
  db_needs_rollback :: "string \<Rightarrow> 'w \<Rightarrow> bool"
  db_put_needs_rollback :: "string \<Rightarrow> bool \<Rightarrow> 'w \<Rightarrow> 'w"
  db_execute :: "string \<Rightarrow> string \<Rightarrow> string list \<Rightarrow> ('w, string option option) py"

text \<open>
  \<open>db_execute db alias sql params\<close> runs a statement on the thread's connection of that alias;
  its value is the first column of the first row, if there is a row (\<open>None\<close> inside is a NULL).
\<close>

subsection \<open>Names\<close>

text \<open>\<^verbatim>\<open>_GUC_NAME_RE\<close>: \<^verbatim>\<open>^[a-zA-Z_][a-zA-Z0-9_.]*\Z\<close>.\<close>

definition guc_char :: "char \<Rightarrow> bool" where
  "guc_char c \<longleftrightarrow> ident_char c \<or> c = CHR ''.''"

fun guc_name_ok :: "string \<Rightarrow> bool" where
  "guc_name_ok [] = False"
| "guc_name_ok (c # cs) = (ident_start c \<and> list_all guc_char cs)"

definition validate_guc_name :: "string \<Rightarrow> unit checked" where
  "validate_guc_name name = check (guc_name_ok name) ValueError"

lemma ident_start_guc_char: "ident_start c \<Longrightarrow> guc_char c"
  by (simp add: guc_char_def ident_char_def)

lemma guc_name_chars [text_simps]: "guc_name_ok n \<Longrightarrow> c \<in> set n \<Longrightarrow> guc_char c"
  by (cases n) (auto simp: list_all_iff ident_start_guc_char)

lemma validate_guc_name_Inr [simp]: "validate_guc_name n = Inr () \<longleftrightarrow> guc_name_ok n"
  by (simp add: validate_guc_name_def)

subsection \<open>Operations\<close>

text \<open>\<^verbatim>\<open>connections[using]\<close> raises for an alias the settings do not name.\<close>

definition connections_get :: "'w db \<Rightarrow> string \<Rightarrow> ('w, unit) py" where
  "connections_get db using = (\<lambda>w. py_require (db_known db using w) ConnectionDoesNotExist w)"

definition set_config_sql :: string where
  "set_config_sql = ''SELECT set_config(%s, %s, false)''"

definition set_local_sql :: "string \<Rightarrow> string" where
  "set_local_sql name = ''SET LOCAL '' @ name @ '' TO %s''"

definition current_setting_sql :: string where
  "current_setting_sql = ''SELECT current_setting(%s, true)''"

definition set_guc :: "'w db \<Rightarrow> string \<Rightarrow> string \<Rightarrow> bool \<Rightarrow> string \<Rightarrow> ('w, unit) py" where
  "set_guc db name value is_local using =
     py_seq (py_require (guc_name_ok name) ValueError)
     (py_seq (connections_get db using)
     (py_bind (py_get (db_in_atomic db using)) (\<lambda>in_atomic.
      py_seq (py_require (\<not> (is_local \<and> \<not> in_atomic)) RuntimeError)
        (py_bind
          (if is_local then db_execute db using (set_local_sql name) [value]
           else db_execute db using set_config_sql [name, value])
          (\<lambda>_. py_ret ())))))"

definition get_guc :: "'w db \<Rightarrow> string \<Rightarrow> string \<Rightarrow> ('w, string option) py" where
  "get_guc db name using =
     py_seq (py_require (guc_name_ok name) ValueError)
     (py_seq (connections_get db using)
     (py_bind (db_execute db using current_setting_sql [name]) (\<lambda>result.
        let value = (case result of None \<Rightarrow> None | Some v \<Rightarrow> v)
        in py_ret (if value \<noteq> Some [] then value else None))))"

definition clear_guc :: "'w db \<Rightarrow> string \<Rightarrow> bool \<Rightarrow> string \<Rightarrow> ('w, unit) py" where
  "clear_guc db name is_local using = set_guc db name [] is_local using"

definition restore_guc ::
  "'w db \<Rightarrow> string \<Rightarrow> string option \<Rightarrow> bool \<Rightarrow> string \<Rightarrow> ('w, unit) py" where
  "restore_guc db name previous is_local using =
     (case previous of
        Some v \<Rightarrow> set_guc db name v is_local using
      | None \<Rightarrow> clear_guc db name is_local using)"

subsection \<open>Bypass flags (\<^verbatim>\<open>tenants/bypass.py\<close>)\<close>

definition set_bypass_flag :: "'w db \<Rightarrow> string \<Rightarrow> bool \<Rightarrow> string \<Rightarrow> ('w, unit) py" where
  "set_bypass_flag db flag_name is_local using = set_guc db flag_name ''true'' is_local using"

definition clear_bypass_flag :: "'w db \<Rightarrow> string \<Rightarrow> bool \<Rightarrow> string \<Rightarrow> ('w, unit) py" where
  "clear_bypass_flag db flag_name is_local using = clear_guc db flag_name is_local using"

subsection \<open>What is refused before any statement runs\<close>

lemma set_guc_invalid_name:
  "\<not> guc_name_ok name \<Longrightarrow> set_guc db name value is_local using w = (Inl ValueError, w)"
  by (simp add: set_guc_def py_seq_def)

lemma get_guc_invalid_name:
  "\<not> guc_name_ok name \<Longrightarrow> get_guc db name using w = (Inl ValueError, w)"
  by (simp add: get_guc_def py_seq_def)

lemma set_guc_local_outside_transaction:
  assumes "guc_name_ok name" "db_known db using w" "\<not> db_in_atomic db using w"
  shows "set_guc db name value True using w = (Inl RuntimeError, w)"
  using assms by (simp add: set_guc_def py_seq_def connections_get_def py_bind_def py_simps)

lemma set_guc_runs:
  assumes "guc_name_ok name" "db_known db using w" "is_local \<longrightarrow> db_in_atomic db using w"
  shows "set_guc db name value is_local using w =
           py_bind (if is_local then db_execute db using (set_local_sql name) [value]
                    else db_execute db using set_config_sql [name, value]) (\<lambda>_. py_ret ()) w"
  using assms by (auto simp: set_guc_def py_seq_def connections_get_def py_bind_def py_simps)

lemma get_guc_runs:
  assumes "guc_name_ok name" "db_known db using w"
    and "db_execute db using current_setting_sql [name] w = (Inr r, w')"
  shows "get_guc db name using w =
           (Inr (case r of Some (Some v) \<Rightarrow> if v = [] then None else Some v | _ \<Rightarrow> None), w')"
  using assms
  by (auto simp: get_guc_def py_seq_def connections_get_def py_bind_def py_simps Let_def
      split: option.splits)

text \<open>The text sent to the database holds no character but the template's and the name's.\<close>

lemma set_local_sql_chars:
  "guc_name_ok name \<Longrightarrow> c \<in> set (set_local_sql name) \<Longrightarrow> guc_char c \<or> c = CHR '' '' \<or> c = CHR ''%''"
  by (auto simp: set_local_sql_def guc_name_chars) (simp_all add: guc_char_def char_class_defs)

subsection \<open>The documented behaviour of the session variables\<close>

text \<open>
  \<open>ok w\<close>: the connection of alias \<open>u\<close> works in world \<open>w\<close> (it is known, and its
  transaction, if it is in one, is not aborted).  \<open>view w n\<close> is what \<^verbatim>\<open>current_setting(n, true)\<close>
  reads, with the empty string for an unset variable.  \<open>acc n\<close>: the server accepts \<open>n\<close> as
  the name of a custom variable (it wants two parts, \<^verbatim>\<open>rls.x\<close>).  The laws: on a working connection
  that Django has not marked for rollback, the two writes succeed and change exactly the
  variable named, the read succeeds and changes nothing, and none of them moves the flags
  Django keeps; Django's own flag can be set without touching the session.
\<close>

definition guc_write_law ::
  "'w db \<Rightarrow> string \<Rightarrow> ('w \<Rightarrow> bool) \<Rightarrow> ('w \<Rightarrow> string \<Rightarrow> string) \<Rightarrow> string \<Rightarrow> string list \<Rightarrow> string \<Rightarrow> string \<Rightarrow> 'w \<Rightarrow> bool" where
  "guc_write_law db u ok view sql params n v w \<longleftrightarrow>
     (\<exists>r w'. db_execute db u sql params w = (Inr r, w') \<and> ok w' \<and> view w' = (view w)(n := v) \<and>
        db_in_atomic db u w' = db_in_atomic db u w \<and> db_needs_rollback db u w' = db_needs_rollback db u w)"

definition guc_laws ::
  "'w db \<Rightarrow> string \<Rightarrow> ('w \<Rightarrow> bool) \<Rightarrow> (string \<Rightarrow> bool) \<Rightarrow> ('w \<Rightarrow> string \<Rightarrow> string) \<Rightarrow> bool" where
  "guc_laws db u ok acc view \<longleftrightarrow>
     (\<forall>w. ok w \<longrightarrow> db_known db u w) \<and>
     (\<forall>n. acc n \<longrightarrow> guc_name_ok n) \<and>
     (\<forall>w n v. ok w \<and> acc n \<and> \<not> db_needs_rollback db u w \<longrightarrow>
        guc_write_law db u ok view set_config_sql [n, v] n v w \<and>
        (db_in_atomic db u w \<longrightarrow> guc_write_law db u ok view (set_local_sql n) [v] n v w) \<and>
        (\<exists>x. db_execute db u current_setting_sql [n] w = (Inr (Some x), w) \<and>
             (x = Some (view w n) \<or> x = None \<and> view w n = []))) \<and>
     (\<forall>w b. db_needs_rollback db u (db_put_needs_rollback db u b w) = b \<and>
        db_in_atomic db u (db_put_needs_rollback db u b w) = db_in_atomic db u w \<and>
        ok (db_put_needs_rollback db u b w) = ok w \<and>
        view (db_put_needs_rollback db u b w) = view w)"

definition guc_writable :: "'w db \<Rightarrow> string \<Rightarrow> ('w \<Rightarrow> bool) \<Rightarrow> bool \<Rightarrow> 'w \<Rightarrow> bool" where
  "guc_writable db u ok is_local w \<longleftrightarrow>
     ok w \<and> \<not> db_needs_rollback db u w \<and> (is_local \<longrightarrow> db_in_atomic db u w)"

lemma set_guc_law:
  assumes laws: "guc_laws db u ok acc view" and n: "acc n" and w: "guc_writable db u ok is_local w"
  shows "\<exists>w'. set_guc db n v is_local u w = (Inr (), w') \<and> guc_writable db u ok is_local w' \<and>
           view w' = (view w)(n := v) \<and> db_in_atomic db u w' = db_in_atomic db u w"
proof -
  have known: "db_known db u w" and ok: "ok w" "\<not> db_needs_rollback db u w"
    and name: "guc_name_ok n" and atomic: "is_local \<longrightarrow> db_in_atomic db u w"
    using laws n w by (auto simp: guc_laws_def guc_writable_def)
  have "\<exists>r w'. (if is_local then db_execute db u (set_local_sql n) [v]
                else db_execute db u set_config_sql [n, v]) w = (Inr r, w') \<and> ok w' \<and>
          view w' = (view w)(n := v) \<and> db_in_atomic db u w' = db_in_atomic db u w \<and>
          db_needs_rollback db u w' = db_needs_rollback db u w"
    using laws n ok atomic by (cases is_local) (auto simp: guc_laws_def guc_write_law_def)
  then show ?thesis
    using set_guc_runs [OF name known atomic] ok atomic
    by (auto simp: guc_writable_def py_bind_Inr py_ret_def)
qed

lemma get_guc_law:
  assumes laws: "guc_laws db u ok acc view" and n: "acc n"
    and w: "ok w" "\<not> db_needs_rollback db u w"
  shows "get_guc db n u w = (Inr (if view w n = [] then None else Some (view w n)), w)"
proof -
  obtain x where x: "db_execute db u current_setting_sql [n] w = (Inr (Some x), w)"
    "x = Some (view w n) \<or> x = None \<and> view w n = []"
    using laws n w unfolding guc_laws_def by blast
  have "db_known db u w" "guc_name_ok n" using laws n w by (auto simp: guc_laws_def)
  from get_guc_runs [OF this(2,1) x(1)] x(2) show ?thesis by auto
qed

lemma restore_guc_law:
  assumes laws: "guc_laws db u ok acc view" and n: "acc n" and w: "guc_writable db u ok is_local w"
  shows "\<exists>w'. restore_guc db n prev is_local u w = (Inr (), w') \<and> guc_writable db u ok is_local w' \<and>
           view w' = (view w)(n := (case prev of None \<Rightarrow> [] | Some v \<Rightarrow> v)) \<and>
           db_in_atomic db u w' = db_in_atomic db u w"
  using set_guc_law [OF laws n w]
  by (auto simp: restore_guc_def clear_guc_def split: option.splits)

text \<open>What \<^verbatim>\<open>get_guc\<close> reads, \<^verbatim>\<open>restore_guc\<close> puts back: unset and empty are the same value.\<close>

lemma read_value_roundtrip:
  "(case (if v = [] then None else Some v) of None \<Rightarrow> [] | Some x \<Rightarrow> x) = (v :: string)"
  by simp

end
