(* ===== verification/Policy_Sql.thy ===== *)
theory Policy_Sql
  imports Guc
begin

text \<open>
  The SQL expressions of the policies: the validators of \<^verbatim>\<open>rls/constraints.py\<close>, the
  fragments of \<^verbatim>\<open>rls/policy_sql.py\<close> and the raw-SQL helpers of \<^verbatim>\<open>tenants/sql.py\<close>, built as
  the code builds them, as text.  Beside the text stands a small syntax of the same boolean
  expressions with SQL's three-valued meaning (\<open>None\<close> is NULL): \<open>sql_text\<close> prints it, the
  lemmas say that the code's text is what it prints, and what a policy admits is stated of
  the expression.  What PostgreSQL reads (\<^verbatim>\<open>current_setting\<close>, the cast to the key's type, the
  rows of the tables) is the environment \<open>sql_env\<close>, a parameter.
\<close>

subsection \<open>Validators\<close>

fun field_name_ok :: "string \<Rightarrow> bool" where
  "field_name_ok [] = False"
| "field_name_ok (c # cs) = (ident_start c \<and> list_all ident_char cs)"

definition validate_field_name :: "string \<Rightarrow> unit checked" where
  "validate_field_name field = check (field_name_ok field) ValueError"

definition allowed_pk_types :: "string list" where
  "allowed_pk_types = [''int'', ''bigint'', ''uuid'']"

definition validate_pk_type :: "string \<Rightarrow> unit checked" where
  "validate_pk_type t = check (t \<in> set allowed_pk_types) ValueError"

definition validate_guc_name_for_ddl :: "string \<Rightarrow> unit checked" where
  "validate_guc_name_for_ddl name = check (guc_name_ok name) ValueError"

text \<open>
  \<^verbatim>\<open>_MODEL_PATH_RE\<close> ends in \<^verbatim>\<open>$\<close>, not \<^verbatim>\<open>\Z\<close>: it also matches before one trailing newline.
\<close>

definition strip_final_newline :: "string \<Rightarrow> string" where
  "strip_final_newline s = (if s \<noteq> [] \<and> last s = newline then butlast s else s)"

definition model_path_ok :: "string \<Rightarrow> bool" where
  "model_path_ok path =
     (let p = strip_final_newline path; app = takeWhile (\<lambda>c. c \<noteq> CHR ''.'') p;
          rest = dropWhile (\<lambda>c. c \<noteq> CHR ''.'') p
      in field_name_ok app \<and> rest \<noteq> [] \<and> field_name_ok (tl rest))"

definition validate_model_path :: "string \<Rightarrow> unit checked" where
  "validate_model_path path = check (model_path_ok path) ValueError"

lemma validators_Inr [simp]:
  "validate_field_name s = Inr () \<longleftrightarrow> field_name_ok s"
  "validate_pk_type s = Inr () \<longleftrightarrow> s \<in> set allowed_pk_types"
  "validate_guc_name_for_ddl s = Inr () \<longleftrightarrow> guc_name_ok s"
  "validate_model_path s = Inr () \<longleftrightarrow> model_path_ok s"
  by (simp_all add: validate_field_name_def validate_pk_type_def validate_guc_name_for_ddl_def
      validate_model_path_def)

lemma validators_Inl:
  "validate_field_name s = Inl e \<Longrightarrow> e = ValueError"
  "validate_pk_type s = Inl e \<Longrightarrow> e = ValueError"
  "validate_guc_name_for_ddl s = Inl e \<Longrightarrow> e = ValueError"
  "validate_guc_name s = Inl e \<Longrightarrow> e = ValueError"
  "validate_model_path s = Inl e \<Longrightarrow> e = ValueError"
  by (simp_all add: validate_field_name_def validate_pk_type_def validate_guc_name_for_ddl_def
      validate_guc_name_def validate_model_path_def)

text \<open>
  The characters of validated names.  None of them ends a quoted SQL string, a quoted
  identifier or a dollar-quoted body.
\<close>

definition name_char :: "char \<Rightarrow> bool" where
  "name_char c \<longleftrightarrow> guc_char c"

lemma name_char_not_quote [text_simps]:
  "\<not> name_char (CHR 0x27)" "\<not> name_char (CHR 0x22)" "\<not> name_char (CHR ''$'')"
  "\<not> name_char (CHR '';'')" "\<not> name_char (CHR '' '')"
  by (simp_all add: name_char_def guc_char_def char_class_defs)

lemma field_name_name_char: "field_name_ok s \<Longrightarrow> c \<in> set s \<Longrightarrow> name_char c"
  by (cases s) (auto simp: name_char_def guc_char_def ident_char_def list_all_iff)

lemma guc_name_name_char: "guc_name_ok s \<Longrightarrow> c \<in> set s \<Longrightarrow> name_char c"
  by (simp add: guc_name_chars name_char_def)

lemma pk_type_name_char: "t \<in> set allowed_pk_types \<Longrightarrow> c \<in> set t \<Longrightarrow> name_char c"
  by (auto simp: allowed_pk_types_def name_char_def guc_char_def char_class_defs)

subsection \<open>Fragments\<close>

definition scalar_setting :: "string \<Rightarrow> string" where
  "scalar_setting guc_var = ''(SELECT current_setting('' @ sq guc_var @ '', true))''"

definition tenant_value_sql :: "string \<Rightarrow> string \<Rightarrow> string" where
  "tenant_value_sql guc_tenant_var tenant_pk_type =
     ''nullif('' @ scalar_setting guc_tenant_var @ '', '' @ sq [] @ '')::'' @ tenant_pk_type"

definition tenant_match_sql :: "string \<Rightarrow> string \<Rightarrow> string \<Rightarrow> string" where
  "tenant_match_sql column guc_tenant_var tenant_pk_type =
     column @ '' = '' @ tenant_value_sql guc_tenant_var tenant_pk_type"

definition bool_flag_sql :: "string \<Rightarrow> string" where
  "bool_flag_sql guc_var = scalar_setting guc_var @ '' = '' @ sq ''true''"

subsection \<open>Raw-SQL helpers\<close>

definition validated_tenant_guc_and_pk_type :: "string \<Rightarrow> string \<Rightarrow> (string \<times> string) checked" where
  "validated_tenant_guc_and_pk_type guc_tenant pk_type =
     ck_bind (validate_guc_name guc_tenant) (\<lambda>_.
     ck_bind (validate_pk_type pk_type) (\<lambda>_. Inr (guc_tenant, pk_type)))"

text \<open>
  \<^verbatim>\<open>safe_tenant_sql\<close>; the configured names \<^verbatim>\<open>GUC_CURRENT_TENANT\<close>, \<^verbatim>\<open>GUC_IS_ADMIN\<close> and
  \<^verbatim>\<open>TENANT_PK_TYPE\<close> come first.
\<close>

definition safe_tenant_sql ::
  "string \<Rightarrow> string \<Rightarrow> string \<Rightarrow> string \<Rightarrow> string option \<Rightarrow> bool \<Rightarrow> string list \<Rightarrow> string checked" where
  "safe_tenant_sql conf_guc_tenant conf_guc_admin conf_pk_type column table include_admin extra_bypass_flags =
     ck_bind (validated_tenant_guc_and_pk_type conf_guc_tenant conf_pk_type) (\<lambda>(guc_tenant, pk_type).
     ck_bind (validate_field_name column) (\<lambda>_.
     ck_bind (case table of
         None \<Rightarrow> Inr column
       | Some t \<Rightarrow> ck_bind (validate_field_name t) (\<lambda>_. Inr (dq t @ ''.'' @ column)))
     (\<lambda>col.
       let predicate = tenant_match_sql col guc_tenant pk_type in
       if \<not> include_admin then Inr predicate
       else
         ck_bind (validate_guc_name conf_guc_admin) (\<lambda>_.
         ck_bind (map_checked (\<lambda>flag. ck_bind (validate_guc_name flag) (\<lambda>_. Inr (bool_flag_sql flag)))
             extra_bypass_flags) (\<lambda>flags.
           let bypass_clause = py_join '' OR '' (bool_flag_sql conf_guc_admin # flags)
           in Inr (''('' @ predicate @ '' OR '' @ bypass_clause @ '')''))))))"

definition current_tenant_value_sql :: "string \<Rightarrow> string \<Rightarrow> string checked" where
  "current_tenant_value_sql conf_guc_tenant conf_pk_type =
     ck_bind (validated_tenant_guc_and_pk_type conf_guc_tenant conf_pk_type) (\<lambda>(guc_tenant, pk_type).
       Inr (tenant_value_sql guc_tenant pk_type))"

subsection \<open>The expressions and their meaning\<close>

datatype sqlx =
    Flag string
  | TenantEq string string string
  | AnyOf string "sqlx list"
  | AllOf string "sqlx list"
  | CaseElse sqlx string sqlx string
  | RowOfTenant string string string string string
  | SharedRow string string string string string string string
  | Paren sqlx
  | Opaque string

text \<open>
  \<open>Flag g\<close> is \<^verbatim>\<open>g = 'true'\<close>; \<open>TenantEq column guc type\<close> the tenant equality; \<open>AnyOf sep xs\<close>
  and \<open>AllOf sep xs\<close> a chain of OR and AND, with the separator as written;
  \<open>CaseElse c ws e we\<close> is \<^verbatim>\<open>CASE WHEN c THEN true ELSE e END\<close> with its white space;
  \<open>RowOfTenant table fk tenant_fk guc type\<close> the EXISTS subquery of the join-table policies;
  \<open>SharedRow through fk table target tenant guc type\<close> the EXISTS subquery of the sharing
  policies, on the columns of the through table aliased \<^verbatim>\<open>"rls_shared"\<close>;
  \<open>Opaque t\<close> any other expression, by its text.
\<close>

text \<open>The alias of the through table (\<^verbatim>\<open>_THROUGH_ALIAS\<close> of \<^verbatim>\<open>rls/predicates.py\<close>).\<close>

definition through_alias :: string where
  "through_alias = dq ''rls_shared''"

fun sql_text :: "sqlx \<Rightarrow> string" where
  "sql_text (Flag g) = bool_flag_sql g"
| "sql_text (TenantEq column guc ty) = tenant_match_sql column guc ty"
| "sql_text (AnyOf sep xs) = py_join sep (map sql_text xs)"
| "sql_text (AllOf sep xs) = py_join sep (map sql_text xs)"
| "sql_text (CaseElse c ws e we) =
     ''CASE WHEN '' @ sql_text c @ ws @ ''THEN true'' @ ws @ ''ELSE '' @ sql_text e @ we @ ''END''"
| "sql_text (RowOfTenant table fk tenant_fk guc ty) =
     ''EXISTS (SELECT 1 FROM '' @ dq table @ '' WHERE id = '' @ fk @ '' AND '' @ tenant_fk @
     ''_id = '' @ tenant_value_sql guc ty @ '')''"
| "sql_text (SharedRow through fk table target tenant guc ty) =
     ''EXISTS (SELECT 1 FROM '' @ dq through @ '' AS '' @ through_alias @ '' WHERE '' @
     through_alias @ ''.'' @ dq fk @ '' = '' @ dq table @ ''.'' @ dq target @ '' AND '' @
     through_alias @ ''.'' @ dq tenant @ '' = '' @ tenant_value_sql guc ty @ '')''"
| "sql_text (Paren x) = ''('' @ sql_text x @ '')''"
| "sql_text (Opaque t) = t"

text \<open>
  The environment of one row: \<open>e_setting g\<close> is \<^verbatim>\<open>current_setting(g, true)\<close>, \<open>e_cast ty v\<close> the value
  of the text \<open>v\<close> as a key of type \<open>ty\<close>, \<open>e_cell c\<close> the row's value of the column reference
  \<open>c\<close> (\<open>None\<close> is NULL), \<open>e_rows table\<close> the keys and columns of the rows of a table that the
  policy's subquery sees, and \<open>e_opaque\<close> the value of an expression the developer wrote.
\<close>

record 'v sql_env =
  e_setting :: "string \<Rightarrow> string option"
  e_cast :: "string \<Rightarrow> string \<Rightarrow> 'v"
  e_cell :: "string \<Rightarrow> 'v option"
  e_rows :: "string \<Rightarrow> ('v \<times> (string \<Rightarrow> 'v option)) list"
  e_opaque :: "string \<Rightarrow> bool option"

text \<open>\<^verbatim>\<open>nullif(current_setting(guc, true), '')::ty\<close>.\<close>

definition tenant_reading :: "('v, 'z) sql_env_scheme \<Rightarrow> string \<Rightarrow> string \<Rightarrow> 'v option" where
  "tenant_reading env guc ty =
     (case e_setting env guc of None \<Rightarrow> None | Some v \<Rightarrow> if v = [] then None else Some (e_cast env ty v))"

definition eq3 :: "'v option \<Rightarrow> 'v option \<Rightarrow> bool option" where
  "eq3 x y = (case (x, y) of (Some a, Some b) \<Rightarrow> Some (a = b) | _ \<Rightarrow> None)"

definition or3 :: "bool option \<Rightarrow> bool option \<Rightarrow> bool option" where
  "or3 x y = (if x = Some True \<or> y = Some True then Some True
              else if x = Some False \<and> y = Some False then Some False else None)"

definition and3 :: "bool option \<Rightarrow> bool option \<Rightarrow> bool option" where
  "and3 x y = (if x = Some False \<or> y = Some False then Some False
               else if x = Some True \<and> y = Some True then Some True else None)"

fun sql_eval :: "('v, 'z) sql_env_scheme \<Rightarrow> sqlx \<Rightarrow> bool option" where
  "sql_eval env (Flag g) = eq3 (e_setting env g) (Some ''true'')"
| "sql_eval env (TenantEq c guc ty) = eq3 (e_cell env c) (tenant_reading env guc ty)"
| "sql_eval env (AnyOf sep xs) = foldr or3 (map (sql_eval env) xs) (Some False)"
| "sql_eval env (AllOf sep xs) = foldr and3 (map (sql_eval env) xs) (Some True)"
| "sql_eval env (CaseElse c ws e we) = (if sql_eval env c = Some True then Some True else sql_eval env e)"
| "sql_eval env (RowOfTenant table fk tenant_fk guc ty) =
     Some (\<exists>(pk, cols) \<in> set (e_rows env table).
       eq3 (Some pk) (e_cell env fk) = Some True \<and>
       eq3 (cols (tenant_fk @ ''_id'')) (tenant_reading env guc ty) = Some True)"
| "sql_eval env (SharedRow through fk table target tenant guc ty) =
     Some (\<exists>(pk, cols) \<in> set (e_rows env through).
       eq3 (cols fk) (e_cell env (dq table @ ''.'' @ dq target)) = Some True \<and>
       eq3 (cols tenant) (tenant_reading env guc ty) = Some True)"
| "sql_eval env (Paren x) = sql_eval env x"
| "sql_eval env (Opaque t) = e_opaque env t"

text \<open>A row passes a policy's expression when it is true: NULL refuses it as false does.\<close>

definition admits :: "('v, 'z) sql_env_scheme \<Rightarrow> sqlx \<Rightarrow> bool" where
  "admits env x \<longleftrightarrow> sql_eval env x = Some True"

definition flag_set :: "('v, 'z) sql_env_scheme \<Rightarrow> string \<Rightarrow> bool" where
  "flag_set env g \<longleftrightarrow> e_setting env g = Some ''true''"

definition in_tenant :: "('v, 'z) sql_env_scheme \<Rightarrow> string \<Rightarrow> string \<Rightarrow> string \<Rightarrow> bool" where
  "in_tenant env c guc ty \<longleftrightarrow> (\<exists>t. tenant_reading env guc ty = Some t \<and> e_cell env c = Some t)"

lemma eq3_True [simp]: "eq3 x y = Some True \<longleftrightarrow> (\<exists>a. x = Some a \<and> y = Some a)"
  by (auto simp: eq3_def split: option.splits)

lemma or3_True [simp]: "or3 x y = Some True \<longleftrightarrow> x = Some True \<or> y = Some True"
  by (auto simp: or3_def)

lemma and3_True [simp]: "and3 x y = Some True \<longleftrightarrow> x = Some True \<and> y = Some True"
  by (auto simp: and3_def)

lemma admits_AnyOf [simp]: "admits env (AnyOf sep xs) \<longleftrightarrow> (\<exists>x\<in>set xs. admits env x)"
proof -
  have "foldr or3 (map (sql_eval env) xs) (Some False) = Some True \<longleftrightarrow> (\<exists>x\<in>set xs. admits env x)"
    by (induction xs) (auto simp: admits_def)
  then show ?thesis by (simp add: admits_def)
qed

lemma admits_AllOf [simp]: "admits env (AllOf sep xs) \<longleftrightarrow> (\<forall>x\<in>set xs. admits env x)"
proof -
  have "foldr and3 (map (sql_eval env) xs) (Some True) = Some True \<longleftrightarrow> (\<forall>x\<in>set xs. admits env x)"
    by (induction xs) (auto simp: admits_def)
  then show ?thesis by (simp add: admits_def)
qed

lemma admits_simps [simp]:
  "admits env (Flag g) \<longleftrightarrow> flag_set env g"
  "admits env (TenantEq c guc ty) \<longleftrightarrow> in_tenant env c guc ty"
  "admits env (CaseElse cnd ws e we) \<longleftrightarrow> admits env cnd \<or> admits env e"
  "admits env (Paren x) \<longleftrightarrow> admits env x"
  by (auto simp: admits_def flag_set_def in_tenant_def)

lemma in_tenant_unset: "e_setting env guc = None \<or> e_setting env guc = Some [] \<Longrightarrow> \<not> in_tenant env c guc ty"
  by (auto simp: in_tenant_def tenant_reading_def)

text \<open>The expression \<^verbatim>\<open>safe_tenant_sql\<close> prints.\<close>

definition safe_tenant_expr ::
  "string \<Rightarrow> string \<Rightarrow> string \<Rightarrow> string \<Rightarrow> string option \<Rightarrow> bool \<Rightarrow> string list \<Rightarrow> sqlx" where
  "safe_tenant_expr guc_tenant guc_admin pk_type column table include_admin flags =
     (let col = (case table of None \<Rightarrow> column | Some t \<Rightarrow> dq t @ ''.'' @ column);
          match = TenantEq col guc_tenant pk_type
      in if include_admin then Paren (AnyOf '' OR '' (match # Flag guc_admin # map Flag flags)) else match)"

lemma map_checked_flags:
  "map_checked (\<lambda>flag. ck_bind (validate_guc_name flag) (\<lambda>_. Inr (bool_flag_sql flag))) flags =
     (if list_all guc_name_ok flags then Inr (map bool_flag_sql flags) else Inl ValueError)"
  by (induction flags) (auto simp: validate_guc_name_def check_def)

lemma sql_text_flags: "map (sql_text \<circ> Flag) flags = map bool_flag_sql flags"
  by simp

definition safe_args_ok ::
  "string \<Rightarrow> string \<Rightarrow> string \<Rightarrow> string \<Rightarrow> string option \<Rightarrow> bool \<Rightarrow> string list \<Rightarrow> bool" where
  "safe_args_ok guc_tenant guc_admin pk_type column table include_admin flags \<longleftrightarrow>
     guc_name_ok guc_tenant \<and> pk_type \<in> set allowed_pk_types \<and> field_name_ok column \<and>
     (case table of None \<Rightarrow> True | Some t \<Rightarrow> field_name_ok t) \<and>
     (include_admin \<longrightarrow> guc_name_ok guc_admin \<and> list_all guc_name_ok flags)"

lemma safe_tenant_sql_eq:
  "safe_tenant_sql guc_tenant guc_admin pk_type column table include_admin flags =
     (if safe_args_ok guc_tenant guc_admin pk_type column table include_admin flags
      then Inr (sql_text (safe_tenant_expr guc_tenant guc_admin pk_type column table include_admin flags))
      else Inl ValueError)"
proof -
  let ?col = "case table of None \<Rightarrow> column | Some t \<Rightarrow> dq t @ ''.'' @ column"
  have *: "(case table of None \<Rightarrow> Inr column
       | Some t \<Rightarrow> ck_bind (validate_field_name t) (\<lambda>_. Inr (dq t @ ''.'' @ column))) =
     (if (case table of None \<Rightarrow> True | Some t \<Rightarrow> field_name_ok t) then Inr ?col else Inl ValueError)"
    by (auto simp: validate_field_name_def check_def split: option.splits)
  show ?thesis
    unfolding safe_tenant_sql_def * map_checked_flags
    by (simp add: safe_args_ok_def safe_tenant_expr_def validated_tenant_guc_and_pk_type_def
        validate_guc_name_def validate_field_name_def validate_pk_type_def check_def Let_def sql_text_flags)
qed

subsection \<open>Raw-SQL helpers: what they refuse and what they admit\<close>

text \<open>
  The raw-SQL filter agrees with the live policy: for valid names, what
  \<^verbatim>\<open>safe_tenant_sql\<close> returns is the text of an expression that admits a row exactly when the
  admin flag or one of the extra flags is on, or the row's column holds the current tenant;
  with \<^verbatim>\<open>include_admin=False\<close> only the last counts.  An invalid name raises \<^verbatim>\<open>ValueError\<close>.
\<close>

theorem safe_tenant_sql_admits:
  "\<exists>x. safe_tenant_sql guc_tenant guc_admin pk_type col table include_admin flags =
       (if safe_args_ok guc_tenant guc_admin pk_type col table include_admin flags
        then Inr (sql_text x) else Inl ValueError) \<and>
     (\<forall>env :: ('v, 'z) sql_env_scheme. admits env x =
       (in_tenant env (case table of None \<Rightarrow> col | Some t \<Rightarrow> dq t @ ''.'' @ col) guc_tenant pk_type \<or>
        (include_admin \<and> (\<exists>g \<in> set (guc_admin # flags). flag_set env g))))"
  by (rule exI [of _ "safe_tenant_expr guc_tenant guc_admin pk_type col table include_admin flags"])
    (auto simp: safe_tenant_sql_eq safe_tenant_expr_def Let_def)

text \<open>The quotes in a fragment: those of the template and no other.\<close>

definition quotes :: "string \<Rightarrow> nat" where
  "quotes s = length (filter (\<lambda>c. c = CHR 0x27) s)"

lemma quotes_simps [simp]:
  "quotes [] = 0" "quotes (s @ t) = quotes s + quotes t"
  "quotes (c # s) = (if c = CHR 0x27 then Suc (quotes s) else quotes s)"
  by (simp_all add: quotes_def)

lemma quotes_name: "(\<And>c. c \<in> set s \<Longrightarrow> name_char c) \<Longrightarrow> quotes s = 0"
proof -
  assume names: "\<And>c. c \<in> set s \<Longrightarrow> name_char c"
  have "filter (\<lambda>c. c = CHR 0x27) s = []"
  proof (rule filter_False, rule ballI, rule notI)
    fix c assume "c \<in> set s" "c = CHR 0x27"
    with names have "name_char (CHR 0x27)" by blast
    then show False by (simp only: name_char_not_quote not_False_eq_True)
  qed
  then show ?thesis by (simp only: quotes_def list.size)
qed

lemma quotes_field [simp]: "field_name_ok s \<Longrightarrow> quotes s = 0"
  by (rule quotes_name) (rule field_name_name_char)

lemma quotes_guc [simp]: "guc_name_ok s \<Longrightarrow> quotes s = 0"
  by (rule quotes_name) (rule guc_name_name_char)

lemma quotes_pk_type [simp]: "t \<in> set allowed_pk_types \<Longrightarrow> quotes t = 0"
  by (rule quotes_name) (rule pk_type_name_char)

lemma quotes_dq [simp]: "quotes (dq s) = quotes s"
  by (simp add: dq_def)

lemma quotes_sq [simp]: "quotes (sq s) = quotes s + 2"
  by (simp add: sq_def)

lemma quotes_scalar: "guc_name_ok g \<Longrightarrow> quotes (scalar_setting g) = 2"
  by (simp add: scalar_setting_def)

lemma quotes_tenant_match:
  "guc_name_ok g \<Longrightarrow> ty \<in> set allowed_pk_types \<Longrightarrow> quotes col = 0 \<Longrightarrow> quotes (tenant_match_sql col g ty) = 4"
  by (simp add: tenant_match_sql_def tenant_value_sql_def quotes_scalar)

lemma quotes_flag: "guc_name_ok g \<Longrightarrow> quotes (bool_flag_sql g) = 4"
  by (simp add: bool_flag_sql_def quotes_scalar)

lemma quotes_flags_join:
  "list_all guc_name_ok gs \<Longrightarrow> quotes sep = 0 \<Longrightarrow> quotes (py_join sep (map bool_flag_sql gs)) = 4 * length gs"
proof (induction gs rule: induct_list012)
  case (3 x y zs)
  then show ?case by (simp add: quotes_flag)
qed (auto simp: quotes_flag)

text \<open>
  No name can break out of the raw-SQL fragment: whatever text \<^verbatim>\<open>safe_tenant_sql\<close> returns
  holds exactly the four single quotes of the tenant match and, with \<^verbatim>\<open>include_admin\<close>, four
  for each bypass flag, all written by the template.
\<close>

theorem safe_tenant_sql_quotes:
  assumes "safe_tenant_sql guc_tenant guc_admin pk_type col table include_admin flags = Inr sql"
  shows "quotes sql = (if include_admin then 8 + 4 * length flags else 4)"
proof -
  let ?col = "case table of None \<Rightarrow> col | Some t \<Rightarrow> dq t @ ''.'' @ col"
  from assms have ok: "safe_args_ok guc_tenant guc_admin pk_type col table include_admin flags"
    and sql: "sql = sql_text (safe_tenant_expr guc_tenant guc_admin pk_type col table include_admin flags)"
    by (auto simp: safe_tenant_sql_eq split: if_splits)
  have "quotes col = 0" using ok by (simp add: safe_args_ok_def)
  then have col: "quotes ?col = 0"
    using ok by (auto simp: safe_args_ok_def split: option.splits)
  from ok have g: "guc_name_ok guc_tenant" "pk_type \<in> set allowed_pk_types"
    by (simp_all add: safe_args_ok_def)
  note match = quotes_tenant_match [OF g col]
  show ?thesis
  proof (cases include_admin)
    case True
    then have fl: "list_all guc_name_ok (guc_admin # flags)" using ok by (simp add: safe_args_ok_def)
    show ?thesis using match True quotes_flags_join [OF fl, of "'' OR ''"]
      by (simp add: sql safe_tenant_expr_def Let_def sql_text_flags)
  next
    case False
    then show ?thesis using match by (simp add: sql safe_tenant_expr_def Let_def)
  qed
qed

definition sample_safe :: "string checked" where
  "sample_safe = safe_tenant_sql ''rls.current_tenant'' ''rls.is_admin'' ''int'' ''tenant_id''
     (Some ''orders'') True [''rls.is_login'']"

lemma sample_safe_ok: "\<exists>t. sample_safe = Inr t"
  unfolding sample_safe_def safe_tenant_sql_eq
  by (simp add: safe_args_ok_def guc_char_def char_class_defs allowed_pk_types_def)

lemma safe_tenant_sql_quotes_witness: "\<exists>t. sample_safe = Inr t \<and> quotes t = 12"
proof -
  obtain t where t: "sample_safe = Inr t" using sample_safe_ok by blast
  from safe_tenant_sql_quotes [OF t [unfolded sample_safe_def]] have "quotes t = 12" by simp
  with t show ?thesis by blast
qed

end
