(* ===== verification/Predicates.thy ===== *)
theory Predicates
  imports Policy_Sql
begin

text \<open>
  \<^verbatim>\<open>rls/predicates.py\<close>: the extra predicates of a sharing policy.  What the code reads of
  Django's model registry (labels, tables, fields, \<^verbatim>\<open>apps.get_model\<close>) is data of the model.
\<close>

subsection \<open>The models\<close>

text \<open>
  \<open>fk_related\<close> is the lower-case label of the concrete model a foreign key points at, \<open>None\<close>
  when its target is not a model class (a string not resolved yet).
\<close>

record fk_meta =
  fk_column :: string
  fk_related :: "string option"
  fk_target_column :: string

datatype field_meta = ForeignKey fk_meta | OtherField string

record model_meta =
  m_label :: string
  m_label_lower :: string
  m_table :: string
  m_fields :: "(string \<times> field_meta) list"

text \<open>\<^verbatim>\<open>apps.get_model(path)\<close>, \<open>None\<close> for \<^verbatim>\<open>LookupError\<close>.\<close>

type_synonym registry = "string \<Rightarrow> model_meta option"

subsection \<open>Quoting and look-ups\<close>

definition unsafe_identifier_chars :: string where
  "unsafe_identifier_chars = [CHR 0x22, CHR 0x27, CHR 0x5C, CHR ''$'', CHR 0x00]"

definition quoted :: "string \<Rightarrow> string checked" where
  "quoted name =
     (if \<exists>c \<in> set unsafe_identifier_chars. c \<in> set name then Inl ValueError else Inr (dq name))"

definition foreign_key :: "model_meta \<Rightarrow> string \<Rightarrow> fk_meta checked" where
  "foreign_key model name =
     (case map_of (m_fields model) name of
        None \<Rightarrow> Inl ValueError
      | Some (OtherField _) \<Rightarrow> Inl ValueError
      | Some (ForeignKey f) \<Rightarrow> Inr f)"

subsection \<open>The predicates\<close>

text \<open>The values \<^verbatim>\<open>_key()\<close> returns are a constructor's arguments, so equality is equality of terms.\<close>

datatype predicate =
    SharedWith string string string
  | TenantField string
  | RawPredicate string

definition shared_with_init :: "string \<Rightarrow> string \<Rightarrow> string \<Rightarrow> predicate checked" where
  "shared_with_init through fk tenant_fk =
     ck_bind (validate_model_path through) (\<lambda>_.
     ck_bind (validate_field_name fk) (\<lambda>_.
     ck_bind (validate_field_name tenant_fk) (\<lambda>_.
       Inr (SharedWith through fk tenant_fk))))"

definition tenant_field_init :: "string \<Rightarrow> predicate checked" where
  "tenant_field_init field = ck_bind (validate_field_name field) (\<lambda>_. Inr (TenantField field))"

definition unsafe_raw_sql :: "string list" where
  "unsafe_raw_sql = ['';'', ''--'', ''/*'', ''$'', [CHR 0x00]]"

definition raw_predicate_init :: "string \<Rightarrow> predicate checked" where
  "raw_predicate_init sql =
     (if list_all is_space sql then Inl ValueError
      else if \<exists>t \<in> set unsafe_raw_sql. contains t sql then Inl ValueError
      else Inr (RawPredicate sql))"

definition shared_with_sql :: "registry \<Rightarrow> model_meta \<Rightarrow> string \<Rightarrow> string \<Rightarrow> string \<Rightarrow> string \<Rightarrow> string checked" where
  "shared_with_sql apps model tenant_value through_path fk_name tenant_fk_name =
     (case apps through_path of
        None \<Rightarrow> Inl ValueError
      | Some through \<Rightarrow>
          ck_bind (foreign_key through fk_name) (\<lambda>fk.
          if fk_related fk \<noteq> Some (m_label_lower model) then Inl ValueError
          else
            ck_bind (foreign_key through tenant_fk_name) (\<lambda>tenant_fk.
            ck_bind (quoted (m_table through)) (\<lambda>through_table.
            ck_bind (quoted (m_table model)) (\<lambda>table.
            ck_bind (quoted (fk_column fk)) (\<lambda>fk_col.
            ck_bind (quoted (fk_target_column fk)) (\<lambda>target_column.
            ck_bind (quoted (fk_column tenant_fk)) (\<lambda>tenant_column.
              Inr (''EXISTS (SELECT 1 FROM '' @ through_table @ '' AS '' @ through_alias @ '' '' @
                   ''WHERE '' @ through_alias @ ''.'' @ fk_col @ '' = '' @ table @ ''.'' @ target_column @ '' '' @
                   ''AND '' @ through_alias @ ''.'' @ tenant_column @ '' = '' @ tenant_value @ '')'')))))))))"

definition tenant_field_sql :: "model_meta \<Rightarrow> string \<Rightarrow> string \<Rightarrow> string checked" where
  "tenant_field_sql model tenant_value field_name =
     ck_bind (foreign_key model field_name) (\<lambda>field.
     ck_bind (quoted (m_table model)) (\<lambda>table.
     ck_bind (quoted (fk_column field)) (\<lambda>col.
       Inr (table @ ''.'' @ col @ '' = '' @ tenant_value))))"

definition raw_predicate_sql :: "string \<Rightarrow> string" where
  "raw_predicate_sql sql = ''('' @ replace_char (CHR ''%'') ''%%'' sql @ '')''"

fun policy_sql :: "registry \<Rightarrow> model_meta \<Rightarrow> string \<Rightarrow> predicate \<Rightarrow> string checked" where
  "policy_sql apps model tenant_value (SharedWith through fk tenant_fk) =
     shared_with_sql apps model tenant_value through fk tenant_fk"
| "policy_sql apps model tenant_value (TenantField field) = tenant_field_sql model tenant_value field"
| "policy_sql apps model tenant_value (RawPredicate sql) = Inr (raw_predicate_sql sql)"

definition predicates_sql ::
  "registry \<Rightarrow> model_meta \<Rightarrow> string \<Rightarrow> predicate list \<Rightarrow> string list checked" where
  "predicates_sql apps model tenant_value predicates =
     map_checked (policy_sql apps model tenant_value) predicates"

text \<open>An item of \<^verbatim>\<open>extra_predicates\<close> may be any Python object; \<^verbatim>\<open>None\<close> for the list is the empty list.\<close>

datatype predicate_arg = APredicate predicate | NotAPredicate

definition validated_predicates :: "predicate_arg list option \<Rightarrow> predicate list checked" where
  "validated_predicates predicates =
     map_checked (\<lambda>a. case a of APredicate p \<Rightarrow> Inr p | NotAPredicate \<Rightarrow> Inl TypeError)
       (case predicates of None \<Rightarrow> [] | Some ps \<Rightarrow> ps)"

subsection \<open>The expressions the predicates print\<close>

fun predicate_expr :: "registry \<Rightarrow> model_meta \<Rightarrow> string \<Rightarrow> string \<Rightarrow> predicate \<Rightarrow> sqlx option" where
  "predicate_expr apps model guc ty (SharedWith through fk tenant_fk) =
     (case apps through of
        None \<Rightarrow> None
      | Some t \<Rightarrow>
          (case (foreign_key t fk, foreign_key t tenant_fk) of
             (Inr f, Inr g) \<Rightarrow>
               Some (SharedRow (m_table t) (fk_column f) (m_table model) (fk_target_column f)
                 (fk_column g) guc ty)
           | _ \<Rightarrow> None))"
| "predicate_expr apps model guc ty (TenantField field) =
     (case foreign_key model field of
        Inl _ \<Rightarrow> None
      | Inr f \<Rightarrow> Some (TenantEq (dq (m_table model) @ ''.'' @ dq (fk_column f)) guc ty))"
| "predicate_expr apps model guc ty (RawPredicate sql) =
     Some (Opaque (raw_predicate_sql sql))"

lemma quoted_Inr [simp]:
  "quoted name = Inr q \<longleftrightarrow> q = dq name \<and> (\<forall>c \<in> set unsafe_identifier_chars. c \<notin> set name)"
  by (auto simp: quoted_def)

lemma policy_sql_prints:
  assumes "policy_sql apps model (tenant_value_sql guc ty) p = Inr sql"
  shows "\<exists>x. predicate_expr apps model guc ty p = Some x \<and> sql = sql_text x"
proof (cases p)
  case (SharedWith through fk tenant_fk)
  with assms show ?thesis
    by (auto simp: shared_with_sql_def split: option.splits if_splits)
next
  case (TenantField field)
  with assms show ?thesis
    by (auto simp: tenant_field_sql_def tenant_match_sql_def)
next
  case (RawPredicate s)
  with assms show ?thesis by simp
qed

text \<open>A predicate the library builds compares with the current tenant, so it admits nothing without one.\<close>

lemma predicate_expr_needs_tenant:
  assumes "predicate_expr apps model guc ty p = Some x" and "tenant_reading env guc ty = None"
    and "\<And>s. p \<noteq> RawPredicate s"
  shows "\<not> admits env x"
  using assms
  by (cases p) (auto simp: admits_def eq3_def split: option.splits sum.splits prod.splits)

subsection \<open>What the built text cannot hold\<close>

lemma contains_set: "c \<in> set s \<longleftrightarrow> contains [c] s"
  by (auto simp: contains_iff in_set_conv_decomp)

lemma raw_predicate_init_Inr:
  "raw_predicate_init sql = Inr p \<longleftrightarrow>
     p = RawPredicate sql \<and> \<not> list_all is_space sql \<and> (\<forall>t \<in> set unsafe_raw_sql. \<not> contains t sql)"
  by (auto simp: raw_predicate_init_def)

text \<open>Every percent sign is doubled, so the schema editor's composition gives back the text written.\<close>

fun undouble :: "string \<Rightarrow> string" where
  "undouble (x # y # zs) = (if x = CHR ''%'' \<and> y = CHR ''%'' then x # undouble zs else x # undouble (y # zs))"
| "undouble s = s"

lemma replace_char_set: "set (replace_char c t s) \<subseteq> set s \<union> set t"
  by (induction s) auto

lemma undouble_replace: "undouble (replace_char (CHR ''%'') ''%%'' s) = s"
proof (induction s)
  case (Cons x xs)
  show ?case
  proof (cases "x = CHR ''%''")
    case True
    with Cons show ?thesis by simp
  next
    case False
    show ?thesis
    proof (cases "replace_char (CHR ''%'') ''%%'' xs")
      case Nil
      then have "xs = []" by (cases xs) (auto split: if_splits)
      with False show ?thesis by simp
    next
      case (Cons y ys)
      with False Cons.IH show ?thesis by (simp del: undouble.simps(2))
    qed
  qed
qed simp

lemma contains_pair_replace:
  assumes "a \<noteq> CHR ''%''" "b \<noteq> CHR ''%''"
  shows "contains [a, b] (replace_char (CHR ''%'') ''%%'' s) \<longleftrightarrow> contains [a, b] s"
proof (induction s)
  case (Cons x xs)
  show ?case
  proof (cases xs)
    case Nil
    then show ?thesis using assms by auto
  next
    case (Cons y ys)
    with Cons.IH assms show ?thesis by auto
  qed
qed simp

lemma contains_one_replace:
  "a \<noteq> CHR ''%'' \<Longrightarrow> contains [a] (replace_char (CHR ''%'') ''%%'' s) \<longleftrightarrow> contains [a] s"
  by (induction s) auto

lemma contains_paren:
  assumes "t \<noteq> []" "CHR ''('' \<notin> set t" "CHR '')'' \<notin> set t"
  shows "contains t (''('' @ s @ '')'') \<longleftrightarrow> contains t s"
proof -
  have "contains t (s @ '')'') \<longleftrightarrow> contains t s"
  proof
    assume "contains t (s @ '')'')"
    then obtain u v where uv: "s @ '')'' = u @ t @ v" by (auto simp: contains_iff)
    have "v \<noteq> []"
    proof
      assume "v = []"
      with uv assms(1) have "last t = CHR '')''" by (metis append_Nil2 last_appendR last_snoc)
      with assms show False using last_in_set [of t] by simp
    qed
    then obtain v' c where "v = v' @ [c]" by (metis rev_exhaust)
    with uv have "s = u @ t @ v'" by simp
    then show "contains t s" by (auto simp: contains_iff)
  next
    assume "contains t s"
    then obtain u v where "s = u @ t @ v" by (auto simp: contains_iff)
    then have "s @ '')'' = u @ t @ (v @ '')'')" by simp
    then show "contains t (s @ '')'')" unfolding contains_iff by blast
  qed
  moreover have "take (length t) (CHR ''('' # r) \<noteq> t" for r
    using assms by (cases t) auto
  ultimately show ?thesis by simp
qed


definition empty_registry :: registry where
  "empty_registry = (\<lambda>_. None)"

definition sample_model :: model_meta where
  "sample_model = \<lparr>m_label = ''app.Order'', m_label_lower = ''app.order'', m_table = ''orders'',
     m_fields = [(''partner'', ForeignKey \<lparr>fk_column = ''partner_id'',
        fk_related = Some ''app.tenant'', fk_target_column = ''id''\<rparr>)]\<rparr>"


end
