(* ===== verification/Constraints.thy ===== *)
theory Constraints
  imports Predicates
begin

text \<open>
  \<^verbatim>\<open>rls/constraints.py\<close>: the constraints that write the policies during migrations.  The SQL
  is built as text, as in the code; the boolean expressions inside it are those of
  \<open>Policy_Sql\<close>, so what a policy lets through is stated of its text.  A \<^verbatim>\<open>Statement\<close> is a
  value that is rendered later, with the registry of that moment.
\<close>

subsection \<open>The tenant policy\<close>

definition isolation_policy_name :: "string \<Rightarrow> string" where
  "isolation_policy_name table = table @ ''_tenant_isolation_policy''"

definition sharing_policy_name :: "string \<Rightarrow> string" where
  "sharing_policy_name table = table @ ''_tenant_sharing_policy''"

definition spaces :: "nat \<Rightarrow> string" where
  "spaces n = replicate n (CHR '' '')"

text \<open>
  \<^verbatim>\<open>DO $$ BEGIN IF NOT EXISTS (policy of that name) THEN EXECUTE $BODY$ ... $BODY$; END IF; END $$;\<close>,
  the frame every policy is created in; \<open>body\<close> is the indented statement text.
\<close>

definition policy_frame :: "string \<Rightarrow> string \<Rightarrow> string list \<Rightarrow> string" where
  "policy_frame policy_name table body =
     text_block (
       [[],
        spaces 16 @ ''DO $$'',
        spaces 16 @ ''BEGIN'',
        spaces 20 @ ''IF NOT EXISTS ('',
        spaces 24 @ ''SELECT 1 FROM pg_policies'',
        spaces 24 @ ''WHERE policyname = '' @ sq policy_name,
        spaces 24 @ ''AND tablename = '' @ sq table,
        spaces 24 @ ''AND schemaname = current_schema()'',
        spaces 20 @ '') THEN'',
        spaces 24 @ ''EXECUTE $BODY$''] @ body @
       [spaces 24 @ ''$BODY$;'',
        spaces 20 @ ''END IF;'',
        spaces 16 @ ''END'',
        spaces 16 @ ''$$;'',
        spaces 12])"

text \<open>The \<^verbatim>\<open>CASE\<close> of a clause: its condition and its \<^verbatim>\<open>ELSE\<close> as expressions.\<close>

definition case_ws :: string where
  "case_ws = newline # spaces 37"

definition policy_case :: "sqlx \<Rightarrow> sqlx \<Rightarrow> sqlx" where
  "policy_case bypass els = CaseElse bypass case_ws els (newline # spaces 32)"

definition flag_sep :: string where
  "flag_sep = newline # spaces 30 @ ''OR ''"

definition using_expr :: "string \<Rightarrow> string \<Rightarrow> string \<Rightarrow> string \<Rightarrow> string list \<Rightarrow> sqlx" where
  "using_expr column guc_tenant guc_admin ty flags =
     policy_case (AnyOf flag_sep (map Flag (guc_admin # flags))) (TenantEq column guc_tenant ty)"

definition check_expr :: "string \<Rightarrow> string \<Rightarrow> string \<Rightarrow> string \<Rightarrow> sqlx" where
  "check_expr column guc_tenant guc_admin ty =
     policy_case (Flag guc_admin) (TenantEq column guc_tenant ty)"

definition create_policy_body :: "string \<Rightarrow> string \<Rightarrow> string \<Rightarrow> string \<Rightarrow> string list" where
  "create_policy_body policy_name table using_sql check_sql =
     [spaces 28 @ ''ALTER TABLE '' @ dq table @ '' ENABLE ROW LEVEL SECURITY;'',
      spaces 28 @ ''ALTER TABLE '' @ dq table @ '' FORCE ROW LEVEL SECURITY;'',
      spaces 28 @ ''CREATE POLICY '' @ dq policy_name,
      spaces 28 @ ''ON '' @ dq table,
      spaces 28 @ ''USING ('',
      spaces 32 @ using_sql,
      spaces 28 @ '')'',
      spaces 28 @ ''WITH CHECK ('',
      spaces 32 @ check_sql,
      spaces 28 @ '');'']"

definition build_policy_create_sql ::
  "string \<Rightarrow> string \<Rightarrow> string \<Rightarrow> string \<Rightarrow> string \<Rightarrow> string list \<Rightarrow> string" where
  "build_policy_create_sql table column guc_tenant_var guc_admin_var tenant_pk_type extra_bypass_flags =
     (let policy_name = isolation_policy_name table;
          tenant_match = tenant_match_sql column guc_tenant_var tenant_pk_type;
          admin_check = bool_flag_sql guc_admin_var;
          bypass_conditions_using = admin_check # map bool_flag_sql extra_bypass_flags;
          bypass_clause_using = py_join flag_sep bypass_conditions_using;
          bypass_clause_check = admin_check;
          case_sql = (\<lambda>clause. ''CASE WHEN '' @ clause @ case_ws @ ''THEN true'' @ case_ws @ ''ELSE '' @
                        tenant_match @ newline # spaces 32 @ ''END'')
      in policy_frame policy_name table
           (create_policy_body policy_name table (case_sql bypass_clause_using) (case_sql bypass_clause_check)))"

definition drop_sql :: "string \<Rightarrow> string \<Rightarrow> string" where
  "drop_sql policy_name table =
     text_block [[],
       spaces 12 @ ''DROP POLICY IF EXISTS '' @ dq policy_name @ '' ON '' @ dq table @ '';'',
       spaces 12 @ ''ALTER TABLE '' @ dq table @ '' NO FORCE ROW LEVEL SECURITY;'',
       spaces 12 @ ''ALTER TABLE '' @ dq table @ '' DISABLE ROW LEVEL SECURITY;'',
       spaces 12]"

definition build_policy_drop_sql :: "string \<Rightarrow> string" where
  "build_policy_drop_sql table = drop_sql (isolation_policy_name table) table"

subsection \<open>The sharing policy\<close>

definition max_identifier_bytes :: nat where
  "max_identifier_bytes = 63"

definition policy_name_common_prefix :: string where
  "policy_name_common_prefix = ''_tenant_''"

text \<open>\<^verbatim>\<open>_sharing_policy_name_problem\<close>: whether there is one (the message is left out).\<close>

definition sharing_policy_name_problem :: "string \<Rightarrow> bool" where
  "sharing_policy_name_problem table \<longleftrightarrow>
     \<not> length (table @ policy_name_common_prefix) < max_identifier_bytes"

definition predicate_sep :: string where
  "predicate_sep = newline # spaces 32 @ ''OR ''"

definition build_sharing_policy_create_sql :: "string \<Rightarrow> string list \<Rightarrow> string checked" where
  "build_sharing_policy_create_sql table predicates =
     (if sharing_policy_name_problem table then Inl ValueError
      else
        let policy_name = sharing_policy_name table; using_sql = py_join predicate_sep predicates
        in Inr (policy_frame policy_name table
          [spaces 28 @ ''CREATE POLICY '' @ dq policy_name,
           spaces 28 @ ''ON '' @ dq table,
           spaces 28 @ ''AS PERMISSIVE'',
           spaces 28 @ ''FOR SELECT'',
           spaces 28 @ ''USING ('',
           spaces 32 @ using_sql,
           spaces 28 @ '');'']))"

definition build_sharing_policy_drop_sql :: "string \<Rightarrow> string" where
  "build_sharing_policy_drop_sql table =
     text_block [[],
       spaces 12 @ ''DROP POLICY IF EXISTS '' @ dq (sharing_policy_name table) @ '' ON '' @ dq table @ '';'',
       spaces 12]"

subsection \<open>\<^verbatim>\<open>RLSConstraint\<close>\<close>

record rls_constraint =
  rc_name :: string
  rc_field :: string
  rc_guc_tenant_var :: string
  rc_guc_admin_var :: string
  rc_tenant_pk_type :: string
  rc_extra_bypass_flags :: "string list"
  rc_extra_predicates :: "predicate list"

definition rls_constraint_init ::
  "string \<Rightarrow> string \<Rightarrow> string \<Rightarrow> string \<Rightarrow> string \<Rightarrow> string list option \<Rightarrow> predicate_arg list option \<Rightarrow>
   rls_constraint checked" where
  "rls_constraint_init field name guc_tenant_var guc_admin_var tenant_pk_type extra_bypass_flags extra_predicates =
     ck_bind (validate_field_name field) (\<lambda>_.
     ck_bind (validate_pk_type tenant_pk_type) (\<lambda>_.
     ck_bind (validate_guc_name_for_ddl guc_tenant_var) (\<lambda>_.
     ck_bind (validate_guc_name_for_ddl guc_admin_var) (\<lambda>_.
     ck_bind (check_all validate_guc_name_for_ddl (case extra_bypass_flags of None \<Rightarrow> [] | Some fs \<Rightarrow> fs)) (\<lambda>_.
     ck_bind (validated_predicates extra_predicates) (\<lambda>predicates.
       Inr \<lparr>rc_name = name, rc_field = field, rc_guc_tenant_var = guc_tenant_var,
            rc_guc_admin_var = guc_admin_var, rc_tenant_pk_type = tenant_pk_type,
            rc_extra_bypass_flags = (case extra_bypass_flags of None \<Rightarrow> [] | Some fs \<Rightarrow> fs),
            rc_extra_predicates = predicates\<rparr>))))))"

text \<open>
  A statement: its fixed text, and for a sharing policy the part that is built when it is
  rendered (\<^verbatim>\<open>_SharingPolicySQL\<close>), before (\<^verbatim>\<open>remove_sql\<close>) or after (\<^verbatim>\<open>create_sql\<close>) it.
\<close>

record sharing_part =
  sp_model :: model_meta
  sp_predicates :: "predicate list"
  sp_guc_tenant_var :: string
  sp_tenant_pk_type :: string

datatype statement = Statement string | StatementSharing string sharing_part

definition sharing_part_str :: "registry \<Rightarrow> sharing_part \<Rightarrow> string checked" where
  "sharing_part_str apps p =
     ck_bind (predicates_sql apps (sp_model p)
         (tenant_value_sql (sp_guc_tenant_var p) (sp_tenant_pk_type p)) (sp_predicates p))
       (build_sharing_policy_create_sql (m_table (sp_model p)))"

fun render :: "registry \<Rightarrow> statement \<Rightarrow> string checked" where
  "render apps (Statement sql) = Inr sql"
| "render apps (StatementSharing sql p) =
     ck_bind (sharing_part_str apps p) (\<lambda>sharing. Inr (sql @ sharing))"

definition rls_create_sql :: "rls_constraint \<Rightarrow> model_meta \<Rightarrow> statement" where
  "rls_create_sql c model =
     (let sql = build_policy_create_sql (m_table model) (rc_field c @ ''_id'') (rc_guc_tenant_var c)
                  (rc_guc_admin_var c) (rc_tenant_pk_type c) (rc_extra_bypass_flags c)
      in if rc_extra_predicates c = [] then Statement sql
         else StatementSharing sql \<lparr>sp_model = model, sp_predicates = rc_extra_predicates c,
                sp_guc_tenant_var = rc_guc_tenant_var c, sp_tenant_pk_type = rc_tenant_pk_type c\<rparr>)"

definition rls_remove_sql :: "rls_constraint \<Rightarrow> model_meta \<Rightarrow> statement" where
  "rls_remove_sql c model =
     (let sql = build_policy_drop_sql (m_table model)
      in if rc_extra_predicates c = [] then Statement sql
         else Statement (build_sharing_policy_drop_sql (m_table model) @ sql))"

text \<open>
  \<^verbatim>\<open>constraint_sql\<close> puts the statement at the end of the schema editor's deferred statements and
  contributes nothing inline.
\<close>

definition rls_constraint_sql :: "rls_constraint \<Rightarrow> model_meta \<Rightarrow> statement list \<Rightarrow> string \<times> statement list" where
  "rls_constraint_sql c model deferred = ([], deferred @ [rls_create_sql c model])"

definition rls_constraint_eq :: "rls_constraint \<Rightarrow> rls_constraint \<Rightarrow> bool" where
  "rls_constraint_eq c d \<longleftrightarrow>
     rc_name c = rc_name d \<and> rc_field c = rc_field d \<and>
     rc_guc_tenant_var c = rc_guc_tenant_var d \<and> rc_guc_admin_var c = rc_guc_admin_var d \<and>
     rc_tenant_pk_type c = rc_tenant_pk_type d \<and>
     rc_extra_bypass_flags c = rc_extra_bypass_flags d \<and>
     rc_extra_predicates c = rc_extra_predicates d"

text \<open>The keyword arguments of a constructor, as \<^verbatim>\<open>deconstruct\<close> writes them.\<close>

datatype kwarg = KStr string | KNone | KFlags "string list" | KPredicates "predicate list"

type_synonym kwargs = "(string \<times> kwarg) list"

definition unless_default :: "string \<Rightarrow> string \<Rightarrow> string \<Rightarrow> kwargs" where
  "unless_default key value dflt = (if value \<noteq> dflt then [(key, KStr value)] else [])"

definition rls_deconstruct :: "rls_constraint \<Rightarrow> kwargs" where
  "rls_deconstruct c =
     [(''name'', KStr (rc_name c)), (''field'', KStr (rc_field c))] @
     unless_default ''guc_tenant_var'' (rc_guc_tenant_var c) ''rls.current_tenant'' @
     unless_default ''guc_admin_var'' (rc_guc_admin_var c) ''rls.is_admin'' @
     unless_default ''tenant_pk_type'' (rc_tenant_pk_type c) ''int'' @
     (if rc_extra_bypass_flags c \<noteq> [] then [(''extra_bypass_flags'', KFlags (rc_extra_bypass_flags c))] else []) @
     (if rc_extra_predicates c \<noteq> [] then [(''extra_predicates'', KPredicates (rc_extra_predicates c))] else [])"

text \<open>A call with keyword arguments: a missing or ill-typed one is a \<^verbatim>\<open>TypeError\<close>, or its default.\<close>

definition kw_str :: "kwargs \<Rightarrow> string \<Rightarrow> string option \<Rightarrow> string checked" where
  "kw_str kw key dflt =
     (case map_of kw key of
        Some (KStr s) \<Rightarrow> Inr s
      | Some _ \<Rightarrow> Inl TypeError
      | None \<Rightarrow> (case dflt of None \<Rightarrow> Inl TypeError | Some d \<Rightarrow> Inr d))"

definition rls_construct :: "kwargs \<Rightarrow> rls_constraint checked" where
  "rls_construct kw =
     ck_bind (kw_str kw ''field'' None) (\<lambda>field.
     ck_bind (kw_str kw ''name'' None) (\<lambda>name.
     ck_bind (kw_str kw ''guc_tenant_var'' (Some ''rls.current_tenant'')) (\<lambda>guc_tenant_var.
     ck_bind (kw_str kw ''guc_admin_var'' (Some ''rls.is_admin'')) (\<lambda>guc_admin_var.
     ck_bind (kw_str kw ''tenant_pk_type'' (Some ''int'')) (\<lambda>tenant_pk_type.
       rls_constraint_init field name guc_tenant_var guc_admin_var tenant_pk_type
         (case map_of kw ''extra_bypass_flags'' of Some (KFlags fs) \<Rightarrow> Some fs | _ \<Rightarrow> None)
         (case map_of kw ''extra_predicates'' of Some (KPredicates ps) \<Rightarrow> Some (map APredicate ps) | _ \<Rightarrow> None))))))"

subsection \<open>Migrations write back what was built\<close>

text \<open>
  The contract between a constraint (or a predicate, or a migration operation) and Django's
  migration writer: what \<^verbatim>\<open>deconstruct\<close> returns, passed to the constructor again, builds an
  equal object.  \<open>built\<close> says what the constructor guarantees of an object.
\<close>

locale deconstructible =
  fixes construct :: "'k \<Rightarrow> 'c checked"
    and deconstruct :: "'c \<Rightarrow> 'k"
    and built :: "'c \<Rightarrow> bool"
  assumes construct_built: "construct k = Inr c \<Longrightarrow> built c"
    and reconstruct: "built c \<Longrightarrow> construct (deconstruct c) = Inr c"
begin

lemma roundtrip: "construct k = Inr c \<Longrightarrow> construct (deconstruct c) = Inr c"
  by (blast intro: construct_built reconstruct)

text \<open>Two objects that deconstruct alike are equal, so no change of one goes unnoticed.\<close>

lemma deconstruct_inject: "built c \<Longrightarrow> built d \<Longrightarrow> deconstruct c = deconstruct d \<longleftrightarrow> c = d"
  by (metis reconstruct sum.inject(2))

text \<open>A second pass through the writer changes nothing.\<close>

lemma deconstruct_stable:
  "construct k = Inr c \<Longrightarrow> construct (deconstruct c) = Inr d \<Longrightarrow> deconstruct d = deconstruct c"
  using roundtrip by fastforce

end

definition rls_built :: "rls_constraint \<Rightarrow> bool" where
  "rls_built c \<longleftrightarrow>
     field_name_ok (rc_field c) \<and> rc_tenant_pk_type c \<in> set allowed_pk_types \<and>
     guc_name_ok (rc_guc_tenant_var c) \<and> guc_name_ok (rc_guc_admin_var c) \<and>
     list_all guc_name_ok (rc_extra_bypass_flags c)"

lemma validated_predicates_APredicate [simp]:
  "validated_predicates (Some (map APredicate ps)) = Inr ps" "validated_predicates None = Inr []"
  by (simp_all add: validated_predicates_def) (induction ps, auto)

lemma rls_constraint_init_Inr:
  "rls_constraint_init field name gt ga ty flags preds = Inr c \<longleftrightarrow>
     (\<exists>ps. validated_predicates preds = Inr ps \<and>
        c = \<lparr>rc_name = name, rc_field = field, rc_guc_tenant_var = gt, rc_guc_admin_var = ga,
             rc_tenant_pk_type = ty,
             rc_extra_bypass_flags = (case flags of None \<Rightarrow> [] | Some fs \<Rightarrow> fs), rc_extra_predicates = ps\<rparr> \<and>
        rls_built c)"
  by (auto simp: rls_constraint_init_def rls_built_def list_all_iff)

lemma rls_construct_built: "rls_construct kw = Inr c \<Longrightarrow> rls_built c"
  by (auto simp: rls_construct_def rls_constraint_init_Inr)

lemma rls_reconstruct: "rls_built c \<Longrightarrow> rls_construct (rls_deconstruct c) = Inr c"
  by (cases c) (auto simp: rls_construct_def rls_deconstruct_def rls_constraint_init_Inr kw_str_def
      unless_default_def)

interpretation rls_migration: deconstructible rls_construct rls_deconstruct rls_built
  by unfold_locales (simp_all add: rls_construct_built rls_reconstruct)

lemma rls_constraint_eq_iff: "rls_constraint_eq c d \<longleftrightarrow> c = d"
  by (cases c; cases d) (simp add: rls_constraint_eq_def)

text \<open>
  C39. A migration keeps an \<^verbatim>\<open>RLSConstraint\<close>: built from any keyword arguments that pass the
  checks, its \<^verbatim>\<open>deconstruct()\<close> builds an equal constraint again, defaults left out and all.
\<close>

theorem rls_constraint_roundtrip:
  assumes "rls_construct kw = Inr c"
  shows "\<exists>d. rls_construct (rls_deconstruct c) = Inr d \<and> rls_constraint_eq d c"
  using rls_migration.roundtrip [OF assms] by (simp add: rls_constraint_eq_iff)

definition sample_kwargs :: kwargs where
  "sample_kwargs = [(''name'', KStr ''orders_rls''), (''field'', KStr ''tenant''),
     (''tenant_pk_type'', KStr ''uuid''), (''extra_bypass_flags'', KFlags [''rls.is_login'']),
     (''extra_predicates'', KPredicates [TenantField ''partner''])]"

lemma sample_kwargs_built: "\<exists>c. rls_construct sample_kwargs = Inr c"
  by (simp add: sample_kwargs_def rls_construct_def kw_str_def rls_constraint_init_Inr rls_built_def
      validated_predicates_def allowed_pk_types_def guc_char_def char_class_defs)

lemma rls_constraint_roundtrip_witness:
  "\<exists>c d. rls_construct sample_kwargs = Inr c \<and> rls_construct (rls_deconstruct c) = Inr d \<and>
     rls_constraint_eq d c"
  using sample_kwargs_built rls_constraint_roundtrip [of sample_kwargs] by blast

subsection \<open>Rows the policies let through\<close>

lemma build_policy_create_sql_prints:
  "build_policy_create_sql table col gt ga ty flags =
     policy_frame (isolation_policy_name table) table
       (create_policy_body (isolation_policy_name table) table
          (sql_text (using_expr col gt ga ty flags)) (sql_text (check_expr col gt ga ty)))"
  by (simp add: build_policy_create_sql_def using_expr_def check_expr_def policy_case_def Let_def
      sql_text_flags)

lemma using_expr_admits:
  "admits env (using_expr col gt ga ty flags) \<longleftrightarrow>
     (\<exists>g \<in> set (ga # flags). flag_set env g) \<or> in_tenant env col gt ty"
  by (auto simp: using_expr_def policy_case_def)

lemma check_expr_admits:
  "admits env (check_expr col gt ga ty) \<longleftrightarrow> flag_set env ga \<or> in_tenant env col gt ty"
  by (simp add: check_expr_def policy_case_def)


text \<open>
  Fail closed: in a session where no bypass flag is on and no tenant is set (never set, or
  cleared), the tenant policy lets no row be seen and none be written.
\<close>

theorem tenant_policy_fail_closed:
  assumes "\<forall>g \<in> set (ga # flags). e_setting env g \<noteq> Some ''true''"
    and "e_setting env gt = None \<or> e_setting env gt = Some []"
  shows "build_policy_create_sql table col gt ga ty flags =
           policy_frame (isolation_policy_name table) table
             (create_policy_body (isolation_policy_name table) table
               (sql_text (using_expr col gt ga ty flags)) (sql_text (check_expr col gt ga ty))) \<and>
         \<not> admits env (using_expr col gt ga ty flags) \<and> \<not> admits env (check_expr col gt ga ty)"
  using assms
  by (auto simp: using_expr_admits check_expr_admits flag_set_def in_tenant_unset
      build_policy_create_sql_prints Let_def)

definition empty_env :: "int sql_env" where
  "empty_env = \<lparr>e_setting = (\<lambda>_. None), e_cast = (\<lambda>_ _. 0), e_cell = (\<lambda>_. Some 0),
     e_rows = (\<lambda>_. []), e_opaque = (\<lambda>_. None)\<rparr>"

lemma tenant_policy_fail_closed_witness:
  "\<not> admits empty_env (using_expr ''tenant_id'' ''rls.current_tenant'' ''rls.is_admin'' ''int'' []) \<and>
   \<not> admits empty_env (check_expr ''tenant_id'' ''rls.current_tenant'' ''rls.is_admin'' ''int'')"
  using tenant_policy_fail_closed [of "''rls.is_admin''" "[]" empty_env "''rls.current_tenant''"
      "''orders''" "''tenant_id''" "''int''"]
  by (simp add: empty_env_def)

subsection \<open>Names of the two policies\<close>

text \<open>PostgreSQL cuts an identifier to 63 bytes.\<close>

definition cut_identifier :: "string \<Rightarrow> string" where
  "cut_identifier s = take max_identifier_bytes s"

lemma cut_names_equal_iff:
  "cut_identifier (isolation_policy_name t) = cut_identifier (sharing_policy_name t) \<longleftrightarrow>
     55 \<le> length t"
proof
  assume eq: "cut_identifier (isolation_policy_name t) = cut_identifier (sharing_policy_name t)"
  show "55 \<le> length t"
  proof (rule ccontr)
    assume "\<not> 55 \<le> length t"
    then have n: "length t + 8 < 63" by simp
    from eq have "take 63 (isolation_policy_name t) ! (length t + 8) = take 63 (sharing_policy_name t) ! (length t + 8)"
      by (simp add: cut_identifier_def max_identifier_bytes_def)
    with n have "isolation_policy_name t ! (length t + 8) = sharing_policy_name t ! (length t + 8)" by simp
    then show False
      by (simp add: isolation_policy_name_def sharing_policy_name_def nth_append numeral_eq_Suc)
  qed
next
  assume "55 \<le> length t"
  then have "63 - length t \<le> 8" by simp
  then have "take (63 - length t) ''_tenant_isolation_policy'' = take (63 - length t) ''_tenant_sharing_policy''"
    by (cases "63 - length t" rule: nat.exhaust)
      (auto simp: numeral_eq_Suc take_Cons split: nat.splits)
  then show "cut_identifier (isolation_policy_name t) = cut_identifier (sharing_policy_name t)"
    by (simp add: cut_identifier_def max_identifier_bytes_def isolation_policy_name_def sharing_policy_name_def)
qed


subsection \<open>The sharing policy, built late\<close>

definition sharing_expr :: "registry \<Rightarrow> model_meta \<Rightarrow> string \<Rightarrow> string \<Rightarrow> predicate list \<Rightarrow> sqlx" where
  "sharing_expr apps model guc ty preds =
     AnyOf predicate_sep (map (\<lambda>p. the (predicate_expr apps model guc ty p)) preds)"

lemma predicates_sql_prints:
  "predicates_sql apps model (tenant_value_sql guc ty) preds = Inr sqls \<Longrightarrow>
     sqls = map (\<lambda>p. sql_text (the (predicate_expr apps model guc ty p))) preds"
proof (induction preds arbitrary: sqls)
  case (Cons p preds)
  from Cons.prems obtain sql rest where
    *: "policy_sql apps model (tenant_value_sql guc ty) p = Inr sql"
       "predicates_sql apps model (tenant_value_sql guc ty) preds = Inr rest" "sqls = sql # rest"
    by (auto simp: predicates_sql_def)
  from policy_sql_prints [OF *(1)] Cons.IH [OF *(2)] *(3) show ?case by auto
qed (simp add: predicates_sql_def)

lemma map_checked_ok_iff: "(\<exists>ys. map_checked f xs = Inr ys) \<longleftrightarrow> (\<forall>x\<in>set xs. \<exists>y. f x = Inr y)"
  by (induction xs) auto

text \<open>
  A sharing policy is built when its statement is rendered, from the registry of that
  moment: creating the statement needs no other model, and rendering it succeeds exactly when
  every predicate finds its fields then (a \<^verbatim>\<open>through\<close> model created later in the same migration
  included) and the table's name is short enough for a second policy.
\<close>

theorem sharing_policy_rendered_late:
  "(\<exists>t. render apps (rls_create_sql c model) = Inr t) \<longleftrightarrow>
     rc_extra_predicates c = [] \<or>
     \<not> sharing_policy_name_problem (m_table model) \<and>
     (\<forall>p \<in> set (rc_extra_predicates c).
        \<exists>s. policy_sql apps model (tenant_value_sql (rc_guc_tenant_var c) (rc_tenant_pk_type c)) p = Inr s)"
proof (cases "rc_extra_predicates c = []")
  case True
  then show ?thesis by (simp add: rls_create_sql_def Let_def)
next
  case False
  then show ?thesis
    unfolding map_checked_ok_iff [symmetric]
    by (auto simp: rls_create_sql_def Let_def sharing_part_str_def predicates_sql_def
        build_sharing_policy_create_sql_def ck_bind_eq_Inl)
qed


definition sample_constraint :: rls_constraint where
  "sample_constraint = \<lparr>rc_name = ''orders_rls'', rc_field = ''tenant'',
     rc_guc_tenant_var = ''rls.current_tenant'', rc_guc_admin_var = ''rls.is_admin'',
     rc_tenant_pk_type = ''int'', rc_extra_bypass_flags = [],
     rc_extra_predicates = [TenantField ''partner'']\<rparr>"

lemma sample_render: "\<exists>t. render empty_registry (rls_create_sql sample_constraint sample_model) = Inr t"
  by (simp add: sharing_policy_name_problem_def max_identifier_bytes_def policy_name_common_prefix_def
      sample_constraint_def sample_model_def tenant_field_sql_def foreign_key_def unsafe_identifier_chars_def
      rls_create_sql_def Let_def sharing_part_str_def predicates_sql_def build_sharing_policy_create_sql_def)

lemma sharing_policy_rendered_late_witness:
  "\<not> sharing_policy_name_problem ''orders'' \<and>
   (\<exists>s. policy_sql empty_registry sample_model (tenant_value_sql ''rls.current_tenant'' ''int'')
      (TenantField ''partner'') = Inr s)"
  using sharing_policy_rendered_late [of empty_registry sample_constraint sample_model] sample_render
  by (simp add: sample_constraint_def sample_model_def del: policy_sql.simps)


text \<open>
  A trailing newline passes the check of a model path, which \<^verbatim>\<open>_FIELD_NAME_RE\<close> and
  \<^verbatim>\<open>_GUC_NAME_RE\<close> refuse for their names.
\<close>

lemma model_path_trailing_newline:
  "validate_model_path (''myapp.Order'' @ [newline]) = Inr ()"
  "validate_field_name (''tenant'' @ [newline]) = Inl ValueError"
  by (simp_all add: model_path_ok_def strip_final_newline_def newline_def validate_field_name_def
      char_class_defs)

end
