(* ===== verification/M2m_Constraint.thy ===== *)
theory M2m_Constraint
  imports Constraints
begin

text \<open>
  The join-table part of \<^verbatim>\<open>rls/constraints.py\<close>: \<^verbatim>\<open>RLSM2MConstraint\<close>, whose policy checks both
  ends of a many-to-many row with EXISTS subqueries.
\<close>

subsection \<open>The SQL\<close>

definition m2m_policy_name :: "string \<Rightarrow> string" where
  "m2m_policy_name table = table @ ''_m2m_rls_policy''"

definition m2m_sep :: string where
  "m2m_sep = newline # spaces 32 @ ''AND ''"

definition m2m_condition :: "string \<Rightarrow> string \<Rightarrow> string \<Rightarrow> string \<Rightarrow> string" where
  "m2m_condition table fk tenant_fk guc_expr =
     ''EXISTS ('' @ ''SELECT 1 FROM '' @ dq table @ '' '' @
     ''WHERE id = '' @ fk @ '' AND '' @ tenant_fk @ ''_id = '' @ guc_expr @ '')''"

definition build_m2m_conditions ::
  "string \<Rightarrow> string \<Rightarrow> string option \<Rightarrow> string \<Rightarrow> string \<Rightarrow> string option \<Rightarrow> string \<Rightarrow> string \<Rightarrow> string" where
  "build_m2m_conditions from_fk from_table from_tenant_fk to_fk to_table to_tenant_fk guc_tenant_var tenant_pk_type =
     (let guc_expr = tenant_value_sql guc_tenant_var tenant_pk_type;
          conditions =
            (case from_tenant_fk of None \<Rightarrow> [] | Some t \<Rightarrow> [m2m_condition from_table from_fk t guc_expr]) @
            (case to_tenant_fk of None \<Rightarrow> [] | Some t \<Rightarrow> [m2m_condition to_table to_fk t guc_expr])
      in py_join m2m_sep conditions)"

definition build_m2m_create_sql :: "string \<Rightarrow> string \<Rightarrow> string \<Rightarrow> string" where
  "build_m2m_create_sql table admin_check subquery_clause =
     (let policy_name = m2m_policy_name table;
          case_sql = ''CASE WHEN '' @ admin_check @ case_ws @ ''THEN true'' @ case_ws @ ''ELSE '' @
                       subquery_clause @ newline # spaces 32 @ ''END''
      in policy_frame policy_name table (create_policy_body policy_name table case_sql case_sql))"

definition build_m2m_drop_sql :: "string \<Rightarrow> string" where
  "build_m2m_drop_sql table = drop_sql (m2m_policy_name table) table"

subsection \<open>The constraint\<close>

record m2m_constraint =
  mc_name :: string
  mc_from_model :: string
  mc_to_model :: string
  mc_from_fk :: string
  mc_to_fk :: string
  mc_from_tenant_fk :: "string option"
  mc_to_tenant_fk :: "string option"
  mc_guc_tenant_var :: string
  mc_guc_admin_var :: string
  mc_tenant_pk_type :: string

definition validate_tenant_fk :: "string option \<Rightarrow> unit checked" where
  "validate_tenant_fk t = (case t of None \<Rightarrow> Inr () | Some f \<Rightarrow> validate_field_name f)"

definition m2m_init :: "m2m_constraint \<Rightarrow> m2m_constraint checked" where
  "m2m_init c =
     ck_bind (validate_model_path (mc_from_model c)) (\<lambda>_.
     ck_bind (validate_model_path (mc_to_model c)) (\<lambda>_.
     ck_bind (validate_field_name (mc_from_fk c)) (\<lambda>_.
     ck_bind (validate_field_name (mc_to_fk c)) (\<lambda>_.
     ck_bind (validate_tenant_fk (mc_from_tenant_fk c)) (\<lambda>_.
     ck_bind (validate_tenant_fk (mc_to_tenant_fk c)) (\<lambda>_.
     if mc_from_tenant_fk c = None \<and> mc_to_tenant_fk c = None then Inl ValueError
     else
       ck_bind (validate_pk_type (mc_tenant_pk_type c)) (\<lambda>_.
       ck_bind (validate_guc_name_for_ddl (mc_guc_tenant_var c)) (\<lambda>_.
       ck_bind (validate_guc_name_for_ddl (mc_guc_admin_var c)) (\<lambda>_. Inr c)))))))))"

text \<open>\<^verbatim>\<open>django.apps.apps.get_model\<close>, the global registry.\<close>

definition resolve_table :: "registry \<Rightarrow> string \<Rightarrow> string checked" where
  "resolve_table apps path =
     (case apps path of None \<Rightarrow> Inl LookupError | Some m \<Rightarrow> Inr (m_table m))"

definition build_subquery_clause :: "registry \<Rightarrow> m2m_constraint \<Rightarrow> string checked" where
  "build_subquery_clause apps c =
     ck_bind (resolve_table apps (mc_from_model c)) (\<lambda>from_table.
     ck_bind (resolve_table apps (mc_to_model c)) (\<lambda>to_table.
       Inr (build_m2m_conditions (mc_from_fk c) from_table (mc_from_tenant_fk c)
              (mc_to_fk c) to_table (mc_to_tenant_fk c) (mc_guc_tenant_var c) (mc_tenant_pk_type c))))"

definition m2m_create_sql :: "registry \<Rightarrow> m2m_constraint \<Rightarrow> model_meta \<Rightarrow> statement checked" where
  "m2m_create_sql apps c model =
     (let admin_check = bool_flag_sql (mc_guc_admin_var c)
      in ck_bind (build_subquery_clause apps c) (\<lambda>subquery_clause.
           Inr (Statement (build_m2m_create_sql (m_table model) admin_check subquery_clause))))"

definition m2m_remove_sql :: "m2m_constraint \<Rightarrow> model_meta \<Rightarrow> statement" where
  "m2m_remove_sql c model = Statement (build_m2m_drop_sql (m_table model))"

definition m2m_constraint_sql ::
  "registry \<Rightarrow> m2m_constraint \<Rightarrow> model_meta \<Rightarrow> statement list \<Rightarrow> (string \<times> statement list) checked" where
  "m2m_constraint_sql apps c model deferred =
     ck_bind (m2m_create_sql apps c model) (\<lambda>st. Inr ([], deferred @ [st]))"

definition m2m_eq :: "m2m_constraint \<Rightarrow> m2m_constraint \<Rightarrow> bool" where
  "m2m_eq c d \<longleftrightarrow>
     mc_name c = mc_name d \<and> mc_from_model c = mc_from_model d \<and> mc_to_model c = mc_to_model d \<and>
     mc_from_fk c = mc_from_fk d \<and> mc_to_fk c = mc_to_fk d \<and>
     mc_from_tenant_fk c = mc_from_tenant_fk d \<and> mc_to_tenant_fk c = mc_to_tenant_fk d \<and>
     mc_guc_tenant_var c = mc_guc_tenant_var d \<and> mc_guc_admin_var c = mc_guc_admin_var d \<and>
     mc_tenant_pk_type c = mc_tenant_pk_type d"

text \<open>
  A tenant FK other than \<^verbatim>\<open>"tenant"\<close> is written, \<^verbatim>\<open>None\<close> included: a missing argument means
  \<^verbatim>\<open>"tenant"\<close>, an explicit \<^verbatim>\<open>None\<close> an unprotected side.
\<close>

definition tenant_fk_kwarg :: "string \<Rightarrow> string option \<Rightarrow> kwargs" where
  "tenant_fk_kwarg key value =
     (if value \<noteq> Some ''tenant''
      then [(key, case value of None \<Rightarrow> KNone | Some s \<Rightarrow> KStr s)] else [])"

definition m2m_deconstruct :: "m2m_constraint \<Rightarrow> kwargs" where
  "m2m_deconstruct c =
     [(''name'', KStr (mc_name c)), (''from_model'', KStr (mc_from_model c)),
      (''to_model'', KStr (mc_to_model c)), (''from_fk'', KStr (mc_from_fk c)),
      (''to_fk'', KStr (mc_to_fk c))] @
     tenant_fk_kwarg ''from_tenant_fk'' (mc_from_tenant_fk c) @
     tenant_fk_kwarg ''to_tenant_fk'' (mc_to_tenant_fk c) @
     unless_default ''guc_tenant_var'' (mc_guc_tenant_var c) ''rls.current_tenant'' @
     unless_default ''guc_admin_var'' (mc_guc_admin_var c) ''rls.is_admin'' @
     unless_default ''tenant_pk_type'' (mc_tenant_pk_type c) ''int''"

definition kw_tenant_fk :: "kwargs \<Rightarrow> string \<Rightarrow> string option checked" where
  "kw_tenant_fk kw key =
     (case map_of kw key of
        None \<Rightarrow> Inr (Some ''tenant'')
      | Some KNone \<Rightarrow> Inr None
      | Some (KStr s) \<Rightarrow> Inr (Some s)
      | Some _ \<Rightarrow> Inl TypeError)"

definition m2m_construct :: "kwargs \<Rightarrow> m2m_constraint checked" where
  "m2m_construct kw =
     ck_bind (kw_str kw ''name'' None) (\<lambda>name.
     ck_bind (kw_str kw ''from_model'' None) (\<lambda>from_model.
     ck_bind (kw_str kw ''to_model'' None) (\<lambda>to_model.
     ck_bind (kw_str kw ''from_fk'' None) (\<lambda>from_fk.
     ck_bind (kw_str kw ''to_fk'' None) (\<lambda>to_fk.
     ck_bind (kw_tenant_fk kw ''from_tenant_fk'') (\<lambda>from_tenant_fk.
     ck_bind (kw_tenant_fk kw ''to_tenant_fk'') (\<lambda>to_tenant_fk.
     ck_bind (kw_str kw ''guc_tenant_var'' (Some ''rls.current_tenant'')) (\<lambda>guc_tenant_var.
     ck_bind (kw_str kw ''guc_admin_var'' (Some ''rls.is_admin'')) (\<lambda>guc_admin_var.
     ck_bind (kw_str kw ''tenant_pk_type'' (Some ''int'')) (\<lambda>tenant_pk_type.
       m2m_init \<lparr>mc_name = name, mc_from_model = from_model, mc_to_model = to_model,
         mc_from_fk = from_fk, mc_to_fk = to_fk, mc_from_tenant_fk = from_tenant_fk,
         mc_to_tenant_fk = to_tenant_fk, mc_guc_tenant_var = guc_tenant_var,
         mc_guc_admin_var = guc_admin_var, mc_tenant_pk_type = tenant_pk_type\<rparr>))))))))))"

subsection \<open>Migrations\<close>

definition m2m_built :: "m2m_constraint \<Rightarrow> bool" where
  "m2m_built c \<longleftrightarrow> m2m_init c = Inr c"

lemma m2m_init_Inr: "m2m_init c = Inr d \<longleftrightarrow> d = c \<and> m2m_built c"
  by (auto simp: m2m_built_def m2m_init_def split: if_splits)

lemma m2m_construct_built: "m2m_construct kw = Inr c \<Longrightarrow> m2m_built c"
  by (auto simp: m2m_construct_def m2m_init_Inr)

lemma m2m_reconstruct: "m2m_built c \<Longrightarrow> m2m_construct (m2m_deconstruct c) = Inr c"
  by (cases c) (auto simp: m2m_construct_def m2m_deconstruct_def m2m_init_Inr kw_str_def kw_tenant_fk_def
      unless_default_def tenant_fk_kwarg_def split: option.splits)

interpretation m2m_migration: deconstructible m2m_construct m2m_deconstruct m2m_built
  by unfold_locales (simp_all add: m2m_construct_built m2m_reconstruct)

lemma m2m_eq_iff: "m2m_eq c d \<longleftrightarrow> c = d"
  by (cases c; cases d) (simp add: m2m_eq_def)

text \<open>
  A migration keeps an \<^verbatim>\<open>RLSM2MConstraint\<close>, the unprotected side included: \<^verbatim>\<open>None\<close> is
  written explicitly, so building from \<^verbatim>\<open>deconstruct()\<close> does not turn it into the default
  \<^verbatim>\<open>"tenant"\<close>.
\<close>

theorem m2m_constraint_roundtrip:
  assumes "m2m_construct kw = Inr c"
  shows "\<exists>d. m2m_construct (m2m_deconstruct c) = Inr d \<and> m2m_eq d c"
  using m2m_migration.roundtrip [OF assms] by (simp add: m2m_eq_iff)

definition sample_m2m_kwargs :: kwargs where
  "sample_m2m_kwargs = [(''name'', KStr ''m2m''), (''from_model'', KStr ''app.Project''),
     (''to_model'', KStr ''app.Tag''), (''from_fk'', KStr ''project_id''), (''to_fk'', KStr ''tag_id''),
     (''to_tenant_fk'', KNone)]"

lemma sample_m2m_built: "\<exists>c. m2m_construct sample_m2m_kwargs = Inr c"
  by (simp add: sample_m2m_kwargs_def m2m_construct_def kw_str_def kw_tenant_fk_def m2m_init_def
      validate_tenant_fk_def model_path_ok_def strip_final_newline_def newline_def allowed_pk_types_def
      guc_char_def char_class_defs)

lemma m2m_constraint_roundtrip_witness:
  "\<exists>c d. m2m_construct sample_m2m_kwargs = Inr c \<and> m2m_construct (m2m_deconstruct c) = Inr d \<and> m2m_eq d c"
  using sample_m2m_built m2m_constraint_roundtrip [of sample_m2m_kwargs] by blast

subsection \<open>Rows of the join table\<close>

definition m2m_expr :: "m2m_constraint \<Rightarrow> string \<Rightarrow> string \<Rightarrow> sqlx" where
  "m2m_expr c from_table to_table =
     policy_case (Flag (mc_guc_admin_var c))
       (AllOf m2m_sep
         ((case mc_from_tenant_fk c of None \<Rightarrow> []
           | Some t \<Rightarrow> [RowOfTenant from_table (mc_from_fk c) t (mc_guc_tenant_var c) (mc_tenant_pk_type c)]) @
          (case mc_to_tenant_fk c of None \<Rightarrow> []
           | Some t \<Rightarrow> [RowOfTenant to_table (mc_to_fk c) t (mc_guc_tenant_var c) (mc_tenant_pk_type c)])))"

text \<open>One end of a row: the row it points at is visible and belongs to the current tenant.\<close>

definition end_in_tenant ::
  "('v, 'z) sql_env_scheme \<Rightarrow> m2m_constraint \<Rightarrow> string \<Rightarrow> string \<Rightarrow> string option \<Rightarrow> bool" where
  "end_in_tenant env c table fk tenant_fk \<longleftrightarrow>
     (case tenant_fk of
        None \<Rightarrow> True
      | Some t \<Rightarrow> \<exists>(pk, cols) \<in> set (e_rows env table). e_cell env fk = Some pk \<and>
          (\<exists>v. tenant_reading env (mc_guc_tenant_var c) (mc_tenant_pk_type c) = Some v \<and>
               cols (t @ ''_id'') = Some v))"

lemma m2m_expr_admits:
  "admits env (m2m_expr c from_table to_table) \<longleftrightarrow>
     flag_set env (mc_guc_admin_var c) \<or>
     end_in_tenant env c from_table (mc_from_fk c) (mc_from_tenant_fk c) \<and>
     end_in_tenant env c to_table (mc_to_fk c) (mc_to_tenant_fk c)"
proof -
  have row: "admits env (RowOfTenant table fk t (mc_guc_tenant_var c) (mc_tenant_pk_type c)) \<longleftrightarrow>
      end_in_tenant env c table fk (Some t)" for table fk t
    by (fastforce simp: admits_def end_in_tenant_def)
  show ?thesis
    by (cases "mc_from_tenant_fk c"; cases "mc_to_tenant_fk c")
      (auto simp: m2m_expr_def policy_case_def row end_in_tenant_def [of _ _ _ _ None])
qed

lemma m2m_sql_prints:
  assumes "m2m_create_sql apps c model = Inr st"
  obtains from_m to_m where
    "apps (mc_from_model c) = Some from_m" "apps (mc_to_model c) = Some to_m"
    "st = Statement (policy_frame (m2m_policy_name (m_table model)) (m_table model)
       (create_policy_body (m2m_policy_name (m_table model)) (m_table model)
         (sql_text (m2m_expr c (m_table from_m) (m_table to_m)))
         (sql_text (m2m_expr c (m_table from_m) (m_table to_m)))))"
  using assms
  by (auto simp: m2m_create_sql_def build_subquery_clause_def resolve_table_def build_m2m_create_sql_def
      build_m2m_conditions_def m2m_condition_def m2m_expr_def policy_case_def Let_def
      split: option.splits)


text \<open>
  A join row is closed without a tenant: for a constraint the constructor accepts (one end
  at least is protected), no row passes in a session with the admin flag off and no tenant.
\<close>

theorem m2m_policy_fail_closed:
  assumes "m2m_construct kw = Inr c" and "m2m_create_sql apps c model = Inr st"
  shows "\<exists>x. st = Statement (policy_frame (m2m_policy_name (m_table model)) (m_table model)
           (create_policy_body (m2m_policy_name (m_table model)) (m_table model) (sql_text x) (sql_text x))) \<and>
         (\<forall>env :: ('v, 'z) sql_env_scheme.
            \<not> flag_set env (mc_guc_admin_var c) \<and>
            tenant_reading env (mc_guc_tenant_var c) (mc_tenant_pk_type c) = None \<longrightarrow> \<not> admits env x)"
proof -
  have "m2m_built c" using assms(1) by (rule m2m_construct_built)
  then have "mc_from_tenant_fk c \<noteq> None \<or> mc_to_tenant_fk c \<noteq> None"
    by (auto simp: m2m_built_def m2m_init_def split: if_splits)
  with assms(2) show ?thesis
    by (elim m2m_sql_prints) (auto simp: m2m_expr_admits end_in_tenant_def)
qed

definition sample_registry :: registry where
  "sample_registry = (\<lambda>path. Some (sample_model\<lparr>m_table := path\<rparr>))"


lemma m2m_policy_fail_closed_witness:
  "\<exists>c st x. m2m_construct sample_m2m_kwargs = Inr c \<and>
     m2m_create_sql sample_registry c sample_model = Inr st \<and> \<not> admits empty_env x \<and>
     st = Statement (policy_frame (m2m_policy_name ''orders'') ''orders''
       (create_policy_body (m2m_policy_name ''orders'') ''orders'' (sql_text x) (sql_text x)))"
proof -
  obtain c where c: "m2m_construct sample_m2m_kwargs = Inr c" using sample_m2m_built by blast
  obtain st where st: "m2m_create_sql sample_registry c sample_model = Inr st"
    by (simp add: m2m_create_sql_def build_subquery_clause_def resolve_table_def sample_registry_def Let_def)
  have "\<not> flag_set empty_env g" "tenant_reading empty_env g ty = None" for g ty
    by (simp_all add: flag_set_def tenant_reading_def empty_env_def)
  moreover have "m_table sample_model = ''orders''" by (simp add: sample_model_def)
  ultimately show ?thesis using m2m_policy_fail_closed [OF c st] c st by metis
qed

end
