(* ===== verification/Conf.thy ===== *)
theory Conf
  imports Rls_Prelude "HOL-Library.Char_ord" "HOL-Library.List_Lexorder"
begin

text \<open>
  \<^verbatim>\<open>tenants/conf.py\<close>: the reader of \<^verbatim>\<open>settings.RLS_TENANTS\<close>, with its cache, its once-only check of
  unknown keys, and every property.  A setting is any Python value (\<open>pyval\<close>), since the project
  writes it; \<^verbatim>\<open>RLS_TENANTS\<close> itself is a dict with string keys.  The cache and the settings are
  one state, \<open>conf\<close>, together with the two caches that \<^verbatim>\<open>apps.py\<close> drops with it when Django sends
  \<^verbatim>\<open>setting_changed\<close>.
\<close>

datatype pyval =
    PNone
  | PBool bool
  | PInt int
  | PStr string
  | PList "pyval list"
  | PTuple "pyval list"
  | PSet "pyval list"
  | PDict "(pyval \<times> pyval) list"

type_synonym settings_dict = "(string \<times> pyval) list"

record conf =
  settings_rls :: "settings_dict option"
  config_cache :: "settings_dict option"
  keys_checked :: bool
  warned :: "string list"
  rls_models_cached :: bool
  declared_names_cached :: bool

definition known_keys :: "string list" where
  "known_keys = [''DATABASES'', ''EXTERNAL_MODELS'', ''GUC_PREFIX'', ''STRICT_MODE'',
     ''STRICT_MODE_EXCLUDE'', ''TENANT_FK_FIELD'', ''TENANT_HEADER'', ''TENANT_MODEL'',
     ''TENANT_PK_TYPE'', ''TENANT_SESSION_KEY'', ''UNIQUE_ACROSS_TENANTS'', ''USE_LOCAL_SET'',
     ''USER_PARAM_NAME'']"

subsection \<open>The cache\<close>

definition config_init :: "conf \<Rightarrow> conf" where
  "config_init c = c\<lparr>config_cache := None, keys_checked := False\<rparr>"

definition config_reload :: "conf \<Rightarrow> conf" where
  "config_reload c = c\<lparr>config_cache := None, keys_checked := False, rls_models_cached := False\<rparr>"

text \<open>\<^verbatim>\<open>sorted(set(config.keys()) - _KNOWN_KEYS)\<close>.\<close>

definition unknown_keys :: "settings_dict \<Rightarrow> string list" where
  "unknown_keys d = sort (remdups (filter (\<lambda>k. k \<notin> set known_keys) (map fst d)))"

definition warn_unknown_keys :: "settings_dict \<Rightarrow> conf \<Rightarrow> conf" where
  "warn_unknown_keys d c =
     (if keys_checked c then c
      else c\<lparr>keys_checked := True, warned := warned c @ unknown_keys d\<rparr>)"

definition configured :: "conf \<Rightarrow> settings_dict" where
  "configured c = (case settings_rls c of None \<Rightarrow> [] | Some d \<Rightarrow> d)"

definition read_config :: "(conf, settings_dict) py" where
  "read_config = (\<lambda>c.
     let cached = (case config_cache c of None \<Rightarrow> configured c | Some d \<Rightarrow> d)
     in (Inr cached, warn_unknown_keys cached (c\<lparr>config_cache := Some cached\<rparr>)))"

definition dict_get :: "settings_dict \<Rightarrow> string \<Rightarrow> pyval \<Rightarrow> pyval" where
  "dict_get d key dflt = (case map_of d key of None \<Rightarrow> dflt | Some v \<Rightarrow> v)"

definition get_setting :: "string \<Rightarrow> pyval \<Rightarrow> (conf, pyval) py" where
  "get_setting key dflt = py_bind read_config (\<lambda>d.
     if dict_get d key dflt = PNone then py_raise RLSConfigurationError
     else py_ret (dict_get d key dflt))"

fun is_str :: "pyval \<Rightarrow> bool" where
  "is_str (PStr s) = True"
| "is_str _ = False"

fun the_str :: "pyval \<Rightarrow> string" where
  "the_str (PStr s) = s"
| "the_str _ = []"

definition get_name_or_none :: "string \<Rightarrow> string \<Rightarrow> (conf, string option) py" where
  "get_name_or_none key dflt = py_bind read_config (\<lambda>d.
     case dict_get d key (PStr dflt) of
       PNone \<Rightarrow> py_ret None
     | PStr s \<Rightarrow> if \<not> list_all is_space s then py_ret (Some s) else py_raise RLSConfigurationError
     | _ \<Rightarrow> py_raise RLSConfigurationError)"

subsection \<open>The settings\<close>

definition conf_TENANT_MODEL where "conf_TENANT_MODEL = get_setting ''TENANT_MODEL'' PNone"

definition conf_GUC_PREFIX where "conf_GUC_PREFIX = get_setting ''GUC_PREFIX'' (PStr ''rls'')"

definition conf_TENANT_FK_FIELD where
  "conf_TENANT_FK_FIELD = get_setting ''TENANT_FK_FIELD'' (PStr ''tenant'')"

definition conf_USER_PARAM_NAME where
  "conf_USER_PARAM_NAME = get_setting ''USER_PARAM_NAME'' (PStr ''as_user'')"

definition conf_TENANT_PK_TYPE where
  "conf_TENANT_PK_TYPE = get_setting ''TENANT_PK_TYPE'' (PStr ''int'')"

definition conf_USE_LOCAL_SET where
  "conf_USE_LOCAL_SET = get_setting ''USE_LOCAL_SET'' (PBool False)"

definition conf_STRICT_MODE where "conf_STRICT_MODE = get_setting ''STRICT_MODE'' (PBool False)"

definition conf_DATABASES where
  "conf_DATABASES = get_setting ''DATABASES'' (PList [PStr ''default''])"

text \<open>An f-string of a value: \<open>str_of\<close> is Python's \<^verbatim>\<open>str\<close> on what is not a string.\<close>

definition fstring :: "(pyval \<Rightarrow> string) \<Rightarrow> pyval \<Rightarrow> string" where
  "fstring str_of v = (if is_str v then the_str v else str_of v)"

definition conf_GUC_CURRENT_TENANT :: "(pyval \<Rightarrow> string) \<Rightarrow> (conf, string) py" where
  "conf_GUC_CURRENT_TENANT str_of =
     py_bind conf_GUC_PREFIX (\<lambda>p. py_ret (fstring str_of p @ ''.current_tenant''))"

definition conf_GUC_IS_ADMIN :: "(pyval \<Rightarrow> string) \<Rightarrow> (conf, string) py" where
  "conf_GUC_IS_ADMIN str_of = py_bind conf_GUC_PREFIX (\<lambda>p. py_ret (fstring str_of p @ ''.is_admin''))"

fun py_items :: "pyval \<Rightarrow> pyval list option" where
  "py_items (PList xs) = Some xs"
| "py_items (PTuple xs) = Some xs"
| "py_items _ = None"

definition conf_STRICT_MODE_EXCLUDE :: "(conf, string list) py" where
  "conf_STRICT_MODE_EXCLUDE = py_bind (get_setting ''STRICT_MODE_EXCLUDE'' (PTuple [])) (\<lambda>v.
     case (case v of PSet xs \<Rightarrow> Some xs | _ \<Rightarrow> py_items v) of
       None \<Rightarrow> py_raise RLSConfigurationError
     | Some xs \<Rightarrow> if list_all is_str xs then py_ret (map the_str xs)
                  else py_raise RLSConfigurationError)"

datatype unique_entry = EntryName string | EntryFields "string list"

definition allowlist_entry :: "pyval \<Rightarrow> unique_entry checked" where
  "allowlist_entry e =
     (case e of
        PStr s \<Rightarrow> Inr (EntryName s)
      | _ \<Rightarrow> (case py_items e of
           Some (x # xs) \<Rightarrow>
             if list_all is_str (x # xs) then Inr (EntryFields (map the_str (x # xs)))
             else Inl RLSConfigurationError
         | _ \<Rightarrow> Inl RLSConfigurationError))"

text \<open>One item of the dict: its label and its entries.\<close>

definition allowlist_item :: "pyval \<times> pyval \<Rightarrow> (string \<times> unique_entry list) checked" where
  "allowlist_item kv =
     (case (fst kv, py_items (snd kv)) of
        (PStr label, Some entries) \<Rightarrow>
          ck_bind (map_checked allowlist_entry entries) (\<lambda>es. Inr (label, es))
      | _ \<Rightarrow> Inl RLSConfigurationError)"

definition py_lift :: "'a checked \<Rightarrow> ('w, 'a) py" where
  "py_lift r = (\<lambda>w. (r, w))"

definition conf_UNIQUE_ACROSS_TENANTS :: "(conf, (string \<times> unique_entry list) list) py" where
  "conf_UNIQUE_ACROSS_TENANTS = py_bind (get_setting ''UNIQUE_ACROSS_TENANTS'' (PDict [])) (\<lambda>v.
     case v of
       PDict items \<Rightarrow> py_lift (map_checked allowlist_item items)
     | _ \<Rightarrow> py_raise RLSConfigurationError)"

definition conf_EXTERNAL_MODELS :: "(conf, (string \<times> string) list) py" where
  "conf_EXTERNAL_MODELS = py_bind (get_setting ''EXTERNAL_MODELS'' (PDict [])) (\<lambda>v.
     case v of
       PDict items \<Rightarrow>
         if list_all (\<lambda>(label, field). is_str label \<and> is_str field) items
         then py_ret (map (\<lambda>(label, field). (the_str label, the_str field)) items)
         else py_raise RLSConfigurationError
     | _ \<Rightarrow> py_raise RLSConfigurationError)"

definition header_name :: "string \<Rightarrow> bool" where
  "header_name s \<longleftrightarrow> s \<noteq> [] \<and> list_all (\<lambda>c. is_alpha c \<or> is_digit c \<or> c = CHR ''-'') s"

definition conf_TENANT_HEADER :: "(conf, string option) py" where
  "conf_TENANT_HEADER = py_bind (get_name_or_none ''TENANT_HEADER'' ''X-Tenant'') (\<lambda>header.
     case header of
       None \<Rightarrow> py_ret None
     | Some h \<Rightarrow> if header_name h then py_ret (Some h) else py_raise RLSConfigurationError)"

definition conf_TENANT_SESSION_KEY :: "(conf, string option) py" where
  "conf_TENANT_SESSION_KEY = get_name_or_none ''TENANT_SESSION_KEY'' ''rls_tenant''"

text \<open>The receiver of Django's \<^verbatim>\<open>setting_changed\<close> that \<^verbatim>\<open>apps.py\<close> connects.\<close>

definition reload_on_setting_changed :: "string \<Rightarrow> conf \<Rightarrow> conf" where
  "reload_on_setting_changed setting c =
     (if setting = ''RLS_TENANTS'' then config_reload c
      else if setting = ''INSTALLED_APPS''
      then c\<lparr>declared_names_cached := False, rls_models_cached := False\<rparr> else c)"

subsection \<open>A read is a read of the settings\<close>

text \<open>What a read answers, without a cache.\<close>

definition setting_now :: "conf \<Rightarrow> string \<Rightarrow> pyval \<Rightarrow> pyval checked" where
  "setting_now c key dflt =
     (let v = dict_get (configured c) key dflt
      in if v = PNone then Inl RLSConfigurationError else Inr v)"

definition cache_ok :: "conf \<Rightarrow> bool" where
  "cache_ok c \<longleftrightarrow> config_cache c = None \<or> config_cache c = Some (configured c)"

text \<open>
  What can happen: a key is read, or a setting is changed, which Django announces, and the
  other caches are filled.
\<close>

inductive conf_step :: "conf \<Rightarrow> conf \<Rightarrow> bool" where
  read: "conf_step c (snd (get_setting key dflt c))"
| read_name: "conf_step c (snd (get_name_or_none key text c))"
| change: "conf_step c (reload_on_setting_changed ''RLS_TENANTS'' (c\<lparr>settings_rls := d\<rparr>))"
| change_other: "s \<noteq> ''RLS_TENANTS'' \<Longrightarrow> conf_step c (reload_on_setting_changed s c)"
| fill: "conf_step c (c\<lparr>rls_models_cached := True, declared_names_cached := True\<rparr>)"

inductive conf_reachable :: "conf \<Rightarrow> bool" where
  start: "conf_reachable (config_init c)"
| step: "conf_reachable c \<Longrightarrow> conf_step c c' \<Longrightarrow> conf_reachable c'"

lemma read_config_eq:
  assumes "cache_ok c"
  shows "read_config c =
     (Inr (configured c), warn_unknown_keys (configured c) (c\<lparr>config_cache := Some (configured c)\<rparr>))"
  using assms by (auto simp: read_config_def cache_ok_def Let_def)

lemma warn_frame [simp]:
  "settings_rls (warn_unknown_keys d c) = settings_rls c"
  "config_cache (warn_unknown_keys d c) = config_cache c"
  "configured (warn_unknown_keys d c) = configured c"
  by (simp_all add: warn_unknown_keys_def configured_def)

lemma configured_update [simp]:
  "configured (c\<lparr>config_cache := x\<rparr>) = configured c"
  "configured (c\<lparr>rls_models_cached := b\<rparr>) = configured c"
  "configured (c\<lparr>declared_names_cached := b\<rparr>) = configured c"
  by (simp_all add: configured_def)

lemma snd_get_setting [simp]: "snd (get_setting key dflt c) = snd (read_config c)"
  by (auto simp: get_setting_def py_bind_def py_raise_def py_ret_def split: prod.splits sum.splits)

lemma snd_get_name [simp]: "snd (get_name_or_none key s c) = snd (read_config c)"
  by (auto simp: get_name_or_none_def py_bind_def py_raise_def py_ret_def
      split: prod.splits sum.splits pyval.splits)

lemma cache_ok_step: "conf_step c c' \<Longrightarrow> cache_ok c \<Longrightarrow> cache_ok c'"
  by (induction rule: conf_step.induct)
    (auto simp: read_config_eq reload_on_setting_changed_def config_reload_def, auto simp: cache_ok_def)

lemma reachable_cache_ok: "conf_reachable c \<Longrightarrow> cache_ok c"
proof (induction rule: conf_reachable.induct)
  case (start c)
  show ?case by (simp add: cache_ok_def config_init_def)
next
  case (step c c')
  then show ?case using cache_ok_step by blast
qed

text \<open>
  The cache is transparent: after any sequence of reads and of setting changes that
  Django announces, reading a key answers what the settings say at that moment: the
  configured value, its default, or \<^verbatim>\<open>RLSConfigurationError\<close> for a missing or \<open>None\<close> value.
\<close>

theorem config_cache_transparent:
  assumes "conf_reachable c"
  shows "fst (get_setting key dflt c) = setting_now c key dflt"
  using read_config_eq [OF reachable_cache_ok [OF assms]]
  by (simp add: get_setting_def setting_now_def py_bind_def py_raise_def py_ret_def Let_def)

fun read_all :: "(string \<times> pyval) list \<Rightarrow> conf \<Rightarrow> conf" where
  "read_all [] c = c"
| "read_all ((key, dflt) # ks) c = read_all ks (snd (get_setting key dflt c))"

lemma read_all_checked:
  "keys_checked c \<Longrightarrow> warned (read_all ks c) = warned c"
proof (induction ks arbitrary: c)
  case (Cons k ks)
  obtain key dflt where k: "k = (key, dflt)" by (cases k)
  have "keys_checked (snd (read_config c))" "warned (snd (read_config c)) = warned c"
    using Cons.prems by (simp_all add: read_config_def warn_unknown_keys_def Let_def)
  then show ?case using Cons.IH k by simp
qed simp

text \<open>
  A typo is reported once: from a new or reloaded configuration, any number of reads
  (one at least) warns about each unknown key exactly once, in order.
\<close>

theorem unknown_keys_reported_once:
  assumes "ks \<noteq> []"
  shows "warned (read_all ks (config_reload c)) = warned c @ unknown_keys (configured c) \<and>
         distinct (unknown_keys (configured c)) \<and>
         set (unknown_keys (configured c)) = fst ` set (configured c) - set known_keys"
proof -
  obtain key dflt ks' where ks: "ks = (key, dflt) # ks'" using assms by (cases ks) auto
  let ?c1 = "snd (read_config (config_reload c))"
  have "configured (config_reload c) = configured c" by (simp add: config_reload_def configured_def)
  then have "keys_checked ?c1" "warned ?c1 = warned c @ unknown_keys (configured c)"
    by (simp_all add: read_config_def config_reload_def warn_unknown_keys_def Let_def)
  then show ?thesis using read_all_checked [of ?c1 ks'] ks by (auto simp: unknown_keys_def)
qed
text \<open>A configuration read once, then overridden with a mistyped key.\<close>

definition demo_conf :: conf where
  "demo_conf = \<lparr>settings_rls = Some [(''TENANT_MODEL'', PStr ''app.Tenant'')], config_cache = None,
     keys_checked = False, warned = [], rls_models_cached = False, declared_names_cached = False\<rparr>"

definition demo_override :: conf where
  "demo_override = reload_on_setting_changed ''RLS_TENANTS''
     ((snd (get_setting ''TENANT_MODEL'' PNone (config_init demo_conf)))
        \<lparr>settings_rls := Some [(''STRICT_MOD'', PBool True)]\<rparr>)"

lemma config_cache_transparent_witness:
  "fst (get_setting ''TENANT_MODEL'' PNone demo_override) = Inl RLSConfigurationError \<and>
   fst (get_setting ''STRICT_MODE'' (PBool False) demo_override) = Inr (PBool False)"
proof -
  have "conf_reachable demo_override" unfolding demo_override_def
    by (rule conf_reachable.step [OF conf_reachable.step [OF conf_reachable.start conf_step.read]
          conf_step.change])
  moreover have "configured demo_override = [(''STRICT_MOD'', PBool True)]"
    by (simp add: demo_override_def reload_on_setting_changed_def config_reload_def configured_def)
  ultimately show ?thesis by (simp add: config_cache_transparent setting_now_def dict_get_def)
qed

lemma unknown_keys_reported_once_witness:
  "warned (read_all [(''TENANT_MODEL'', PNone), (''STRICT_MODE'', PBool False)]
     (config_reload (demo_conf\<lparr>settings_rls := Some [(''STRICT_MOD'', PBool True)]\<rparr>))) = [''STRICT_MOD'']"
  by (subst conjunct1 [OF unknown_keys_reported_once])
    (simp_all add: demo_conf_def configured_def unknown_keys_def known_keys_def)

end
