(* ===== verification/State.thy ===== *)
theory State
  imports Rls_Prelude
begin

text \<open>
  \<^verbatim>\<open>tenants/state.py\<close>: the tenant state of an execution context.  Python's \<^verbatim>\<open>contextvars\<close> are
  modelled as they behave: every \<^verbatim>\<open>Context\<close> (a thread's, a task's, a copy) maps the three
  variables to values, \<^verbatim>\<open>set\<close> returns a token that remembers the old value and the context,
  and \<^verbatim>\<open>reset\<close> refuses a token that was used before (\<^verbatim>\<open>RuntimeError\<close>) or made in another
  context (\<^verbatim>\<open>ValueError\<close>).  The \<^verbatim>\<open>_Live\<close> holders are objects shared between contexts, so they
  live in a store and the variable holds an address.
\<close>

subsection \<open>Tenants and GUC values\<close>

datatype tenant_id = TInt int | TStr string

fun tenant_str :: "tenant_id \<Rightarrow> string" where
  "tenant_str (TInt i) = show_int i"
| "tenant_str (TStr s) = s"

record context_gucs =
  g_is_admin :: string
  g_current_tenant :: string

definition gucs_for_tenant :: "tenant_id \<Rightarrow> context_gucs" where
  "gucs_for_tenant t = \<lparr>g_is_admin = ''false'', g_current_tenant = tenant_str t\<rparr>"

definition admin_gucs :: context_gucs where
  "admin_gucs = \<lparr>g_is_admin = ''true'', g_current_tenant = []\<rparr>"

subsection \<open>Contexts, holders, tokens\<close>

record live =
  l_values :: "context_gucs option"
  l_block :: bool
  l_alive :: bool
  l_serial :: nat

text \<open>The variables of one \<^verbatim>\<open>Context\<close>: \<^verbatim>\<open>_current_tenant_id\<close>, \<^verbatim>\<open>_rls_context_active\<close>, \<^verbatim>\<open>_context_gucs\<close>.\<close>

record ctx =
  c_tenant :: "tenant_id option"
  c_active :: bool
  c_gucs :: "nat option"

definition default_ctx :: ctx where
  "default_ctx = \<lparr>c_tenant = None, c_active = False, c_gucs = None\<rparr>"

text \<open>
  All contexts, the current one, the holders, the counter \<^verbatim>\<open>_serials\<close> (a new holder's address
  is its serial), and which tokens have been made and used.
\<close>

record rls_state =
  ctxs :: "nat \<Rightarrow> ctx"
  cur :: nat
  heap :: "nat \<Rightarrow> live option"
  serials :: nat
  tokens :: nat
  used :: "nat \<Rightarrow> bool"

record 'a token =
  t_id :: nat
  t_ctx :: nat
  t_old :: 'a

definition cur_ctx :: "('z) rls_state_scheme \<Rightarrow> ctx" where
  "cur_ctx s = ctxs s (cur s)"

definition upd_ctx :: "(ctx \<Rightarrow> ctx) \<Rightarrow> ('z) rls_state_scheme \<Rightarrow> ('z) rls_state_scheme" where
  "upd_ctx f s = s\<lparr>ctxs := (ctxs s)(cur s := f (cur_ctx s))\<rparr>"

text \<open>\<^verbatim>\<open>ContextVar.set\<close> and \<^verbatim>\<open>ContextVar.reset\<close>, for the variable that \<open>get\<close> and \<open>put\<close> access.\<close>

definition cv_set ::
  "(ctx \<Rightarrow> 'a) \<Rightarrow> ('a \<Rightarrow> ctx \<Rightarrow> ctx) \<Rightarrow> 'a \<Rightarrow> ('z) rls_state_scheme \<Rightarrow> 'a token \<times> ('z) rls_state_scheme" where
  "cv_set get put v s =
     (\<lparr>t_id = tokens s, t_ctx = cur s, t_old = get (cur_ctx s)\<rparr>,
      upd_ctx (put v) (s\<lparr>tokens := Suc (tokens s)\<rparr>))"

definition cv_reset ::
  "('a \<Rightarrow> ctx \<Rightarrow> ctx) \<Rightarrow> 'a token \<Rightarrow> (('z) rls_state_scheme, unit) py" where
  "cv_reset put t = (\<lambda>s.
     if used s (t_id t) then (Inl RuntimeError, s)
     else if t_ctx t \<noteq> cur s then (Inl ValueError, s)
     else (Inr (), upd_ctx (put (t_old t)) (s\<lparr>used := (used s)(t_id t := True)\<rparr>)))"

definition put_tenant :: "tenant_id option \<Rightarrow> ctx \<Rightarrow> ctx" where
  "put_tenant v c = c\<lparr>c_tenant := v\<rparr>"

definition put_active :: "bool \<Rightarrow> ctx \<Rightarrow> ctx" where
  "put_active v c = c\<lparr>c_active := v\<rparr>"

definition put_gucs :: "nat option \<Rightarrow> ctx \<Rightarrow> ctx" where
  "put_gucs v c = c\<lparr>c_gucs := v\<rparr>"

subsection \<open>The tenant and the flag\<close>

definition get_current_tenant_id :: "('z) rls_state_scheme \<Rightarrow> tenant_id option" where
  "get_current_tenant_id s = c_tenant (cur_ctx s)"

definition set_current_tenant_id where
  "set_current_tenant_id = cv_set c_tenant put_tenant"

definition reset_current_tenant_id where
  "reset_current_tenant_id = cv_reset put_tenant"

definition get_rls_context_active :: "('z) rls_state_scheme \<Rightarrow> bool" where
  "get_rls_context_active s = c_active (cur_ctx s)"

definition set_rls_context_active where
  "set_rls_context_active = cv_set c_active put_active"

definition reset_rls_context_active where
  "reset_rls_context_active = cv_reset put_active"

subsection \<open>The GUC values of the active context\<close>

record gucs_token =
  gt_token :: "nat option token"
  gt_live :: nat

text \<open>\<^verbatim>\<open>_Live.__init__\<close>: a new holder, alive, with the next serial.\<close>

definition new_live ::
  "context_gucs option \<Rightarrow> bool \<Rightarrow> ('z) rls_state_scheme \<Rightarrow> nat \<times> ('z) rls_state_scheme" where
  "new_live values block s =
     (serials s, s\<lparr>heap := (heap s)(serials s \<mapsto>
         \<lparr>l_values = values, l_block = block, l_alive = True, l_serial = serials s\<rparr>),
       serials := Suc (serials s)\<rparr>)"

text \<open>
  \<^verbatim>\<open>_Live.__ne__\<close>, which \<^verbatim>\<open>asgiref\<close> evaluates on the destination's holder (\<open>self\<close>) against the
  one to copy (\<open>other\<close>; \<open>None\<close> is not a holder).
\<close>

definition live_ne :: "('z) rls_state_scheme \<Rightarrow> nat \<Rightarrow> nat option \<Rightarrow> bool" where
  "live_ne s self other =
     (case other of
        None \<Rightarrow> True
      | Some a \<Rightarrow> if self = a then False else \<not> (\<exists>l. heap s a = Some l \<and> l_block l))"

definition values_of :: "('z) rls_state_scheme \<Rightarrow> nat option \<Rightarrow> context_gucs option" where
  "values_of s live =
     (case live of
        None \<Rightarrow> None
      | Some a \<Rightarrow> (case heap s a of None \<Rightarrow> None | Some l \<Rightarrow> if l_alive l then l_values l else None))"

definition current_live :: "('z) rls_state_scheme \<Rightarrow> nat option" where
  "current_live s = c_gucs (cur_ctx s)"

definition get_context_gucs :: "('z) rls_state_scheme \<Rightarrow> context_gucs option" where
  "get_context_gucs s = values_of s (current_live s)"

text \<open>\<^verbatim>\<open>live.alive = False\<close>.\<close>

definition end_live :: "nat \<Rightarrow> ('z) rls_state_scheme \<Rightarrow> ('z) rls_state_scheme" where
  "end_live a s = s\<lparr>heap := (heap s)(a := map_option (\<lambda>l. l\<lparr>l_alive := False\<rparr>) (heap s a))\<rparr>"

definition serial_of :: "('z) rls_state_scheme \<Rightarrow> nat \<Rightarrow> nat" where
  "serial_of s a = (case heap s a of None \<Rightarrow> 0 | Some l \<Rightarrow> l_serial l)"

definition end_if_newer ::
  "nat option \<Rightarrow> nat option \<Rightarrow> ('z) rls_state_scheme \<Rightarrow> ('z) rls_state_scheme" where
  "end_if_newer live than s =
     (case live of
        None \<Rightarrow> s
      | Some a \<Rightarrow>
          if live \<noteq> than \<and> (case than of None \<Rightarrow> True | Some b \<Rightarrow> serial_of s a > serial_of s b)
          then end_live a s else s)"

definition end_live_context :: "('z) rls_state_scheme \<Rightarrow> ('z) rls_state_scheme" where
  "end_live_context s = (case current_live s of None \<Rightarrow> s | Some a \<Rightarrow> end_live a s)"

definition set_context_gucs ::
  "context_gucs option \<Rightarrow> bool \<Rightarrow> ('z) rls_state_scheme \<Rightarrow> gucs_token \<times> ('z) rls_state_scheme" where
  "set_context_gucs values block s =
     (let (live, s1) = new_live values block s; (t, s2) = cv_set c_gucs put_gucs (Some live) s1
      in (\<lparr>gt_token = t, gt_live = live\<rparr>, s2))"

definition reset_context_gucs :: "gucs_token \<Rightarrow> (('z) rls_state_scheme, unit) py" where
  "reset_context_gucs entered = (\<lambda>s.
     let s1 = end_live (gt_live entered) s; current = current_live s1
     in case cv_reset put_gucs (gt_token entered) s1 of
          (Inr _, s2) \<Rightarrow> (Inr (), end_if_newer current (Some (gt_live entered)) s2)
        | (Inl e, s2) \<Rightarrow>
            if e = RuntimeError then (Inl RuntimeError, end_live_context s2) else (Inl e, s2))"

definition hold_context_gucs :: "('z) rls_state_scheme \<Rightarrow> gucs_token \<times> ('z) rls_state_scheme" where
  "hold_context_gucs s =
     (let (held, s1) = (case current_live s of None \<Rightarrow> new_live None True s | Some a \<Rightarrow> (a, s));
          (t, s2) = cv_set c_gucs put_gucs (Some held) s1
      in (\<lparr>gt_token = t, gt_live = held\<rparr>, s2))"

definition release_context_gucs :: "gucs_token \<Rightarrow> (('z) rls_state_scheme, unit) py" where
  "release_context_gucs held = (\<lambda>s.
     let current = current_live s
     in case cv_reset put_gucs (gt_token held) s of
          (Inr _, s1) \<Rightarrow> (Inr (), end_if_newer current (Some (gt_live held)) s1)
        | (Inl e, s1) \<Rightarrow> (Inl e, s1))"

definition clear_context_gucs :: "('z) rls_state_scheme \<Rightarrow> ('z) rls_state_scheme" where
  "clear_context_gucs s = snd (cv_set c_gucs put_gucs None (end_live_context s))"

subsection \<open>Context variables\<close>

text \<open>What a variable of a context promises the code that sets and resets it.\<close>

locale context_var =
  fixes get :: "ctx \<Rightarrow> 'a"
    and put :: "'a \<Rightarrow> ctx \<Rightarrow> ctx"
  assumes get_put: "get (put v c) = v"
    and put_put: "put v (put v' c) = put v c"
    and put_get: "put (get c) c = c"
begin

lemma get_after_set: "cv_set get put v s = (t, s') \<Longrightarrow> get (cur_ctx s') = v"
  by (auto simp: cv_set_def upd_ctx_def cur_ctx_def get_put)

text \<open>A fresh token resets the variable to what it was, in the context that set it.\<close>

lemma set_reset:
  assumes "cv_set get put v s = (t, s1)" and "ctxs s2 = ctxs s1" "cur s2 = cur s1"
    and "\<not> used s2 (tokens s)"
  shows "\<exists>s3. cv_reset put t s2 = (Inr (), s3) \<and> ctxs s3 = ctxs s \<and> cur s3 = cur s \<and>
           s3 = s2\<lparr>ctxs := ctxs s, used := (used s2)(tokens s := True)\<rparr>"
  using assms
  by (auto simp: cv_set_def cv_reset_def upd_ctx_def cur_ctx_def put_put put_get)

text \<open>A token is good once.\<close>

lemma reset_twice:
  assumes "cv_reset put t s = (Inr (), s')"
  shows "cv_reset put t s' = (Inl RuntimeError, s')"
  using assms by (auto simp: cv_reset_def upd_ctx_def split: if_splits)

text \<open>A token of another context changes nothing.\<close>

lemma reset_elsewhere:
  "t_ctx t \<noteq> cur s \<Longrightarrow> fst (cv_reset put t s) \<noteq> Inr () \<and> snd (cv_reset put t s) = s"
  by (simp add: cv_reset_def)

end

interpretation tenant_var: context_var c_tenant put_tenant
  by unfold_locales (simp_all add: put_tenant_def)

interpretation active_var: context_var c_active put_active
  by unfold_locales (simp_all add: put_active_def)

interpretation gucs_var: context_var c_gucs put_gucs
  by unfold_locales (simp_all add: put_gucs_def)

subsection \<open>Frames\<close>

lemma upd_ctx_frame [simp]:
  "heap (upd_ctx f s) = heap s" "serials (upd_ctx f s) = serials s" "cur (upd_ctx f s) = cur s"
  "tokens (upd_ctx f s) = tokens s" "used (upd_ctx f s) = used s"
  "ctxs (upd_ctx f s) (cur s) = f (ctxs s (cur s))"
  "cur_ctx (upd_ctx f s) = f (cur_ctx s)"
  by (simp_all add: upd_ctx_def cur_ctx_def)

lemma cv_set_frame [simp]:
  "heap (snd (cv_set get put v s)) = heap s" "serials (snd (cv_set get put v s)) = serials s"
  "cur (snd (cv_set get put v s)) = cur s"
  by (simp_all add: cv_set_def)

lemma cv_reset_frame [simp]:
  "heap (snd (cv_reset put t s)) = heap s" "serials (snd (cv_reset put t s)) = serials s"
  "cur (snd (cv_reset put t s)) = cur s"
  by (simp_all add: cv_reset_def)

lemma end_live_frame [simp]:
  "serials (end_live a s) = serials s" "ctxs (end_live a s) = ctxs s" "cur (end_live a s) = cur s"
  "tokens (end_live a s) = tokens s" "used (end_live a s) = used s"
  "current_live (end_live a s) = current_live s" "cur_ctx (end_live a s) = cur_ctx s"
  by (simp_all add: end_live_def current_live_def cur_ctx_def)

lemma heap_end_live: "b \<noteq> a \<Longrightarrow> heap (end_live a s) b = heap s b"
  by (simp add: end_live_def)

subsection \<open>Holders that have ended stay ended\<close>

definition dead :: "('z) rls_state_scheme \<Rightarrow> nat \<Rightarrow> bool" where
  "dead s a \<longleftrightarrow> (\<exists>l. heap s a = Some l \<and> \<not> l_alive l)"

lemma dead_no_values: "dead s a \<Longrightarrow> values_of s (Some a) = None"
  by (auto simp: dead_def values_of_def)

text \<open>The store is well formed: the holders are those made so far, and their serials their addresses.\<close>

definition heap_wf :: "('z) rls_state_scheme \<Rightarrow> bool" where
  "heap_wf s \<longleftrightarrow>
     (\<forall>a. heap s a \<noteq> None \<longleftrightarrow> a < serials s) \<and> (\<forall>a l. heap s a = Some l \<longrightarrow> l_serial l = a)"

lemma heap_wf_cong: "heap t = heap s \<Longrightarrow> serials t = serials s \<Longrightarrow> heap_wf t = heap_wf s"
  by (simp add: heap_wf_def)

lemma dead_cong: "heap t = heap s \<Longrightarrow> dead t = dead s"
  by (simp add: dead_def fun_eq_iff)

lemma serial_of_address: "heap_wf s \<Longrightarrow> a < serials s \<Longrightarrow> serial_of s a = a"
  unfolding heap_wf_def serial_of_def by (metis (no_types, lifting) option.case_eq_if option.collapse)

text \<open>The ways the store can change: nothing, a holder ended, a holder added.\<close>

definition heap_grows :: "('z) rls_state_scheme \<Rightarrow> ('y) rls_state_scheme \<Rightarrow> bool" where
  "heap_grows s t \<longleftrightarrow>
     (heap_wf s \<longrightarrow> heap_wf t \<and> serials s \<le> serials t \<and> (\<forall>a. dead s a \<longrightarrow> dead t a))"

lemma heap_grows_refl: "heap t = heap s \<Longrightarrow> serials t = serials s \<Longrightarrow> heap_grows s t"
  by (auto simp: heap_grows_def heap_wf_def dead_def)

lemma heap_grows_trans: "heap_grows s t \<Longrightarrow> heap_grows t u \<Longrightarrow> heap_grows s u"
  by (auto simp: heap_grows_def)

lemma heap_grows_end_live: "heap_grows s (end_live a s)"
  by (auto simp: heap_grows_def heap_wf_def dead_def end_live_def)

lemma dead_end_live: "heap s a \<noteq> None \<Longrightarrow> dead (end_live a s) a"
  by (auto simp: dead_def end_live_def)

lemma heap_grows_new_live: "heap_grows s (snd (new_live v b s))"
  unfolding heap_grows_def heap_wf_def dead_def new_live_def by auto

lemma heap_grows_cv [simp]:
  "heap_grows s (snd (cv_set get put v s))" "heap_grows s (snd (cv_reset put t s))"
  by (simp_all add: heap_grows_refl)

lemma heap_grows_end_if_newer: "heap_grows s (end_if_newer live than s)"
  by (auto simp: end_if_newer_def heap_grows_end_live heap_grows_refl split: option.splits)

lemma heap_grows_end_context: "heap_grows s (end_live_context s)"
  by (auto simp: end_live_context_def heap_grows_end_live heap_grows_refl split: option.splits)

lemma heap_grows_set: "heap_grows s (snd (set_context_gucs v b s))"
  unfolding set_context_gucs_def Let_def case_prod_unfold snd_conv
  by (rule heap_grows_trans [OF heap_grows_new_live heap_grows_cv(1)])

lemma heap_grows_reset: "heap_grows s (snd (reset_context_gucs e s))"
proof -
  let ?s1 = "end_live (gt_live e) s"
  obtain r s2 where r: "cv_reset put_gucs (gt_token e) ?s1 = (r, s2)" by (cases "cv_reset put_gucs (gt_token e) ?s1")
  have "heap_grows ?s1 s2" using heap_grows_cv(2) [of ?s1 put_gucs "gt_token e"] r by simp
  then have "heap_grows s s2" by (rule heap_grows_trans [OF heap_grows_end_live])
  then show ?thesis using r
    by (auto simp: reset_context_gucs_def Let_def split: sum.splits
        intro: heap_grows_trans heap_grows_end_if_newer heap_grows_end_context)
qed

lemma heap_grows_hold: "heap_grows s (snd (hold_context_gucs s))"
proof (cases "current_live s")
  case None
  then show ?thesis unfolding hold_context_gucs_def Let_def case_prod_unfold snd_conv
    by (simp add: heap_grows_trans [OF heap_grows_new_live heap_grows_cv(1)])
next
  case (Some a)
  then show ?thesis unfolding hold_context_gucs_def Let_def case_prod_unfold snd_conv by simp
qed

lemma heap_grows_release: "heap_grows s (snd (release_context_gucs h s))"
proof -
  obtain r s2 where r: "cv_reset put_gucs (gt_token h) s = (r, s2)" by (cases "cv_reset put_gucs (gt_token h) s")
  then have "heap_grows s s2" using heap_grows_cv(2) [of s put_gucs "gt_token h"] by simp
  then show ?thesis using r
    by (auto simp: release_context_gucs_def Let_def split: sum.splits
        intro: heap_grows_trans heap_grows_end_if_newer)
qed

lemma heap_grows_clear: "heap_grows s (clear_context_gucs s)"
  unfolding clear_context_gucs_def
  by (rule heap_grows_trans [OF heap_grows_end_context]) simp

subsection \<open>Everything that can happen to the state\<close>

text \<open>
  \<^verbatim>\<open>asgiref\<close> copies the values of one context into another where they differ, by \<^verbatim>\<open>!=\<close> on the
  destination's value: into a coroutine, and back from a hop (as \<^verbatim>\<open>_Live\<close> documents).
\<close>

definition holders_differ :: "('z) rls_state_scheme \<Rightarrow> nat option \<Rightarrow> nat option \<Rightarrow> bool" where
  "holders_differ s dst src = (case dst of None \<Rightarrow> src \<noteq> None | Some a \<Rightarrow> live_ne s a src)"

definition copy_holder :: "nat \<Rightarrow> nat \<Rightarrow> ('z) rls_state_scheme \<Rightarrow> ('z) rls_state_scheme" where
  "copy_holder src dst s =
     (if holders_differ s (c_gucs (ctxs s dst)) (c_gucs (ctxs s src))
      then s\<lparr>ctxs := (ctxs s)(dst := put_gucs (c_gucs (ctxs s src)) (ctxs s dst))\<rparr> else s)"

text \<open>
  One step: an operation of the module in the current context, with any token; another
  thread or task running; a copy of a context (\<^verbatim>\<open>copy_context()\<close>, a new task); a copy by
  \<^verbatim>\<open>asgiref\<close>.
\<close>

inductive cv_step :: "rls_state \<Rightarrow> rls_state \<Rightarrow> bool" where
  enter: "cv_step s (snd (set_context_gucs v b s))"
| exit: "cv_step s (snd (reset_context_gucs e s))"
| hold: "cv_step s (snd (hold_context_gucs s))"
| release: "cv_step s (snd (release_context_gucs e s))"
| clear: "cv_step s (clear_context_gucs s)"
| set_tenant: "cv_step s (snd (set_current_tenant_id v s))"
| reset_tenant: "cv_step s (snd (reset_current_tenant_id t s))"
| set_active: "cv_step s (snd (set_rls_context_active f s))"
| reset_active: "cv_step s (snd (reset_rls_context_active u s))"
| switch: "cv_step s (s\<lparr>cur := c\<rparr>)"
| copy: "cv_step s (s\<lparr>ctxs := (ctxs s)(c := ctxs s (cur s))\<rparr>)"
| asgiref: "cv_step s (copy_holder c d s)"

definition init_state :: rls_state where
  "init_state = \<lparr>ctxs = (\<lambda>_. default_ctx), cur = 0, heap = (\<lambda>_. None), serials = 0, tokens = 0,
     used = (\<lambda>_. False)\<rparr>"

inductive cv_reachable :: "rls_state \<Rightarrow> bool" where
  start: "cv_reachable init_state"
| step: "cv_reachable s \<Longrightarrow> cv_step s t \<Longrightarrow> cv_reachable t"

lemma cv_step_grows: "cv_step s t \<Longrightarrow> heap_grows s t"
proof (induction rule: cv_step.induct)
  case (asgiref s c d)
  show ?case by (rule heap_grows_refl) (simp_all add: copy_holder_def)
qed (simp_all add: heap_grows_set heap_grows_reset heap_grows_hold heap_grows_release heap_grows_clear
    set_current_tenant_id_def reset_current_tenant_id_def set_rls_context_active_def
    reset_rls_context_active_def heap_grows_refl)

lemma cv_steps_grow: "cv_step\<^sup>*\<^sup>* s t \<Longrightarrow> heap_grows s t"
  by (induction rule: rtranclp_induct) (auto intro: heap_grows_refl heap_grows_trans cv_step_grows)

lemma reachable_heap_wf: "cv_reachable s \<Longrightarrow> heap_wf s"
proof (induction rule: cv_reachable.induct)
  case start
  show ?case by (simp add: heap_wf_def init_state_def)
next
  case (step s t)
  then show ?case using cv_step_grows unfolding heap_grows_def by blast
qed

lemma reset_ends_own:
  assumes "heap_wf s" "gt_live e < serials s"
  shows "dead (snd (reset_context_gucs e s)) (gt_live e)"
proof -
  let ?s1 = "end_live (gt_live e) s"
  have own: "dead ?s1 (gt_live e)" using assms by (intro dead_end_live) (simp add: heap_wf_def)
  obtain r s2 where r: "cv_reset put_gucs (gt_token e) ?s1 = (r, s2)" by (cases "cv_reset put_gucs (gt_token e) ?s1")
  have h: "heap s2 = heap ?s1" "serials s2 = serials ?s1"
    using cv_reset_frame(1,2) [of put_gucs "gt_token e" ?s1] r by simp_all
  have wf1: "heap_wf ?s1" using assms heap_grows_end_live [of s "gt_live e"] by (simp add: heap_grows_def)
  then have wf2: "heap_wf s2" using h by (simp add: heap_wf_def)
  have d2: "dead s2 (gt_live e)" using own dead_cong [OF h(1)] by simp
  show ?thesis using r wf2 d2 heap_grows_end_if_newer heap_grows_end_context
    by (auto simp: reset_context_gucs_def Let_def heap_grows_def split: sum.splits) blast+
qed

text \<open>
  C20. A context that has ended is over everywhere, for good: once a block's exit has run, with
  whatever outcome, no context (the block's own, a task's or thread's copy, one that
  \<^verbatim>\<open>asgiref\<close> copied the holder into) reads the block's GUC values any more, after any further
  steps of any thread or task.
\<close>

theorem ended_block_is_over:
  assumes "cv_reachable s" and "gt_live e < serials s"
    and "reset_context_gucs e s = (r, s1)" and "cv_step\<^sup>*\<^sup>* s1 t"
    and "c_gucs (ctxs t c) = Some (gt_live e)"
  shows "values_of t (c_gucs (ctxs t c)) = None"
proof -
  have wf: "heap_wf s" using assms(1) by (rule reachable_heap_wf)
  have d: "dead s1 (gt_live e)" using reset_ends_own [OF wf assms(2)] assms(3) by simp
  have "heap_wf s1" using heap_grows_reset [of s e] wf assms(3) by (simp add: heap_grows_def)
  then have "dead t (gt_live e)" using cv_steps_grow [OF assms(4)] d by (simp add: heap_grows_def)
  then show ?thesis using assms(5) by (simp add: dead_no_values)
qed

text \<open>
  An exit ends the blocks inside it, never those around it: unless its token was used
  before, leaving a block keeps every older holder exactly as it was, also when blocks are
  left out of order; a newer holder that was current in its place is ended; and an exit in
  another context (which raises \<^verbatim>\<open>ValueError\<close>) touches no holder but the block's own.
\<close>

theorem exit_spares_enclosing_blocks:
  assumes "cv_reachable s" and "gt_live e < serials s"
    and out: "reset_context_gucs e s = (r, s1)" and "r \<noteq> Inl RuntimeError"
  shows "(\<forall>a < gt_live e. heap s1 a = heap s a) \<and>
         (r = Inl ValueError \<longrightarrow> (\<forall>a. a \<noteq> gt_live e \<longrightarrow> heap s1 a = heap s a)) \<and>
         (\<forall>a. r = Inr () \<and> current_live s = Some a \<and> gt_live e < a \<and> a < serials s \<longrightarrow> dead s1 a)"
proof -
  let ?s1 = "end_live (gt_live e) s"
  have wf: "heap_wf s" using assms(1) by (rule reachable_heap_wf)
  obtain q s2 where q: "cv_reset put_gucs (gt_token e) ?s1 = (q, s2)" by (cases "cv_reset put_gucs (gt_token e) ?s1")
  have h: "heap s2 = heap ?s1" "serials s2 = serials ?s1"
    using cv_reset_frame(1,2) [of put_gucs "gt_token e" ?s1] q by simp_all
  have "heap_wf ?s1" using wf heap_grows_end_live [of s "gt_live e"] by (simp add: heap_grows_def)
  then have wf2: "heap_wf s2" using h by (simp add: heap_wf_def)
  have ser: "serial_of s2 (gt_live e) = gt_live e"
    using serial_of_address [OF wf2] assms(2) h by simp
  show ?thesis
  proof (cases q)
    case (Inl x)
    then show ?thesis using q out assms(4) h
      by (auto simp: reset_context_gucs_def Let_def heap_end_live split: if_splits)
  next
    case (Inr u)
    then have s1: "r = Inr ()" "s1 = end_if_newer (current_live s) (Some (gt_live e)) s2"
      using q out by (auto simp: reset_context_gucs_def Let_def)
    have old: "heap s1 a = heap s a" if "a < gt_live e" for a
    proof (cases "current_live s")
      case None
      then show ?thesis using s1 h that by (simp add: end_if_newer_def heap_end_live)
    next
      case (Some b)
      show ?thesis
      proof (cases "b < serials s")
        case True
        then have "serial_of s2 b = b" using serial_of_address [OF wf2] h by simp
        then show ?thesis using s1 h that Some ser by (auto simp: end_if_newer_def heap_end_live)
      next
        case False
        then have "heap s2 b = None" using wf2 h by (auto simp: heap_wf_def)
        then have "serial_of s2 b = 0" by (simp add: serial_of_def)
        then show ?thesis using s1 h that Some ser by (auto simp: end_if_newer_def heap_end_live)
      qed
    qed
    have new: "dead s1 a" if "current_live s = Some a" "gt_live e < a" "a < serials s" for a
    proof -
      have "serial_of s2 a = a" using serial_of_address [OF wf2] h that by simp
      moreover have "heap s2 a \<noteq> None" using wf2 h that by (simp add: heap_wf_def)
      ultimately show ?thesis using s1 that ser by (auto simp: end_if_newer_def intro: dead_end_live)
    qed
    show ?thesis using old new s1 by auto
  qed
qed

text \<open>
  \<^verbatim>\<open>asgiref\<close> cannot put one block in another's place: copying a context that is inside a
  block into one that has a holder changes nothing, and into one without gives it the block's.
\<close>

theorem copied_block_never_replaces:
  assumes "c_gucs (ctxs s src) = Some b" and "heap s b = Some l" and "l_block l"
  shows "c_gucs (ctxs (copy_holder src dst s) dst) =
           (case c_gucs (ctxs s dst) of None \<Rightarrow> Some b | Some a \<Rightarrow> Some a)"
  using assms
  by (auto simp: copy_holder_def holders_differ_def live_ne_def put_gucs_def split: option.splits)

subsection \<open>Examples of these hypotheses\<close>

text \<open>An outer and an inner block entered in one context, and a second context that copied them.\<close>

definition demo_outer :: "gucs_token \<times> rls_state" where
  "demo_outer = set_context_gucs (Some (gucs_for_tenant (TInt 1))) True init_state"

definition demo_inner :: "gucs_token \<times> rls_state" where
  "demo_inner = set_context_gucs (Some admin_gucs) True (snd demo_outer)"

definition demo_copied :: rls_state where
  "demo_copied = (snd demo_inner)\<lparr>ctxs := (ctxs (snd demo_inner))(7 := ctxs (snd demo_inner) (cur (snd demo_inner)))\<rparr>"

lemma demo_reachable: "cv_reachable (snd demo_inner)" "cv_reachable demo_copied"
proof -
  have "cv_reachable (snd demo_outer)"
    unfolding demo_outer_def by (rule cv_reachable.step [OF cv_reachable.start cv_step.enter])
  then show *: "cv_reachable (snd demo_inner)"
    unfolding demo_inner_def by (rule cv_reachable.step [OF _ cv_step.enter])
  show "cv_reachable demo_copied"
    unfolding demo_copied_def using * by (rule cv_reachable.step) (rule cv_step.copy)
qed

lemmas demo_defs = demo_copied_def demo_inner_def demo_outer_def set_context_gucs_def new_live_def
  cv_set_def upd_ctx_def cur_ctx_def init_state_def default_ctx_def put_gucs_def Let_def

lemma demo_facts:
  "gt_live (fst demo_inner) = 1" "gt_live (fst demo_outer) = 0"
  "serials demo_copied = 2" "serials (snd demo_inner) = 2"
  "current_live (snd demo_inner) = Some 1" "current_live demo_copied = Some 1"
  "c_gucs (ctxs demo_copied 7) = Some 1" "cur demo_copied = 0"
  by (simp_all add: demo_defs current_live_def)

text \<open>An exit changes the variable of its own context only, and raises what the reset raises.\<close>

lemma reset_elsewhere_ctx:
  assumes "c \<noteq> cur s"
  shows "ctxs (snd (reset_context_gucs e s)) c = ctxs s c"
proof -
  have cv: "ctxs (snd (cv_reset put_gucs (gt_token e) t)) c = ctxs t c" if "cur t = cur s" for t :: "'a rls_state_scheme"
    using assms that by (simp add: cv_reset_def upd_ctx_def)
  have fin: "ctxs (end_if_newer l t u) c = ctxs u c" "ctxs (end_live_context u) c = ctxs u c"
    for l t and u :: "'a rls_state_scheme"
    by (simp_all add: end_if_newer_def end_live_context_def split: option.splits)
  show ?thesis using cv [of "end_live (gt_live e) s"]
    by (auto simp: reset_context_gucs_def Let_def fin split: sum.splits prod.splits)
qed

lemma fst_reset_context_gucs:
  "fst (reset_context_gucs e s) = fst (cv_reset put_gucs (gt_token e) (end_live (gt_live e) s))"
  by (auto simp: reset_context_gucs_def Let_def split: sum.splits prod.splits)

lemma ended_block_is_over_witness:
  "\<exists>r t. reset_context_gucs (fst demo_inner) demo_copied = (r, t) \<and>
     c_gucs (ctxs t 7) = Some (gt_live (fst demo_inner)) \<and> values_of t (c_gucs (ctxs t 7)) = None"
proof -
  obtain r t where t: "reset_context_gucs (fst demo_inner) demo_copied = (r, t)"
    by (cases "reset_context_gucs (fst demo_inner) demo_copied")
  have "c_gucs (ctxs t 7) = c_gucs (ctxs demo_copied 7)"
    using reset_elsewhere_ctx [of 7 demo_copied "fst demo_inner"] t by (simp add: demo_facts)
  then have c: "c_gucs (ctxs t 7) = Some (gt_live (fst demo_inner))" by (simp add: demo_facts)
  have "values_of t (c_gucs (ctxs t 7)) = None"
    by (rule ended_block_is_over [OF demo_reachable(2) _ t rtranclp.rtrancl_refl c]) (simp add: demo_facts)
  with t c show ?thesis by blast
qed

lemma exit_spares_enclosing_blocks_witness:
  "\<exists>s1. reset_context_gucs (fst demo_outer) (snd demo_inner) = (Inr (), s1) \<and> dead s1 1"
proof -
  obtain r s1 where s1: "reset_context_gucs (fst demo_outer) (snd demo_inner) = (r, s1)"
    by (cases "reset_context_gucs (fst demo_outer) (snd demo_inner)")
  have tok: "t_ctx (gt_token (fst demo_outer)) = 0" "cur (snd demo_inner) = 0"
    "used (snd demo_inner) = (\<lambda>_. False)"
    by (simp_all add: demo_defs)
  have "fst (reset_context_gucs (fst demo_outer) (snd demo_inner)) = Inr ()"
    unfolding fst_reset_context_gucs by (simp add: cv_reset_def tok)
  then have r: "r = Inr ()" using s1 by simp
  have lt: "gt_live (fst demo_outer) < serials (snd demo_inner)" by (simp add: demo_facts)
  have ne: "r \<noteq> Inl RuntimeError" using r by simp
  from exit_spares_enclosing_blocks [OF demo_reachable(1) lt s1 ne] r
  have "dead s1 1" by (simp add: demo_facts)
  with s1 r show ?thesis by blast
qed

lemma copied_block_never_replaces_witness:
  "c_gucs (ctxs (copy_holder 0 3 demo_copied) 3) = Some 1 \<and>
   c_gucs (ctxs (copy_holder 0 7 demo_copied) 7) = Some 1"
proof -
  have b: "c_gucs (ctxs demo_copied 0) = Some 1" by (simp add: demo_defs)
  have "\<exists>l. heap demo_copied 1 = Some l \<and> l_block l" by (simp add: demo_defs)
  then obtain l where l: "heap demo_copied 1 = Some l" "l_block l" by blast
  have "c_gucs (ctxs demo_copied 3) = None" by (simp add: demo_defs)
  with copied_block_never_replaces [OF b l, of 3] copied_block_never_replaces [OF b l, of 7]
  show ?thesis by (simp add: demo_facts)
qed

end
