(* ===== verification/Sql_Statement.thy ===== *)
theory Sql_Statement
  imports Rls_Prelude
begin

text \<open>
  The SQL reader of \<^verbatim>\<open>tenants/affinity.py\<close>: the first words of a statement, read without its
  leading comments (\<^verbatim>\<open>_parse\<close>, \<^verbatim>\<open>_skip_leading_comments\<close>), the statements that only control the
  transaction, those PostgreSQL may refuse in one, and the name of a savepoint.  The comment
  skipper is compared with a grammar of PostgreSQL's white space and nested comments.
\<close>

subsection \<open>String methods\<close>

fun lstrip :: "string \<Rightarrow> string" where
  "lstrip (c # cs) = (if is_space c then lstrip cs else c # cs)"
| "lstrip [] = []"

definition rstrip_char :: "char \<Rightarrow> string \<Rightarrow> string" where
  "rstrip_char c s = rev (dropWhile (\<lambda>x. x = c) (rev s))"

definition starts_with :: "string \<Rightarrow> string \<Rightarrow> bool" where
  "starts_with p s \<longleftrightarrow> take (length p) s = p"

text \<open>\<^verbatim>\<open>s.split()\<close>: the maximal runs of characters that are not white space.\<close>

fun split_ws :: "string \<Rightarrow> string \<Rightarrow> string list" where
  "split_ws w [] = (if w = [] then [] else [w])"
| "split_ws w (c # cs) =
     (if is_space c then (if w = [] then split_ws [] cs else w # split_ws [] cs)
      else split_ws (w @ [c]) cs)"

definition py_split :: "string \<Rightarrow> string list" where
  "py_split s = split_ws [] s"

definition ascii_upper :: "char \<Rightarrow> char" where
  "ascii_upper c = (let n = (of_char c :: nat) in if 97 \<le> n \<and> n \<le> 122 then char_of (n - 32) else c)"

definition ascii_lower :: "char \<Rightarrow> char" where
  "ascii_lower c = (let n = (of_char c :: nat) in if 65 \<le> n \<and> n \<le> 90 then char_of (n + 32) else c)"

definition upper :: "string \<Rightarrow> string" where
  "upper s = map ascii_upper s"

text \<open>\<^verbatim>\<open>xs.index(x)\<close>, or none (\<^verbatim>\<open>ValueError\<close>).\<close>

fun index_of :: "'a \<Rightarrow> 'a list \<Rightarrow> nat option" where
  "index_of x [] = None"
| "index_of x (y # ys) = (if y = x then Some 0 else map_option Suc (index_of x ys))"

subsection \<open>Comments\<close>

text \<open>The rest of the text after the end of a block comment open to some depth.\<close>

fun skip_block :: "nat \<Rightarrow> string \<Rightarrow> string" where
  "skip_block 0 s = s"
| "skip_block (Suc d) (c # e # s) =
     (if c = CHR ''/'' \<and> e = CHR ''*'' then skip_block (Suc (Suc d)) s
      else if c = CHR ''*'' \<and> e = CHR ''/'' then skip_block d s
      else skip_block (Suc d) (e # s))"
| "skip_block (Suc d) [c] = []"
| "skip_block (Suc d) [] = []"

text \<open>The rest of the text after the next newline; nothing without one.\<close>

fun skip_line :: "string \<Rightarrow> string" where
  "skip_line [] = []"
| "skip_line (c # cs) = (if c = newline then cs else skip_line cs)"

lemma length_skip_block: "length (skip_block d s) \<le> length s"
  by (induction d s rule: skip_block.induct) auto

lemma length_skip_line: "length (skip_line s) \<le> length s"
  by (induction s) auto

lemma length_lstrip: "length (lstrip s) \<le> length s"
  by (induction s) auto

text \<open>The loop of \<^verbatim>\<open>_skip_leading_comments\<close>, on text without leading white space.\<close>

function skip_comments :: "string \<Rightarrow> string" where
  "skip_comments s =
     (if starts_with ''--'' s then skip_comments (lstrip (skip_line s))
      else if starts_with ''/*'' s then skip_comments (lstrip (skip_block 1 (drop 2 s)))
      else s)"
  by pat_completeness auto

lemma skip_line_shorter: "starts_with ''--'' s \<Longrightarrow> length (skip_line s) < length s"
  using length_skip_line [of "drop 1 s"]
  by (cases s) (auto simp: starts_with_def newline_def)

lemma skip_block_shorter: "starts_with ''/*'' s \<Longrightarrow> length (skip_block 1 (drop 2 s)) < length s"
  using length_skip_block [of 1 "drop 2 s"]
  by (cases s) (auto simp: starts_with_def)

termination skip_comments
  by (relation "measure length")
    (auto intro: le_less_trans [OF length_lstrip] simp: skip_line_shorter skip_block_shorter [unfolded One_nat_def])

declare skip_comments.simps [simp del]

definition skip_leading_comments :: "string \<Rightarrow> string" where
  "skip_leading_comments sql = skip_comments (lstrip sql)"

subsection \<open>Statements\<close>

record parsed =
  st_command :: string
  st_words :: "string list"
  st_compound :: bool

definition sql_head :: nat where
  "sql_head = 256"

text \<open>
  What is passed to the guard as a statement: text, bytes, a composition that the driver
  renders (or fails to), or anything else.
\<close>

datatype sql_arg =
    SqlText string
  | SqlBytes string
  | SqlComposed "string option"
  | SqlOther

fun sql_text_of :: "sql_arg \<Rightarrow> string option" where
  "sql_text_of (SqlText s) = Some s"
| "sql_text_of (SqlBytes s) = Some s"
| "sql_text_of (SqlComposed r) = r"
| "sql_text_of SqlOther = None"

definition compound_sql :: "string \<Rightarrow> bool" where
  "compound_sql sql \<longleftrightarrow>
     (\<exists>c \<in> set (dropWhile (\<lambda>c. c \<noteq> CHR '';'') sql). c \<notin> set [CHR '';'', CHR '' '', CHR 0x09, CHR 0x0D, newline])"

definition parse_head :: "string \<Rightarrow> string" where
  "parse_head sql =
     (let text = skip_leading_comments (take sql_head sql)
      in if text = [] \<and> length sql > sql_head then take sql_head (skip_leading_comments sql) else text)"

definition parse_sql :: "sql_arg \<Rightarrow> parsed option" where
  "parse_sql arg =
     (case sql_text_of arg of
        None \<Rightarrow> None
      | Some sql \<Rightarrow>
          (case py_split (parse_head sql) of
             [] \<Rightarrow> if list_all is_space sql
                    then Some \<lparr>st_command = [], st_words = [], st_compound = False\<rparr> else None
           | w # ws \<Rightarrow>
               Some \<lparr>st_command = upper (rstrip_char CHR '';'' w), st_words = w # ws,
                     st_compound = compound_sql sql\<rparr>))"

definition transaction_control :: "string list" where
  "transaction_control = [''ABORT'', ''BEGIN'', ''COMMIT'', ''END'', ''PREPARE'', ''RELEASE'',
     ''ROLLBACK'', ''SAVEPOINT'', ''START'']"

definition followed :: "string list" where
  "followed = transaction_control @ [''DISCARD'', ''RESET'']"

definition no_transaction_commands :: "string list" where
  "no_transaction_commands = [''CLUSTER'', ''DISCARD'', ''REINDEX'', ''VACUUM'']"

definition no_transaction_objects :: "string list" where
  "no_transaction_objects = [''DATABASE'', ''SUBSCRIPTION'', ''SYSTEM'', ''TABLESPACE'']"

definition ddl_commands :: "string list" where
  "ddl_commands = [''ALTER'', ''CREATE'', ''DROP'']"

text \<open>\<open>words\<close> are the words after the command; \<^verbatim>\<open>words[d + 1 : d + 4 : 2]\<close> are those at \<open>d + 1\<close> and \<open>d + 3\<close>.\<close>

definition refused_ddl :: "string \<Rightarrow> string list \<Rightarrow> bool" where
  "refused_ddl command words =
     (if words \<noteq> [] \<and> hd words \<in> set no_transaction_objects then True
      else if command \<noteq> ''ALTER''
      then take 2 words = [''INDEX'', ''CONCURRENTLY''] \<or>
           take 3 words = [''UNIQUE'', ''INDEX'', ''CONCURRENTLY'']
      else (case index_of ''DETACH'' words of
              None \<Rightarrow> False
            | Some d \<Rightarrow> d + 3 < length words \<and> words ! (d + 1) = ''PARTITION'' \<and>
                        words ! (d + 3) = ''CONCURRENTLY''))"

definition refused_in_a_transaction :: "parsed option \<Rightarrow> bool" where
  "refused_in_a_transaction st =
     (case st of
        None \<Rightarrow> False
      | Some s \<Rightarrow>
          (let command = takeWhile (\<lambda>c. c \<noteq> CHR ''('') (st_command s)
           in if command \<in> set ddl_commands
              then refused_ddl command (map (\<lambda>w. upper (rstrip_char CHR '';'' w)) (drop 1 (st_words s)))
              else command \<in> set no_transaction_commands))"

definition controls_the_transaction :: "parsed option \<Rightarrow> bool" where
  "controls_the_transaction st =
     (case st of
        None \<Rightarrow> False
      | Some s \<Rightarrow>
          \<not> st_compound s \<and>
          (st_command s \<in> set transaction_control \<or>
           st_command s = ''SET'' \<and> map upper (take 1 (drop 1 (st_words s))) = [''TRANSACTION'']))"

text \<open>\<^verbatim>\<open>s.replace('""', '"')\<close>, left to right.\<close>

fun undouble_quotes :: "string \<Rightarrow> string" where
  "undouble_quotes (x # y # zs) =
     (if x = CHR 0x22 \<and> y = CHR 0x22 then x # undouble_quotes zs else x # undouble_quotes (y # zs))"
| "undouble_quotes s = s"

definition sql_identifier :: "string \<Rightarrow> string" where
  "sql_identifier w =
     (let word = rstrip_char CHR '';'' w
      in if length word > 1 \<and> hd word = last word \<and> last word = CHR 0x22
         then undouble_quotes (butlast (tl word)) else map ascii_lower word)"

text \<open>\<open>after\<close> is one of the words (the code only asks for a word it has seen).\<close>

definition savepoint_name :: "string list \<Rightarrow> string \<Rightarrow> string option" where
  "savepoint_name words after =
     (case index_of after (map upper words) of
        None \<Rightarrow> None
      | Some i \<Rightarrow>
          (let index = (if after \<noteq> ''SAVEPOINT'' \<and> i + 1 < length words \<and>
                           upper (words ! (i + 1)) = ''SAVEPOINT''
                        then i + 2 else i + 1)
           in if index + 1 \<noteq> length words then None else Some (sql_identifier (words ! index))))"

subsection \<open>The grammar of what may stand before a statement\<close>

text \<open>
  The text of a block comment after its opening, up to and including the end that closes it;
  comments nest.
\<close>

inductive comment_body :: "string \<Rightarrow> bool" where
  close: "comment_body ''*/''"
| nest: "comment_body s \<Longrightarrow> comment_body t \<Longrightarrow> comment_body (''/*'' @ s @ t)"
| plain: "comment_body (e # s) \<Longrightarrow> (c, e) \<noteq> (CHR ''/'', CHR ''*'') \<Longrightarrow> (c, e) \<noteq> (CHR ''*'', CHR ''/'') \<Longrightarrow>
    comment_body (c # e # s)"

inductive ignorable :: "string \<Rightarrow> bool" where
  none: "ignorable []"
| white: "is_space c \<Longrightarrow> ignorable s \<Longrightarrow> ignorable (c # s)"
| line: "newline \<notin> set l \<Longrightarrow> ignorable s \<Longrightarrow> ignorable (''--'' @ l @ newline # s)"
| block: "comment_body b \<Longrightarrow> ignorable s \<Longrightarrow> ignorable (''/*'' @ b @ s)"

definition starts_statement :: "string \<Rightarrow> bool" where
  "starts_statement t \<longleftrightarrow> \<not> (t \<noteq> [] \<and> is_space (hd t)) \<and> \<not> starts_with ''--'' t \<and> \<not> starts_with ''/*'' t"

lemma comment_body_nonempty [simp]: "\<not> comment_body []"
  by (auto elim: comment_body.cases)

lemma skip_block_body: "comment_body b \<Longrightarrow> skip_block (Suc d) (b @ s) = skip_block d s"
  by (induction b arbitrary: d s rule: comment_body.induct) auto

lemma skip_line_comment: "newline \<notin> set l \<Longrightarrow> skip_line (l @ newline # s) = s"
  by (induction l) auto

lemma is_space_comment [simp]: "\<not> is_space CHR ''-''" "\<not> is_space CHR ''/''"
  by (simp_all add: is_space_def)

lemma starts_with_simps [simp]:
  "starts_with [] s" "starts_with (c # p) (d # s) \<longleftrightarrow> c = d \<and> starts_with p s"
  "\<not> starts_with (c # p) []"
  by (auto simp: starts_with_def)

lemma skip_comments_line:
  "skip_comments (CHR ''-'' # CHR ''-'' # s) = skip_leading_comments (skip_line (CHR ''-'' # CHR ''-'' # s))"
  by (subst skip_comments.simps) (simp add: skip_leading_comments_def)

lemma skip_comments_block:
  "skip_comments (CHR ''/'' # CHR ''*'' # s) = skip_leading_comments (skip_block 1 s)"
  by (subst skip_comments.simps) (simp add: skip_leading_comments_def)

lemma skip_comments_statement: "starts_statement t \<Longrightarrow> skip_comments t = t"
  by (subst skip_comments.simps) (simp add: starts_statement_def)

lemma lstrip_statement: "starts_statement t \<Longrightarrow> lstrip t = t"
  by (cases t) (auto simp: starts_statement_def)

lemma skip_ignorable:
  "ignorable p \<Longrightarrow> starts_statement t \<Longrightarrow> skip_leading_comments (p @ t) = t"
proof (induction p rule: ignorable.induct)
  case none
  then show ?case by (simp add: skip_leading_comments_def lstrip_statement skip_comments_statement)
next
  case (white c s)
  then show ?case by (simp add: skip_leading_comments_def)
next
  case (line l s)
  have "skip_line (CHR ''-'' # CHR ''-'' # l @ newline # s @ t) = s @ t"
    using line(1) skip_line_comment [of "CHR ''-'' # CHR ''-'' # l" "s @ t"]
    by (simp add: newline_def)
  with line show ?case by (simp add: skip_leading_comments_def [of "CHR ''-'' # _"] skip_comments_line)
next
  case (block b s)
  then show ?case using skip_block_body [of b 0 "s @ t"]
    by (simp add: skip_leading_comments_def [of "CHR ''/'' # _"] skip_comments_block)
qed

text \<open>Backwards: what was skipped is a sequence of comments and white space.\<close>

lemma skip_block_closed:
  "skip_block d s \<noteq> [] \<Longrightarrow>
     \<exists>bs. length bs = d \<and> (\<forall>b \<in> set bs. comment_body b) \<and> s = concat bs @ skip_block d s"
proof (induction d s rule: skip_block.induct)
  case (2 d c e s)
  consider (nested) "c = CHR ''/'' \<and> e = CHR ''*''" | (ends) "c = CHR ''*'' \<and> e = CHR ''/''"
    | (plain) "\<not> (c = CHR ''/'' \<and> e = CHR ''*'')" "\<not> (c = CHR ''*'' \<and> e = CHR ''/'')" by blast
  then show ?case
  proof cases
    case nested
    with 2 obtain bs where bs: "length bs = Suc (Suc d)" "\<forall>b \<in> set bs. comment_body b"
      "s = concat bs @ skip_block (Suc (Suc d)) s" by auto
    then obtain x y zs where "bs = x # y # zs" by (metis length_Suc_conv)
    with bs nested comment_body.nest [of x y] show ?thesis
      by (intro exI [of _ "(''/*'' @ x @ y) # zs"]) auto
  next
    case ends
    with 2 obtain bs where bs: "length bs = d" "\<forall>b \<in> set bs. comment_body b"
      "s = concat bs @ skip_block d s" by auto
    with ends comment_body.close show ?thesis by (intro exI [of _ "''*/'' # bs"]) auto
  next
    case plain
    with 2 obtain bs where bs: "length bs = Suc d" "\<forall>b \<in> set bs. comment_body b"
      "e # s = concat bs @ skip_block (Suc d) (e # s)" by auto
    then obtain x zs where x: "bs = x # zs" by (metis length_Suc_conv)
    with bs(2) have "comment_body x" "x \<noteq> []" by auto
    with bs(3) x obtain x' where x': "x = e # x'" by (cases x) auto
    have "comment_body (c # x)"
      using \<open>comment_body x\<close> plain unfolding x' by (intro comment_body.plain) auto
    with bs x plain show ?thesis by (intro exI [of _ "(c # x) # zs"]) auto
  qed
qed auto

lemma skip_line_closed:
  "skip_line s \<noteq> [] \<Longrightarrow> \<exists>l. newline \<notin> set l \<and> s = l @ newline # skip_line s"
proof (induction s)
  case (Cons c cs)
  show ?case
  proof (cases "c = newline")
    case False
    with Cons obtain l where "newline \<notin> set l" "cs = l @ newline # skip_line cs" by auto
    with False show ?thesis by (intro exI [of _ "c # l"]) auto
  qed (auto intro: exI [of _ "[]"])
qed simp

lemma lstrip_split: "\<exists>w. list_all is_space w \<and> s = w @ lstrip s"
proof (induction s)
  case (Cons c cs)
  then obtain w where w: "list_all is_space w" "cs = w @ lstrip cs" by auto
  show ?case
  proof (cases "is_space c")
    case True
    with w show ?thesis by (intro exI [of _ "c # w"]) simp
  qed (auto intro: exI [of _ "[]"])
qed simp

lemma ignorable_white: "list_all is_space w \<Longrightarrow> ignorable s \<Longrightarrow> ignorable (w @ s)"
  by (induction w) (auto intro: ignorable.white)

lemma lstrip_hd: "lstrip s \<noteq> [] \<Longrightarrow> \<not> is_space (hd (lstrip s))"
  by (induction s) auto

lemma skip_comments_ignorable:
  "skip_comments s \<noteq> [] \<Longrightarrow> (s \<noteq> [] \<longrightarrow> \<not> is_space (hd s)) \<Longrightarrow>
     (\<exists>p. ignorable p \<and> s = p @ skip_comments s) \<and> starts_statement (skip_comments s)"
proof (induction s rule: skip_comments.induct)
  case (1 s)
  consider (line) "starts_with ''--'' s" | (block) "\<not> starts_with ''--'' s" "starts_with ''/*'' s"
    | (stop) "\<not> starts_with ''--'' s" "\<not> starts_with ''/*'' s" by blast
  then show ?case
  proof cases
    case line
    let ?r = "lstrip (skip_line s)"
    have eq: "skip_comments s = skip_comments ?r" using line by (subst skip_comments.simps) simp
    then have ih: "\<exists>p. ignorable p \<and> ?r = p @ skip_comments ?r" "starts_statement (skip_comments ?r)"
      using 1 line lstrip_hd [of "skip_line s"] by auto
    then obtain p where p: "ignorable p" "?r = p @ skip_comments ?r" by blast
    have "skip_comments [] = []" by (subst skip_comments.simps) simp
    then have "skip_line s \<noteq> []" using 1(3) eq by auto
    then obtain l where l: "newline \<notin> set l" "s = l @ newline # skip_line s"
      using skip_line_closed by blast
    obtain w where w: "list_all is_space w" "skip_line s = w @ ?r" using lstrip_split by blast
    have "starts_with ''--'' (l @ newline # skip_line s)" using line l(2) by simp
    then obtain l' where l': "l = ''--'' @ l'"
      by (cases l; cases "tl l") (auto simp: newline_def)
    have "ignorable (''--'' @ l' @ newline # (w @ p))"
      using l(1) l' ignorable_white [OF w(1) p(1)] by (intro ignorable.line) auto
    moreover have "s = (''--'' @ l' @ newline # (w @ p)) @ skip_comments s"
      using l(2) w(2) p(2) l' eq by (metis append.assoc append_Cons)
    ultimately show ?thesis using ih(2) eq by metis
  next
    case block
    let ?r = "lstrip (skip_block 1 (drop 2 s))"
    have eq: "skip_comments s = skip_comments ?r" using block by (subst skip_comments.simps) simp
    then have ih: "\<exists>p. ignorable p \<and> ?r = p @ skip_comments ?r" "starts_statement (skip_comments ?r)"
      using 1 block lstrip_hd [of "skip_block 1 (drop 2 s)"] by auto
    then obtain p where p: "ignorable p" "?r = p @ skip_comments ?r" by blast
    have "skip_comments [] = []" by (subst skip_comments.simps) simp
    then have "skip_block 1 (drop 2 s) \<noteq> []" using 1(3) eq by auto
    then obtain bs where bs: "length bs = 1" "\<forall>b \<in> set bs. comment_body b"
      "drop 2 s = concat bs @ skip_block 1 (drop 2 s)" using skip_block_closed by blast
    from bs(1) obtain b where b: "bs = [b]" by (auto simp: length_Suc_conv)
    obtain w where w: "list_all is_space w" "skip_block 1 (drop 2 s) = w @ ?r" using lstrip_split by blast
    have "take 2 s = ''/*''" using block(2) by (simp add: starts_with_def numeral_2_eq_2)
    then have s: "s = ''/*'' @ drop 2 s" using append_take_drop_id [of 2 s] by simp
    have "ignorable (''/*'' @ b @ (w @ p))"
      using bs(2) b ignorable_white [OF w(1) p(1)] by (intro ignorable.block) auto
    moreover have "s = (''/*'' @ b @ (w @ p)) @ skip_comments s"
    proof -
      have body: "drop 2 s = b @ skip_block 1 (drop 2 s)" using bs(3) unfolding b by simp
      have "skip_block 1 (drop 2 s) = w @ p @ skip_comments s" using w(2) p(2) eq by metis
      then have "drop 2 s = b @ w @ p @ skip_comments s" using body by metis
      then show ?thesis using s by (metis append.assoc)
    qed
    ultimately show ?thesis using ih(2) eq by metis
  next
    case stop
    then have "skip_comments s = s" by (subst skip_comments.simps) simp
    with 1(3,4) stop show ?thesis by (auto simp: starts_statement_def intro: ignorable.none)
  qed
qed

text \<open>
  \<^verbatim>\<open>_skip_leading_comments\<close> finds exactly the statement: it answers a non-empty \<open>t\<close> precisely
  when the text is white space, line comments and closed, possibly nested block comments
  followed by \<open>t\<close>, and \<open>t\<close> begins with none of these; text that is only those, or that ends inside
  a comment, gives nothing.
\<close>

theorem skip_leading_comments_exact:
  "(skip_leading_comments s = t \<and> t \<noteq> []) \<longleftrightarrow>
     (\<exists>p. ignorable p \<and> s = p @ t) \<and> starts_statement t \<and> t \<noteq> []"
proof
  assume t: "skip_leading_comments s = t \<and> t \<noteq> []"
  obtain w where w: "list_all is_space w" "s = w @ lstrip s" using lstrip_split by blast
  from t have "skip_comments (lstrip s) \<noteq> []" by (simp add: skip_leading_comments_def)
  then obtain p where p: "ignorable p" "lstrip s = p @ t" "starts_statement t"
    using skip_comments_ignorable [of "lstrip s"] lstrip_hd [of s] t
    by (auto simp: skip_leading_comments_def)
  from w p have "ignorable (w @ p)" "s = (w @ p) @ t" by (auto intro: ignorable_white)
  with p(3) t show "(\<exists>p. ignorable p \<and> s = p @ t) \<and> starts_statement t \<and> t \<noteq> []" by blast
next
  assume "(\<exists>p. ignorable p \<and> s = p @ t) \<and> starts_statement t \<and> t \<noteq> []"
  then show "skip_leading_comments s = t \<and> t \<noteq> []" using skip_ignorable by blast
qed

subsection \<open>Reading a statement\<close>

lemma parse_head_statement:
  assumes "ignorable p" "starts_statement t" "t \<noteq> []" "length p + length t \<le> sql_head"
  shows "parse_head (p @ t) = t"
  using assms by (simp add: parse_head_def skip_ignorable Let_def)

lemma split_ws_word: "list_all (\<lambda>c. \<not> is_space c) w \<Longrightarrow> split_ws v (w @ s) = split_ws (v @ w) s"
  by (induction w arbitrary: v) auto

lemma py_split_word_space:
  "list_all (\<lambda>c. \<not> is_space c) w \<Longrightarrow> w \<noteq> [] \<Longrightarrow> py_split (w @ CHR '' '' # s) = w # py_split s"
  by (simp add: py_split_def split_ws_word is_space_def Let_def)

lemma py_split_word: "list_all (\<lambda>c. \<not> is_space c) w \<Longrightarrow> w \<noteq> [] \<Longrightarrow> py_split w = [w]"
  using split_ws_word [of w "[]" "[]"] by (simp add: py_split_def)

lemma py_split_nonempty: "starts_statement t \<Longrightarrow> t \<noteq> [] \<Longrightarrow> py_split t \<noteq> []"
proof -
  have ne: "v \<noteq> [] \<Longrightarrow> split_ws v s \<noteq> []" for v s by (induction v s rule: split_ws.induct) auto
  assume "starts_statement t" "t \<noteq> []"
  then show ?thesis using ne by (cases t) (auto simp: starts_statement_def py_split_def)
qed

lemma compound_sql_no_semicolon: "CHR '';'' \<notin> set t \<Longrightarrow> \<not> compound_sql t"
proof -
  assume "CHR '';'' \<notin> set t"
  then have "dropWhile (\<lambda>c. c \<noteq> CHR '';'') t = []" by (auto simp: dropWhile_eq_Nil_conv)
  then show ?thesis by (simp only: compound_sql_def) simp
qed

lemma comment_body_plain:
  "list_all (\<lambda>c. c \<noteq> CHR ''/'' \<and> c \<noteq> CHR ''*'') l \<Longrightarrow> comment_body s \<Longrightarrow> comment_body (l @ s)"
proof (induction l)
  case (Cons c l)
  then have "comment_body (l @ s)" by simp
  moreover from this obtain e r where "l @ s = e # r" by (cases "l @ s") auto
  ultimately show ?case using Cons.prems(1) by (auto intro: comment_body.plain)
qed simp

text \<open>
  Leading comments do not change what is read: a statement behind any white space and
  comments has the command and the words of the bare statement, and is judged alike by the two
  tests on them, when it fits in the head with them.
\<close>

theorem comments_do_not_change_the_command:
  assumes "ignorable p" "starts_statement t" "t \<noteq> []" "length p + length t \<le> sql_head"
  shows "\<exists>a b. parse_sql (SqlText (p @ t)) = Some a \<and> parse_sql (SqlText t) = Some b \<and>
           st_command a = st_command b \<and> st_words a = st_words b \<and>
           refused_in_a_transaction (Some a) = refused_in_a_transaction (Some b)"
proof -
  obtain w ws where w: "py_split t = w # ws" using py_split_nonempty [OF assms(2,3)] by (cases "py_split t") auto
  have "parse_head t = t" using parse_head_statement [OF ignorable.none assms(2,3)] assms(4) by simp
  then show ?thesis
    using parse_head_statement [OF assms] w by (simp add: parse_sql_def refused_in_a_transaction_def)
qed

text \<open>A name Django quotes: no white space, and no double quote.\<close>

definition plain_name :: "string \<Rightarrow> bool" where
  "plain_name n \<longleftrightarrow> list_all (\<lambda>c. \<not> is_space c \<and> c \<noteq> CHR 0x22 \<and> c \<noteq> CHR '';'') n"

lemma undouble_plain: "list_all (\<lambda>c. c \<noteq> CHR 0x22) n \<Longrightarrow> undouble_quotes n = n"
  by (induction n rule: undouble_quotes.induct) auto

lemma sql_identifier_quoted: "plain_name n \<Longrightarrow> sql_identifier (dq n) = n"
proof -
  assume n: "plain_name n"
  then have "list_all (\<lambda>c. c \<noteq> CHR 0x22) n" by (auto simp: plain_name_def list_all_iff)
  moreover have "rstrip_char CHR '';'' (dq n) = dq n" by (simp add: rstrip_char_def dq_def)
  ultimately show ?thesis by (simp add: sql_identifier_def dq_def undouble_plain Let_def)
qed

lemma django_savepoint_words:
  assumes "plain_name n" "length n \<le> 200"
  shows "\<exists>a b c. parse_sql (SqlText (''SAVEPOINT '' @ dq n)) = Some a \<and>
     parse_sql (SqlText (''RELEASE SAVEPOINT '' @ dq n)) = Some b \<and>
     parse_sql (SqlText (''ROLLBACK TO SAVEPOINT '' @ dq n)) = Some c \<and>
     st_words a = [''SAVEPOINT'', dq n] \<and> st_words b = [''RELEASE'', ''SAVEPOINT'', dq n] \<and>
     st_words c = [''ROLLBACK'', ''TO'', ''SAVEPOINT'', dq n] \<and>
     st_command a = ''SAVEPOINT'' \<and> savepoint_name (st_words a) ''SAVEPOINT'' = Some n \<and>
     st_command b = ''RELEASE'' \<and> savepoint_name (st_words b) ''RELEASE'' = Some n \<and>
     st_command c = ''ROLLBACK'' \<and> savepoint_name (st_words c) ''TO'' = Some n \<and>
     controls_the_transaction (Some a) \<and> controls_the_transaction (Some b) \<and>
     controls_the_transaction (Some c)"
proof -
  have q: "list_all (\<lambda>c. \<not> is_space c) (dq n)" "dq n \<noteq> []"
    using assms(1) by (auto simp: plain_name_def dq_def is_space_def list_all_iff)
  have semi: "CHR '';'' \<notin> set (dq n)" using assms(1) by (auto simp: plain_name_def dq_def list_all_iff)
  have one: "py_split (w @ CHR '' '' # dq n) = [w, dq n]"
    if "list_all (\<lambda>c. \<not> is_space c) w" "w \<noteq> []" for w
    using that py_split_word_space py_split_word [OF q] by simp
  have len: "length (dq n) \<le> 202" using assms(2) by (simp add: dq_def)
  have parse: "parse_sql (SqlText t) =
      Some \<lparr>st_command = upper (rstrip_char CHR '';'' (hd (py_split t))), st_words = py_split t, st_compound = False\<rparr>"
    if "starts_statement t" "t \<noteq> []" "length t \<le> 256" "CHR '';'' \<notin> set t" for t
  proof -
    have "\<not> compound_sql t" using that(4) by (rule compound_sql_no_semicolon)
    moreover have "py_split t \<noteq> []" using that by (intro py_split_nonempty)
    then obtain w ws where "py_split t = w # ws" by (cases "py_split t") auto
    ultimately show ?thesis
      using parse_head_statement [OF ignorable.none that(1,2)] that(3) by (simp add: parse_sql_def sql_head_def)
  qed
  let ?a = "''SAVEPOINT'' @ CHR '' '' # dq n"
  let ?b = "''RELEASE'' @ CHR '' '' # ''SAVEPOINT'' @ CHR '' '' # dq n"
  let ?c = "''ROLLBACK'' @ CHR '' '' # ''TO'' @ CHR '' '' # ''SAVEPOINT'' @ CHR '' '' # dq n"
  have sp: "list_all (\<lambda>c. \<not> is_space c) w" "w \<noteq> []"
    if "w \<in> {''SAVEPOINT'', ''RELEASE'', ''ROLLBACK'', ''TO''}" for w
    using that by (auto simp: is_space_def)
  have wa: "py_split ?a = [''SAVEPOINT'', dq n]" by (rule one; rule sp; simp)
  have "py_split ?b = ''RELEASE'' # py_split ?a" by (rule py_split_word_space; rule sp; simp)
  then have wb: "py_split ?b = [''RELEASE'', ''SAVEPOINT'', dq n]" unfolding wa .
  have "py_split ?c = ''ROLLBACK'' # py_split (''TO'' @ CHR '' '' # ?a)"
    by (rule py_split_word_space; rule sp; simp)
  also have "py_split (''TO'' @ CHR '' '' # ?a) = ''TO'' # py_split ?a"
    by (rule py_split_word_space; rule sp; simp)
  finally have wc: "py_split ?c = [''ROLLBACK'', ''TO'', ''SAVEPOINT'', dq n]" unfolding wa .
  note words = wa wb wc
  have ua: "upper (rstrip_char CHR '';'' w) = w" "upper w = w"
    if "w \<in> {''SAVEPOINT'', ''RELEASE'', ''ROLLBACK'', ''TO''}" for w
    using that by (auto simp: upper_def ascii_upper_def rstrip_char_def Let_def)
  have not_dq: "upper (dq n) \<noteq> ''TO''" "upper (dq n) \<noteq> ''RELEASE''" "upper (dq n) \<noteq> ''SAVEPOINT''"
    by (simp_all add: upper_def dq_def ascii_upper_def Let_def)
  have st: "starts_statement ?a" "starts_statement ?b" "starts_statement ?c"
    by (simp_all add: starts_statement_def is_space_def)
  show ?thesis
    using parse [OF st(1)] parse [OF st(2)] parse [OF st(3)] len semi words
    by (simp add: ua savepoint_name_def Let_def sql_identifier_quoted [OF assms(1)]
        controls_the_transaction_def transaction_control_def)
qed

text \<open>
  The savepoint statements Django sends are read with their name: what it writes for a
  quoted name to set, release and roll back to a savepoint parses to the command and to the
  name, in the case it was given.
\<close>

theorem django_savepoints_read:
  assumes "plain_name n" "length n \<le> 200"
  shows "\<exists>a b c. parse_sql (SqlText (''SAVEPOINT '' @ dq n)) = Some a \<and>
     parse_sql (SqlText (''RELEASE SAVEPOINT '' @ dq n)) = Some b \<and>
     parse_sql (SqlText (''ROLLBACK TO SAVEPOINT '' @ dq n)) = Some c \<and>
     st_command a = ''SAVEPOINT'' \<and> savepoint_name (st_words a) ''SAVEPOINT'' = Some n \<and>
     st_command b = ''RELEASE'' \<and> savepoint_name (st_words b) ''RELEASE'' = Some n \<and>
     st_command c = ''ROLLBACK'' \<and> savepoint_name (st_words c) ''TO'' = Some n \<and>
     controls_the_transaction (Some a) \<and> controls_the_transaction (Some b) \<and>
     controls_the_transaction (Some c)"
  using django_savepoint_words [OF assms] by blast

lemma comments_do_not_change_the_command_witness:
  "\<exists>a. parse_sql (SqlText (''/* a /* b */ c */ '' @ ''VACUUM t'')) = Some a \<and>
       st_words a = [''VACUUM'', ''t''] \<and> refused_in_a_transaction (Some a)"
proof -
  have "comment_body ('' b '' @ ''*/'')" "comment_body ('' c '' @ ''*/'')"
    by (rule comment_body_plain; simp add: comment_body.close)+
  then have "comment_body ('' a '' @ ''/*'' @ ('' b '' @ ''*/'') @ ('' c '' @ ''*/''))"
    by (intro comment_body_plain [of "'' a ''"] comment_body.nest) auto
  then have body: "comment_body ('' a /* b */ c '' @ ''*/'')" by simp
  then have "ignorable ''/* a /* b */ c */ ''"
    using ignorable.block [OF body, of "'' ''"] by (simp add: ignorable.white ignorable.none is_space_def)
  moreover have "starts_statement ''VACUUM t''" by (simp add: starts_statement_def is_space_def)
  ultimately have "\<exists>a b. parse_sql (SqlText (''/* a /* b */ c */ '' @ ''VACUUM t'')) = Some a \<and>
      parse_sql (SqlText ''VACUUM t'') = Some b \<and> st_command a = st_command b \<and> st_words a = st_words b \<and>
      refused_in_a_transaction (Some a) = refused_in_a_transaction (Some b)"
    by (rule comments_do_not_change_the_command) (simp_all add: sql_head_def)
  moreover have "parse_head ''VACUUM t'' = ''VACUUM t''"
    using parse_head_statement [OF ignorable.none \<open>starts_statement ''VACUUM t''\<close>] by (simp add: sql_head_def)
  then have "parse_sql (SqlText ''VACUUM t'') =
      Some \<lparr>st_command = ''VACUUM'', st_words = [''VACUUM'', ''t''], st_compound = False\<rparr>"
    by (simp add: parse_sql_def py_split_def is_space_def compound_sql_no_semicolon upper_def
        ascii_upper_def rstrip_char_def)
  moreover have "refused_in_a_transaction
      (Some \<lparr>st_command = ''VACUUM'', st_words = [''VACUUM'', ''t''], st_compound = False\<rparr>)"
    by (simp add: refused_in_a_transaction_def ddl_commands_def no_transaction_commands_def)
  ultimately show ?thesis by (metis option.inject parsed.select_convs(2))
qed

lemma django_savepoints_read_witness:
  "\<exists>a. parse_sql (SqlText (''SAVEPOINT '' @ dq ''s1_x2'')) = Some a \<and>
       savepoint_name (st_words a) ''SAVEPOINT'' = Some ''s1_x2''"
  using django_savepoints_read [of "''s1_x2''"] by (auto simp: plain_name_def is_space_def)

text \<open>
  The head is cut blindly: a command that straddles its end is misread, and then neither seen
  as transaction control nor followed.
\<close>

lemma command_cut_by_the_head:
  "parse_sql (SqlText (''/*'' @ replicate 246 CHR ''x'' @ ''*/'' @ ''ROLLBACK'')) =
     Some \<lparr>st_command = ''ROLLBA'', st_words = [''ROLLBA''], st_compound = False\<rparr>"
proof -
  have "comment_body (replicate n CHR ''x'' @ ''*/'')" for n
    by (rule comment_body_plain) (simp_all add: comment_body.close list_all_iff)
  then have "ignorable (''/*'' @ (replicate 246 CHR ''x'' @ ''*/'') @ [])"
    by (intro ignorable.block ignorable.none)
  then have "parse_head ((''/*'' @ replicate 246 CHR ''x'' @ ''*/'') @ ''ROLLBA'') = ''ROLLBA''"
    by (intro parse_head_statement) (auto simp: starts_statement_def is_space_def sql_head_def)
  moreover have "take sql_head (''/*'' @ replicate 246 CHR ''x'' @ ''*/'' @ ''ROLLBACK'') =
      (''/*'' @ replicate 246 CHR ''x'' @ ''*/'') @ ''ROLLBA''"
    by (simp add: sql_head_def)
  ultimately have "parse_head (''/*'' @ replicate 246 CHR ''x'' @ ''*/'' @ ''ROLLBACK'') = ''ROLLBA''"
    by (simp add: parse_head_def sql_head_def Let_def split: if_splits)
  then show ?thesis
    by (simp add: parse_sql_def py_split_def is_space_def compound_sql_def upper_def ascii_upper_def
        rstrip_char_def dropWhile_append)
qed

end
