(* ===== verification/Tracker.thy ===== *)
theory Tracker
  imports State Sql_Statement
begin

text \<open>
  The session tracker of \<^verbatim>\<open>tenants/affinity.py\<close> (\<^verbatim>\<open>_SessionGUCs\<close>, \<^verbatim>\<open>_follow\<close>, \<^verbatim>\<open>_follow_savepoint_end\<close>,
  \<^verbatim>\<open>_follow_end\<close>): what the library believes the admin and tenant variables of one database
  session hold, followed through transactions, savepoints, session and transaction-local
  writes.  The database is a parameter, \<open>'s pg\<close>: a step relation of a session with four
  observers; \<open>pg_laws\<close> says what PostgreSQL documents of \<^verbatim>\<open>SET\<close>, \<^verbatim>\<open>SET LOCAL\<close> and the ends of
  transactions and savepoints.  The theorems show that the belief is never wrong: it is unknown or true.
\<close>

subsection \<open>The record\<close>

text \<open>\<^verbatim>\<open>_Tracked\<close>: the values of a context, \<^verbatim>\<open>None\<close>, or \<^verbatim>\<open>UNKNOWN\<close>.\<close>

datatype tracked = TVals context_gucs | TNone | TUnknown

record tracker =
  tr_raw :: "nat option"
  tr_values :: tracked
  tr_in_transaction :: bool
  tr_base :: tracked
  tr_changed :: bool
  tr_wrote_local :: bool
  tr_wrote_session :: bool
  tr_savepoints :: "(string \<times> tracked) list"

text \<open>libpq's transaction status: \<^verbatim>\<open>_IDLE\<close>, \<^verbatim>\<open>_IN_ERROR\<close>, and the others (active, in a transaction, bad).\<close>

datatype tx_status = Idle | InTransaction | InError | ConnectionBad

definition new_tracker :: tracker where
  "new_tracker = \<lparr>tr_raw = None, tr_values = TUnknown, tr_in_transaction = False, tr_base = TUnknown,
     tr_changed = False, tr_wrote_local = False, tr_wrote_session = False, tr_savepoints = []\<rparr>"

definition attach :: "nat option \<Rightarrow> tracked \<Rightarrow> tracker \<Rightarrow> tracker" where
  "attach raw values t = t\<lparr>tr_raw := raw, tr_values := values, tr_in_transaction := False,
     tr_base := values, tr_changed := False, tr_wrote_local := False, tr_wrote_session := False,
     tr_savepoints := []\<rparr>"

definition end_transaction :: "bool option \<Rightarrow> tracker \<Rightarrow> tracker" where
  "end_transaction committed t =
     (let t1 = (if tr_in_transaction t
                then (if committed = Some False \<or> \<not> tr_wrote_session t then t\<lparr>tr_values := tr_base t\<rparr>
                      else if tr_wrote_local t \<or> (committed = None \<and> tr_values t \<noteq> tr_base t)
                      then t\<lparr>tr_values := TUnknown\<rparr> else t)\<lparr>tr_in_transaction := False\<rparr>
                else t)
      in t1\<lparr>tr_savepoints := []\<rparr>)"

definition sync_transaction :: "tx_status \<Rightarrow> tracker \<Rightarrow> tracker" where
  "sync_transaction status t =
     (if status = Idle then (if tr_in_transaction t then end_transaction None t else t)
      else if \<not> tr_in_transaction t
      then t\<lparr>tr_in_transaction := True, tr_base := tr_values t, tr_changed := False,
             tr_wrote_local := False, tr_wrote_session := False, tr_savepoints := []\<rparr>
      else t)"

definition set_values :: "tracked \<Rightarrow> bool \<Rightarrow> tracker \<Rightarrow> tracker" where
  "set_values values is_local t =
     (let t1 = (if tr_in_transaction t
                then (if is_local then t\<lparr>tr_wrote_local := True\<rparr> else t\<lparr>tr_wrote_session := True\<rparr>)
                else t)
      in if values \<noteq> tr_values t1
         then t1\<lparr>tr_values := values, tr_changed := (tr_changed t1 \<or> tr_in_transaction t1)\<rparr>
         else t1)"

definition forget :: "tracker \<Rightarrow> tracker" where
  "forget = set_values TUnknown False"

definition suspect_session :: "bool \<Rightarrow> tracker \<Rightarrow> tracker" where
  "suspect_session under_local_values t =
     (if tr_in_transaction t \<and> under_local_values
      then t\<lparr>tr_wrote_session := True, tr_wrote_local := True\<rparr> else forget t)"

text \<open>The position of the newest entry of that name.\<close>

fun newest :: "string \<Rightarrow> (string \<times> 'a) list \<Rightarrow> nat option" where
  "newest name [] = None"
| "newest name (sp # sps) =
     (case newest name sps of
        Some i \<Rightarrow> Some (Suc i)
      | None \<Rightarrow> if fst sp = name then Some 0 else None)"

definition savepoint_index :: "string \<Rightarrow> tracker \<Rightarrow> nat option" where
  "savepoint_index name t = newest name (tr_savepoints t)"

definition add_savepoint :: "string \<Rightarrow> tracker \<Rightarrow> tracker" where
  "add_savepoint name t = t\<lparr>tr_savepoints := tr_savepoints t @ [(name, tr_values t)]\<rparr>"

definition follow_savepoint_end :: "string option \<Rightarrow> bool \<Rightarrow> tracker \<Rightarrow> tracker" where
  "follow_savepoint_end name rolled_back t =
     (case name of
        None \<Rightarrow> forget t
      | Some n \<Rightarrow>
          (case savepoint_index n t of
             None \<Rightarrow> if tr_changed t then forget t else t
           | Some i \<Rightarrow>
               if rolled_back
               then t\<lparr>tr_values := snd (tr_savepoints t ! i), tr_savepoints := take (Suc i) (tr_savepoints t)\<rparr>
               else t\<lparr>tr_savepoints := take i (tr_savepoints t)\<rparr>))"

text \<open>
  \<^verbatim>\<open>_follow\<close>: after a statement that controls the transaction or resets the session has run.
  \<open>observe\<close> is \<^verbatim>\<open>_observe\<close> on its connection; \<open>names\<close> are the two variables, in upper case.  What
  happens before the look at the session's status is \<open>follow_before\<close>, what after \<open>follow_after\<close>.
\<close>

definition follow_argument :: "parsed \<Rightarrow> string" where
  "follow_argument st =
     (if length (st_words st) > 1 then upper (sql_identifier (st_words st ! 1)) else [])"

definition is_reset :: "parsed \<Rightarrow> bool" where
  "is_reset st \<longleftrightarrow> st_command st \<in> {''RESET'', ''DISCARD''}"

definition resets_gucs :: "string list \<Rightarrow> parsed \<Rightarrow> bool" where
  "resets_gucs names st \<longleftrightarrow>
     follow_argument st = ''ALL'' \<or> (st_command st = ''RESET'' \<and> follow_argument st \<in> set names)"

definition rolls_back_to :: "parsed \<Rightarrow> bool" where
  "rolls_back_to st \<longleftrightarrow> st_command st = ''ROLLBACK'' \<and> ''TO'' \<in> set (map upper (st_words st))"

definition follow_before :: "parsed \<Rightarrow> tx_status \<Rightarrow> tracker \<Rightarrow> tracker" where
  "follow_before st status_before t =
     (if st_command st \<in> {''ROLLBACK'', ''ABORT''} \<and> \<not> rolls_back_to st then end_transaction (Some False) t
      else if st_command st \<in> {''COMMIT'', ''END''}
      then end_transaction (Some (status_before \<noteq> InError)) t
      else if st_command st = ''PREPARE'' \<and> follow_argument st = ''TRANSACTION''
      then forget (end_transaction (Some False) t) else t)"

definition follow_after :: "parsed \<Rightarrow> tracker \<Rightarrow> tracker" where
  "follow_after st t =
     (if st_command st = ''SAVEPOINT''
      then (case savepoint_name (st_words st) ''SAVEPOINT'' of
              None \<Rightarrow> forget t | Some n \<Rightarrow> add_savepoint n t)
      else if st_command st = ''RELEASE'' \<or> rolls_back_to st
      then follow_savepoint_end (savepoint_name (st_words st) (if rolls_back_to st then ''TO'' else ''RELEASE''))
             (rolls_back_to st) t
      else t)"

definition follow ::
  "string list \<Rightarrow> parsed \<Rightarrow> tx_status \<Rightarrow> (tracker \<Rightarrow> tracker) \<Rightarrow> tracker \<Rightarrow> tracker" where
  "follow names st status_before observe t =
     (if is_reset st then (if resets_gucs names st then forget t else t)
      else if follow_argument st = ''PREPARED'' then t
      else follow_after st (observe (follow_before st status_before t)))"

text \<open>\<^verbatim>\<open>_follow_end\<close>, and what \<^verbatim>\<open>_transaction_end\<close> passes to it for each outcome of Django's method.\<close>

definition follow_end :: "tx_status \<Rightarrow> tx_status \<Rightarrow> bool option \<Rightarrow> tracker \<Rightarrow> tracker" where
  "follow_end before after committed t =
     (if before \<noteq> Idle \<and> after = Idle
      then end_transaction (if before = InError then Some False else committed) t
      else if before \<noteq> after then forget t else t)"

datatype end_outcome = EndReturned | EndDatabaseError | EndInterrupted

definition outcome_committed :: "bool \<Rightarrow> end_outcome \<Rightarrow> bool option" where
  "outcome_committed committed outcome =
     (case outcome of
        EndReturned \<Rightarrow> Some committed
      | EndDatabaseError \<Rightarrow> Some False
      | EndInterrupted \<Rightarrow> if committed then None else Some False)"

text \<open>Only \<open>attach\<close> changes the session a tracker describes.\<close>

lemma tracker_raw_kept [simp]:
  "tr_raw (end_transaction c t) = tr_raw t" "tr_raw (sync_transaction status t) = tr_raw t"
  "tr_raw (set_values v l t) = tr_raw t" "tr_raw (forget t) = tr_raw t"
  "tr_raw (suspect_session b t) = tr_raw t" "tr_raw (add_savepoint n t) = tr_raw t"
  "tr_raw (follow_savepoint_end name b t) = tr_raw t" "tr_raw (follow_before st status t) = tr_raw t"
  "tr_raw (follow_after st t) = tr_raw t" "tr_raw (follow_end before after c t) = tr_raw t"
  by (simp_all add: end_transaction_def sync_transaction_def set_values_def forget_def suspect_session_def
      add_savepoint_def follow_savepoint_end_def follow_before_def follow_after_def follow_end_def Let_def
      split: option.splits)

subsection \<open>The session\<close>

text \<open>
  A PostgreSQL session, as far as the two variables are concerned.  Observed: whether a
  transaction is open, the values its statements see, those a commit and those a rollback
  would leave, and its savepoints with the values (seen, and left by a commit) they go back to.
  \<open>None\<close> stands for values that no context's are: unset, cleared, or the session's own.
\<close>

type_synonym gvals = "context_gucs option"

datatype pg_event =
    PgBegin
  | PgSet gvals bool
  | PgChange
  | PgSessionChange
  | PgCommit
  | PgRollback
  | PgSavepoint string
  | PgRelease string
  | PgRollbackTo string

record 's pg =
  pg_step :: "'s \<Rightarrow> pg_event \<Rightarrow> 's \<Rightarrow> bool"
  pg_open :: "'s \<Rightarrow> bool"
  pg_seen :: "'s \<Rightarrow> gvals"
  pg_commit :: "'s \<Rightarrow> gvals"
  pg_rollback :: "'s \<Rightarrow> gvals"
  pg_savepoints :: "'s \<Rightarrow> (string \<times> gvals \<times> gvals) list"

definition pg_same_frame :: "'s pg \<Rightarrow> 's \<Rightarrow> 's \<Rightarrow> bool" where
  "pg_same_frame pg s s' \<longleftrightarrow> pg_open pg s' = pg_open pg s \<and> pg_rollback pg s' = pg_rollback pg s"

text \<open>
  The documented behaviour.  \<^verbatim>\<open>SET\<close> holds after a commit and is undone by a rollback; \<^verbatim>\<open>SET LOCAL\<close>
  is seen until the transaction ends and then the value of the last \<^verbatim>\<open>SET\<close> is; \<^verbatim>\<open>ROLLBACK TO\<close>
  undoes both since the savepoint, which stays; \<^verbatim>\<open>RELEASE\<close> undoes nothing.  \<open>PgChange\<close> is any
  other change of the variables, \<open>PgSessionChange\<close> one of the session's own values only.
\<close>

definition pg_laws :: "'s pg \<Rightarrow> bool" where
  "pg_laws pg \<longleftrightarrow> (\<forall>s s'.
     (pg_step pg s PgBegin s' \<longrightarrow> \<not> pg_open pg s \<and> pg_open pg s' \<and> pg_seen pg s' = pg_seen pg s \<and>
        pg_commit pg s' = pg_seen pg s \<and> pg_rollback pg s' = pg_seen pg s \<and> pg_savepoints pg s' = []) \<and>
     (\<forall>v is_local. pg_step pg s (PgSet v is_local) s' \<longrightarrow> pg_same_frame pg s s' \<and>
        pg_savepoints pg s' = pg_savepoints pg s \<and> (is_local \<longrightarrow> pg_open pg s) \<and> pg_seen pg s' = v \<and>
        pg_commit pg s' = (if is_local then pg_commit pg s else v)) \<and>
     (pg_step pg s PgChange s' \<longrightarrow> pg_same_frame pg s s' \<and> pg_savepoints pg s' = pg_savepoints pg s) \<and>
     (pg_step pg s PgSessionChange s' \<longrightarrow> pg_same_frame pg s s' \<and>
        pg_savepoints pg s' = pg_savepoints pg s \<and> (pg_open pg s \<longrightarrow> pg_seen pg s' = pg_seen pg s)) \<and>
     (pg_step pg s PgCommit s' \<longrightarrow> pg_open pg s \<and> \<not> pg_open pg s' \<and> pg_seen pg s' = pg_commit pg s) \<and>
     (pg_step pg s PgRollback s' \<longrightarrow> pg_open pg s \<and> \<not> pg_open pg s' \<and> pg_seen pg s' = pg_rollback pg s) \<and>
     (\<forall>n. pg_step pg s (PgSavepoint n) s' \<longrightarrow> pg_same_frame pg s s' \<and> pg_open pg s \<and>
        pg_seen pg s' = pg_seen pg s \<and> pg_commit pg s' = pg_commit pg s \<and>
        pg_savepoints pg s' = pg_savepoints pg s @ [(n, pg_seen pg s, pg_commit pg s)]) \<and>
     (\<forall>n. pg_step pg s (PgRelease n) s' \<longrightarrow> pg_same_frame pg s s' \<and> pg_open pg s \<and>
        pg_seen pg s' = pg_seen pg s \<and> pg_commit pg s' = pg_commit pg s \<and>
        (\<exists>i. newest n (pg_savepoints pg s) = Some i \<and> pg_savepoints pg s' = take i (pg_savepoints pg s))) \<and>
     (\<forall>n. pg_step pg s (PgRollbackTo n) s' \<longrightarrow> pg_same_frame pg s s' \<and> pg_open pg s \<and>
        (\<exists>i. newest n (pg_savepoints pg s) = Some i \<and>
           (pg_seen pg s', pg_commit pg s') = snd (pg_savepoints pg s ! i) \<and>
           pg_savepoints pg s' = take (Suc i) (pg_savepoints pg s))))"

subsection \<open>The belief is never wrong\<close>

fun sound :: "tracked \<Rightarrow> gvals \<Rightarrow> bool" where
  "sound (TVals g) v \<longleftrightarrow> v = Some g"
| "sound TNone v \<longleftrightarrow> v = None"
| "sound TUnknown v \<longleftrightarrow> True"

definition tracked_of :: "gvals \<Rightarrow> tracked" where
  "tracked_of v = (case v of None \<Rightarrow> TNone | Some g \<Rightarrow> TVals g)"

lemma sound_tracked_of [simp]: "sound (tracked_of v) v"
  by (simp add: tracked_of_def split: option.splits)

definition savepoint_ok :: "tracker \<Rightarrow> string \<times> tracked \<Rightarrow> string \<times> gvals \<times> gvals \<Rightarrow> bool" where
  "savepoint_ok t a b \<longleftrightarrow>
     (case (a, b) of ((n, v), (m, x, y)) \<Rightarrow>
        n = m \<and> sound v x \<and> (\<not> tr_wrote_local t \<longrightarrow> sound v y) \<and> (\<not> tr_wrote_session t \<longrightarrow> sound (tr_base t) y))"

definition in_transaction_ok :: "'s pg \<Rightarrow> tracker \<Rightarrow> 's \<Rightarrow> bool" where
  "in_transaction_ok pg t s \<longleftrightarrow>
     sound (tr_base t) (pg_rollback pg s) \<and>
     (\<not> tr_wrote_session t \<longrightarrow> sound (tr_base t) (pg_commit pg s)) \<and>
     (\<not> tr_wrote_local t \<longrightarrow> sound (tr_values t) (pg_commit pg s)) \<and>
     list_all2 (savepoint_ok t) (tr_savepoints t) (pg_savepoints pg s)"

definition tracker_ok :: "'s pg \<Rightarrow> tracker \<Rightarrow> 's \<Rightarrow> bool" where
  "tracker_ok pg t s \<longleftrightarrow>
     tr_in_transaction t = pg_open pg s \<and> sound (tr_values t) (pg_seen pg s) \<and>
     (pg_open pg s \<longrightarrow> in_transaction_ok pg t s)"

text \<open>
  A session and its tracker: a step of the session, with what the code does with the tracker
  when it takes that step or sees it.  An end may be seen with its outcome, or only by the
  status it leaves, or interrupted.
\<close>

inductive session_step :: "'s pg \<Rightarrow> tracker \<times> 's \<Rightarrow> tracker \<times> 's \<Rightarrow> bool" for pg where
  begins: "pg_step pg s PgBegin s' \<Longrightarrow> status \<noteq> Idle \<Longrightarrow> session_step pg (t, s) (sync_transaction status t, s')"
| looks: "status = Idle \<longleftrightarrow> \<not> pg_open pg s \<Longrightarrow> session_step pg (t, s) (sync_transaction status t, s)"
| writes: "pg_step pg s (PgSet v is_local) s' \<Longrightarrow>
    session_step pg (t, s) (set_values (tracked_of v) is_local t, s')"
| changes: "pg_step pg s PgChange s' \<Longrightarrow> session_step pg (t, s) (forget t, s')"
| suspects: "pg_step pg s PgSessionChange s' \<Longrightarrow> session_step pg (t, s) (suspect_session True t, s')"
| suspects_session_mode: "pg_step pg s PgChange s' \<Longrightarrow> session_step pg (t, s) (suspect_session False t, s')"
| commits: "pg_step pg s PgCommit s' \<Longrightarrow> session_step pg (t, s) (end_transaction (Some True) t, s')"
| rolls_back: "pg_step pg s PgRollback s' \<Longrightarrow> session_step pg (t, s) (end_transaction (Some False) t, s')"
| ends_unseen: "pg_step pg s e s' \<Longrightarrow> e = PgCommit \<or> e = PgRollback \<Longrightarrow>
    session_step pg (t, s) (sync_transaction Idle t, s')"
| sets_savepoint: "pg_step pg s (PgSavepoint n) s' \<Longrightarrow> session_step pg (t, s) (add_savepoint n t, s')"
| releases: "pg_step pg s (PgRelease n) s' \<Longrightarrow>
    session_step pg (t, s) (follow_savepoint_end (Some n) False t, s')"
| rolls_back_to: "pg_step pg s (PgRollbackTo n) s' \<Longrightarrow>
    session_step pg (t, s) (follow_savepoint_end (Some n) True t, s')"

text \<open>The start: a session without a transaction, whose values are known or \<open>TUnknown\<close>.\<close>

definition session_start :: "'s pg \<Rightarrow> tracker \<times> 's \<Rightarrow> bool" where
  "session_start pg c \<longleftrightarrow>
     (\<exists>raw values t s. c = (attach raw values t, s) \<and> \<not> pg_open pg s \<and> sound values (pg_seen pg s))"

lemma newest_cong: "map fst xs = map fst ys \<Longrightarrow> newest n xs = newest n ys"
proof (induction xs arbitrary: ys)
  case (Cons x xs)
  then obtain y ys' where "ys = y # ys'" by (cases ys) auto
  with Cons show ?case by (auto split: option.splits)
qed simp

lemma newest_bound: "newest n xs = Some i \<Longrightarrow> i < length xs \<and> fst (xs ! i) = n"
  by (induction xs arbitrary: i) (auto split: option.splits if_splits)

lemma savepoint_ok_names: "list_all2 (savepoint_ok t) xs ys \<Longrightarrow> map fst xs = map fst ys"
  by (induction rule: list_all2_induct) (auto simp: savepoint_ok_def)

text \<open>Setting more of the flags keeps what is known of the savepoints.\<close>

lemma savepoint_ok_mono:
  assumes "list_all2 (savepoint_ok t) xs ys" and "tr_base t' = tr_base t"
    and "tr_wrote_local t \<longrightarrow> tr_wrote_local t'" and "tr_wrote_session t \<longrightarrow> tr_wrote_session t'"
  shows "list_all2 (savepoint_ok t') xs ys"
  using assms(1) by (rule list_all2_mono) (use assms(2-4) in \<open>auto simp: savepoint_ok_def split: prod.splits\<close>)

lemma set_values_fields:
  "tr_values (set_values v l t) = v" "tr_in_transaction (set_values v l t) = tr_in_transaction t"
  "tr_base (set_values v l t) = tr_base t" "tr_savepoints (set_values v l t) = tr_savepoints t"
  "tr_wrote_local (set_values v l t) \<longleftrightarrow> tr_wrote_local t \<or> (tr_in_transaction t \<and> l)"
  "tr_wrote_session (set_values v l t) \<longleftrightarrow> tr_wrote_session t \<or> (tr_in_transaction t \<and> \<not> l)"
  by (auto simp: set_values_def Let_def)

lemma savepoints_set_values:
  "list_all2 (savepoint_ok t) xs ys \<Longrightarrow> list_all2 (savepoint_ok (set_values v l t)) xs ys"
  by (erule savepoint_ok_mono) (auto simp: set_values_fields)

lemma savepoints_suspect:
  "list_all2 (savepoint_ok t) xs ys \<Longrightarrow>
     list_all2 (savepoint_ok (t\<lparr>tr_wrote_session := True, tr_wrote_local := True\<rparr>)) xs ys"
  by (erule savepoint_ok_mono) simp_all

lemma end_transaction_fields:
  "tr_in_transaction (end_transaction c t) = False"
  "tr_values (end_transaction c t) =
     (if tr_in_transaction t
      then (if c = Some False \<or> \<not> tr_wrote_session t then tr_base t
            else if tr_wrote_local t \<or> (c = None \<and> tr_values t \<noteq> tr_base t) then TUnknown else tr_values t)
      else tr_values t)"
  by (auto simp: end_transaction_def Let_def)

lemma pg_laws_event:
  assumes "pg_laws pg"
  shows pg_begin: "pg_step pg s PgBegin s' \<Longrightarrow> \<not> pg_open pg s \<and> pg_open pg s' \<and>
      pg_seen pg s' = pg_seen pg s \<and> pg_commit pg s' = pg_seen pg s \<and>
      pg_rollback pg s' = pg_seen pg s \<and> pg_savepoints pg s' = []"
    and pg_set: "pg_step pg s (PgSet v l) s' \<Longrightarrow> pg_same_frame pg s s' \<and>
      pg_savepoints pg s' = pg_savepoints pg s \<and> (l \<longrightarrow> pg_open pg s) \<and> pg_seen pg s' = v \<and>
      pg_commit pg s' = (if l then pg_commit pg s else v)"
    and pg_change: "pg_step pg s PgChange s' \<Longrightarrow>
      pg_same_frame pg s s' \<and> pg_savepoints pg s' = pg_savepoints pg s"
    and pg_session_change: "pg_step pg s PgSessionChange s' \<Longrightarrow> pg_same_frame pg s s' \<and>
      pg_savepoints pg s' = pg_savepoints pg s \<and> (pg_open pg s \<longrightarrow> pg_seen pg s' = pg_seen pg s)"
    and pg_commits: "pg_step pg s PgCommit s' \<Longrightarrow>
      pg_open pg s \<and> \<not> pg_open pg s' \<and> pg_seen pg s' = pg_commit pg s"
    and pg_rolls_back: "pg_step pg s PgRollback s' \<Longrightarrow>
      pg_open pg s \<and> \<not> pg_open pg s' \<and> pg_seen pg s' = pg_rollback pg s"
    and pg_savepoint: "pg_step pg s (PgSavepoint n) s' \<Longrightarrow> pg_same_frame pg s s' \<and> pg_open pg s \<and>
      pg_seen pg s' = pg_seen pg s \<and> pg_commit pg s' = pg_commit pg s \<and>
      pg_savepoints pg s' = pg_savepoints pg s @ [(n, pg_seen pg s, pg_commit pg s)]"
    and pg_release: "pg_step pg s (PgRelease n) s' \<Longrightarrow> pg_same_frame pg s s' \<and> pg_open pg s \<and>
      pg_seen pg s' = pg_seen pg s \<and> pg_commit pg s' = pg_commit pg s \<and>
      (\<exists>i. newest n (pg_savepoints pg s) = Some i \<and> pg_savepoints pg s' = take i (pg_savepoints pg s))"
    and pg_rollback_to: "pg_step pg s (PgRollbackTo n) s' \<Longrightarrow> pg_same_frame pg s s' \<and> pg_open pg s \<and>
      (\<exists>i. newest n (pg_savepoints pg s) = Some i \<and>
        (pg_seen pg s', pg_commit pg s') = snd (pg_savepoints pg s ! i) \<and>
        pg_savepoints pg s' = take (Suc i) (pg_savepoints pg s))"
  using assms unfolding pg_laws_def by blast+

lemma set_values_ok:
  assumes laws: "pg_laws pg" and ok: "tracker_ok pg t s" and st: "pg_step pg s (PgSet v l) s'"
  shows "tracker_ok pg (set_values (tracked_of v) l t) s'"
  using pg_set [OF laws st] ok
  by (auto simp: tracker_ok_def in_transaction_ok_def set_values_fields pg_same_frame_def
      savepoints_set_values)

lemma forget_ok:
  assumes ok: "tracker_ok pg t s" and same: "pg_same_frame pg s s'" "pg_savepoints pg s' = pg_savepoints pg s"
  shows "tracker_ok pg (forget t) s'"
  using ok same
  by (auto simp: tracker_ok_def in_transaction_ok_def set_values_fields pg_same_frame_def forget_def
      savepoints_set_values)

lemma end_ok:
  assumes ok: "tracker_ok pg t s" and "pg_open pg s" "\<not> pg_open pg s'"
    and left: "pg_seen pg s' = pg_commit pg s \<and> c \<noteq> Some False \<or> pg_seen pg s' = pg_rollback pg s \<and> c \<noteq> Some True"
  shows "tracker_ok pg (end_transaction c t) s'"
  using assms by (cases c) (auto simp: tracker_ok_def in_transaction_ok_def end_transaction_fields)

lemma sync_in_sync: "tr_in_transaction t \<longleftrightarrow> status \<noteq> Idle \<Longrightarrow> sync_transaction status t = t"
  by (auto simp: sync_transaction_def)

lemma savepoint_found:
  assumes "list_all2 (savepoint_ok t) (tr_savepoints t) sps" and "newest n sps = Some i"
  shows "savepoint_index n t = Some i" "i < length sps" "savepoint_ok t (tr_savepoints t ! i) (sps ! i)"
proof -
  show "savepoint_index n t = Some i"
    using newest_cong [OF savepoint_ok_names [OF assms(1)]] assms(2) by (simp add: savepoint_index_def)
  show "i < length sps" using newest_bound [OF assms(2)] by simp
  then show "savepoint_ok t (tr_savepoints t ! i) (sps ! i)"
    using assms(1) by (simp add: list_all2_conv_all_nth)
qed

lemma release_ok:
  assumes laws: "pg_laws pg" and ok: "tracker_ok pg t s" and st: "pg_step pg s (PgRelease n) s'"
  shows "tracker_ok pg (follow_savepoint_end (Some n) False t) s'"
proof -
  from pg_release [OF laws st] obtain i where i: "newest n (pg_savepoints pg s) = Some i"
    "pg_savepoints pg s' = take i (pg_savepoints pg s)" and
    f: "pg_same_frame pg s s'" "pg_open pg s" "pg_seen pg s' = pg_seen pg s" "pg_commit pg s' = pg_commit pg s" by blast
  from ok f have l: "list_all2 (savepoint_ok t) (tr_savepoints t) (pg_savepoints pg s)"
    by (simp add: tracker_ok_def in_transaction_ok_def)
  have "list_all2 (savepoint_ok (t\<lparr>tr_savepoints := take i (tr_savepoints t)\<rparr>))
      (take i (tr_savepoints t)) (take i (pg_savepoints pg s))"
    using list_all2_takeI [OF l] by (rule savepoint_ok_mono) simp_all
  with ok f i savepoint_found [OF l i(1)] show ?thesis
    by (simp add: tracker_ok_def in_transaction_ok_def follow_savepoint_end_def pg_same_frame_def)
qed

lemma rollback_to_ok:
  assumes laws: "pg_laws pg" and ok: "tracker_ok pg t s" and st: "pg_step pg s (PgRollbackTo n) s'"
  shows "tracker_ok pg (follow_savepoint_end (Some n) True t) s'"
proof -
  from pg_rollback_to [OF laws st] obtain i where i: "newest n (pg_savepoints pg s) = Some i"
    "(pg_seen pg s', pg_commit pg s') = snd (pg_savepoints pg s ! i)"
    "pg_savepoints pg s' = take (Suc i) (pg_savepoints pg s)" and
    f: "pg_same_frame pg s s'" "pg_open pg s" by blast
  from ok f have l: "list_all2 (savepoint_ok t) (tr_savepoints t) (pg_savepoints pg s)"
    by (simp add: tracker_ok_def in_transaction_ok_def)
  note found = savepoint_found [OF l i(1)]
  let ?t = "follow_savepoint_end (Some n) True t"
  have t: "?t = t\<lparr>tr_values := snd (tr_savepoints t ! i), tr_savepoints := take (Suc i) (tr_savepoints t)\<rparr>"
    using found(1) by (simp add: follow_savepoint_end_def)
  have "list_all2 (savepoint_ok ?t) (take (Suc i) (tr_savepoints t)) (take (Suc i) (pg_savepoints pg s))"
    using list_all2_takeI [OF l] by (rule savepoint_ok_mono) (simp_all add: t)
  moreover have "sound (tr_values ?t) (pg_seen pg s')"
    "\<not> tr_wrote_local t \<longrightarrow> sound (tr_values ?t) (pg_commit pg s')"
    "\<not> tr_wrote_session t \<longrightarrow> sound (tr_base t) (pg_commit pg s')"
    using found(3) i(2) [symmetric] by (auto simp: savepoint_ok_def t split: prod.splits)
  ultimately show ?thesis using ok f i(3)
    by (simp add: tracker_ok_def in_transaction_ok_def t pg_same_frame_def)
qed

lemma add_savepoint_ok:
  assumes laws: "pg_laws pg" and ok: "tracker_ok pg t s" and st: "pg_step pg s (PgSavepoint n) s'"
  shows "tracker_ok pg (add_savepoint n t) s'"
proof -
  note p = pg_savepoint [OF laws st]
  with ok have l: "list_all2 (savepoint_ok t) (tr_savepoints t) (pg_savepoints pg s)"
    and in_tx: "in_transaction_ok pg t s" by (simp_all add: tracker_ok_def in_transaction_ok_def)
  have "list_all2 (savepoint_ok (add_savepoint n t)) (tr_savepoints t) (pg_savepoints pg s)"
    using l by (rule savepoint_ok_mono) (simp_all add: add_savepoint_def)
  moreover have "savepoint_ok (add_savepoint n t) (n, tr_values t) (n, pg_seen pg s, pg_commit pg s)"
    using ok in_tx by (auto simp: savepoint_ok_def add_savepoint_def tracker_ok_def in_transaction_ok_def)
  ultimately show ?thesis using ok p in_tx
    by (auto simp: tracker_ok_def in_transaction_ok_def add_savepoint_def pg_same_frame_def list_all2_appendI)
qed

lemma session_step_ok:
  "session_step pg c c' \<Longrightarrow> pg_laws pg \<Longrightarrow> tracker_ok pg (fst c) (snd c) \<Longrightarrow> tracker_ok pg (fst c') (snd c')"
proof (induction rule: session_step.induct)
  case (begins s s' status t)
  then show ?case using pg_begin [OF begins.prems(1) begins.hyps(1)]
    by (auto simp: sync_transaction_def tracker_ok_def in_transaction_ok_def)
next
  case (looks status s t)
  then show ?case by (auto simp: tracker_ok_def sync_in_sync)
next
  case (writes s v is_local s' t)
  then show ?case using set_values_ok by simp
next
  case (changes s s' t)
  then show ?case using pg_change forget_ok by (metis fst_conv snd_conv)
next
  case (suspects s s' t)
  note p = pg_session_change [OF suspects.prems(1) suspects.hyps]
  show ?case
  proof (cases "tr_in_transaction t")
    case True
    with p suspects show ?thesis
      by (auto simp: suspect_session_def tracker_ok_def in_transaction_ok_def pg_same_frame_def
          savepoints_suspect)
  next
    case False
    then have "suspect_session True t = forget t" by (simp add: suspect_session_def)
    then show ?thesis using forget_ok p suspects.prems(2) by (metis fst_conv snd_conv)
  qed
next
  case (suspects_session_mode s s' t)
  then have "tracker_ok pg (forget t) s'" using pg_change forget_ok by (metis fst_conv snd_conv)
  then show ?case by (simp add: suspect_session_def)
next
  case (commits s s' t)
  then show ?case using pg_commits [OF commits.prems(1) commits.hyps] end_ok [of pg t s s' "Some True"] by simp
next
  case (rolls_back s s' t)
  then show ?case using pg_rolls_back [OF rolls_back.prems(1) rolls_back.hyps]
      end_ok [of pg t s s' "Some False"] by simp
next
  case (ends_unseen s e s' t)
  have "pg_open pg s \<and> \<not> pg_open pg s' \<and> (pg_seen pg s' = pg_commit pg s \<or> pg_seen pg s' = pg_rollback pg s)"
    using ends_unseen.hyps pg_commits [OF ends_unseen.prems(1)] pg_rolls_back [OF ends_unseen.prems(1)] by auto
  with ends_unseen.prems show ?case using end_ok [of pg t s s' None]
    by (auto simp: sync_transaction_def tracker_ok_def)
next
  case (sets_savepoint s n s' t)
  then show ?case using add_savepoint_ok by simp
next
  case (releases s n s' t)
  then show ?case using release_ok by simp
next
  case (rolls_back_to s n s' t)
  then show ?case using rollback_to_ok by simp
qed

lemma session_reachable_ok:
  assumes "pg_laws pg" "session_start pg c0" "(session_step pg)\<^sup>*\<^sup>* c0 c"
  shows "tracker_ok pg (fst c) (snd c)"
  using assms(3)
proof (induction rule: rtranclp_induct)
  case base
  then show ?case using assms(2) by (auto simp: session_start_def tracker_ok_def attach_def)
next
  case (step c c')
  then show ?case using session_step_ok assms(1) by blast
qed

text \<open>
  C5. The tracker is never wrong: after any sequence of transactions, session and
  transaction-local writes, savepoints, releases, partial and full rollbacks, commits seen,
  unseen or interrupted, and suspected changes, the values it holds are unknown or exactly
  those the session's statements see; and in a transaction, those it started with are unknown
  or what a rollback leaves.
\<close>

theorem tracked_values_sound:
  assumes "pg_laws pg" and "session_start pg c0" and "(session_step pg)\<^sup>*\<^sup>* c0 (t, s)"
  shows "sound (tr_values t) (pg_seen pg s) \<and> tr_in_transaction t = pg_open pg s \<and>
         (pg_open pg s \<longrightarrow> sound (tr_base t) (pg_rollback pg s))"
  using session_reachable_ok [OF assms] by (auto simp: tracker_ok_def in_transaction_ok_def)

text \<open>
  An end of the outermost transaction through Django's own methods is followed soundly,
  whatever its outcome: the tracker's values stay true when the method returns, when it fails
  with a database error (the transaction rolled back), when it is interrupted around a commit
  that may have gone through, and when the commit of a failed transaction rolls it back.
\<close>

theorem transaction_end_sound:
  assumes "pg_laws pg" and "tracker_ok pg t s" and "pg_step pg s e s'"
    and "before \<noteq> Idle"
    and "e = (if before \<noteq> InError \<and> (committed \<and> (outcome = EndReturned \<or> outcome = EndInterrupted \<and> went_through))
              then PgCommit else PgRollback)"
  shows "tracker_ok pg (follow_end before Idle (outcome_committed committed outcome) t) s'"
proof -
  have end_e: "pg_open pg s" "\<not> pg_open pg s'" "e = PgCommit \<Longrightarrow> pg_seen pg s' = pg_commit pg s"
    "e = PgRollback \<Longrightarrow> pg_seen pg s' = pg_rollback pg s"
    using assms(3,5) pg_commits [OF assms(1)] pg_rolls_back [OF assms(1)] by (auto split: if_splits)
  show ?thesis
    using end_ok [OF assms(2) end_e(1,2)] end_e(3,4) assms(4,5)
    by (cases outcome) (auto simp: follow_end_def outcome_committed_def split: if_splits)
qed

text \<open>
  Django's savepoint statements reach the tracker as the savepoint operations: the SQL it
  sends for a quoted name, once read, records the savepoint with the values of that moment,
  drops it with the later ones, or goes back to its values, after the transaction's status has
  been looked at.  (A savepoint named \<^verbatim>\<open>prepared\<close>, in any case, is taken for a two-phase commit.)
\<close>

theorem django_savepoints_followed:
  assumes n: "plain_name n" "length n \<le> 200" "upper n \<noteq> ''PREPARED''"
  shows "\<exists>a b c. parse_sql (SqlText (''SAVEPOINT '' @ dq n)) = Some a \<and>
     parse_sql (SqlText (''RELEASE SAVEPOINT '' @ dq n)) = Some b \<and>
     parse_sql (SqlText (''ROLLBACK TO SAVEPOINT '' @ dq n)) = Some c \<and>
     follow names a before observe t = add_savepoint n (observe t) \<and>
     follow names b before observe t = follow_savepoint_end (Some n) False (observe t) \<and>
     follow names c before observe t = follow_savepoint_end (Some n) True (observe t)"
proof -
  obtain a b c where p: "parse_sql (SqlText (''SAVEPOINT '' @ dq n)) = Some a"
      "parse_sql (SqlText (''RELEASE SAVEPOINT '' @ dq n)) = Some b"
      "parse_sql (SqlText (''ROLLBACK TO SAVEPOINT '' @ dq n)) = Some c" and
    w: "st_words a = [''SAVEPOINT'', dq n]" "st_words b = [''RELEASE'', ''SAVEPOINT'', dq n]"
      "st_words c = [''ROLLBACK'', ''TO'', ''SAVEPOINT'', dq n]" and
    cmd: "st_command a = ''SAVEPOINT''" "st_command b = ''RELEASE''" "st_command c = ''ROLLBACK''" and
    names: "savepoint_name (st_words a) ''SAVEPOINT'' = Some n" "savepoint_name (st_words b) ''RELEASE'' = Some n"
      "savepoint_name (st_words c) ''TO'' = Some n"
    using django_savepoint_words [OF n(1,2)] by blast
  have id: "sql_identifier ''SAVEPOINT'' = ''savepoint''" "sql_identifier ''TO'' = ''to''"
    by (simp_all add: sql_identifier_def rstrip_char_def ascii_lower_def char_of_eq_iff)
  have up: "upper ''savepoint'' = ''SAVEPOINT''" "upper ''to'' = ''TO''" "upper ''TO'' = ''TO''"
    "upper ''ROLLBACK'' = ''ROLLBACK''" "upper ''SAVEPOINT'' = ''SAVEPOINT''"
    by (simp_all add: upper_def ascii_upper_def char_of_eq_iff)
  have "follow names a before observe t = add_savepoint n (observe t)"
    using names n(3) by (simp add: follow_def is_reset_def follow_argument_def follow_before_def
        follow_after_def rolls_back_to_def cmd w sql_identifier_quoted [OF n(1)])
  moreover have "follow names b before observe t = follow_savepoint_end (Some n) False (observe t)"
    using names by (simp add: follow_def is_reset_def follow_argument_def follow_before_def
        follow_after_def rolls_back_to_def cmd w id up)
  moreover have "follow names c before observe t = follow_savepoint_end (Some n) True (observe t)"
    using names by (simp add: follow_def is_reset_def follow_argument_def follow_before_def
        follow_after_def rolls_back_to_def cmd w id up)
  ultimately show ?thesis using p by metis
qed

subsection \<open>One concrete session\<close>

text \<open>An instance of the parameter, for the witnesses: the session as a record of what is observed.\<close>

record demo_pg_state =
  dp_open :: bool
  dp_seen :: gvals
  dp_commit :: gvals
  dp_rollback :: gvals
  dp_savepoints :: "(string \<times> gvals \<times> gvals) list"

fun demo_exec :: "demo_pg_state \<Rightarrow> pg_event \<Rightarrow> demo_pg_state option" where
  "demo_exec s PgBegin = (if dp_open s then None
     else Some \<lparr>dp_open = True, dp_seen = dp_seen s, dp_commit = dp_seen s, dp_rollback = dp_seen s,
                dp_savepoints = []\<rparr>)"
| "demo_exec s (PgSet v is_local) = (if is_local \<and> \<not> dp_open s then None
     else Some (s\<lparr>dp_seen := v, dp_commit := (if is_local then dp_commit s else v)\<rparr>))"
| "demo_exec s PgChange = Some (s\<lparr>dp_seen := None, dp_commit := None\<rparr>)"
| "demo_exec s PgSessionChange = Some (if dp_open s then s\<lparr>dp_commit := None\<rparr> else s\<lparr>dp_seen := None\<rparr>)"
| "demo_exec s PgCommit = (if dp_open s then Some (s\<lparr>dp_open := False, dp_seen := dp_commit s\<rparr>) else None)"
| "demo_exec s PgRollback = (if dp_open s then Some (s\<lparr>dp_open := False, dp_seen := dp_rollback s\<rparr>) else None)"
| "demo_exec s (PgSavepoint n) = (if dp_open s
     then Some (s\<lparr>dp_savepoints := dp_savepoints s @ [(n, dp_seen s, dp_commit s)]\<rparr>) else None)"
| "demo_exec s (PgRelease n) = (case newest n (dp_savepoints s) of
     Some i \<Rightarrow> if dp_open s then Some (s\<lparr>dp_savepoints := take i (dp_savepoints s)\<rparr>) else None
   | None \<Rightarrow> None)"
| "demo_exec s (PgRollbackTo n) = (case newest n (dp_savepoints s) of
     Some i \<Rightarrow> if dp_open s
       then Some (s\<lparr>dp_seen := fst (snd (dp_savepoints s ! i)), dp_commit := snd (snd (dp_savepoints s ! i)),
                   dp_savepoints := take (Suc i) (dp_savepoints s)\<rparr>) else None
   | None \<Rightarrow> None)"

definition demo_pg :: "demo_pg_state pg" where
  "demo_pg = \<lparr>pg_step = (\<lambda>s e s'. demo_exec s e = Some s'), pg_open = dp_open, pg_seen = dp_seen,
     pg_commit = dp_commit, pg_rollback = dp_rollback, pg_savepoints = dp_savepoints\<rparr>"

lemma demo_pg_laws: "pg_laws demo_pg"
  unfolding pg_laws_def
  by (intro allI conjI impI) (auto simp: demo_pg_def pg_same_frame_def split: if_splits option.splits)

definition demo_idle :: demo_pg_state where
  "demo_idle = \<lparr>dp_open = False, dp_seen = None, dp_commit = None, dp_rollback = None, dp_savepoints = []\<rparr>"

text \<open>A transaction with a local write, a savepoint, a session write, and a rollback to the savepoint.\<close>

definition demo_values :: context_gucs where
  "demo_values = gucs_for_tenant (TStr ''7'')"

definition demo_events :: "pg_event list" where
  "demo_events = [PgBegin, PgSet (Some demo_values) True, PgSavepoint ''s'', PgSet (Some admin_gucs) False,
     PgRollbackTo ''s'']"

fun demo_track :: "pg_event \<Rightarrow> tracker \<Rightarrow> tracker" where
  "demo_track PgBegin t = sync_transaction InTransaction t"
| "demo_track (PgSet v l) t = set_values (tracked_of v) l t"
| "demo_track (PgSavepoint n) t = add_savepoint n t"
| "demo_track (PgRollbackTo n) t = follow_savepoint_end (Some n) True t"
| "demo_track _ t = forget t"

fun demo_run :: "pg_event list \<Rightarrow> tracker \<times> demo_pg_state \<Rightarrow> tracker \<times> demo_pg_state" where
  "demo_run [] c = c"
| "demo_run (e # es) (t, s) = demo_run es (demo_track e t, the (demo_exec s e))"

fun demo_runs :: "pg_event list \<Rightarrow> demo_pg_state \<Rightarrow> bool" where
  "demo_runs [] s = True"
| "demo_runs (e # es) s \<longleftrightarrow> demo_exec s e \<noteq> None \<and>
     (case e of PgBegin \<Rightarrow> True | PgSet v l \<Rightarrow> True | PgSavepoint n \<Rightarrow> True | PgRollbackTo n \<Rightarrow> True | _ \<Rightarrow> False) \<and>
     demo_runs es (the (demo_exec s e))"

lemma demo_step:
  assumes "demo_runs (e # es) s"
  shows "session_step demo_pg (t, s) (demo_track e t, the (demo_exec s e))"
proof -
  have "pg_step demo_pg s e (the (demo_exec s e))" using assms by (auto simp: demo_pg_def)
  with assms show ?thesis
    by (cases e) (auto intro: session_step.begins session_step.writes session_step.sets_savepoint
        session_step.rolls_back_to)
qed

lemma demo_run_reaches: "demo_runs es s \<Longrightarrow> (session_step demo_pg)\<^sup>*\<^sup>* (t, s) (demo_run es (t, s))"
proof (induction es arbitrary: t s)
  case (Cons e es)
  then show ?case using demo_step [OF Cons.prems] by (auto intro: converse_rtranclp_into_rtranclp)
qed simp

lemma tracked_values_sound_witness:
  "\<exists>t s. (session_step demo_pg)\<^sup>*\<^sup>* (attach None TNone new_tracker, demo_idle) (t, s) \<and>
     tr_values t = TVals demo_values \<and> pg_seen demo_pg s = Some demo_values \<and> pg_commit demo_pg s = None"
proof -
  let ?c0 = "(attach None TNone new_tracker, demo_idle)"
  obtain t s where ts: "demo_run demo_events ?c0 = (t, s)" by (cases "demo_run demo_events ?c0")
  have v: "tr_values t = TVals demo_values" "dp_commit s = None"
    using ts by (auto simp: demo_events_def demo_idle_def attach_def new_tracker_def sync_transaction_def
        set_values_def Let_def add_savepoint_def follow_savepoint_end_def savepoint_index_def tracked_of_def)
  have "demo_runs demo_events demo_idle" by (simp add: demo_events_def demo_idle_def)
  then have reach: "(session_step demo_pg)\<^sup>*\<^sup>* ?c0 (t, s)" unfolding ts [symmetric] by (rule demo_run_reaches)
  have "session_start demo_pg ?c0"
    unfolding session_start_def
    by (intro exI [of _ None] exI [of _ TNone] exI [of _ new_tracker] exI [of _ demo_idle])
      (simp add: demo_idle_def demo_pg_def)
  from tracked_values_sound [OF demo_pg_laws this reach] v reach show ?thesis
    by (auto simp: demo_pg_def)
qed

lemma transaction_end_sound_witness:
  "\<exists>t s'. demo_exec (the (demo_exec demo_idle PgBegin)) PgRollback = Some s' \<and>
     tracker_ok demo_pg (follow_end InError Idle (outcome_committed True EndReturned) t) s'"
proof -
  let ?s = "the (demo_exec demo_idle PgBegin)"
  obtain s' where s': "demo_exec ?s PgRollback = Some s'" by (simp add: demo_idle_def)
  let ?t = "sync_transaction InTransaction (attach None TNone new_tracker)"
  have ok: "tracker_ok demo_pg ?t ?s"
    by (simp add: tracker_ok_def in_transaction_ok_def demo_pg_def demo_idle_def sync_transaction_def
        attach_def new_tracker_def)
  have "tracker_ok demo_pg (follow_end InError Idle (outcome_committed True EndReturned) ?t) s'"
    by (rule transaction_end_sound [OF demo_pg_laws ok]) (use s' in \<open>simp_all add: demo_pg_def\<close>)
  with s' show ?thesis by blast
qed

lemma django_savepoints_followed_witness:
  "\<exists>a. parse_sql (SqlText (''SAVEPOINT '' @ dq ''s1_x2'')) = Some a \<and>
     follow [] a InTransaction (\<lambda>t. t) new_tracker = add_savepoint ''s1_x2'' new_tracker"
  using django_savepoints_followed [of "''s1_x2''" "[]" InTransaction "\<lambda>t. t" new_tracker]
  by (auto simp: plain_name_def is_space_def upper_def ascii_upper_def)

end
