(* ===== verification/Audit_Log.thy ===== *)
theory Audit_Log
  imports State
begin

text \<open>
  \<^verbatim>\<open>tenants/audit.py\<close>: the audit records and the origin a context block is attributed to.  What
  is modelled is what is handed to the audit logger: the event, its level, its fields and the
  one-line text of the plain-text handler; a sink that fails drops the record and changes
  nothing else.  \<open>enabled\<close> is the logger's \<^verbatim>\<open>isEnabledFor\<close>.
\<close>

subsection \<open>Values in the text\<close>

datatype audit_value = AStr string | AInt int | ABool bool | AList "string list"

text \<open>\<^verbatim>\<open>str.isprintable()\<close> and \<^verbatim>\<open>repr()\<close> of a string, among the Latin-1 characters.\<close>

definition printable :: "char \<Rightarrow> bool" where
  "printable c \<longleftrightarrow> (let n = (of_char c :: nat) in (32 \<le> n \<and> n \<le> 126) \<or> (161 \<le> n \<and> n \<noteq> 173))"

definition hex_digit :: "nat \<Rightarrow> char" where
  "hex_digit d = (if d < 10 then char_of (48 + d) else char_of (87 + d))"

definition repr_char :: "char \<Rightarrow> char \<Rightarrow> string" where
  "repr_char q c =
     (if c = q \<or> c = CHR 0x5C then [CHR 0x5C, c]
      else if c = newline then [CHR 0x5C, CHR ''n'']
      else if c = CHR 0x0D then [CHR 0x5C, CHR ''r'']
      else if c = CHR 0x09 then [CHR 0x5C, CHR ''t'']
      else if \<not> printable c
      then [CHR 0x5C, CHR ''x'', hex_digit (of_char c div 16), hex_digit (of_char c mod 16)]
      else [c])"

definition py_repr :: "string \<Rightarrow> string" where
  "py_repr s =
     (let q = (if CHR 0x27 \<in> set s \<and> CHR 0x22 \<notin> set s then CHR 0x22 else CHR 0x27)
      in q # concat (map (repr_char q) s) @ [q])"

definition needs_quotes :: "string \<Rightarrow> bool" where
  "needs_quotes s \<longleftrightarrow> \<not> list_all printable s \<or> CHR ''='' \<in> set s \<or> list_ex is_space s"

fun plain_value :: "audit_value \<Rightarrow> string" where
  "plain_value (AStr s) = (if needs_quotes s then py_repr s else s)"
| "plain_value (AInt i) = show_int i"
| "plain_value (ABool b) = (if b then ''True'' else ''False'')"
| "plain_value (AList ss) = ''['' @ py_join '', '' (map py_repr ss) @ '']''"

subsection \<open>Users\<close>

text \<open>The user, as the \<^verbatim>\<open>TenantUser\<close> protocol shows it, with its primary key (\<^verbatim>\<open>user_id_of\<close>).\<close>

record tenant_user =
  u_is_admin :: bool
  u_tenant :: "tenant_id option"
  u_pk :: "tenant_id option"

subsection \<open>Records\<close>

datatype audit_level = Info | Warning

type_synonym audit_fields = "(string \<times> audit_value option) list"

record audit_record =
  ar_event :: string
  ar_level :: audit_level
  ar_fields :: audit_fields
  ar_text :: string

definition audit_text :: "audit_fields \<Rightarrow> string" where
  "audit_text fs =
     py_join '' '' [name @ ''='' @ plain_value v. (name, Some v) \<leftarrow> fs]"

fun id_value :: "tenant_id \<Rightarrow> audit_value" where
  "id_value (TInt i) = AInt i"
| "id_value (TStr s) = AStr s"

definition emit ::
  "(audit_level \<Rightarrow> bool) \<Rightarrow> string \<Rightarrow> string \<Rightarrow> audit_level \<Rightarrow> tenant_id option \<Rightarrow> bool option \<Rightarrow>
     tenant_id option \<Rightarrow> audit_fields \<Rightarrow> audit_record list \<Rightarrow> audit_record list" where
  "emit enabled event source level tenant admin user details log =
     (if \<not> enabled level then log
      else let fs = [(''source'', Some (AStr source)), (''tenant_id'', map_option id_value tenant),
                         (''admin'', map_option ABool admin), (''user_id'', map_option id_value user)] @ details
           in log @ [\<lparr>ar_event = event, ar_level = level, ar_fields = fs, ar_text = audit_text fs\<rparr>])"

definition denied ::
  "(audit_level \<Rightarrow> bool) \<Rightarrow> string \<Rightarrow> string \<Rightarrow> tenant_id option \<Rightarrow> tenant_id option \<Rightarrow> bool option \<Rightarrow>
     audit_fields \<Rightarrow> audit_record list \<Rightarrow> audit_record list" where
  "denied enabled source reason user tenant admin details =
     emit enabled ''context.denied'' source Warning tenant admin user ((''reason'', Some (AStr reason)) # details)"

subsection \<open>Origins\<close>

text \<open>Who enters a block: the source (\<open>None\<close>: not audited) and the user's primary key.\<close>

record origin =
  o_source :: "string option"
  o_user :: "tenant_id option"

definition direct_origin :: origin where
  "direct_origin = \<lparr>o_source = Some ''context_manager'', o_user = None\<rparr>"

definition context_event ::
  "(audit_level \<Rightarrow> bool) \<Rightarrow> string \<Rightarrow> origin \<Rightarrow> tenant_id option \<Rightarrow> string \<Rightarrow> audit_record list \<Rightarrow> audit_record list" where
  "context_event enabled event origin tenant alias log =
     (case o_source origin of
        None \<Rightarrow> log
      | Some source \<Rightarrow>
          emit enabled event source Info tenant (Some (tenant = None)) (o_user origin)
            [(''using'', Some (AStr alias))] log)"

subsection \<open>A record is one line\<close>

lemma printable_ascii [simp]: "printable CHR 0x5C" "printable CHR 0x22" "printable CHR 0x27" "printable CHR '' ''"
  "printable CHR ''=''" "printable CHR '',''" "printable CHR ''[''" "printable CHR '']''" "printable CHR ''n''" "printable CHR ''r''" "printable CHR ''t''" "printable CHR ''x''"
  by (simp_all add: printable_def)

lemma of_char_of: "n < 256 \<Longrightarrow> of_char (char_of n :: char) = (n :: nat)"
  by (simp add: take_bit_nat_eq_self)

lemma of_char_range: "(of_char c :: nat) < 256"
  by (cases c) (auto simp: of_char_def split: if_splits)

lemma of_char_nibbles [simp]: "(of_char c :: nat) div 16 < 16" "(of_char c :: nat) mod 16 < 16"
  using of_char_range [of c] by (simp_all add: div_less_iff_less_mult)

lemma hex_digit_printable: "d < 16 \<Longrightarrow> printable (hex_digit d)"
  by (simp add: hex_digit_def printable_def of_char_of Let_def)

lemma repr_char_printable: "printable q \<Longrightarrow> x \<in> set (repr_char q c) \<Longrightarrow> printable x"
proof -
  assume q: "printable q" and x: "x \<in> set (repr_char q c)"
  have "printable (hex_digit (of_char c div 16))" "printable (hex_digit (of_char c mod 16))"
    by (simp_all add: hex_digit_printable)
  with q x show ?thesis by (auto simp: repr_char_def split: if_splits)
qed

lemma py_repr_printable: "x \<in> set (py_repr s) \<Longrightarrow> printable x"
  by (auto simp: py_repr_def Let_def dest: repr_char_printable [rotated] split: if_splits)

lemma show_nat_printable: "x \<in> set (show_nat n) \<Longrightarrow> printable x"
proof (induction n rule: show_nat.induct)
  case (1 n)
  have "n mod 10 < 10" by simp
  then have "n mod 10 \<le> 78 \<and> n mod 10 \<noteq> 85 \<and> n mod 10 \<noteq> 112 \<and> n mod 10 \<noteq> 13" by linarith
  with \<open>n mod 10 < 10\<close> have digit: "printable (digit_char (n mod 10))"
    by (simp add: digit_char_def printable_def of_char_of Let_def)
  from 1 digit show ?case
    by (subst (asm) (2) show_nat.simps) (auto split: if_splits)
qed

lemma plain_value_printable: "x \<in> set (plain_value v) \<Longrightarrow> printable x"
proof (cases v)
  case (AStr s)
  assume "x \<in> set (plain_value v)"
  with AStr show ?thesis
    by (auto simp: needs_quotes_def list_all_iff dest: py_repr_printable split: if_splits)
next
  case (AInt i)
  assume "x \<in> set (plain_value v)"
  with AInt show ?thesis
    by (auto simp: show_int_def printable_def dest: show_nat_printable split: if_splits)
next
  case (ABool b)
  assume "x \<in> set (plain_value v)"
  with ABool show ?thesis by (auto simp: printable_def split: if_splits)
next
  case (AList ss)
  have "set (py_join '', '' (map py_repr ss)) \<subseteq> {c. printable c}"
    by (rule set_py_join_bound) (auto dest: py_repr_printable)
  moreover assume "x \<in> set (plain_value v)"
  ultimately show ?thesis using AList by (auto simp: printable_def)
qed

text \<open>
  What a reader needs to find the end of a value: it is a quoted string that closes with its
  last character (a backslash hides the character after it), a list of such strings, or has neither
  white space nor \<^verbatim>\<open>=\<close>.
\<close>

fun closes :: "char \<Rightarrow> string \<Rightarrow> bool" where
  "closes q [] = False"
| "closes q (c # cs) =
     (if c = CHR 0x5C then (case cs of [] \<Rightarrow> False | _ # ds \<Rightarrow> closes q ds)
      else if c = q then cs = [] else closes q cs)"

definition quoted_string :: "string \<Rightarrow> bool" where
  "quoted_string t \<longleftrightarrow> (case t of [] \<Rightarrow> False | q # body \<Rightarrow> q \<in> {CHR 0x27, CHR 0x22} \<and> closes q body)"

definition one_token :: "string \<Rightarrow> bool" where
  "one_token t \<longleftrightarrow> quoted_string t \<or> list_all (\<lambda>c. \<not> is_space c \<and> c \<noteq> CHR ''='') t \<or>
     (\<exists>ss. t = ''['' @ py_join '', '' ss @ '']'' \<and> list_all quoted_string ss)"

lemma hex_digit_plain: "d < 16 \<Longrightarrow> hex_digit d \<notin> {CHR 0x5C, CHR 0x27, CHR 0x22}"
  by (auto simp: hex_digit_def char_of_eq_iff take_bit_nat_eq_self split: if_splits)

lemma closes_repr_char:
  assumes "q \<in> {CHR 0x27, CHR 0x22}" and "closes q rest"
  shows "closes q (repr_char q c @ rest)"
proof -
  have "hex_digit (of_char c div 16) \<notin> {CHR 0x5C, CHR 0x27, CHR 0x22}"
    "hex_digit (of_char c mod 16) \<notin> {CHR 0x5C, CHR 0x27, CHR 0x22}"
    by (rule hex_digit_plain, simp)+
  with assms show ?thesis by (auto simp: repr_char_def)
qed

lemma closes_repr:
  assumes "q \<in> {CHR 0x27, CHR 0x22}"
  shows "closes q (concat (map (repr_char q) s) @ [q])"
proof (induction s)
  case Nil
  with assms show ?case by auto
next
  case (Cons c s)
  then show ?case using closes_repr_char [OF assms] by simp
qed

lemma py_repr_quoted: "quoted_string (py_repr s)"
  using closes_repr [of "CHR 0x27" s] closes_repr [of "CHR 0x22" s]
  by (simp add: quoted_string_def py_repr_def Let_def)

lemma py_repr_one_token: "one_token (py_repr s)"
  by (simp add: one_token_def py_repr_quoted)

lemma digits_one_token: "x \<in> set (show_nat n) \<Longrightarrow> \<not> is_space x \<and> x \<noteq> CHR ''=''"
proof (induction n rule: show_nat.induct)
  case (1 n)
  have "n mod 10 < 10" by simp
  then have "n mod 10 \<le> 78 \<and> n mod 10 \<noteq> 85 \<and> n mod 10 \<noteq> 112 \<and> n mod 10 \<noteq> 13" by linarith
  with \<open>n mod 10 < 10\<close> have digit: "\<not> is_space (digit_char (n mod 10)) \<and> digit_char (n mod 10) \<noteq> CHR ''=''"
    by (simp add: digit_char_def is_space_def of_char_of Let_def char_of_eq_iff take_bit_nat_eq_self)
  from 1 digit show ?case
    by (subst (asm) (2) show_nat.simps) (auto split: if_splits)
qed

lemma plain_value_one_token: "one_token (plain_value v)"
proof (cases v)
  case (AStr s)
  show ?thesis
  proof (cases "needs_quotes s")
    case True
    with AStr show ?thesis by (simp add: py_repr_one_token)
  next
    case False
    with AStr show ?thesis by (auto simp: needs_quotes_def one_token_def list_all_iff list_ex_iff)
  qed
next
  case (AInt i)
  then show ?thesis
    by (auto simp: one_token_def show_int_def list_all_iff is_space_def dest: digits_one_token)
next
  case (ABool b)
  then show ?thesis by (simp add: one_token_def is_space_def)
next
  case (AList ss)
  then show ?thesis unfolding one_token_def
    by (intro disjI2 exI [of _ "map py_repr ss"]) (simp add: list_all_iff py_repr_quoted)
qed

lemma audit_text_printable:
  assumes "list_all (\<lambda>(name, v). list_all printable name) fs"
  shows "list_all printable (audit_text fs)"
proof -
  have "set (audit_text fs) \<subseteq> {c. printable c}"
    unfolding audit_text_def
    by (rule set_py_join_bound)
      (use assms in \<open>auto 0 3 simp: list_all_iff plain_value_printable split: option.splits\<close>)
  then show ?thesis by (auto simp: list_all_iff)
qed



text \<open>
  A limit: a value that starts with a quote and needs none of its own is written as it is, so two
  records with different fields can have the same text, to a reader who honours the quotes.
\<close>

lemma quote_at_the_start_is_ambiguous:
  "audit_text [(''tenant_id'', Some (AStr [CHR 0x27, CHR ''a''])), (''user_id'', Some (AStr [CHR ''b'', CHR 0x27]))]
     = audit_text [(''tenant_id'', Some (AStr (''a user_id'' @ ''=b'')))]"
  by (simp add: audit_text_def needs_quotes_def printable_def is_space_def py_repr_def repr_char_def newline_def Let_def)

end
