(* ===== verification/Affinity.thy ===== *)
theory Affinity
  imports Tracker Audit_Log
begin

text \<open>
  \<^verbatim>\<open>tenants/affinity.py\<close>: the affinity guard.  The world holds the context variables, this
  thread's Django connections (by alias), its write depth, the audit log, and the database side, which is a
  parameter: \<open>'d driver\<close> reads a session's status, runs a statement on it, sends it a transaction
  command, opens and closes one.  \<open>created\<close> is what runs on \<^verbatim>\<open>connection_created\<close>.  A statement is
  run by \<open>execute\<close>, the rest of Django's execute wrappers and the driver.
\<close>

record conn =
  cn_postgresql :: bool
  cn_raw :: "nat option"
  cn_autocommit :: bool
  cn_needs_rollback :: bool
  cn_guard :: bool
  cn_hooked :: bool
  cn_tracker :: "tracker option"

record 'd aff =
  a_state :: rls_state
  a_conns :: "string \<Rightarrow> conn option"
  a_depth :: nat
  a_audit :: "audit_record list"
  a_db :: 'd

record aff_cfg =
  use_local_set :: bool
  databases :: "string list"
  guc_is_admin :: string
  guc_current_tenant :: string

record 'd driver =
  dr_status :: "nat \<Rightarrow> 'd \<Rightarrow> exn + tx_status"
  dr_execute :: "nat \<Rightarrow> bool \<Rightarrow> string \<Rightarrow> string list \<Rightarrow> ('d, unit) py"
  dr_send :: "nat \<Rightarrow> string \<Rightarrow> ('d, unit) py"
  dr_connect :: "string \<Rightarrow> ('d, nat) py"
  dr_close :: "nat \<Rightarrow> ('d, unit) py"

text \<open>The exceptions that \<^verbatim>\<open>except Exception\<close> does not catch.\<close>

definition is_exception :: "exn \<Rightarrow> bool" where
  "is_exception e \<longleftrightarrow> e \<notin> OtherError ` {''CancelledError'', ''KeyboardInterrupt'', ''SystemExit'', ''GeneratorExit''}"

definition on_db :: "('d, 'a) py \<Rightarrow> ('d aff, 'a) py" where
  "on_db m = (\<lambda>w. case m (a_db w) of (r, d) \<Rightarrow> (r, w\<lparr>a_db := d\<rparr>))"

definition put_conn :: "string \<Rightarrow> conn \<Rightarrow> 'd aff \<Rightarrow> 'd aff" where
  "put_conn alias cn w = w\<lparr>a_conns := (a_conns w)(alias \<mapsto> cn)\<rparr>"

subsection \<open>Trackers and connections\<close>

definition tracker_of :: "string \<Rightarrow> 'd aff \<Rightarrow> tracker option" where
  "tracker_of alias w = Option.bind (a_conns w alias) cn_tracker"

definition raw_of :: "string \<Rightarrow> 'd aff \<Rightarrow> nat option" where
  "raw_of alias w = Option.bind (a_conns w alias) cn_raw"

text \<open>A change of the connection's tracker, where it has one.\<close>

definition upd_tracker :: "string \<Rightarrow> (tracker \<Rightarrow> tracker) \<Rightarrow> 'd aff \<Rightarrow> 'd aff" where
  "upd_tracker alias f w =
     (case a_conns w alias of
        None \<Rightarrow> w
      | Some cn \<Rightarrow> put_conn alias (cn\<lparr>cn_tracker := map_option f (cn_tracker cn)\<rparr>) w)"

definition is_guarded :: "aff_cfg \<Rightarrow> string \<Rightarrow> bool" where
  "is_guarded cfg alias \<longleftrightarrow> alias \<in> set (databases cfg)"

definition will_run_in_transaction :: "conn \<Rightarrow> tx_status \<Rightarrow> bool" where
  "will_run_in_transaction cn status \<longleftrightarrow> status \<noteq> Idle \<or> \<not> cn_autocommit cn"

definition read_status :: "'d driver \<Rightarrow> nat \<Rightarrow> ('d aff, tx_status) py" where
  "read_status dr raw = (\<lambda>w. (dr_status dr raw (a_db w), w))"

definition reattach :: "nat \<Rightarrow> tracker \<Rightarrow> tracker" where
  "reattach raw t = (if tr_raw t \<noteq> Some raw then attach (Some raw) TUnknown t else t)"

definition observe :: "'d driver \<Rightarrow> string \<Rightarrow> ('d aff, tx_status) py" where
  "observe dr alias = (\<lambda>w.
     case raw_of alias w of
       None \<Rightarrow> (Inr ConnectionBad, w)
     | Some raw \<Rightarrow>
         py_bind (read_status dr raw)
           (\<lambda>status. py_seq (py_modify (upd_tracker alias (sync_transaction status))) (py_ret status))
           (upd_tracker alias (reattach raw) w))"

definition follow_transaction_ends :: "conn \<Rightarrow> conn" where
  "follow_transaction_ends cn = (if cn_hooked cn then cn else cn\<lparr>cn_hooked := True\<rparr>)"

definition install_guard :: "tracked \<Rightarrow> conn \<Rightarrow> conn" where
  "install_guard values cn =
     (if \<not> cn_postgresql cn then cn
      else let cn1 = follow_transaction_ends (cn\<lparr>cn_guard := True\<rparr>);
               t = (case cn_tracker cn1 of None \<Rightarrow> new_tracker | Some t \<Rightarrow> t)
           in cn1\<lparr>cn_tracker := Some (if values = TUnknown \<or> tr_raw t \<noteq> cn_raw cn1
                                      then attach (cn_raw cn1) values t else t)\<rparr>)"

definition upd_conn :: "string \<Rightarrow> (conn \<Rightarrow> conn) \<Rightarrow> 'd aff \<Rightarrow> 'd aff" where
  "upd_conn alias f w = (case a_conns w alias of None \<Rightarrow> w | Some cn \<Rightarrow> put_conn alias (f cn) w)"

definition guard_open_connection :: "string \<Rightarrow> 'd aff \<Rightarrow> 'd aff" where
  "guard_open_connection alias =
     upd_conn alias (\<lambda>cn. if cn_raw cn \<noteq> None \<and> cn_tracker cn = None then install_guard TUnknown cn else cn)"

text \<open>
  The wrapper that \<^verbatim>\<open>_transaction_end\<close> puts around Django's \<^verbatim>\<open>_commit\<close> (\<open>committed\<close>) or \<^verbatim>\<open>_rollback\<close>;
  \<open>end\<close> is Django's method.
\<close>

definition end_outcome_of :: "exn + 'a \<Rightarrow> end_outcome" where
  "end_outcome_of r = (case r of Inr _ \<Rightarrow> EndReturned
     | Inl e \<Rightarrow> if e = DatabaseError then EndDatabaseError else EndInterrupted)"

definition transaction_end ::
  "'d driver \<Rightarrow> string \<Rightarrow> bool \<Rightarrow> ('d, unit) py \<Rightarrow> ('d aff, unit) py" where
  "transaction_end dr alias committed end_call = (\<lambda>w.
     case (raw_of alias w, tracker_of alias w) of
       (Some raw, Some t) \<Rightarrow>
         if tr_raw t \<noteq> Some raw then on_db end_call w
         else py_bind (read_status dr raw) (\<lambda>before w1.
           case on_db end_call w1 of (r, w2) \<Rightarrow>
             py_bind (read_status dr raw) (\<lambda>after w3.
               (r, upd_tracker alias (follow_end before after (outcome_committed committed (end_outcome_of r))) w3)) w2) w
     | _ \<Rightarrow> on_db end_call w)"

subsection \<open>The library's own writes\<close>

definition record_write ::
  "'d driver \<Rightarrow> aff_cfg \<Rightarrow> string \<Rightarrow> tracked \<Rightarrow> bool \<Rightarrow> ('d aff, unit) py" where
  "record_write dr cfg alias values is_local = (\<lambda>w.
     if raw_of alias w = None then (Inr (), w)
     else case tracker_of alias w of
       None \<Rightarrow> (Inr (), upd_conn alias (install_guard TUnknown) w)
     | Some _ \<Rightarrow>
         py_bind (observe dr alias)
           (\<lambda>_. py_modify (upd_tracker alias
                  (set_values (if is_guarded cfg alias then values else TUnknown) is_local))) w)"

definition forget_values :: "string \<Rightarrow> 'd aff \<Rightarrow> 'd aff" where
  "forget_values alias = upd_tracker alias forget"

definition writing ::
  "'d driver \<Rightarrow> aff_cfg \<Rightarrow> string \<Rightarrow> tracked \<Rightarrow> bool \<Rightarrow> ('d aff, 'a) py \<Rightarrow> ('d aff, 'a) py" where
  "writing dr cfg alias values is_local body = (\<lambda>w.
     let depth = a_depth w in
     case body (w\<lparr>a_depth := Suc depth\<rparr>) of
       (Inl e, w1) \<Rightarrow> (Inl e, (forget_values alias w1)\<lparr>a_depth := depth\<rparr>)
     | (Inr x, w1) \<Rightarrow>
         (case record_write dr cfg alias values is_local w1 of
            (Inl e, w2) \<Rightarrow> (Inl e, w2\<lparr>a_depth := depth\<rparr>)
          | (Inr _, w2) \<Rightarrow> (Inr x, w2\<lparr>a_depth := depth\<rparr>)))"

text \<open>Django opens the connection, and sends \<^verbatim>\<open>connection_created\<close>.\<close>

definition ensure_connection ::
  "'d driver \<Rightarrow> (string \<Rightarrow> ('d aff, unit) py) \<Rightarrow> string \<Rightarrow> ('d aff, unit) py" where
  "ensure_connection dr created alias = (\<lambda>w.
     if raw_of alias w \<noteq> None then (Inr (), w)
     else py_bind (on_db (dr_connect dr alias))
       (\<lambda>raw. py_seq (py_modify (upd_conn alias (\<lambda>cn. cn\<lparr>cn_raw := Some raw\<rparr>))) (created alias)) w)"

text \<open>The statement both variables are written with, and what is asked of it: nothing to follow.\<close>

definition set_gucs_sql :: string where
  "set_gucs_sql = ''SELECT set_config(%s, %s, %s), set_config(%s, %s, %s)''"

definition set_gucs_params :: "aff_cfg \<Rightarrow> context_gucs option \<Rightarrow> bool \<Rightarrow> string list" where
  "set_gucs_params cfg values is_local =
     (let flag = (if is_local then ''true'' else ''false'');
          is_admin = (case values of None \<Rightarrow> [] | Some g \<Rightarrow> g_is_admin g);
          tenant = (case values of None \<Rightarrow> [] | Some g \<Rightarrow> g_current_tenant g)
      in [guc_is_admin cfg, is_admin, flag, guc_current_tenant cfg, tenant, flag])"

definition guc_names_upper :: "aff_cfg \<Rightarrow> string list" where
  "guc_names_upper cfg = [upper (guc_is_admin cfg), upper (guc_current_tenant cfg)]"

subsection \<open>After a statement\<close>

definition follow_statement ::
  "'d driver \<Rightarrow> aff_cfg \<Rightarrow> string \<Rightarrow> parsed \<Rightarrow> tx_status \<Rightarrow> ('d aff, unit) py" where
  "follow_statement dr cfg alias st status =
     (if is_reset st
      then py_modify (upd_tracker alias (\<lambda>t. if resets_gucs (guc_names_upper cfg) st then forget t else t))
      else if follow_argument st = ''PREPARED'' then py_ret ()
      else py_seq (py_modify (upd_tracker alias (follow_before st status)))
        (py_bind (observe dr alias) (\<lambda>_. py_modify (upd_tracker alias (follow_after st)))))"

definition suspects_local :: "nat \<Rightarrow> tracker \<Rightarrow> tracker" where
  "suspects_local depth t =
     (if tr_wrote_local t \<and> tr_in_transaction t \<and> depth = 0 then suspect_session True t else t)"

text \<open>
  The end of \<^verbatim>\<open>_guard\<close>: the statement is run (\<open>run\<close>), forgotten if it fails and could have
  changed the variables, followed if it succeeds.
\<close>

definition run_and_follow ::
  "'d driver \<Rightarrow> aff_cfg \<Rightarrow> string \<Rightarrow> parsed option \<Rightarrow> tx_status \<Rightarrow> bool \<Rightarrow> ('d aff, 'a) py \<Rightarrow> ('d aff, 'a) py" where
  "run_and_follow dr cfg alias st status own run =
     py_bind
       (py_except run (\<lambda>_. True) (\<lambda>e.
          py_seq (py_modify (if (case st of None \<Rightarrow> True | Some s \<Rightarrow> st_command s \<in> set followed)
                             then forget_values alias else (\<lambda>w. w)))
            (py_raise e)))
       (\<lambda>result.
          py_seq
            (case st of
               None \<Rightarrow> py_modify (forget_values alias)
             | Some s \<Rightarrow>
                 if st_compound s then py_modify (forget_values alias)
                 else if st_command s \<in> set followed then follow_statement dr cfg alias s status
                 else py_ret ())
            (py_seq
              (py_modify (\<lambda>w. upd_tracker alias (if own then suspect_session True else suspects_local (a_depth w)) w))
              (py_ret result)))"

text \<open>A statement of the library's own write, inside \<open>writing\<close>: the guard only follows it.\<close>

definition guarded_write :: "'d driver \<Rightarrow> aff_cfg \<Rightarrow> string \<Rightarrow> string \<Rightarrow> string list \<Rightarrow> ('d aff, unit) py" where
  "guarded_write dr cfg alias sql params = (\<lambda>w.
     case raw_of alias w of
       None \<Rightarrow> (Inl (OtherError ''InterfaceError''), w)
     | Some raw \<Rightarrow>
         (let autocommit = (case a_conns w alias of None \<Rightarrow> True | Some cn \<Rightarrow> cn_autocommit cn);
              run = on_db (dr_execute dr raw autocommit sql params)
          in case tracker_of alias w of
               None \<Rightarrow> run w
             | Some _ \<Rightarrow>
                 py_bind (observe dr alias)
                   (\<lambda>status. run_and_follow dr cfg alias (parse_sql (SqlText sql)) status False run) w))"

definition write_gucs ::
  "'d driver \<Rightarrow> aff_cfg \<Rightarrow> (string \<Rightarrow> ('d aff, unit) py) \<Rightarrow> string \<Rightarrow> context_gucs option \<Rightarrow> bool \<Rightarrow>
     ('d aff, unit) py" where
  "write_gucs dr cfg created alias values is_local =
     py_seq
       (if is_local
        then py_seq (ensure_connection dr created alias) (\<lambda>w.
          case a_conns w alias of
            None \<Rightarrow> (Inl ConnectionDoesNotExist, w)
          | Some cn \<Rightarrow>
              (case cn_raw cn of
                 None \<Rightarrow> (Inl (OtherError ''AttributeError''), w)
               | Some raw \<Rightarrow>
                   py_bind (read_status dr raw)
                     (\<lambda>status. py_require (will_run_in_transaction cn status) RuntimeError) w))
        else py_ret ())
       (writing dr cfg alias (tracked_of values) is_local
         (py_seq (ensure_connection dr created alias)
           (guarded_write dr cfg alias set_gucs_sql (set_gucs_params cfg values is_local))))"

subsection \<open>Applying the active context\<close>

definition context_of :: "'d aff \<Rightarrow> context_gucs option" where
  "context_of w = get_context_gucs (a_state w)"

definition apply_if_stale ::
  "'d driver \<Rightarrow> aff_cfg \<Rightarrow> (string \<Rightarrow> ('d aff, unit) py) \<Rightarrow> string \<Rightarrow> ('d aff, tx_status) py" where
  "apply_if_stale dr cfg created alias =
     py_bind (observe dr alias) (\<lambda>status w.
       case a_conns w alias of
         None \<Rightarrow> (Inr status, w)
       | Some cn \<Rightarrow>
           (let context_gucs = context_of w; held = map_option tr_values (cn_tracker cn);
                is_local = (context_gucs \<noteq> None \<and> use_local_set cfg)
            in if held = Some (tracked_of context_gucs) then (Inr status, w)
               else if status \<in> {InError, ConnectionBad} \<or> cn_needs_rollback cn then (Inr status, w)
               else if \<not> is_guarded cfg alias then (Inr status, w)
               else if is_local \<and> \<not> will_run_in_transaction cn status then (Inr status, w)
               else py_seq (write_gucs dr cfg created alias context_gucs is_local) (py_ret status) w))"

definition apply_active_context ::
  "'d driver \<Rightarrow> aff_cfg \<Rightarrow> (string \<Rightarrow> ('d aff, unit) py) \<Rightarrow> string \<Rightarrow> ('d aff, unit) py" where
  "apply_active_context dr cfg created alias =
     py_seq (ensure_connection dr created alias) (\<lambda>w.
       if tracker_of alias w = None then (Inr (), w)
       else py_bind (apply_if_stale dr cfg created alias) (\<lambda>_. py_ret ()) w)"

fun is_values :: "tracked \<Rightarrow> bool" where
  "is_values (TVals g) = True"
| "is_values _ = False"

definition settle_alias ::
  "'d driver \<Rightarrow> aff_cfg \<Rightarrow> (string \<Rightarrow> ('d aff, unit) py) \<Rightarrow> string option \<Rightarrow> bool \<Rightarrow> string \<Rightarrow> ('d aff, unit) py" where
  "settle_alias dr cfg created using cleared alias = (\<lambda>w.
     if Some alias = using \<or> raw_of alias w = None then (Inr (), w)
     else case tracker_of alias w of
       None \<Rightarrow> (Inr (), w)
     | Some t \<Rightarrow>
         (let held = tr_values t in
          py_bind
            (if using = None \<and> held = TUnknown
             then py_bind (observe dr alias) (\<lambda>status. py_ret (status \<noteq> Idle)) else py_ret False)
            (\<lambda>unknown_in_transaction.
               if \<not> is_values held \<and> \<not> unknown_in_transaction \<and> \<not> (cleared \<and> (held = TNone \<or> held = TUnknown))
               then py_ret ()
               else py_except (py_bind (apply_if_stale dr cfg created alias) (\<lambda>_. py_ret ()))
                      (\<lambda>e. e = DatabaseError) (\<lambda>_. py_modify (forget_values alias))) w))"

definition settle_other_aliases ::
  "'d driver \<Rightarrow> aff_cfg \<Rightarrow> (string \<Rightarrow> ('d aff, unit) py) \<Rightarrow> string option \<Rightarrow> bool \<Rightarrow> ('d aff, unit) py" where
  "settle_other_aliases dr cfg created using cleared =
     py_for (databases cfg) (settle_alias dr cfg created using cleared)"

definition suspect_alias :: "'d driver \<Rightarrow> bool \<Rightarrow> string \<Rightarrow> ('d aff, unit) py" where
  "suspect_alias dr under_local_values alias = (\<lambda>w.
     if raw_of alias w = None \<or> tracker_of alias w = None then (Inr (), w)
     else py_seq
       (py_except (py_bind (observe dr alias) (\<lambda>_. py_ret ())) is_exception (\<lambda>_. py_ret ()))
       (py_modify (upd_tracker alias (suspect_session under_local_values))) w)"

definition suspect_sessions :: "'d driver \<Rightarrow> aff_cfg \<Rightarrow> bool \<Rightarrow> ('d aff, unit) py" where
  "suspect_sessions dr cfg under_local_values =
     py_for (databases cfg) (suspect_alias dr under_local_values)"

subsection \<open>A transaction of its own\<close>

definition needs_own_transaction ::
  "aff_cfg \<Rightarrow> string \<Rightarrow> tx_status \<Rightarrow> parsed option \<Rightarrow> 'd aff \<Rightarrow> bool" where
  "needs_own_transaction cfg alias status st w \<longleftrightarrow>
     status = Idle \<and> use_local_set cfg \<and>
     (case a_conns w alias of None \<Rightarrow> False | Some cn \<Rightarrow> cn_autocommit cn) \<and>
     context_of w \<noteq> None \<and> is_guarded cfg alias \<and> \<not> refused_in_a_transaction st"

definition send_transaction_control :: "'d driver \<Rightarrow> string \<Rightarrow> string \<Rightarrow> ('d aff, unit) py" where
  "send_transaction_control dr alias command = (\<lambda>w.
     case raw_of alias w of
       None \<Rightarrow> (Inl (OtherError ''AttributeError''), w)
     | Some raw \<Rightarrow> on_db (dr_send dr raw command) w)"

text \<open>Django's \<^verbatim>\<open>close()\<close> outside \<^verbatim>\<open>atomic()\<close>: the session is gone whatever the driver answers.\<close>

definition close_connection :: "'d driver \<Rightarrow> string \<Rightarrow> ('d aff, unit) py" where
  "close_connection dr alias = (\<lambda>w.
     case raw_of alias w of
       None \<Rightarrow> (Inr (), w)
     | Some raw \<Rightarrow>
         (case on_db (dr_close dr raw) w of
            (r, w1) \<Rightarrow> (r, upd_conn alias (\<lambda>cn. cn\<lparr>cn_raw := None\<rparr>) w1)))"

definition tracker_status :: "'d driver \<Rightarrow> string \<Rightarrow> ('d aff, tx_status) py" where
  "tracker_status dr alias = (\<lambda>w.
     case Option.bind (tracker_of alias w) tr_raw of
       None \<Rightarrow> (Inr Idle, w)
     | Some raw \<Rightarrow> read_status dr raw w)"

definition abandon_own_transaction :: "'d driver \<Rightarrow> string \<Rightarrow> ('d aff, unit) py" where
  "abandon_own_transaction dr alias = (\<lambda>w.
     case py_bind (tracker_status dr alias) (\<lambda>status.
            py_seq (if status \<noteq> Idle then send_transaction_control dr alias ''ROLLBACK'' else py_ret ())
              (py_bind (tracker_status dr alias) (\<lambda>after. py_ret (after = Idle)))) w of
       (r, w1) \<Rightarrow>
         (case (if r = Inr True then py_modify (upd_tracker alias (end_transaction (Some False)))
                else py_seq (py_modify (forget_values alias))
                       (py_except (close_connection dr alias) is_exception (\<lambda>_. py_ret ()))) w1 of
            (Inl e, w2) \<Rightarrow> (Inl e, w2)
          | (Inr _, w2) \<Rightarrow>
              ((case r of Inl e \<Rightarrow> if is_exception e then Inr () else Inl e | Inr _ \<Rightarrow> Inr ()), w2)))"

definition run_in_own_transaction ::
  "'d driver \<Rightarrow> aff_cfg \<Rightarrow> (string \<Rightarrow> ('d aff, unit) py) \<Rightarrow> string \<Rightarrow> ('d, 'a) py \<Rightarrow> ('d aff, 'a) py" where
  "run_in_own_transaction dr cfg created alias execute = (\<lambda>w.
     let values = context_of w in
     py_bind
       (py_except
         (py_seq (send_transaction_control dr alias ''BEGIN'')
         (py_bind (observe dr alias) (\<lambda>_.
          py_seq (write_gucs dr cfg created alias values True)
         (py_bind (on_db execute) (\<lambda>result.
          py_seq (send_transaction_control dr alias ''COMMIT'') (py_ret result))))))
         (\<lambda>_. True)
         (\<lambda>e. py_seq (abandon_own_transaction dr alias) (py_raise e)))
       (\<lambda>result. py_seq (py_modify (upd_tracker alias (end_transaction (Some True)))) (py_ret result)) w)"

subsection \<open>The execute wrapper\<close>

definition guard ::
  "'d driver \<Rightarrow> aff_cfg \<Rightarrow> (string \<Rightarrow> ('d aff, unit) py) \<Rightarrow> string \<Rightarrow> sql_arg \<Rightarrow> ('d, 'a) py \<Rightarrow> ('d aff, 'a) py" where
  "guard dr cfg created alias sql execute = (\<lambda>w.
     if tracker_of alias w = None then on_db execute w
     else let st = parse_sql sql in
       if a_depth w > 0 \<or> controls_the_transaction st
       then py_bind (observe dr alias)
              (\<lambda>status. run_and_follow dr cfg alias st status False (on_db execute)) w
       else py_bind (apply_if_stale dr cfg created alias) (\<lambda>status w1.
              let own = needs_own_transaction cfg alias status st w1 in
              run_and_follow dr cfg alias st status own
                (if own then run_in_own_transaction dr cfg created alias execute else on_db execute) w1) w)"

subsection \<open>What stays\<close>

text \<open>The connection of an alias is open on a session that its tracker describes.\<close>

definition conn_ok :: "string \<Rightarrow> nat \<Rightarrow> bool \<Rightarrow> 'd aff \<Rightarrow> bool" where
  "conn_ok alias raw autocommit w \<longleftrightarrow>
     (\<exists>cn t. a_conns w alias = Some cn \<and> cn_raw cn = Some raw \<and> cn_autocommit cn = autocommit \<and>
        cn_tracker cn = Some t \<and> tr_raw t = Some raw)"

definition keeps :: "string \<Rightarrow> ('d aff, 'a) py \<Rightarrow> bool" where
  "keeps alias m \<longleftrightarrow>
     (\<forall>w raw ac. conn_ok alias raw ac w \<longrightarrow>
        conn_ok alias raw ac (snd (m w)) \<and> a_state (snd (m w)) = a_state w)"

text \<open>A computation that leaves the database alone.\<close>

definition db_free :: "('d aff, 'a) py \<Rightarrow> bool" where
  "db_free m \<longleftrightarrow> (\<forall>w. a_db (snd (m w)) = a_db w)"

lemma upd_tracker_frame [simp]:
  "a_state (upd_tracker alias f w) = a_state w" "a_db (upd_tracker alias f w) = a_db w"
  "a_depth (upd_tracker alias f w) = a_depth w" "raw_of al (upd_tracker alias f w) = raw_of al w"
  by (auto simp: upd_tracker_def put_conn_def raw_of_def split: option.splits)

lemma conn_ok_upd [simp]:
  "(\<And>t. tr_raw (f t) = tr_raw t) \<Longrightarrow> conn_ok al raw ac (upd_tracker alias f w) = conn_ok al raw ac w"
  by (auto simp: upd_tracker_def put_conn_def conn_ok_def split: option.splits)

lemma conn_ok_reattach [simp]: "conn_ok alias raw ac w \<Longrightarrow> conn_ok alias raw ac (upd_tracker alias (reattach raw) w)"
  by (auto simp: upd_tracker_def put_conn_def conn_ok_def reattach_def)

lemma suspects_local_raw [simp]: "tr_raw (suspects_local d t) = tr_raw t"
  by (simp add: suspects_local_def)

lemma upd_conn_frame [simp]:
  "a_state (upd_conn alias f w) = a_state w" "a_db (upd_conn alias f w) = a_db w"
  "a_depth (upd_conn alias f w) = a_depth w"
  by (auto simp: upd_conn_def put_conn_def split: option.splits)

lemma tracker_of_upd [simp]: "tracker_of alias (upd_tracker alias f w) = map_option f (tracker_of alias w)"
  by (auto simp: upd_tracker_def put_conn_def tracker_of_def split: option.splits)

lemma forget_values_frame [simp]:
  "a_state (forget_values alias w) = a_state w" "a_db (forget_values alias w) = a_db w"
  "a_depth (forget_values alias w) = a_depth w" "raw_of al (forget_values alias w) = raw_of al w"
  "conn_ok al raw ac (forget_values alias w) = conn_ok al raw ac w"
  by (simp_all add: forget_values_def)

lemma conn_ok_update [simp]:
  "conn_ok alias raw ac (w\<lparr>a_depth := n\<rparr>) = conn_ok alias raw ac w"
  "conn_ok alias raw ac (w\<lparr>a_db := d\<rparr>) = conn_ok alias raw ac w"
  "tracker_of alias (w\<lparr>a_depth := n\<rparr>) = tracker_of alias w"
  "tracker_of alias (w\<lparr>a_db := d\<rparr>) = tracker_of alias w"
  "raw_of alias (w\<lparr>a_depth := n\<rparr>) = raw_of alias w" "raw_of alias (w\<lparr>a_db := d\<rparr>) = raw_of alias w"
  by (simp_all add: conn_ok_def tracker_of_def raw_of_def)

lemma conn_okD: "conn_ok alias raw ac w \<Longrightarrow> raw_of alias w = Some raw \<and> tracker_of alias w \<noteq> None"
  by (auto simp: conn_ok_def raw_of_def tracker_of_def)

lemma keepsI:
  "(\<And>w raw ac. conn_ok alias raw ac w \<Longrightarrow> conn_ok alias raw ac (snd (m w)) \<and> a_state (snd (m w)) = a_state w) \<Longrightarrow>
     keeps alias m"
  by (simp add: keeps_def)

lemma keepsD:
  "keeps alias m \<Longrightarrow> conn_ok alias raw ac w \<Longrightarrow> m w = (r, w') \<Longrightarrow>
     conn_ok alias raw ac w' \<and> a_state w' = a_state w"
  unfolding keeps_def by (metis snd_conv)

lemma keeps_bind: "keeps alias m \<Longrightarrow> (\<And>x. keeps alias (f x)) \<Longrightarrow> keeps alias (py_bind m f)"
  unfolding keeps_def py_bind_def by (auto split: prod.splits sum.splits) (metis snd_conv)+

lemma keeps_seq: "keeps alias m \<Longrightarrow> keeps alias n \<Longrightarrow> keeps alias (py_seq m n)"
  by (simp add: py_seq_def keeps_bind)

lemma keeps_except: "keeps alias m \<Longrightarrow> (\<And>e. keeps alias (h e)) \<Longrightarrow> keeps alias (py_except m sel h)"
  unfolding keeps_def py_except_def by (auto split: prod.splits sum.splits) (metis snd_conv)+

lemma keeps_simple [simp]:
  "keeps alias (py_ret x)" "keeps alias (py_raise e)" "keeps alias (py_require b e)"
  "keeps alias (on_db m)" "keeps alias (read_status dr raw)"
  "(\<And>t. tr_raw (f t) = tr_raw t) \<Longrightarrow> keeps alias (py_modify (upd_tracker al f))"
  "keeps alias (py_modify (forget_values al))"
  by (simp_all add: keeps_def py_ret_def py_raise_def py_require_def on_db_def read_status_def
      py_modify_def case_prod_unfold)

lemma keeps_modify_id [simp]: "keeps alias (py_modify (\<lambda>w. w))"
  by (simp add: keeps_def py_modify_def)

lemma keeps_observe [simp]: "keeps alias (observe dr alias)"
proof (rule keepsI)
  fix w :: "'a aff" and raw ac
  assume ok: "conn_ok alias raw ac w"
  then have "raw_of alias w = Some raw" by (auto dest: conn_okD)
  with ok show "conn_ok alias raw ac (snd (observe dr alias w)) \<and> a_state (snd (observe dr alias w)) = a_state w"
    by (auto simp: observe_def py_bind_def read_status_def py_seq_def py_modify_def py_ret_def split: sum.splits)
qed

lemma db_free_bind: "db_free m \<Longrightarrow> (\<And>x. db_free (f x)) \<Longrightarrow> db_free (py_bind m f)"
  unfolding db_free_def py_bind_def by (auto split: prod.splits sum.splits) (metis snd_conv)+

lemma db_free_observe [simp]: "db_free (observe dr al)"
  unfolding db_free_def observe_def
  by (auto simp: py_bind_def read_status_def py_seq_def py_modify_def py_ret_def split: option.splits sum.splits)

lemma observe_db: "observe dr al w = (r, w') \<Longrightarrow> a_db w' = a_db w"
  using db_free_observe [of dr al] unfolding db_free_def by (metis snd_conv)

lemma observe_Inr:
  assumes "raw_of alias w = Some raw" "observe dr alias w = (Inr status, w')"
  shows "dr_status dr raw (a_db w) = Inr status \<and>
         w' = upd_tracker alias (sync_transaction status) (upd_tracker alias (reattach raw) w)"
  using assms by (auto simp: observe_def py_bind_def read_status_def py_seq_def py_modify_def py_ret_def
      split: sum.splits)

lemma keeps_record_write [simp]: "keeps alias (record_write dr cfg alias values l)"
proof (rule keepsI)
  fix w :: "'a aff" and raw ac
  assume ok: "conn_ok alias raw ac w"
  then obtain t where t: "raw_of alias w = Some raw" "tracker_of alias w = Some t" using conn_okD by fastforce
  have "keeps alias (py_bind (observe dr alias) (\<lambda>_. py_modify (upd_tracker alias
      (set_values (if is_guarded cfg alias then values else TUnknown) l))))" by (intro keeps_bind) simp_all
  with ok t show "conn_ok alias raw ac (snd (record_write dr cfg alias values l w)) \<and>
      a_state (snd (record_write dr cfg alias values l w)) = a_state w"
    by (simp add: record_write_def keeps_def)
qed

lemma record_write_db: "record_write dr cfg al values l w = (r, w') \<Longrightarrow> a_db w' = a_db w"
  by (auto simp: record_write_def py_bind_def py_modify_def dest: observe_db split: if_splits option.splits
      sum.splits prod.splits)

lemma keeps_writing: "keeps alias body \<Longrightarrow> keeps alias (writing dr cfg alias values l body)"
proof (rule keepsI)
  fix w :: "'a aff" and raw ac
  assume body: "keeps alias body" and ok: "conn_ok alias raw ac w"
  obtain r w1 where b: "body (w\<lparr>a_depth := Suc (a_depth w)\<rparr>) = (r, w1)" by (cases "body (w\<lparr>a_depth := Suc (a_depth w)\<rparr>)")
  then have w1: "conn_ok alias raw ac w1" "a_state w1 = a_state w" using keepsD [OF body _ b] ok by auto
  show "conn_ok alias raw ac (snd (writing dr cfg alias values l body w)) \<and>
      a_state (snd (writing dr cfg alias values l body w)) = a_state w"
  proof (cases r)
    case (Inl e)
    then show ?thesis using b w1 by (simp add: writing_def Let_def)
  next
    case (Inr x)
    obtain q w2 where q: "record_write dr cfg alias values l w1 = (q, w2)" by (cases "record_write dr cfg alias values l w1")
    with w1 have "conn_ok alias raw ac w2" "a_state w2 = a_state w" using keepsD [OF keeps_record_write _ q] by auto
    then show ?thesis using b q Inr by (cases q) (auto simp: writing_def Let_def)
  qed
qed

lemma keeps_ensure [simp]: "keeps alias (ensure_connection dr created alias)"
  by (rule keepsI) (auto simp: ensure_connection_def dest: conn_okD)

lemma ensure_open: "raw_of alias w \<noteq> None \<Longrightarrow> ensure_connection dr created alias w = (Inr (), w)"
  by (simp add: ensure_connection_def)

lemma keeps_follow [simp]: "keeps alias (follow_statement dr cfg alias st status)"
  unfolding follow_statement_def by (auto intro!: keeps_seq keeps_bind)

lemma keeps_modify_tracker [simp]:
  "(\<And>t. tr_raw (f t) = tr_raw t) \<Longrightarrow> (\<And>d t. tr_raw (g d t) = tr_raw t) \<Longrightarrow>
     keeps alias (py_modify (\<lambda>w. upd_tracker al (if b then f else g (a_depth w)) w))"
  by (simp add: keeps_def py_modify_def)

lemma keeps_run_and_follow:
  "keeps alias run \<Longrightarrow> keeps alias (run_and_follow dr cfg alias st status own run)"
  unfolding run_and_follow_def
  by (intro keeps_bind keeps_except keeps_seq) (auto split: option.split intro!: keeps_seq)

lemma keeps_guarded_write [simp]: "keeps alias (guarded_write dr cfg alias sql params)"
proof (rule keepsI)
  fix w :: "'a aff" and raw ac
  assume ok: "conn_ok alias raw ac w"
  let ?run = "on_db (dr_execute dr raw ac sql params)"
  have "guarded_write dr cfg alias sql params w =
      py_bind (observe dr alias) (\<lambda>status. run_and_follow dr cfg alias (parse_sql (SqlText sql)) status False ?run) w"
    using ok by (auto simp: guarded_write_def conn_ok_def raw_of_def tracker_of_def)
  moreover have "keeps alias (py_bind (observe dr alias)
      (\<lambda>status. run_and_follow dr cfg alias (parse_sql (SqlText sql)) status False ?run))"
    by (intro keeps_bind keeps_run_and_follow) simp_all
  ultimately show "conn_ok alias raw ac (snd (guarded_write dr cfg alias sql params w)) \<and>
      a_state (snd (guarded_write dr cfg alias sql params w)) = a_state w"
    using ok by (simp add: keeps_def)
qed

lemma keeps_local_check [simp]:
  "keeps alias (\<lambda>w. case a_conns w alias of
      None \<Rightarrow> (Inl ConnectionDoesNotExist, w)
    | Some cn \<Rightarrow> (case cn_raw cn of
          None \<Rightarrow> (Inl (OtherError ''AttributeError''), w)
        | Some raw \<Rightarrow> py_bind (read_status dr raw)
            (\<lambda>status. py_require (will_run_in_transaction cn status) RuntimeError) w))"
  by (rule keepsI) (auto simp: py_bind_def read_status_def py_require_def split: option.splits sum.splits)

lemma keeps_write_gucs [simp]: "keeps alias (write_gucs dr cfg created alias values l)"
  unfolding write_gucs_def by (intro keeps_seq keeps_writing) (auto intro!: keeps_seq)

text \<open>What the library reads of its own statements: a single statement that is not to be followed.\<close>

definition plain_sql :: "string \<Rightarrow> bool" where
  "plain_sql sql \<longleftrightarrow> (\<exists>st. parse_sql (SqlText sql) = Some st \<and> \<not> st_compound st \<and> st_command st \<notin> set followed)"

lemma plain_select:
  assumes "CHR '';'' \<notin> set s"
  shows "plain_sql (''SELECT '' @ s)"
proof -
  let ?t = "''SELECT '' @ take 249 s"
  have "skip_leading_comments ?t = ?t"
    using skip_ignorable [OF ignorable.none, of ?t] by (simp add: starts_statement_def is_space_def)
  then have "parse_head (''SELECT '' @ s) = ?t" by (simp add: parse_head_def sql_head_def Let_def)
  moreover have "py_split ?t = ''SELECT'' # py_split (take 249 s)"
    using py_split_word_space [of "''SELECT''" "take 249 s"] by (simp add: is_space_def)
  moreover have "\<not> compound_sql (''SELECT '' @ s)" by (rule compound_sql_no_semicolon) (use assms in simp)
  ultimately show ?thesis
    by (simp add: plain_sql_def parse_sql_def upper_def ascii_upper_def rstrip_char_def followed_def transaction_control_def)
qed

lemma plain_set_gucs: "plain_sql set_gucs_sql"
  using plain_select [of "''set_config(%s, %s, %s), set_config(%s, %s, %s)''"] by (simp add: set_gucs_sql_def)

lemma run_and_follow_write_db:
  assumes "plain_sql sql" "run_and_follow dr cfg alias (parse_sql (SqlText sql)) status False run w = (Inr x, w')"
  shows "\<exists>w1. run w = (Inr x, w1) \<and> a_db w' = a_db w1"
  using assms
  by (auto simp: plain_sql_def run_and_follow_def py_bind_def py_except_def py_seq_def py_raise_def py_modify_def py_ret_def
      split: prod.splits sum.splits)

lemma guarded_write_db:
  assumes plain: "plain_sql sql" and w: "conn_ok alias raw ac w" "guarded_write dr cfg alias sql params w = (Inr (), w')"
  shows "dr_execute dr raw ac sql params (a_db w) = (Inr (), a_db w')"
proof -
  let ?run = "on_db (dr_execute dr raw ac sql params)"
  have "py_bind (observe dr alias) (\<lambda>status. run_and_follow dr cfg alias (parse_sql (SqlText sql)) status False ?run) w
      = (Inr (), w')"
    using w by (auto simp: guarded_write_def conn_ok_def raw_of_def tracker_of_def)
  then obtain st w1 where w1: "observe dr alias w = (Inr st, w1)"
    "run_and_follow dr cfg alias (parse_sql (SqlText sql)) st False ?run w1 = (Inr (), w')"
    by (rule py_bind_InrE)
  with run_and_follow_write_db [OF plain w1(2)] observe_db [OF w1(1)] show ?thesis
    by (auto simp: on_db_def split: prod.splits)
qed

lemma writing_Inr_db:
  assumes "writing dr cfg alias values l body w = (Inr x, w')"
  shows "\<exists>w1. body (w\<lparr>a_depth := Suc (a_depth w)\<rparr>) = (Inr x, w1) \<and> a_db w' = a_db w1"
  using assms by (auto simp: writing_def Let_def split: prod.splits sum.splits dest: record_write_db)

lemma write_gucs_db:
  assumes ok: "conn_ok alias raw ac w" and w: "write_gucs dr cfg created alias values l w = (Inr (), w')"
  shows "dr_execute dr raw ac set_gucs_sql (set_gucs_params cfg values l) (a_db w) = (Inr (), a_db w')"
proof -
  have opn: "raw_of alias w \<noteq> None" using conn_okD [OF ok] by simp
  from w have "writing dr cfg alias (tracked_of values) l
         (py_seq (ensure_connection dr created alias)
           (guarded_write dr cfg alias set_gucs_sql (set_gucs_params cfg values l))) w = (Inr (), w')"
    using opn unfolding write_gucs_def
    by (auto simp: py_seq_def py_bind_def py_ret_def py_require_def read_status_def ensure_open
        split: if_splits option.splits sum.splits prod.splits)
  from writing_Inr_db [OF this] obtain w1 where w1: "py_seq (ensure_connection dr created alias)
         (guarded_write dr cfg alias set_gucs_sql (set_gucs_params cfg values l)) (w\<lparr>a_depth := Suc (a_depth w)\<rparr>)
         = (Inr (), w1)" "a_db w' = a_db w1"
    by (elim exE conjE)
  then have "guarded_write dr cfg alias set_gucs_sql (set_gucs_params cfg values l)
      (w\<lparr>a_depth := Suc (a_depth w)\<rparr>) = (Inr (), w1)"
    using opn by (simp add: py_seq_def py_bind_def ensure_open)
  from guarded_write_db [OF plain_set_gucs _ this] ok w1(2) show ?thesis by simp
qed

subsection \<open>What the guard relies on\<close>

text \<open>
  A value the library writes for a context has a non-empty admin flag, so it is told from the
  cleared pair.  A write that succeeds is a \<^verbatim>\<open>SET\<close> (transaction-locally, a \<^verbatim>\<open>SET LOCAL\<close>), in the
  transaction that is open or that the driver opens for it.
\<close>

definition context_value :: "context_gucs option \<Rightarrow> bool" where
  "context_value v \<longleftrightarrow> (\<forall>g. v = Some g \<longrightarrow> g_is_admin g \<noteq> [])"

definition driver_laws :: "'d driver \<Rightarrow> aff_cfg \<Rightarrow> 's pg \<Rightarrow> (nat \<Rightarrow> 'd \<Rightarrow> 's) \<Rightarrow> bool" where
  "driver_laws dr cfg pg sess \<longleftrightarrow> pg_laws pg \<and>
     (\<forall>raw d st. dr_status dr raw d = Inr st \<and> st \<noteq> ConnectionBad \<longrightarrow> (st \<noteq> Idle \<longleftrightarrow> pg_open pg (sess raw d))) \<and>
     (\<forall>raw ac v l d d'. context_value v \<and> (l \<longrightarrow> pg_open pg (sess raw d) \<or> \<not> ac) \<and>
        dr_execute dr raw ac set_gucs_sql (set_gucs_params cfg v l) d = (Inr (), d') \<longrightarrow>
        (\<exists>s. (s = sess raw d \<or> pg_step pg (sess raw d) PgBegin s) \<and> pg_step pg s (PgSet v l) (sess raw d'))) \<and>
     (\<forall>raw d d'. dr_send dr raw ''BEGIN'' d = (Inr (), d') \<longrightarrow> pg_step pg (sess raw d) PgBegin (sess raw d'))"

lemma driver_lawsD:
  assumes "driver_laws dr cfg pg sess"
  shows laws_pg: "pg_laws pg"
    and laws_status: "dr_status dr raw d = Inr st \<Longrightarrow> st \<noteq> ConnectionBad \<Longrightarrow> st \<noteq> Idle \<longleftrightarrow> pg_open pg (sess raw d)"
    and laws_write: "context_value v \<Longrightarrow> l \<longrightarrow> pg_open pg (sess raw d) \<or> \<not> ac \<Longrightarrow>
      dr_execute dr raw ac set_gucs_sql (set_gucs_params cfg v l) d = (Inr (), d') \<Longrightarrow>
      \<exists>s. (s = sess raw d \<or> pg_step pg (sess raw d) PgBegin s) \<and> pg_step pg s (PgSet v l) (sess raw d')"
    and laws_begin: "dr_send dr raw ''BEGIN'' d = (Inr (), d') \<Longrightarrow> pg_step pg (sess raw d) PgBegin (sess raw d')"
  using assms unfolding driver_laws_def by blast+

lemma write_gucs_seen:
  assumes laws: "driver_laws dr cfg pg sess" and v: "context_value v"
    and ok: "conn_ok alias raw ac w" and tx: "l \<longrightarrow> pg_open pg (sess raw (a_db w)) \<or> \<not> ac"
    and w: "write_gucs dr cfg created alias v l w = (Inr (), w')"
  shows "pg_seen pg (sess raw (a_db w')) = v"
  using laws_write [OF laws v tx write_gucs_db [OF ok w]] pg_set [OF laws_pg [OF laws]] by blast

text \<open>What the tracker holds once the session has been looked at.\<close>

definition looked :: "tx_status \<Rightarrow> nat \<Rightarrow> tracker \<Rightarrow> tracker" where
  "looked status raw t = sync_transaction status (reattach raw t)"

lemma apply_if_stale_seen:
  assumes laws: "driver_laws dr cfg pg sess" and v: "context_value (context_of w)"
    and conn: "a_conns w alias = Some cn" "cn_raw cn = Some raw" "cn_tracker cn = Some t"
    and guarded: "is_guarded cfg alias" "\<not> cn_needs_rollback cn"
    and status: "dr_status dr raw (a_db w) = Inr st" "st \<noteq> InError" "st \<noteq> ConnectionBad"
    and belief: "sound (tr_values (looked st raw t)) (pg_seen pg (sess raw (a_db w)))"
    and run: "apply_if_stale dr cfg created alias w = (Inr st', w')"
  shows "st' = st \<and> conn_ok alias raw (cn_autocommit cn) w' \<and> context_of w' = context_of w \<and>
         (pg_seen pg (sess raw (a_db w')) = context_of w \<or>
          st = Idle \<and> use_local_set cfg \<and> cn_autocommit cn \<and> context_of w \<noteq> None)"
proof -
  let ?w1 = "put_conn alias (cn\<lparr>cn_tracker := Some (looked st raw t)\<rparr>) w"
  have obs: "observe dr alias w = (Inr st, ?w1)"
    using conn status(1) by (simp add: observe_def raw_of_def py_bind_def read_status_def py_seq_def
        py_modify_def py_ret_def upd_tracker_def put_conn_def looked_def)
  have ok1: "conn_ok alias raw (cn_autocommit cn) ?w1" using conn by (simp add: conn_ok_def put_conn_def looked_def reattach_def attach_def)
  have w1: "a_db ?w1 = a_db w" "context_of ?w1 = context_of w" by (simp_all add: put_conn_def context_of_def)
  let ?v = "context_of w" and ?l = "context_of w \<noteq> None \<and> use_local_set cfg"
  let ?cn = "cn\<lparr>cn_tracker := Some (looked st raw t)\<rparr>"
  have a1: "a_conns ?w1 alias = Some ?cn" by (simp add: put_conn_def)
  have body: "(if Some (tr_values (looked st raw t)) = Some (tracked_of ?v) then (Inr st, ?w1)
       else if st \<in> {InError, ConnectionBad} \<or> cn_needs_rollback cn then (Inr st, ?w1)
       else if \<not> is_guarded cfg alias then (Inr st, ?w1)
       else if ?l \<and> \<not> will_run_in_transaction ?cn st then (Inr st, ?w1)
       else py_seq (write_gucs dr cfg created alias ?v ?l) (py_ret st) ?w1) = (Inr st', w')"
    using run w1(2) a1 unfolding apply_if_stale_def by (simp add: py_bind_Inr [where m = "observe dr alias" and w = w, OF obs] Let_def cong: if_cong)
  have run_in: "will_run_in_transaction ?cn st \<longleftrightarrow> st \<noteq> Idle \<or> \<not> cn_autocommit cn"
    by (simp add: will_run_in_transaction_def)
  consider (held) "tr_values (looked st raw t) = tracked_of ?v"
    | (later) "?l" "\<not> will_run_in_transaction ?cn st" "st' = st" "w' = ?w1"
    | (writes) "?l \<longrightarrow> will_run_in_transaction ?cn st"
        "py_seq (write_gucs dr cfg created alias ?v ?l) (py_ret st) ?w1 = (Inr st', w')"
    using body guarded status by (auto split: if_splits)
  then show ?thesis
  proof cases
    case held
    then have "st' = st \<and> w' = ?w1" using body by auto
    moreover have "pg_seen pg (sess raw (a_db w)) = ?v"
      using belief held by (cases ?v) (simp_all add: tracked_of_def)
    ultimately show ?thesis using ok1 w1 by auto
  next
    case later
    then show ?thesis using ok1 w1 run_in by auto
  next
    case writes
    obtain w2 where wr: "write_gucs dr cfg created alias ?v ?l ?w1 = (Inr (), w2)"
      and ret: "py_ret st w2 = (Inr st', w')" by (rule py_seq_InrE [OF writes(2)])
    from wr ret have w2: "write_gucs dr cfg created alias ?v ?l ?w1 = (Inr (), w2)" "st' = st" "w' = w2"
      by (simp_all add: py_ret_def)
    have tx: "?l \<longrightarrow> pg_open pg (sess raw (a_db ?w1)) \<or> \<not> cn_autocommit cn"
      using writes(1) run_in laws_status [OF laws status(1,3)] w1(1) by auto
    have "pg_seen pg (sess raw (a_db w')) = ?v"
      using write_gucs_seen [OF laws v ok1 tx w2(1)] w2(3) by simp
    moreover have "conn_ok alias raw (cn_autocommit cn) w' \<and> a_state w' = a_state ?w1"
      using keepsD [OF keeps_write_gucs ok1 w2(1)] w2(3) by simp
    ultimately show ?thesis using w2(2) w1 by (simp add: context_of_def)
  qed
qed

lemma py_bind_except_cong:
  "m w = m' w \<Longrightarrow> py_bind (py_except m sel h) f w = py_bind (py_except m' sel h) f w"
  by (simp add: py_bind_def py_except_def)

lemma run_and_follow_cong:
  "run w = run' w \<Longrightarrow> run_and_follow dr cfg alias st status own run w = run_and_follow dr cfg alias st status own run' w"
  by (simp add: run_and_follow_def py_bind_def py_except_def)

lemma own_transaction_cong:
  assumes laws: "driver_laws dr cfg pg sess" and v: "context_value (context_of w)"
    and ok: "conn_ok alias raw ac w"
    and agree: "\<And>d. pg_seen pg (sess raw d) = context_of w \<Longrightarrow> execute d = execute' d"
  shows "run_in_own_transaction dr cfg created alias execute w = run_in_own_transaction dr cfg created alias execute' w"
proof -
  have run: "py_bind (on_db execute) f w3 = py_bind (on_db execute') f w3"
    if b: "send_transaction_control dr alias ''BEGIN'' w = (Inr u, w1)"
      and o: "observe dr alias w1 = (Inr st, w2)"
      and wr: "write_gucs dr cfg created alias (context_of w) True w2 = (Inr (), w3)" for w1 w2 w3 st u f
  proof -
    have send: "dr_send dr raw ''BEGIN'' (a_db w) = (Inr (), a_db w1)" "w1 = w\<lparr>a_db := a_db w1\<rparr>"
      using b conn_okD [OF ok] by (auto simp: send_transaction_control_def on_db_def split: prod.splits)
    have "conn_ok alias raw ac w1" using ok by (subst send(2)) simp
    then have ok2: "conn_ok alias raw ac w2" using keepsD [OF keeps_observe _ o] by blast
    have "pg_open pg (sess raw (a_db w2))"
      using pg_begin [OF laws_pg [OF laws] laws_begin [OF laws send(1)]] observe_db [OF o] by simp
    then have "pg_seen pg (sess raw (a_db w3)) = context_of w"
      using write_gucs_seen [OF laws v ok2 _ wr] by simp
    then show ?thesis using agree by (simp add: on_db_def py_bind_def)
  qed
  have "py_bind (send_transaction_control dr alias ''BEGIN'') (\<lambda>_. py_bind (observe dr alias) (\<lambda>_.
      py_bind (write_gucs dr cfg created alias (context_of w) True) (\<lambda>_. py_bind (on_db execute) f))) w =
    py_bind (send_transaction_control dr alias ''BEGIN'') (\<lambda>_. py_bind (observe dr alias) (\<lambda>_.
      py_bind (write_gucs dr cfg created alias (context_of w) True) (\<lambda>_. py_bind (on_db execute') f))) w" for f
    by (rule py_bind_cong, rule py_bind_cong, rule py_bind_cong, rule run) simp_all
  then show ?thesis
    unfolding run_in_own_transaction_def Let_def py_seq_def
    by (intro py_bind_except_cong)
qed

text \<open>
  C1. The guard: a statement runs only where the session sees the active context's values.
  On a configured alias whose tracker, once the session is looked at, believes the truth, and
  outside the library's own writes, a statement that neither controls the transaction nor is
  refused in one is run only in states of the database whose session sees exactly the values
  of the active context (none, outside any): what \<open>execute\<close> does elsewhere makes no difference
  to the guard's result, with session values and with \<^verbatim>\<open>USE_LOCAL_SET\<close>, in a transaction, in
  autocommit and in a transaction of its own.  If the values cannot be applied, it does not run.
\<close>

theorem guard_runs_in_context:
  assumes laws: "driver_laws dr cfg pg sess" and v: "context_value (context_of w)"
    and conn: "a_conns w alias = Some cn" "cn_raw cn = Some raw" "cn_tracker cn = Some t"
    and guarded: "is_guarded cfg alias" "\<not> cn_needs_rollback cn"
    and status: "dr_status dr raw (a_db w) = Inr st" "st \<noteq> InError" "st \<noteq> ConnectionBad"
    and belief: "sound (tr_values (looked st raw t)) (pg_seen pg (sess raw (a_db w)))"
    and plain: "a_depth w = 0" "\<not> controls_the_transaction (parse_sql sql)"
      "use_local_set cfg \<Longrightarrow> \<not> refused_in_a_transaction (parse_sql sql)"
    and agree: "\<And>d. pg_seen pg (sess raw d) = context_of w \<Longrightarrow> execute d = execute' d"
  shows "guard dr cfg created alias sql execute w = guard dr cfg created alias sql execute' w"
proof -
  let ?own = "\<lambda>status w1. needs_own_transaction cfg alias status (parse_sql sql) w1"
  have run: "(if ?own st' w1 then run_in_own_transaction dr cfg created alias execute else on_db execute) w1 =
      (if ?own st' w1 then run_in_own_transaction dr cfg created alias execute' else on_db execute') w1"
    if a: "apply_if_stale dr cfg created alias w = (Inr st', w1)" for st' w1
  proof -
    note seen = apply_if_stale_seen [OF laws v conn guarded status belief a]
    show ?thesis
    proof (cases "?own st' w1")
      case True
      with seen own_transaction_cong [OF laws, of w1 "alias" raw _ execute execute'] v agree show ?thesis by auto
    next
      case False
      then have "pg_seen pg (sess raw (a_db w1)) = context_of w"
        using seen guarded(1) plain(3) by (auto simp: needs_own_transaction_def conn_ok_def)
      with False agree show ?thesis by (simp add: on_db_def)
    qed
  qed
  have "tracker_of alias w \<noteq> None" using conn by (simp add: tracker_of_def)
  with plain run show ?thesis
    by (auto simp: guard_def Let_def intro!: py_bind_cong run_and_follow_cong)
qed

lemma keeps_send [simp]: "keeps alias (send_transaction_control dr alias command)"
  by (rule keepsI) (auto simp: send_transaction_control_def on_db_def case_prod_unfold split: option.splits)

lemma tracker_status_raw:
  "conn_ok alias raw ac w \<Longrightarrow> tracker_status dr alias w = read_status dr raw w"
  by (auto simp: tracker_status_def conn_ok_def tracker_of_def)

lemma keeps_tracker_status [simp]: "keeps alias (tracker_status dr alias)"
  by (rule keepsI) (simp add: tracker_status_raw read_status_def)

lemma close_connection_closes:
  assumes "a_conns w alias = Some cn"
  shows "\<exists>cn'. a_conns (snd (close_connection dr alias w)) alias = Some cn' \<and> cn_raw cn' = None"
  using assms
  by (auto simp: close_connection_def raw_of_def on_db_def upd_conn_def put_conn_def split: option.splits prod.splits)

text \<open>A connection is settled when it is closed or its session is idle.\<close>

definition settled :: "'d driver \<Rightarrow> string \<Rightarrow> nat \<Rightarrow> 'd aff \<Rightarrow> bool" where
  "settled dr alias raw w \<longleftrightarrow>
     (\<exists>cn. a_conns w alias = Some cn \<and> (cn_raw cn = None \<or> dr_status dr raw (a_db w) = Inr Idle))"

lemma conn_ok_settled: "conn_ok alias raw ac w \<Longrightarrow> dr_status dr raw (a_db w) = Inr Idle \<Longrightarrow> settled dr alias raw w"
  by (auto simp: settled_def conn_ok_def)

lemma abandon_settles:
  assumes ok: "conn_ok alias raw ac w" and run: "abandon_own_transaction dr alias w = (r, w')"
  shows "settled dr alias raw w'"
proof -
  let ?attempt = "py_bind (tracker_status dr alias) (\<lambda>status.
      py_seq (if status \<noteq> Idle then send_transaction_control dr alias ''ROLLBACK'' else py_ret ())
        (py_bind (tracker_status dr alias) (\<lambda>after. py_ret (after = Idle))))"
  obtain q w1 where q: "?attempt w = (q, w1)" by (cases "?attempt w")
  have k: "keeps alias ?attempt" by (intro keeps_bind keeps_seq) simp_all
  have ok1: "conn_ok alias raw ac w1" using keepsD [OF k ok q] by blast
  show ?thesis
  proof (cases "q = Inr True")
    case True
    with q have "?attempt w = (Inr True, w1)" by simp
    then obtain st w2 w3 st' w4 where w2: "tracker_status dr alias w = (Inr st, w2)"
      and w3: "(if st \<noteq> Idle then send_transaction_control dr alias ''ROLLBACK'' else py_ret ()) w2 = (Inr (), w3)"
      and last: "tracker_status dr alias w3 = (Inr st', w4)" "py_ret (st' = Idle) w4 = (Inr True, w1)"
      by (elim py_bind_InrE py_seq_InrE)
    have ok2: "conn_ok alias raw ac w2" using keepsD [OF keeps_tracker_status ok w2] by simp
    have "keeps alias (if st \<noteq> Idle then send_transaction_control dr alias ''ROLLBACK'' else py_ret ())" by simp
    from keepsD [OF this ok2 w3] have "conn_ok alias raw ac w3" by simp
    with last have idle: "dr_status dr raw (a_db w1) = Inr Idle"
      by (auto simp: py_bind_def tracker_status_raw read_status_def py_ret_def split: sum.splits)
    have "w' = upd_tracker alias (end_transaction (Some False)) w1"
      using run q True by (auto simp: abandon_own_transaction_def py_modify_def)
    then show ?thesis using conn_ok_settled [of "alias" raw ac w'] ok1 idle by simp
  next
    case False
    let ?w2 = "forget_values alias w1"
    have "w' = snd (close_connection dr alias ?w2)"
      using run q False
      by (auto simp: abandon_own_transaction_def py_modify_def py_seq_def py_bind_def py_except_def py_ret_def
          split: prod.splits sum.splits if_splits)
    moreover have "conn_ok alias raw ac ?w2" using ok1 by simp
    ultimately show ?thesis using close_connection_closes [of ?w2 "alias"]
      by (fastforce simp: settled_def conn_ok_def)
  qed
qed

text \<open>
  C4. The guard never leaves its own transaction open: whatever fails (\<^verbatim>\<open>BEGIN\<close>, the look at the
  session, the write of the values, the statement, \<^verbatim>\<open>COMMIT\<close>, the rollback itself), with
  whatever exception, when it is done the session is idle or the connection is closed.
\<close>

theorem own_transaction_settled:
  assumes ok: "conn_ok alias raw ac w"
    and commits: "\<And>d d'. dr_send dr raw ''COMMIT'' d = (Inr (), d') \<Longrightarrow> dr_status dr raw d' = Inr Idle"
    and run: "run_in_own_transaction dr cfg created alias execute w = (r, w')"
  shows "settled dr alias raw w'"
proof -
  let ?body = "py_seq (send_transaction_control dr alias ''BEGIN'')
         (py_bind (observe dr alias) (\<lambda>_.
          py_seq (write_gucs dr cfg created alias (context_of w) True)
         (py_bind (on_db execute) (\<lambda>result.
          py_seq (send_transaction_control dr alias ''COMMIT'') (py_ret result)))))"
  obtain q w1 where q: "?body w = (q, w1)" by (cases "?body w")
  have k: "keeps alias ?body" by (intro keeps_bind keeps_seq) simp_all
  have ok1: "conn_ok alias raw ac w1" using keepsD [OF k ok q] by blast
  show ?thesis
  proof (cases q)
    case (Inl e)
    obtain a w2 where a: "abandon_own_transaction dr alias w1 = (a, w2)" by (cases "abandon_own_transaction dr alias w1")
    then have "w' = w2" using run q Inl
      by (auto simp: run_in_own_transaction_def Let_def py_bind_def py_except_def py_seq_def py_raise_def
          split: sum.splits)
    with abandon_settles [OF ok1 a] show ?thesis by simp
  next
    case (Inr x)
    then have w': "w' = upd_tracker alias (end_transaction (Some True)) w1"
      using run q by (auto simp: run_in_own_transaction_def Let_def py_bind_def py_except_def py_seq_def
          py_modify_def py_ret_def)
    from q Inr have "?body w = (Inr x, w1)" by simp
    then obtain wa st wb wc y wd we where s1: "send_transaction_control dr alias ''BEGIN'' w = (Inr (), wa)"
      and s2: "observe dr alias wa = (Inr st, wb)"
      and s3: "write_gucs dr cfg created alias (context_of w) True wb = (Inr (), wc)"
      and s4: "on_db execute wc = (Inr y, wd)"
      and s5: "send_transaction_control dr alias ''COMMIT'' wd = (Inr (), we)"
      and s6: "py_ret y we = (Inr x, w1)"
      by (elim py_bind_InrE py_seq_InrE)
    note k1 = keepsD [OF keeps_send ok s1, THEN conjunct1]
    note k2 = keepsD [OF keeps_observe k1 s2, THEN conjunct1]
    note k3 = keepsD [OF keeps_write_gucs k2 s3, THEN conjunct1]
    have w2: "conn_ok alias raw ac wd" using keepsD [OF keeps_simple(4) k3 s4] by simp
    have "send_transaction_control dr alias ''COMMIT'' wd = (Inr (), w1)" using s5 s6 by (simp add: py_ret_def)
    then have "dr_status dr raw (a_db w1) = Inr Idle"
      using conn_okD [OF w2] commits
      by (auto simp: send_transaction_control_def on_db_def split: prod.splits)
    then show ?thesis using w' conn_ok_settled [of "alias" raw ac w'] ok1 by simp
  qed
qed

text \<open>
  A write block leaves the depth as it found it, and the truth or nothing in the tracker:
  whether the body returns or raises, and whether recording what it left raises, the guard is
  as attentive as before; a block that raised leaves the values unknown, and one that returned
  on a configured alias leaves the values it was given.
\<close>

theorem writing_restores_depth:
  assumes body: "body (w\<lparr>a_depth := Suc (a_depth w)\<rparr>) = (r, w1)"
    and run: "writing dr cfg alias values is_local body w = (r', w')"
  shows "a_depth w' = a_depth w \<and>
         (isl r \<longrightarrow> map_option tr_values (tracker_of alias w') \<in> {None, Some TUnknown}) \<and>
         (\<not> isl r' \<and> conn_ok alias raw ac w1 \<longrightarrow>
            map_option tr_values (tracker_of alias w') = Some (if is_guarded cfg alias then values else TUnknown))"
proof (cases r)
  case (Inl e)
  with body run have "w' = (forget_values alias w1)\<lparr>a_depth := a_depth w\<rparr>" "r' = Inl e"
    by (simp_all add: writing_def Let_def)
  with Inl show ?thesis
    by (cases "tracker_of alias w1") (simp_all add: forget_values_def forget_def set_values_fields)
next
  case (Inr x)
  obtain q w2 where q: "record_write dr cfg alias values is_local w1 = (q, w2)"
    by (cases "record_write dr cfg alias values is_local w1")
  have run': "a_depth w' = a_depth w" "isl r' = isl q" "tracker_of alias w' = tracker_of alias w2"
    using body run Inr q by (auto simp: writing_def Let_def split: sum.splits)
  have "map_option tr_values (tracker_of alias w2) = Some (if is_guarded cfg alias then values else TUnknown)"
    if ni: "\<not> isl q" and ok1: "conn_ok alias raw ac w1"
  proof -
    obtain t where t: "raw_of alias w1 = Some raw" "tracker_of alias w1 = Some t"
      using conn_okD [OF ok1] by auto
    with q ni obtain st w3 where o: "observe dr alias w1 = (Inr st, w3)"
      "w2 = upd_tracker alias (set_values (if is_guarded cfg alias then values else TUnknown) is_local) w3"
      by (auto simp: record_write_def py_bind_def py_modify_def split: sum.splits prod.splits)
    have "tracker_of alias w3 \<noteq> None"
      using keepsD [OF keeps_observe ok1 o(1)] by (auto dest: conn_okD)
    with o(2) show ?thesis by (auto simp: set_values_fields)
  qed
  with run' Inr show ?thesis by auto
qed

subsection \<open>One concrete driver\<close>

text \<open>A driver of the one session of \<open>demo_pg\<close>, for the witnesses.\<close>

definition demo_write :: "bool \<Rightarrow> string list \<Rightarrow> (demo_pg_state, unit) py" where
  "demo_write ac params d =
     (case params of
        [_, a, flag, _, tenant, _] \<Rightarrow>
          (let v = (if a = [] then None else Some \<lparr>g_is_admin = a, g_current_tenant = tenant\<rparr>);
               d1 = (if \<not> dp_open d \<and> \<not> ac then the (demo_exec d PgBegin) else d)
           in case demo_exec d1 (PgSet v (flag = ''true'')) of
                Some d' \<Rightarrow> (Inr (), d') | None \<Rightarrow> (Inl DatabaseError, d))
      | _ \<Rightarrow> (Inr (), d))"

definition demo_send :: "string \<Rightarrow> (demo_pg_state, unit) py" where
  "demo_send command d =
     (case demo_exec d (if command = ''BEGIN'' then PgBegin else if command = ''COMMIT'' then PgCommit else PgRollback) of
        Some d' \<Rightarrow> (Inr (), d') | None \<Rightarrow> (Inl DatabaseError, d))"

definition demo_driver :: "demo_pg_state driver" where
  "demo_driver = \<lparr>dr_status = (\<lambda>_ d. Inr (if dp_open d then InTransaction else Idle)),
     dr_execute = (\<lambda>_ ac _ params. demo_write ac params), dr_send = (\<lambda>_. demo_send),
     dr_connect = (\<lambda>_ d. (Inr 0, d)), dr_close = (\<lambda>_ d. (Inr (), d))\<rparr>"

lemma demo_driver_laws: "driver_laws demo_driver cfg demo_pg (\<lambda>_ d. d)"
proof -
  have sets: "\<exists>s. (s = d \<or> pg_step demo_pg d PgBegin s) \<and> pg_step demo_pg s (PgSet v l) d'"
    if "context_value v" "demo_write ac (set_gucs_params cfg v l) d = (Inr (), d')" for v l ac d d'
  proof -
    let ?d1 = "if \<not> dp_open d \<and> \<not> ac then the (demo_exec d PgBegin) else d"
    have eta: "\<lparr>g_is_admin = g_is_admin g, g_current_tenant = g_current_tenant g\<rparr> = g" for g :: context_gucs
      by simp
    have "demo_exec ?d1 (PgSet v l) = Some d'"
      using that unfolding demo_write_def set_gucs_params_def context_value_def
      by (cases v; cases l) (auto simp: Let_def eta split: option.splits if_splits)
    moreover have "?d1 = d \<or> pg_step demo_pg d PgBegin ?d1" by (simp add: demo_pg_def)
    ultimately show ?thesis by (intro exI [of _ ?d1]) (simp add: demo_pg_def)
  qed
  have status: "dr_status demo_driver r d = Inr st \<Longrightarrow> st \<noteq> Idle \<longleftrightarrow> pg_open demo_pg d" for r d st
    by (auto simp: demo_driver_def demo_pg_def split: if_splits)
  have begins: "dr_send demo_driver r ''BEGIN'' d = (Inr (), d') \<Longrightarrow> pg_step demo_pg d PgBegin d'" for r d d'
    by (auto simp: demo_driver_def demo_send_def demo_pg_def split: option.splits if_splits)
  have exec: "dr_execute demo_driver r ac q ps d = demo_write ac ps d" for r ac q ps d
    by (simp add: demo_driver_def)
  show ?thesis unfolding driver_laws_def exec
    using demo_pg_laws sets status begins by blast
qed

definition demo_cfg :: "bool \<Rightarrow> aff_cfg" where
  "demo_cfg use_local = \<lparr>use_local_set = use_local, databases = [''default''], guc_is_admin = ''rls.is_admin'',
     guc_current_tenant = ''rls.current_tenant''\<rparr>"

definition demo_conn :: conn where
  "demo_conn = \<lparr>cn_postgresql = True, cn_raw = Some 0, cn_autocommit = True, cn_needs_rollback = False,
     cn_guard = True, cn_hooked = True, cn_tracker = Some (attach (Some 0) TNone new_tracker)\<rparr>"

text \<open>Inside \<^verbatim>\<open>tenant_context(1)\<close>, on a new connection, in autocommit.\<close>

definition demo_world :: "demo_pg_state aff" where
  "demo_world = \<lparr>a_state = snd demo_outer, a_conns = [''default'' \<mapsto> demo_conn], a_depth = 0, a_audit = [],
     a_db = demo_idle\<rparr>"

lemma demo_context: "context_of demo_world = Some (gucs_for_tenant (TInt 1))"
  by (simp add: context_of_def demo_world_def get_context_gucs_def values_of_def current_live_def demo_defs)

lemma demo_world_fields: "a_depth demo_world = 0" "a_db demo_world = demo_idle"
  by (simp_all add: demo_world_def)

lemma demo_plain: "\<exists>st. parse_sql (SqlText ''SELECT 1'') = Some st \<and> st_command st = ''SELECT''"
proof -
  have start: "starts_statement ''SELECT 1''" by (simp add: starts_statement_def is_space_def)
  have "parse_head ''SELECT 1'' = ''SELECT 1''"
    using parse_head_statement [OF ignorable.none start] by (simp add: sql_head_def)
  then show ?thesis
    by (simp add: parse_sql_def py_split_def is_space_def upper_def ascii_upper_def rstrip_char_def)
qed

lemma guard_runs_in_context_witness:
  "guard demo_driver (demo_cfg True) (\<lambda>_. py_ret ()) ''default'' (SqlText ''SELECT 1'')
     (\<lambda>d. (Inr (dp_seen d), d)) demo_world =
   guard demo_driver (demo_cfg True) (\<lambda>_. py_ret ()) ''default'' (SqlText ''SELECT 1'')
     (\<lambda>d. (Inr (Some (gucs_for_tenant (TInt 1))), d)) demo_world"
proof -
  obtain st where st: "parse_sql (SqlText ''SELECT 1'') = Some st" "st_command st = ''SELECT''"
    using demo_plain by blast
  have conn: "a_conns demo_world ''default'' = Some demo_conn" by (simp add: demo_world_def)
  have t: "looked Idle 0 (attach (Some 0) TNone new_tracker) = attach (Some 0) TNone new_tracker"
    by (simp add: looked_def reattach_def sync_transaction_def attach_def)
  show ?thesis
  proof (rule guard_runs_in_context [OF demo_driver_laws _ conn, where raw = 0 and st = Idle])
    show "cn_tracker demo_conn = Some (attach (Some 0) TNone new_tracker)" by (simp add: demo_conn_def)
    show "sound (tr_values (looked Idle 0 (attach (Some 0) TNone new_tracker))) (pg_seen demo_pg (a_db demo_world))"
      by (simp add: t demo_world_fields) (simp add: attach_def demo_pg_def demo_idle_def)
  qed (simp_all add: demo_context context_value_def gucs_for_tenant_def demo_conn_def is_guarded_def demo_cfg_def
      demo_world_fields demo_driver_def demo_idle_def st controls_the_transaction_def transaction_control_def
      refused_in_a_transaction_def ddl_commands_def no_transaction_commands_def demo_pg_def)
qed

lemma demo_conn_ok: "conn_ok ''default'' 0 True demo_world"
  by (simp add: conn_ok_def demo_world_def demo_conn_def attach_def)

lemma own_transaction_settled_witness:
  "settled demo_driver ''default'' 0
     (snd (run_in_own_transaction demo_driver (demo_cfg True) (\<lambda>_. py_ret ()) ''default''
       (\<lambda>d. (Inl DatabaseError :: exn + unit, d)) demo_world))"
proof -
  let ?run = "run_in_own_transaction demo_driver (demo_cfg True) (\<lambda>_. py_ret ()) ''default''
       (\<lambda>d. (Inl DatabaseError :: exn + unit, d)) demo_world"
  have commits: "dr_send demo_driver 0 ''COMMIT'' d = (Inr (), d') \<Longrightarrow> dr_status demo_driver 0 d' = Inr Idle" for d d'
    by (auto simp: demo_driver_def demo_send_def split: option.splits if_splits)
  show ?thesis by (rule own_transaction_settled [OF demo_conn_ok commits]) (auto simp: prod_eq_iff)
qed

lemma writing_restores_depth_witness:
  "\<exists>w'. writing demo_driver (demo_cfg False) ''default'' TNone False (py_raise DatabaseError :: (demo_pg_state aff, unit) py)
     demo_world = (Inl DatabaseError, w') \<and> a_depth w' = 0 \<and>
     map_option tr_values (tracker_of ''default'' w') \<in> {None, Some TUnknown}"
proof -
  let ?body = "py_raise DatabaseError :: (demo_pg_state aff, unit) py"
  obtain r w' where w': "writing demo_driver (demo_cfg False) ''default'' TNone False ?body demo_world = (r, w')"
    by (cases "writing demo_driver (demo_cfg False) ''default'' TNone False ?body demo_world")
  have "r = Inl DatabaseError" using w' by (auto simp: writing_def py_raise_def Let_def)
  moreover have "?body (demo_world\<lparr>a_depth := Suc (a_depth demo_world)\<rparr>) =
      (Inl DatabaseError, demo_world\<lparr>a_depth := Suc (a_depth demo_world)\<rparr>)" by (simp add: py_raise_def)
  from writing_restores_depth [OF this w', of 0 True] have "a_depth w' = 0"
    "map_option tr_values (tracker_of ''default'' w') \<in> {None, Some TUnknown}" by (simp_all add: demo_world_def)
  ultimately show ?thesis using w' by blast
qed

end
