(* ===== verification/Rls_Context.thy ===== *)
theory Rls_Context
  imports Guc
begin

text \<open>
  \<^verbatim>\<open>rls/context.py\<close>: the generic context managers over session variables.  A context
  manager used as \<^verbatim>\<open>with cm(...): body\<close> is a function of the computation \<open>body\<close>.  A Python
  dict is the list of its items in insertion order.
\<close>

subsection \<open>Restoring saved values\<close>

text \<open>
  The loop of \<^verbatim>\<open>restore_gucs\<close>: a \<^verbatim>\<open>DatabaseError\<close> is skipped when an exception is already
  propagating, and makes the result \<^verbatim>\<open>False\<close>; any other exception, and a \<^verbatim>\<open>DatabaseError\<close>
  on a normal exit, ends the loop.
\<close>

fun restore_loop ::
  "'w db \<Rightarrow> (string \<times> string option) list \<Rightarrow> bool \<Rightarrow> string \<Rightarrow> bool \<Rightarrow> bool \<Rightarrow> ('w, bool) py" where
  "restore_loop db [] is_local using exc_pending restored = py_ret restored"
| "restore_loop db ((name, prev) # rest) is_local using exc_pending restored = (\<lambda>w.
     case restore_guc db name prev is_local using w of
       (Inr _, w') \<Rightarrow> restore_loop db rest is_local using exc_pending restored w'
     | (Inl e, w') \<Rightarrow>
         if e = DatabaseError \<and> exc_pending
         then restore_loop db rest is_local using exc_pending False w'
         else (Inl e, w'))"

text \<open>Django's "needs rollback" flag is lifted for the statements and put back after them.\<close>

definition restore_gucs ::
  "'w db \<Rightarrow> (string \<times> string option) list \<Rightarrow> bool \<Rightarrow> string \<Rightarrow> bool \<Rightarrow> ('w, bool) py" where
  "restore_gucs db previous is_local using exc_pending =
     (if previous = [] then py_ret True
      else py_seq (connections_get db using)
        (py_bind (py_get (db_needs_rollback db using)) (\<lambda>needs_rollback.
         py_seq (py_modify (db_put_needs_rollback db using False))
           (py_finally (restore_loop db previous is_local using exc_pending True)
              (\<lambda>_. py_modify (db_put_needs_rollback db using needs_rollback))))))"

subsection \<open>The blocks\<close>

text \<open>The dict comprehension \<^verbatim>\<open>{name: get_guc(name, using=using) for name in variables}\<close>.\<close>

fun snapshot :: "'w db \<Rightarrow> string list \<Rightarrow> string \<Rightarrow> ('w, (string \<times> string option) list) py" where
  "snapshot db [] using = py_ret []"
| "snapshot db (n # ns) using =
     py_bind (get_guc db n using) (\<lambda>v.
     py_bind (snapshot db ns using) (\<lambda>rest. py_ret ((n, v) # rest)))"

definition set_all :: "'w db \<Rightarrow> (string \<times> string) list \<Rightarrow> bool \<Rightarrow> string \<Rightarrow> ('w, unit) py" where
  "set_all db variables is_local using =
     py_for variables (\<lambda>(name, value). set_guc db name value is_local using)"

definition restoring ::
  "'w db \<Rightarrow> (string \<times> string option) list \<Rightarrow> bool \<Rightarrow> string \<Rightarrow> bool \<Rightarrow> ('w, unit) py" where
  "restoring db previous is_local using exc_pending =
     py_bind (restore_gucs db previous is_local using exc_pending) (\<lambda>_. py_ret ())"

definition rls_context ::
  "'w db \<Rightarrow> (string \<times> string) list \<Rightarrow> bool \<Rightarrow> string \<Rightarrow> ('w, 'a) py \<Rightarrow> ('w, 'a) py" where
  "rls_context db variables is_local using body =
     py_bind (snapshot db (map fst variables) using) (\<lambda>previous.
       py_finally (py_seq (set_all db variables is_local using) body)
         (restoring db previous is_local using))"

definition bypass_flag ::
  "'w db \<Rightarrow> string \<Rightarrow> bool \<Rightarrow> string \<Rightarrow> ('w, 'a) py \<Rightarrow> ('w, 'a) py" where
  "bypass_flag db flag_name is_local using body =
     py_bind (get_guc db flag_name using) (\<lambda>previous.
     py_seq (set_guc db flag_name ''true'' is_local using)
       (py_finally body (restoring db [(flag_name, previous)] is_local using)))"

subsection \<open>The asynchronous blocks\<close>

text \<open>
  \<^verbatim>\<open>_enter_gucs\<close>: the setting loop, which on an exception restores what it has changed so
  far (\<open>undone\<close>) before the exception propagates.
\<close>

fun enter_loop ::
  "'w db \<Rightarrow> (string \<times> string) list \<Rightarrow> (string \<times> string option) list \<Rightarrow> bool \<Rightarrow> string \<Rightarrow>
   (string \<times> string option) list \<Rightarrow> ('w, unit) py" where
  "enter_loop db [] previous is_local using undone = py_ret ()"
| "enter_loop db ((name, value) # rest) previous is_local using undone = (\<lambda>w.
     case set_guc db name value is_local using w of
       (Inr _, w') \<Rightarrow>
         enter_loop db rest previous is_local using
           (undone @ [(name, Option.bind (map_of previous name) (\<lambda>v. v))]) w'
     | (Inl e, w') \<Rightarrow>
         py_seq (restoring db undone is_local using True) (py_raise e) w')"

definition enter_gucs ::
  "'w db \<Rightarrow> (string \<times> string) list \<Rightarrow> bool \<Rightarrow> string \<Rightarrow> ('w, (string \<times> string option) list) py" where
  "enter_gucs db variables is_local using =
     py_bind (snapshot db (map fst variables) using) (\<lambda>previous.
     py_seq (enter_loop db variables previous is_local using []) (py_ret previous))"

text \<open>
  \<^verbatim>\<open>_run_enter_hop\<close>: the hop runs to its end in its thread even when the awaiting task is
  cancelled meanwhile (\<open>cancelled\<close>, the scheduler's choice); a cancelled task undoes the
  snapshot in a second hop, then \<^verbatim>\<open>CancelledError\<close> propagates.  A failure of the hop
  propagates as it is.
\<close>

definition cancelled_error :: exn where
  "cancelled_error = OtherError ''CancelledError''"

definition run_enter_hop ::
  "('w, 's) py \<Rightarrow> ('s \<Rightarrow> ('w, unit) py) \<Rightarrow> bool \<Rightarrow> ('w, 's) py" where
  "run_enter_hop enter undo cancelled =
     py_bind enter (\<lambda>previous.
       if cancelled then py_seq (undo previous) (py_raise cancelled_error)
       else py_ret previous)"

definition async_rls_context ::
  "'w db \<Rightarrow> (string \<times> string) list \<Rightarrow> bool \<Rightarrow> string \<Rightarrow> bool \<Rightarrow> ('w, 'a) py \<Rightarrow> ('w, 'a) py" where
  "async_rls_context db variables is_local using cancelled body =
     py_bind
       (run_enter_hop (enter_gucs db variables is_local using)
          (\<lambda>previous. restoring db previous is_local using True) cancelled)
       (\<lambda>previous. py_finally body (restoring db previous is_local using))"

definition async_bypass_flag ::
  "'w db \<Rightarrow> string \<Rightarrow> bool \<Rightarrow> string \<Rightarrow> bool \<Rightarrow> ('w, 'a) py \<Rightarrow> ('w, 'a) py" where
  "async_bypass_flag db flag_name is_local using cancelled body =
     async_rls_context db [(flag_name, ''true'')] is_local using cancelled body"

subsection \<open>Errors of the restore\<close>

lemma restore_loop_pending_no_db_error:
  "fst (restore_loop db previous is_local using True r w) \<noteq> Inl DatabaseError"
proof (induction previous arbitrary: r w)
  case Nil
  then show ?case by (simp add: py_ret_def)
next
  case (Cons p rest)
  obtain name prev where [simp]: "p = (name, prev)" by (cases p)
  show ?case using Cons by (auto split: sum.splits prod.splits)
qed

lemma restore_gucs_pending_no_db_error:
  "fst (restore_gucs db previous is_local using True w) \<noteq> Inl DatabaseError"
proof (cases "previous = [] \<or> \<not> db_known db using w")
  case True
  then show ?thesis
    by (auto simp: restore_gucs_def py_seq_def connections_get_def py_bind_def py_simps)
next
  case False
  let ?w = "db_put_needs_rollback db using False w"
  obtain r w' where loop: "restore_loop db previous is_local using True True ?w = (r, w')"
    by (cases "restore_loop db previous is_local using True True ?w")
  then have "r \<noteq> Inl DatabaseError"
    using restore_loop_pending_no_db_error [of db previous is_local "using" True ?w] by simp
  then show ?thesis using False loop
    by (simp add: restore_gucs_def py_seq_def connections_get_def py_bind_def py_simps py_finally_def)
qed

subsection \<open>What a restore leaves, under the documented behaviour\<close>

definition saved_value :: "string option \<Rightarrow> string" where
  "saved_value p = (case p of None \<Rightarrow> [] | Some v \<Rightarrow> v)"

lemma saved_value_simps [simp]:
  "saved_value None = []" "saved_value (Some v) = v"
  "saved_value (if v = [] then None else Some v) = v"
  by (simp_all add: saved_value_def)

lemma restore_loop_law:
  assumes laws: "guc_laws db u ok acc view" and "\<forall>(n, p) \<in> set previous. acc n"
    and "guc_writable db u ok is_local w" and "distinct (map fst previous)"
  shows "\<exists>w'. restore_loop db previous is_local u exc r w = (Inr r, w') \<and>
           guc_writable db u ok is_local w' \<and> db_in_atomic db u w' = db_in_atomic db u w \<and>
           view w' = (\<lambda>n. case map_of previous n of None \<Rightarrow> view w n | Some p \<Rightarrow> saved_value p)"
  using assms(2-)
proof (induction previous arbitrary: w)
  case Nil
  then show ?case by (simp add: py_ret_def)
next
  case (Cons q rest)
  obtain n p where q: "q = (n, p)" by (cases q)
  with Cons.prems have acc: "acc n" and w: "guc_writable db u ok is_local w" by auto
  obtain w1 where w1: "restore_guc db n p is_local u w = (Inr (), w1)"
      "guc_writable db u ok is_local w1" "view w1 = (view w)(n := saved_value p)"
      "db_in_atomic db u w1 = db_in_atomic db u w"
    using restore_guc_law [OF laws acc w, of p] by (auto simp: saved_value_def)
  obtain w2 where w2: "restore_loop db rest is_local u exc r w1 = (Inr r, w2)"
      "guc_writable db u ok is_local w2" "db_in_atomic db u w2 = db_in_atomic db u w1"
      "view w2 = (\<lambda>m. case map_of rest m of None \<Rightarrow> view w1 m | Some p \<Rightarrow> saved_value p)"
    using Cons.IH [OF _ w1(2)] Cons.prems by auto
  have "n \<notin> set (map fst rest)" using Cons.prems q by simp
  then have "map_of rest n = None" by (metis map_of_eq_None_iff image_set)
  with w1 w2 q show ?case by (auto simp: fun_eq_iff split: option.splits)
qed

lemma restore_gucs_law:
  assumes laws: "guc_laws db u ok acc view" and names: "\<forall>(n, p) \<in> set previous. acc n"
    and w: "ok w" "is_local \<longrightarrow> db_in_atomic db u w" and "distinct (map fst previous)"
  shows "\<exists>w'. restore_gucs db previous is_local u exc w = (Inr True, w') \<and> ok w' \<and>
           db_needs_rollback db u w' = db_needs_rollback db u w \<and>
           db_in_atomic db u w' = db_in_atomic db u w \<and>
           view w' = (\<lambda>n. case map_of previous n of None \<Rightarrow> view w n | Some p \<Rightarrow> saved_value p)"
proof (cases "previous = []")
  case True
  with w show ?thesis by (simp add: restore_gucs_def py_ret_def)
next
  case False
  let ?w = "db_put_needs_rollback db u False w"
  have put: "\<And>w b. db_needs_rollback db u (db_put_needs_rollback db u b w) = b \<and>
        db_in_atomic db u (db_put_needs_rollback db u b w) = db_in_atomic db u w \<and>
        ok (db_put_needs_rollback db u b w) = ok w \<and> view (db_put_needs_rollback db u b w) = view w"
    using laws unfolding guc_laws_def by blast
  have known: "db_known db u w" using laws w by (simp add: guc_laws_def)
  have "guc_writable db u ok is_local ?w" using put w by (simp add: guc_writable_def)
  moreover have vw: "view ?w = view w" "db_in_atomic db u ?w = db_in_atomic db u w"
    using put by blast+
  ultimately obtain w' where w':
    "restore_loop db previous is_local u exc True ?w = (Inr True, w')"
    "guc_writable db u ok is_local w'" "db_in_atomic db u w' = db_in_atomic db u w"
    "view w' = (\<lambda>n. case map_of previous n of None \<Rightarrow> view w n | Some p \<Rightarrow> saved_value p)"
    using restore_loop_law [OF laws names _ assms(5), of is_local ?w exc True, unfolded vw] by blast
  then show ?thesis using False known put
    by (auto simp: restore_gucs_def py_seq_def connections_get_def py_bind_def py_simps
        py_finally_def guc_writable_def)
qed

text \<open>The snapshot of the variables \<open>ns\<close> that a block takes on entry.\<close>

definition saved_of :: "('w \<Rightarrow> string \<Rightarrow> string) \<Rightarrow> 'w \<Rightarrow> string list \<Rightarrow> (string \<times> string option) list" where
  "saved_of view w ns = map (\<lambda>n. (n, if view w n = [] then None else Some (view w n))) ns"

lemma saved_of_simps [simp]:
  "saved_of view w [] = []"
  "saved_of view w (n # ns) = (n, if view w n = [] then None else Some (view w n)) # saved_of view w ns"
  "map fst (saved_of view w ns) = ns"
  by (simp_all add: saved_of_def comp_def)

lemma saved_of_names: "\<forall>n \<in> set ns. P n \<Longrightarrow> \<forall>(n, p) \<in> set (saved_of view w ns). P n"
  by (auto simp: saved_of_def)

lemma map_of_saved_of:
  "map_of (saved_of view w ns) n =
     (if n \<in> set ns then Some (if view w n = [] then None else Some (view w n)) else None)"
  by (induction ns) auto

lemma snapshot_law:
  assumes laws: "guc_laws db u ok acc view" and "\<forall>n \<in> set ns. acc n"
    and w: "ok w" "\<not> db_needs_rollback db u w"
  shows "snapshot db ns u w =
           (Inr (saved_of view w ns), w)"
  using assms(2)
proof (induction ns)
  case Nil
  then show ?case by (simp add: py_ret_def)
next
  case (Cons n ns)
  then show ?case using get_guc_law [OF laws _ w, of n] by (simp add: py_bind_def py_ret_def)
qed

definition assigned :: "(string \<times> string) list \<Rightarrow> (string \<Rightarrow> string) \<Rightarrow> string \<Rightarrow> string" where
  "assigned variables v n = (case map_of variables n of None \<Rightarrow> v n | Some x \<Rightarrow> x)"

lemma assigned_Cons:
  "n \<notin> fst ` set rest \<Longrightarrow> assigned rest (v(n := x)) = assigned ((n, x) # rest) v"
  by (auto simp: assigned_def fun_eq_iff map_of_eq_None_iff split: option.splits)
    (metis map_of_eq_None_iff option.distinct(1))+

lemma set_all_law:
  assumes laws: "guc_laws db u ok acc view" and "\<forall>(n, v) \<in> set variables. acc n"
    and "guc_writable db u ok is_local w" and "distinct (map fst variables)"
  shows "\<exists>w'. set_all db variables is_local u w = (Inr (), w') \<and> guc_writable db u ok is_local w' \<and>
           view w' = assigned variables (view w)"
  using assms(2-)
proof (induction variables arbitrary: w)
  case Nil
  then show ?case by (simp add: set_all_def py_ret_def assigned_def)
next
  case (Cons q rest)
  obtain n v where q: "q = (n, v)" by (cases q)
  with Cons.prems have acc: "acc n" and w: "guc_writable db u ok is_local w" by auto
  obtain w1 where w1: "set_guc db n v is_local u w = (Inr (), w1)" "guc_writable db u ok is_local w1"
      "view w1 = (view w)(n := v)"
    using set_guc_law [OF laws acc w] by blast
  obtain w2 where w2: "set_all db rest is_local u w1 = (Inr (), w2)" "guc_writable db u ok is_local w2"
      "view w2 = assigned rest (view w1)"
    using Cons.IH [OF _ w1(2)] Cons.prems by auto
  have "set_all db (q # rest) is_local u w = set_all db rest is_local u w1"
    using w1 q by (simp add: set_all_def py_seq_def py_bind_def)
  moreover have "view w2 = assigned (q # rest) (view w)"
    using w1 w2 q Cons.prems by (simp add: assigned_Cons)
  ultimately show ?case using w2 by auto
qed

text \<open>The end of a block: the saved values are back, whatever the body did and however it ended.\<close>

lemma restoring_block:
  assumes laws: "guc_laws db u ok acc view" and names: "\<forall>n \<in> set ns. acc n" "distinct ns"
    and body: "body w1 = (r, w2)" and w2: "ok w2" "is_local \<longrightarrow> db_in_atomic db u w2"
  shows "\<exists>w'. py_finally body
             (restoring db (saved_of view w ns) is_local u) w1
           = (r, w') \<and> ok w' \<and> db_needs_rollback db u w' = db_needs_rollback db u w2 \<and>
           (\<forall>n. view w' n = (if n \<in> set ns then view w n else view w2 n))"
proof -
  let ?prev = "saved_of view w ns"
  have d: "distinct (map fst ?prev)" using names by simp
  have n: "\<forall>(n, p) \<in> set ?prev. acc n" using saved_of_names [OF names(1)] .
  from restore_gucs_law [OF laws n w2 d, of "isl r"] obtain w' where w':
    "restore_gucs db ?prev is_local u (isl r) w2 = (Inr True, w')" "ok w'"
    "db_needs_rollback db u w' = db_needs_rollback db u w2"
    "view w' = (\<lambda>n. case map_of ?prev n of None \<Rightarrow> view w2 n | Some p \<Rightarrow> saved_value p)"
    by blast
  have "restoring db ?prev is_local u (isl r) w2 = (Inr (), w')"
    using w'(1) by (simp add: restoring_def py_bind_Inr py_ret_def)
  from py_finally_quiet [where body = body and fin = "restoring db ?prev is_local u", OF body this]
  show ?thesis using w' by (auto simp: map_of_saved_of)
qed

text \<open>
  What a body is trusted with: it leaves the connection working, and in its transaction when
  the block's values are transaction-local.  It may change every variable, raise, and leave
  the connection marked for rollback.
\<close>

definition body_keeps :: "'w db \<Rightarrow> string \<Rightarrow> ('w \<Rightarrow> bool) \<Rightarrow> bool \<Rightarrow> ('w, 'a) py \<Rightarrow> bool" where
  "body_keeps db u ok is_local body \<longleftrightarrow>
     (\<forall>w. ok w \<and> (is_local \<longrightarrow> db_in_atomic db u w) \<longrightarrow>
        ok (snd (body w)) \<and> (is_local \<longrightarrow> db_in_atomic db u (snd (body w))))"

lemma body_keepsD:
  assumes "body_keeps db u ok is_local body" "guc_writable db u ok is_local w" "body w = (r, w')"
  shows "ok w'" "is_local \<longrightarrow> db_in_atomic db u w'"
  using assms unfolding body_keeps_def guc_writable_def by (metis snd_conv)+

text \<open>
  The outcome of a whole block: its body runs in a world \<open>w1\<close> where the variables have the
  block's values and every other its old one, and the block ends in a world that differs from
  the one the body left, \<open>w2\<close>, only in that the variables have their old values again.
\<close>

definition block_outcome ::
  "'w db \<Rightarrow> string \<Rightarrow> ('w \<Rightarrow> bool) \<Rightarrow> ('w \<Rightarrow> string \<Rightarrow> string) \<Rightarrow> (string \<times> string) list \<Rightarrow>
   ('w, 'a) py \<Rightarrow> 'w \<Rightarrow> (exn + 'a) \<times> 'w \<Rightarrow> bool" where
  "block_outcome db u ok view variables body w out \<longleftrightarrow>
     (\<exists>w1 w2 w' r. view w1 = assigned variables (view w) \<and>
        body w1 = (r, w2) \<and> out = (r, w') \<and> ok w' \<and>
        (\<forall>n. view w' n = (if n \<in> fst ` set variables then view w n else view w2 n)) \<and>
        db_needs_rollback db u w' = db_needs_rollback db u w2)"

subsection \<open>The variables of a block come back\<close>

text \<open>
  C21. \<^verbatim>\<open>rls_context\<close> sets and restores: its body runs with the block's values, and on a connection where PostgreSQL behaves as documented, the
  variables the block sets have their old values after it, in both GUC modes, whether the
  body returned or raised, whatever it wrote to them, and even when it left the connection
  marked for rollback (the mark is kept); every other variable is as the body left it, and
  the block's result is the body's.
\<close>

theorem rls_context_restores:
  assumes laws: "guc_laws db u ok acc view"
    and names: "\<forall>(n, v) \<in> set variables. acc n" "distinct (map fst variables)"
    and w: "guc_writable db u ok is_local w" and keeps: "body_keeps db u ok is_local body"
  shows "block_outcome db u ok view variables body w
           (rls_context db variables is_local u body w)"
proof -
  let ?ns = "map fst variables"
  have ns: "\<forall>n \<in> set ?ns. acc n" using names by auto
  have w0: "ok w" "\<not> db_needs_rollback db u w" using w by (simp_all add: guc_writable_def)
  from set_all_law [OF laws names(1) w names(2)] obtain w1 where w1:
    "set_all db variables is_local u w = (Inr (), w1)" "guc_writable db u ok is_local w1"
    "view w1 = assigned variables (view w)" by blast
  obtain r w2 where body: "body w1 = (r, w2)" by (cases "body w1")
  then have seq: "py_seq (set_all db variables is_local u) body w = (r, w2)"
    using w1 by (simp add: py_seq_def py_bind_Inr)
  from restoring_block [where body = "py_seq (set_all db variables is_local u) body" and w = w,
      OF laws ns names(2) seq body_keepsD [OF keeps w1(2) body]]
  obtain w' where w': "rls_context db variables is_local u body w = (r, w')" "ok w'"
    "db_needs_rollback db u w' = db_needs_rollback db u w2"
    "\<forall>n. view w' n = (if n \<in> set ?ns then view w n else view w2 n)"
    using snapshot_law [OF laws ns w0] unfolding rls_context_def by (auto simp: py_bind_Inr)
  show ?thesis unfolding block_outcome_def using w' w1(3) body
    by (intro exI [of _ w1] exI [of _ w2] exI [of _ w'] exI [of _ r]) auto
qed

text \<open>
  \<^verbatim>\<open>bypass_flag\<close> restores: the flag has its old value after the block, however it ended,
  and nothing else the block's body left is changed.
\<close>

theorem bypass_flag_restores:
  assumes laws: "guc_laws db u ok acc view" and name: "acc flag"
    and w: "guc_writable db u ok is_local w" and keeps: "body_keeps db u ok is_local body"
  shows "block_outcome db u ok view [(flag, ''true'')] body w (bypass_flag db flag is_local u body w)"
proof -
  have w0: "ok w" "\<not> db_needs_rollback db u w" using w by (simp_all add: guc_writable_def)
  from set_guc_law [OF laws name w, of "''true''"] obtain w1 where w1:
    "set_guc db flag ''true'' is_local u w = (Inr (), w1)" "guc_writable db u ok is_local w1"
    "view w1 = (view w)(flag := ''true'')" by blast
  obtain r w2 where body: "body w1 = (r, w2)" by (cases "body w1")
  have ns: "\<forall>n \<in> set [flag]. acc n" "distinct [flag]" using name by simp_all
  from restoring_block [where body = body and w = w, OF laws ns body body_keepsD [OF keeps w1(2) body]]
  obtain w' where w': "bypass_flag db flag is_local u body w = (r, w')" "ok w'"
    "db_needs_rollback db u w' = db_needs_rollback db u w2"
    "\<forall>n. view w' n = (if n = flag then view w n else view w2 n)"
    using get_guc_law [OF laws name w0] w1(1)
    unfolding bypass_flag_def by (auto simp: py_bind_Inr py_seq_def)
  have "view w1 = assigned [(flag, ''true'')] (view w)"
    using w1(3) by (auto simp: assigned_def fun_eq_iff)
  then show ?thesis unfolding block_outcome_def using w' body
    by (intro exI [of _ w1] exI [of _ w2] exI [of _ w'] exI [of _ r]) auto
qed

lemma enter_loop_law:
  assumes laws: "guc_laws db u ok acc view" and "\<forall>(n, v) \<in> set variables. acc n"
    and "guc_writable db u ok is_local w"
  shows "\<exists>w'. enter_loop db variables prev is_local u undone w = (Inr (), w') \<and>
           guc_writable db u ok is_local w' \<and> (\<forall>n. n \<notin> fst ` set variables \<longrightarrow> view w' n = view w n)"
  using assms(2-)
proof (induction variables arbitrary: w undone)
  case Nil
  then show ?case by (simp add: py_ret_def)
next
  case (Cons q rest)
  obtain n v where q: "q = (n, v)" by (cases q)
  with Cons.prems have acc: "acc n" and w: "guc_writable db u ok is_local w" by auto
  obtain w1 where w1: "set_guc db n v is_local u w = (Inr (), w1)" "guc_writable db u ok is_local w1"
      "view w1 = (view w)(n := v)"
    using set_guc_law [OF laws acc w] by blast
  with Cons.IH [OF _ w1(2)] Cons.prems q show ?case by fastforce
qed

lemma enter_gucs_law:
  assumes laws: "guc_laws db u ok acc view" and names: "\<forall>(n, v) \<in> set variables. acc n"
    and w: "guc_writable db u ok is_local w"
  shows "\<exists>w'. enter_gucs db variables is_local u w =
             (Inr (saved_of view w (map fst variables)), w') \<and>
           guc_writable db u ok is_local w' \<and> (\<forall>n. n \<notin> fst ` set variables \<longrightarrow> view w' n = view w n)"
proof -
  let ?prev = "saved_of view w (map fst variables)"
  have ns: "\<forall>n \<in> set (map fst variables). acc n" using names by auto
  have w0: "ok w" "\<not> db_needs_rollback db u w" using w by (simp_all add: guc_writable_def)
  from enter_loop_law [OF laws names w, of ?prev "[]"] snapshot_law [OF laws ns w0] show ?thesis
    unfolding enter_gucs_def by (auto simp: py_bind_Inr py_seq_def py_ret_def)
qed

text \<open>
  An \<^verbatim>\<open>async_rls_context\<close> that is cancelled while it enters leaves the session as it was:
  the task gets \<^verbatim>\<open>CancelledError\<close>, the body does not run, and every variable reads as it did
  before the block.
\<close>

theorem async_rls_context_cancelled:
  assumes laws: "guc_laws db u ok acc view"
    and names: "\<forall>(n, v) \<in> set variables. acc n" "distinct (map fst variables)"
    and w: "guc_writable db u ok is_local w"
  shows "\<exists>w'. async_rls_context db variables is_local u True body w = (Inl cancelled_error, w') \<and>
           ok w' \<and> view w' = view w"
proof -
  let ?prev = "saved_of view w (map fst variables)"
  from enter_gucs_law [OF laws names(1) w] obtain w1 where w1:
    "enter_gucs db variables is_local u w = (Inr ?prev, w1)" "guc_writable db u ok is_local w1"
    "\<forall>n. n \<notin> fst ` set variables \<longrightarrow> view w1 n = view w n" by blast
  have "\<forall>n \<in> set (map fst variables). acc n" using names by auto
  then have n: "\<forall>(n, p) \<in> set ?prev. acc n" by (rule saved_of_names)
  have d: "distinct (map fst ?prev)" using names by simp
  have w1': "ok w1" "is_local \<longrightarrow> db_in_atomic db u w1" using w1(2) by (simp_all add: guc_writable_def)
  from restore_gucs_law [OF laws n w1' d, of True] obtain w2 where w2:
    "restore_gucs db ?prev is_local u True w1 = (Inr True, w2)" "ok w2"
    "view w2 = (\<lambda>n. case map_of ?prev n of None \<Rightarrow> view w1 n | Some p \<Rightarrow> saved_value p)"
    by blast
  have "restoring db ?prev is_local u True w1 = (Inr (), w2)"
    using w2(1) by (simp add: restoring_def py_bind_Inr py_ret_def)
  then have out: "async_rls_context db variables is_local u True body w = (Inl cancelled_error, w2)"
    using w1(1) by (simp add: async_rls_context_def run_enter_hop_def py_bind_def py_seq_def py_raise_def)
  have "view w2 n = view w n" for n
    using w1(3) w2(3)
    by (auto simp: map_of_saved_of split: option.splits)
  with out w2(2) show ?thesis by (auto simp: fun_eq_iff)
qed

text \<open>
  A restore never hides the exception a block is already propagating behind a database
  error: with \<^verbatim>\<open>exc_pending\<close>, \<^verbatim>\<open>restore_gucs\<close> raises no \<^verbatim>\<open>DatabaseError\<close>, whatever the
  database answers (an aborted transaction, say).
\<close>

theorem restore_keeps_pending_exception:
  "fst (restore_gucs db previous is_local u True w) \<noteq> Inl DatabaseError"
  by (rule restore_gucs_pending_no_db_error)

subsection \<open>One concrete session\<close>

text \<open>
  An instance of the \<open>db\<close> parameter, for the witnesses: one connection in autocommit or in a
  transaction, with a map of variables, that refuses every statement while it is marked for
  rollback.
\<close>

record demo_session =
  demo_gucs :: "string \<Rightarrow> string"
  demo_atomic :: bool
  demo_marked :: bool

definition demo_execute ::
  "string \<Rightarrow> string list \<Rightarrow> (demo_session, string option option) py" where
  "demo_execute sql params = (\<lambda>w.
     if demo_marked w then (Inl DatabaseError, w)
     else if sql = current_setting_sql then
       (Inr (Some (Some (demo_gucs w (params ! 0)))), w)
     else if sql = set_config_sql then
       (Inr (Some (Some (params ! 1))), w\<lparr>demo_gucs := (demo_gucs w)(params ! 0 := params ! 1)\<rparr>)
     else
       (Inr None, w\<lparr>demo_gucs := (demo_gucs w)(take (length sql - 16) (drop 10 sql) := params ! 0)\<rparr>))"

definition demo_db :: "demo_session db" where
  "demo_db = \<lparr>db_known = \<lambda>_ _. True, db_in_atomic = \<lambda>_. demo_atomic,
     db_needs_rollback = \<lambda>_. demo_marked, db_put_needs_rollback = \<lambda>_ b w. w\<lparr>demo_marked := b\<rparr>,
     db_execute = \<lambda>_. demo_execute\<rparr>"

lemma set_local_sql_name: "take (length (set_local_sql n) - 16) (drop 10 (set_local_sql n)) = n"
  by (simp add: set_local_sql_def)

lemma set_local_sql_distinct: "set_local_sql n \<noteq> current_setting_sql" "set_local_sql n \<noteq> set_config_sql"
  by (simp_all add: set_local_sql_def current_setting_sql_def set_config_sql_def)

lemma demo_laws: "guc_laws demo_db u (\<lambda>_. True) guc_name_ok demo_gucs"
proof -
  have 1: "set_config_sql \<noteq> current_setting_sql"
    by (simp add: current_setting_sql_def set_config_sql_def)
  show ?thesis
    by (auto simp: guc_laws_def guc_write_law_def demo_db_def demo_execute_def 1
        set_local_sql_distinct set_local_sql_name)
qed

definition demo_start :: demo_session where
  "demo_start = \<lparr>demo_gucs = (\<lambda>_. [])(''rls.x'' := ''a''), demo_atomic = True, demo_marked = False\<rparr>"

text \<open>A body that overwrites the variable, leaves the connection marked and raises.\<close>

definition demo_body :: "(demo_session, unit) py" where
  "demo_body = (\<lambda>w. (Inl (OtherError ''boom''),
     w\<lparr>demo_gucs := (demo_gucs w)(''rls.x'' := ''z''), demo_marked := True\<rparr>))"

lemma demo_names: "guc_name_ok ''rls.x''" "guc_name_ok ''rls.y''"
  by (simp_all add: guc_char_def char_class_defs)

lemma demo_writable: "guc_writable demo_db u (\<lambda>_. True) True demo_start"
  by (simp add: guc_writable_def demo_db_def demo_start_def)

lemma demo_body_keeps: "body_keeps demo_db u (\<lambda>_. True) True demo_body"
  by (simp add: body_keeps_def demo_db_def demo_body_def)

lemma rls_context_restores_witness:
  "block_outcome demo_db ''default'' (\<lambda>_. True) demo_gucs [(''rls.x'', ''b''), (''rls.y'', ''c'')]
     demo_body demo_start
     (rls_context demo_db [(''rls.x'', ''b''), (''rls.y'', ''c'')] True ''default'' demo_body demo_start)"
  by (rule rls_context_restores [where acc = guc_name_ok, OF demo_laws])
    (simp_all add: demo_names demo_writable demo_body_keeps del: guc_name_ok.simps)

lemma bypass_flag_restores_witness:
  "block_outcome demo_db ''default'' (\<lambda>_. True) demo_gucs [(''rls.x'', ''true'')] demo_body demo_start
     (bypass_flag demo_db ''rls.x'' True ''default'' demo_body demo_start)"
  by (rule bypass_flag_restores [OF demo_laws demo_names(1) demo_writable demo_body_keeps])

lemma async_rls_context_cancelled_witness:
  "\<exists>w'. async_rls_context demo_db [(''rls.x'', ''b'')] True ''default'' True demo_body demo_start
      = (Inl cancelled_error, w') \<and> True \<and> demo_gucs w' = demo_gucs demo_start"
  by (rule async_rls_context_cancelled [where acc = guc_name_ok, OF demo_laws])
    (simp_all add: demo_names demo_writable del: guc_name_ok.simps)

end
