(* ===== verification/Tenant_Context.thy ===== *)
theory Tenant_Context
  imports Affinity Rls_Context
begin

text \<open>
  \<^verbatim>\<open>tenants/context.py\<close> (and \<^verbatim>\<open>attributed\<close> of \<^verbatim>\<open>tenants/audit.py\<close>): the tenant and admin context
  blocks, their asynchronous counterparts, and the decorator.  As in \<open>Rls_Context\<close>, a block is a
  function of its body.  The origin a block is attributed to, which the source keeps in a context
  variable for the time of the entry, is an argument.  A \<open>site\<close> holds what is not this file's: the
  settings, the driver, what runs on \<^verbatim>\<open>connection_created\<close>, Django's cursor (through which the
  affinity guard runs) and the levels the audit logger takes.
\<close>

record 'd site =
  st_driver :: "'d driver"
  st_cfg :: aff_cfg
  st_created :: "string \<Rightarrow> ('d aff, unit) py"
  st_cursor :: "'d aff db"
  st_audits :: "audit_level \<Rightarrow> bool"

subsection \<open>The values of a user\<close>

text \<open>A dict of the two variables: the second assignment wins where the settings name one variable twice.\<close>

definition guc_items :: "aff_cfg \<Rightarrow> 'v \<Rightarrow> 'v \<Rightarrow> (string \<times> 'v) list" where
  "guc_items cfg admin tenant =
     (if guc_is_admin cfg = guc_current_tenant cfg then [(guc_is_admin cfg, tenant)]
      else [(guc_is_admin cfg, admin), (guc_current_tenant cfg, tenant)])"

definition resolve_user_guc_vars ::
  "aff_cfg \<Rightarrow> tenant_user \<Rightarrow> tenant_id option \<Rightarrow> (string \<times> string) list checked" where
  "resolve_user_guc_vars cfg user selected =
     (if u_is_admin user then Inr (guc_items cfg ''true'' [])
      else case (if selected = None then u_tenant user else selected) of
             None \<Rightarrow> Inl NoTenantContextError
           | Some t \<Rightarrow> Inr (guc_items cfg ''false'' (tenant_str t)))"

definition context_gucs_of :: "aff_cfg \<Rightarrow> (string \<times> string) list \<Rightarrow> context_gucs checked" where
  "context_gucs_of cfg variables =
     (case (map_of variables (guc_is_admin cfg), map_of variables (guc_current_tenant cfg)) of
        (Some a, Some t) \<Rightarrow> Inr \<lparr>g_is_admin = a, g_current_tenant = t\<rparr>
      | _ \<Rightarrow> Inl (OtherError ''KeyError''))"

subsection \<open>The context variables of a block\<close>

definition on_state :: "(rls_state, 'a) py \<Rightarrow> ('d aff, 'a) py" where
  "on_state m = (\<lambda>w. case m (a_state w) of (r, s) \<Rightarrow> (r, w\<lparr>a_state := s\<rparr>))"

record block_tokens =
  bt_active :: "bool token"
  bt_tenant :: "tenant_id option token"
  bt_gucs :: gucs_token

definition enter_rls_state ::
  "bool \<Rightarrow> tenant_id option \<Rightarrow> context_gucs option \<Rightarrow> rls_state \<Rightarrow> block_tokens \<times> rls_state" where
  "enter_rls_state active tenant gucs s =
     (let (active_token, s1) = set_rls_context_active active s;
          (tenant_token, s2) = set_current_tenant_id tenant s1;
          (entered, s3) = set_context_gucs gucs True s2
      in (\<lparr>bt_active = active_token, bt_tenant = tenant_token, bt_gucs = entered\<rparr>, s3))"

text \<open>The nested \<^verbatim>\<open>finally\<close> clauses: newest first, and a failing reset does not skip the others.\<close>

definition exit_rls_state :: "block_tokens \<Rightarrow> (rls_state, unit) py" where
  "exit_rls_state b =
     py_finally (reset_context_gucs (bt_gucs b))
       (\<lambda>_. py_finally (reset_current_tenant_id (bt_tenant b))
              (\<lambda>_. reset_rls_context_active (bt_active b)))"

definition settle :: "'d site \<Rightarrow> string option \<Rightarrow> bool \<Rightarrow> ('d aff, unit) py" where
  "settle st = settle_other_aliases (st_driver st) (st_cfg st) (st_created st)"

definition settle_after_no_context :: "'d site \<Rightarrow> ('d aff, unit) py" where
  "settle_after_no_context st =
     py_finally (suspect_sessions (st_driver st) (st_cfg st) (use_local_set (st_cfg st)))
       (\<lambda>_. settle st None True)"

text \<open>
  \<^verbatim>\<open>_no_rls_state\<close>; \<open>settling\<close> is what \<^verbatim>\<open>_settle_after_no_context\<close> does on the thread that runs it
  (nothing on an event loop's thread, which has no connections).
\<close>

definition no_rls_state :: "('d aff, unit) py \<Rightarrow> ('d aff, 'a) py \<Rightarrow> ('d aff, 'a) py" where
  "no_rls_state settling body = (\<lambda>w.
     case enter_rls_state False None None (a_state w) of
       (b, s) \<Rightarrow>
         py_finally body
           (\<lambda>_. py_finally (on_state (reset_context_gucs (bt_gucs b)))
             (\<lambda>_. py_finally (on_state (reset_current_tenant_id (bt_tenant b)))
               (\<lambda>_. py_finally (on_state (reset_rls_context_active (bt_active b)))
                 (\<lambda>_. settling))))
           (w\<lparr>a_state := s\<rparr>))"

subsection \<open>The snapshot and its restore\<close>

definition writes_gucs :: "aff_cfg \<Rightarrow> string \<Rightarrow> bool \<Rightarrow> bool" where
  "writes_gucs cfg using is_local \<longleftrightarrow> \<not> is_local \<or> using \<notin> set (databases cfg)"

definition session_of :: "'d site \<Rightarrow> string \<Rightarrow> ('d aff, nat option) py" where
  "session_of st using = py_seq (connections_get (st_cursor st) using) (py_get (raw_of using))"

definition snapshot_gucs :: "'d site \<Rightarrow> string \<Rightarrow> ('d aff, (string \<times> string option) list) py" where
  "snapshot_gucs st using =
     py_bind (get_guc (st_cursor st) (guc_is_admin (st_cfg st)) using) (\<lambda>admin.
     py_bind (get_guc (st_cursor st) (guc_current_tenant (st_cfg st)) using) (\<lambda>tenant.
     py_ret (guc_items (st_cfg st) admin tenant)))"

definition write_values ::
  "'d site \<Rightarrow> string \<Rightarrow> tracked \<Rightarrow> bool \<Rightarrow> ('d aff, 'a) py \<Rightarrow> ('d aff, 'a) py" where
  "write_values st using values is_local body =
     writing (st_driver st) (st_cfg st) using values is_local body"

definition ended :: "rls_state \<Rightarrow> nat option \<Rightarrow> bool" where
  "ended s live \<longleftrightarrow> (case live of None \<Rightarrow> False | Some a \<Rightarrow> (case heap s a of None \<Rightarrow> True | Some l \<Rightarrow> \<not> l_alive l))"

definition restore_snapshot ::
  "'d site \<Rightarrow> (string \<times> string option) list \<Rightarrow> bool \<Rightarrow> string \<Rightarrow> bool \<Rightarrow> nat option \<Rightarrow> nat option \<Rightarrow>
     ('d aff, unit) py" where
  "restore_snapshot st previous is_local using exc_pending enclosing session = (\<lambda>w.
     let saved = (if ended (a_state w) enclosing then guc_items (st_cfg st) None None else previous);
         restore = restore_gucs (st_cursor st) saved is_local using exc_pending
     in if current_live (a_state w) \<noteq> enclosing
        then py_seq
          (py_bind (if session \<noteq> None then py_bind (session_of st using) (\<lambda>s. py_ret (s = session)) else py_ret False)
            (\<lambda>same. if same
                     then py_bind (write_values st using TUnknown is_local restore) (\<lambda>_. py_ret ())
                     else py_modify (forget_values using)))
          (settle st (Some using) False) w
        else py_bind (write_values st using (tracked_of (context_of w)) is_local restore)
          (\<lambda>restored. py_seq (if restored then py_ret () else py_modify (forget_values using))
             (settle st (Some using) False)) w)"

definition restore_tenant_gucs ::
  "'d site \<Rightarrow> (string \<times> string option) list option \<Rightarrow> bool \<Rightarrow> string \<Rightarrow> bool \<Rightarrow> nat option \<Rightarrow> nat option \<Rightarrow>
     ('d aff, unit) py" where
  "restore_tenant_gucs st previous is_local using exc_pending enclosing session =
     py_finally
       (case previous of
          None \<Rightarrow> settle st None False
        | Some saved \<Rightarrow> restore_snapshot st saved is_local using exc_pending enclosing session)
       (\<lambda>_. if is_local then suspect_sessions (st_driver st) (st_cfg st) True else py_ret ())"

subsection \<open>The blocks\<close>

definition log_context :: "'d site \<Rightarrow> string \<Rightarrow> origin \<Rightarrow> tenant_id option \<Rightarrow> string \<Rightarrow> 'd aff \<Rightarrow> 'd aff" where
  "log_context st event origin tenant using w =
     w\<lparr>a_audit := context_event (st_audits st) event origin tenant using (a_audit w)\<rparr>"

definition refuse_tenant_id_none :: "'d site \<Rightarrow> origin \<Rightarrow> ('d aff, 'a) py" where
  "refuse_tenant_id_none st origin = (\<lambda>w.
     (Inl NoTenantContextError,
      case o_source origin of
        None \<Rightarrow> w
      | Some source \<Rightarrow>
          w\<lparr>a_audit := denied (st_audits st) source ''tenant_id_none'' (o_user origin) None None [] (a_audit w)\<rparr>))"

text \<open>
  How a block ends whose \<^verbatim>\<open>with _rls_state(...)\<close> body had the outcome \<open>r\<close>: the context variables are
  reset, then the session's values restored, then, if it had been entered, the exit is logged.
\<close>

definition leave_block ::
  "'d site \<Rightarrow> block_tokens \<Rightarrow> (bool \<Rightarrow> ('d aff, unit) py) \<Rightarrow> ('d aff \<Rightarrow> 'd aff) \<Rightarrow> bool \<Rightarrow> exn + 'a \<Rightarrow> ('d aff, 'a) py" where
  "leave_block st b restore exited entered r =
     py_finally
       (py_finally (\<lambda>w. (r, w)) (\<lambda>_. on_state (exit_rls_state b)))
       (\<lambda>exc_pending. py_finally (restore exc_pending)
          (\<lambda>_. if entered then py_modify exited else py_ret ()))"

text \<open>
  What \<^verbatim>\<open>tenant_context\<close> and \<^verbatim>\<open>admin_context\<close> have in common: \<open>write\<close> are the statements that
  set the values, \<open>tenant\<close> the auto-scope tenant (\<open>None\<close> for an admin).
\<close>

definition run_block ::
  "'d site \<Rightarrow> tenant_id option \<Rightarrow> context_gucs \<Rightarrow> ('d aff, unit) py \<Rightarrow> (bool \<Rightarrow> ('d aff, unit) py) \<Rightarrow>
     string \<Rightarrow> origin \<Rightarrow> ('d aff, 'a) py \<Rightarrow> ('d aff, 'a) py" where
  "run_block st tenant gucs write restore using origin body = (\<lambda>w.
     case enter_rls_state True tenant (Some gucs) (a_state w) of
       (b, s) \<Rightarrow>
         (let leave = leave_block st b restore (log_context st ''context.exited'' origin tenant using)
          in case write (w\<lparr>a_state := s\<rparr>) of
               (Inl e, w1) \<Rightarrow> leave False (Inl e) w1
             | (Inr _, w1) \<Rightarrow>
                 (case body (log_context st ''context.entered'' origin tenant using w1) of
                    (r, w2) \<Rightarrow> leave True r w2)))"

definition context_block ::
  "'d site \<Rightarrow> tenant_id option \<Rightarrow> context_gucs \<Rightarrow> (bool \<Rightarrow> ('d aff, unit) py) \<Rightarrow> string \<Rightarrow> origin \<Rightarrow>
     ('d aff, 'a) py \<Rightarrow> ('d aff, 'a) py" where
  "context_block st tenant gucs write using origin body =
     (let is_local = use_local_set (st_cfg st); writes = writes_gucs (st_cfg st) using is_local
      in py_bind (if writes then py_bind (snapshot_gucs st using) (\<lambda>p. py_ret (Some p)) else py_ret None) (\<lambda>previous.
         py_bind (session_of st using) (\<lambda>session.
         py_bind (py_get (\<lambda>w. current_live (a_state w))) (\<lambda>enclosing.
           run_block st tenant gucs
             (if writes then write_values st using (TVals gucs) is_local (write is_local) else py_ret ())
             (\<lambda>exc. restore_tenant_gucs st previous is_local using exc enclosing session)
             using origin body))))"

definition tenant_context ::
  "'d site \<Rightarrow> tenant_id option \<Rightarrow> string \<Rightarrow> origin \<Rightarrow> ('d aff, 'a) py \<Rightarrow> ('d aff, 'a) py" where
  "tenant_context st tenant using origin body =
     (case tenant of
        None \<Rightarrow> refuse_tenant_id_none st origin
      | Some t \<Rightarrow>
          (let gucs = gucs_for_tenant t in
           context_block st tenant gucs
             (\<lambda>is_local. py_seq
                (set_guc (st_cursor st) (guc_is_admin (st_cfg st)) (g_is_admin gucs) is_local using)
                (set_guc (st_cursor st) (guc_current_tenant (st_cfg st)) (g_current_tenant gucs) is_local using))
             using origin body))"

definition admin_context ::
  "'d site \<Rightarrow> string \<Rightarrow> origin \<Rightarrow> ('d aff, 'a) py \<Rightarrow> ('d aff, 'a) py" where
  "admin_context st using origin body =
     context_block st None admin_gucs
       (\<lambda>is_local. py_seq
          (set_guc (st_cursor st) (guc_is_admin (st_cfg st)) (g_is_admin admin_gucs) is_local using)
          (clear_guc (st_cursor st) (guc_current_tenant (st_cfg st)) is_local using))
       using origin body"

subsection \<open>The asynchronous blocks\<close>

text \<open>The hop's value: the snapshot, and the session it was taken on (\<^verbatim>\<open>entered_on\<close>).\<close>

definition enter_tenant_gucs ::
  "'d site \<Rightarrow> (string \<times> string) list \<Rightarrow> bool \<Rightarrow> string \<Rightarrow>
     ('d aff, (string \<times> string option) list option \<times> nat option) py" where
  "enter_tenant_gucs st variables is_local using =
     py_seq (connections_get (st_cursor st) using)
       (if \<not> writes_gucs (st_cfg st) using is_local then py_ret (None, None)
        else py_bind (py_get (db_in_atomic (st_cursor st) using)) (\<lambda>in_atomic.
          py_seq (py_require (\<not> (is_local \<and> \<not> in_atomic)) RLSConfigurationError)
         (py_seq (apply_active_context (st_driver st) (st_cfg st) (st_created st) using)
           (case context_gucs_of (st_cfg st) variables of
              Inl e \<Rightarrow> py_raise e
            | Inr gucs \<Rightarrow>
                py_bind (write_values st using (TVals gucs) is_local (enter_gucs (st_cursor st) variables is_local using))
                  (\<lambda>previous. py_bind (py_get (raw_of using)) (\<lambda>session. py_ret (Some previous, session)))))))"

definition async_context_block ::
  "'d site \<Rightarrow> tenant_id option \<Rightarrow> context_gucs \<Rightarrow> string \<Rightarrow> bool \<Rightarrow> origin \<Rightarrow> ('d aff, 'a) py \<Rightarrow> ('d aff, 'a) py" where
  "async_context_block st tenant gucs using cancelled origin body =
     (let is_local = use_local_set (st_cfg st)
      in py_bind (py_get (\<lambda>w. current_live (a_state w))) (\<lambda>enclosing.
         py_bind
           (run_enter_hop
             (enter_tenant_gucs st (guc_items (st_cfg st) (g_is_admin gucs) (g_current_tenant gucs)) is_local using)
             (\<lambda>(previous, _). restore_tenant_gucs st previous is_local using True enclosing None) cancelled)
           (\<lambda>(previous, session).
             run_block st tenant gucs (py_ret ())
               (\<lambda>exc. restore_tenant_gucs st previous is_local using exc enclosing session) using origin body)))"

definition async_tenant_context ::
  "'d site \<Rightarrow> tenant_id option \<Rightarrow> string \<Rightarrow> bool \<Rightarrow> origin \<Rightarrow> ('d aff, 'a) py \<Rightarrow> ('d aff, 'a) py" where
  "async_tenant_context st tenant using cancelled origin body =
     (case tenant of
        None \<Rightarrow> refuse_tenant_id_none st origin
      | Some t \<Rightarrow> async_context_block st tenant (gucs_for_tenant t) using cancelled origin body)"

definition async_admin_context ::
  "'d site \<Rightarrow> string \<Rightarrow> bool \<Rightarrow> origin \<Rightarrow> ('d aff, 'a) py \<Rightarrow> ('d aff, 'a) py" where
  "async_admin_context st using cancelled origin body =
     async_context_block st None admin_gucs using cancelled origin body"

subsection \<open>The decorator\<close>

text \<open>
  The signature of a decorated function.  A Python value is \<open>'v option\<close>, \<open>None\<close> for \<^verbatim>\<open>None\<close>; the user
  parameter is not the function's \<^verbatim>\<open>*args\<close> or \<^verbatim>\<open>**kwargs\<close> themselves.
\<close>

datatype param_kind = PosOnly | PosOrKw | VarPos | KwOnly | VarKw

record 'v param =
  pa_name :: string
  pa_kind :: param_kind
  pa_default :: "'v option option"

fun bind_positional ::
  "'v param list \<Rightarrow> 'v option list \<Rightarrow> ((string \<times> 'v option) list \<times> 'v param list) checked" where
  "bind_positional ps [] = Inr ([], ps)"
| "bind_positional [] (a # as) = Inl TypeError"
| "bind_positional (p # ps) (a # as) =
     (if pa_kind p = VarPos then Inr ([], ps)
      else if pa_kind p \<in> {KwOnly, VarKw} then Inl TypeError
      else ck_bind (bind_positional ps as) (\<lambda>(bound, rest). Inr ((pa_name p, a) # bound, rest)))"

definition bind_partial ::
  "'v param list \<Rightarrow> 'v option list \<Rightarrow> (string \<times> 'v option) list \<Rightarrow> (string \<times> 'v option) list checked" where
  "bind_partial sig args kwargs =
     ck_bind (bind_positional sig args) (\<lambda>(bound, rest).
       let named = map pa_name (filter (\<lambda>p. pa_kind p \<in> {PosOrKw, KwOnly}) rest);
           twice = map pa_name (filter (\<lambda>p. pa_kind p = PosOrKw \<and> pa_name p \<in> fst ` set bound) sig);
           var_kw = list_ex (\<lambda>p. pa_kind p = VarKw) sig
       in ck_bind (check (list_all (\<lambda>(n, _). n \<notin> set twice \<and> (n \<in> set named \<or> var_kw)) kwargs) TypeError)
            (\<lambda>_. Inr (bound @ filter (\<lambda>(n, _). n \<in> set named) kwargs)))"

definition get_arg_from_signature ::
  "'v param list \<Rightarrow> string \<Rightarrow> 'v option list \<Rightarrow> (string \<times> 'v option) list \<Rightarrow> 'v option checked" where
  "get_arg_from_signature sig arg_name args kwargs =
     ck_bind (bind_partial sig args kwargs) (\<lambda>arguments.
       Inr (case map_of arguments arg_name of
              Some v \<Rightarrow> v
            | None \<Rightarrow> (case map_of (map (\<lambda>p. (pa_name p, pa_default p)) sig) arg_name of
                         Some (Some dflt) \<Rightarrow> dflt
                       | _ \<Rightarrow> None)))"

definition decorated_call_tenant_id :: "'d site \<Rightarrow> tenant_user \<Rightarrow> ('d aff, tenant_id option) py" where
  "decorated_call_tenant_id st user =
     (if u_is_admin user then py_ret None
      else case u_tenant user of
             Some t \<Rightarrow> py_ret (Some t)
           | None \<Rightarrow> py_seq
               (py_modify (\<lambda>w. w\<lparr>a_audit := denied (st_audits st) ''decorator'' ''user_without_tenant''
                                              (u_pk user) None None [] (a_audit w)\<rparr>))
               (py_raise NoTenantContextError))"

text \<open>What a call of a function decorated as synchronous gives: a value, or a coroutine it could not see.\<close>

datatype 'r fn_result = Returned 'r | ReturnedCoroutine

definition reject_coroutine :: "'r fn_result \<Rightarrow> ('w, 'r fn_result) py" where
  "reject_coroutine result =
     (case result of Returned x \<Rightarrow> py_ret result | ReturnedCoroutine \<Rightarrow> py_raise TypeError)"

text \<open>\<^verbatim>\<open>attributed\<close> of \<^verbatim>\<open>tenants/audit.py\<close>: the origin holds for the entry of the block, not for its body.\<close>

definition attributed :: "(origin \<Rightarrow> 'm) \<Rightarrow> string option \<Rightarrow> tenant_id option \<Rightarrow> 'm" where
  "attributed context source user = context \<lparr>o_source = source, o_user = user\<rparr>"

definition sync_wrapper ::
  "'d site \<Rightarrow> tenant_user option \<Rightarrow> ('d aff, 'r fn_result) py \<Rightarrow> ('d aff, 'r fn_result) py" where
  "sync_wrapper st as_user fn =
     (let body = py_bind fn reject_coroutine in
      case as_user of
        None \<Rightarrow> no_rls_state (settle_after_no_context st) body
      | Some user \<Rightarrow>
          py_bind (decorated_call_tenant_id st user) (\<lambda>tenant.
            attributed (\<lambda>origin. if tenant = None then admin_context st ''default'' origin
                                 else tenant_context st tenant ''default'' origin)
              (Some ''decorator'') (u_pk user) body))"

definition async_wrapper ::
  "'d site \<Rightarrow> bool \<Rightarrow> tenant_user option \<Rightarrow> ('d aff, 'r) py \<Rightarrow> ('d aff, 'r) py" where
  "async_wrapper st cancelled as_user fn =
     (case as_user of
        None \<Rightarrow> py_finally (no_rls_state (py_ret ()) fn) (\<lambda>_. settle_after_no_context st)
      | Some user \<Rightarrow>
          py_bind (decorated_call_tenant_id st user) (\<lambda>tenant.
            attributed (\<lambda>origin. if tenant = None then async_admin_context st ''default'' cancelled origin
                                 else async_tenant_context st tenant ''default'' cancelled origin)
              (Some ''decorator'') (u_pk user) fn))"

datatype fn_kind = SyncFn | CoroutineFn | GeneratorFn | AsyncGeneratorFn

text \<open>\<open>reads\<close> is how the argument answers the \<^verbatim>\<open>TenantUser\<close> protocol.\<close>

definition with_rls_context ::
  "'d site \<Rightarrow> ('v \<Rightarrow> tenant_user) \<Rightarrow> string \<Rightarrow> string option \<Rightarrow> fn_kind \<Rightarrow> 'v param list \<Rightarrow> bool \<Rightarrow>
     ('v option list \<Rightarrow> (string \<times> 'v option) list \<Rightarrow> ('d aff, 'r fn_result) py) \<Rightarrow>
     ('v option list \<Rightarrow> (string \<times> 'v option) list \<Rightarrow> ('d aff, 'r fn_result) py) checked" where
  "with_rls_context st reads user_param_name user_param kind sig cancelled fn =
     (if kind \<in> {GeneratorFn, AsyncGeneratorFn} then Inl TypeError
      else let param_name = (case user_param of None \<Rightarrow> user_param_name | Some n \<Rightarrow> n)
           in Inr (\<lambda>args kwargs.
                case get_arg_from_signature sig param_name args kwargs of
                  Inl e \<Rightarrow> py_raise e
                | Inr as_user \<Rightarrow>
                    if kind = CoroutineFn
                    then async_wrapper st cancelled (map_option reads as_user) (fn args kwargs)
                    else sync_wrapper st (map_option reads as_user) (fn args kwargs)))"

subsection \<open>Code that leaves the context variables and the audit log alone\<close>

definition quiet :: "('d aff, 'a) py \<Rightarrow> bool" where
  "quiet m \<longleftrightarrow> (\<forall>w. a_state (snd (m w)) = a_state w \<and> a_audit (snd (m w)) = a_audit w)"

named_theorems quiet_intros "code that leaves the context variables and the audit log alone"

lemma quietD: "quiet m \<Longrightarrow> m w = (r, w') \<Longrightarrow> a_state w' = a_state w \<and> a_audit w' = a_audit w"
  unfolding quiet_def by (metis snd_conv)

lemma quiet_basic [quiet_intros]:
  "quiet (py_ret x)" "quiet (py_raise e)" "quiet (py_require b e)" "quiet (py_get f)"
  "quiet (on_db m)" "quiet (read_status dr raw)" "quiet (Pair r)"
  by (simp_all add: quiet_def py_simps on_db_def read_status_def case_prod_unfold)

lemma quiet_modify:
  "(\<And>w. a_state (f w) = a_state w \<and> a_audit (f w) = a_audit w) \<Longrightarrow> quiet (py_modify f)"
  by (simp add: quiet_def py_modify_def)

lemma quiet_bind [quiet_intros]: "quiet m \<Longrightarrow> (\<And>x. quiet (f x)) \<Longrightarrow> quiet (py_bind m f)"
  unfolding quiet_def py_bind_def by (auto split: prod.splits sum.splits) (metis snd_conv)+

lemma quiet_seq [quiet_intros]: "quiet m \<Longrightarrow> quiet n \<Longrightarrow> quiet (py_seq m n)"
  by (simp add: py_seq_def quiet_bind)

lemma quiet_except [quiet_intros]: "quiet m \<Longrightarrow> (\<And>e. quiet (h e)) \<Longrightarrow> quiet (py_except m sel h)"
  unfolding quiet_def py_except_def by (auto split: prod.splits sum.splits) (metis snd_conv)+

lemma quiet_finally [quiet_intros]: "quiet m \<Longrightarrow> (\<And>b. quiet (f b)) \<Longrightarrow> quiet (py_finally m f)"
  unfolding quiet_def py_finally_def by (auto split: prod.splits sum.splits) (metis snd_conv)+

lemma quiet_for [quiet_intros]: "(\<And>x. quiet (f x)) \<Longrightarrow> quiet (py_for xs f)"
  by (induction xs) (simp_all add: quiet_intros)

text \<open>Branches that look at the world first.\<close>

lemma quiet_branches [quiet_intros]:
  "quiet m \<Longrightarrow> quiet n \<Longrightarrow> quiet (\<lambda>w. if c w then m w else n w)"
  "quiet m \<Longrightarrow> (\<And>x. quiet (p x)) \<Longrightarrow> quiet (\<lambda>w. case f w of None \<Rightarrow> m w | Some x \<Rightarrow> p x w)"
  "quiet m \<Longrightarrow> quiet n \<Longrightarrow> quiet (if b then m else n)"
  by (auto simp: quiet_def split: option.splits)

lemma upd_tracker_audit [simp]: "a_audit (upd_tracker al f w) = a_audit w"
  "a_audit (upd_conn al g w) = a_audit w" "a_audit (forget_values al w) = a_audit w"
  by (simp_all add: upd_tracker_def upd_conn_def put_conn_def forget_values_def split: option.splits)

lemma quiet_modifies [quiet_intros]:
  "quiet (py_modify (upd_tracker al f))" "quiet (py_modify (upd_conn al g))"
  "quiet (py_modify (forget_values al))" "quiet (py_modify (\<lambda>w. w))"
  "quiet (py_modify (\<lambda>w. upd_tracker al (h w) w))"
  by (rule quiet_modify, simp)+

lemma quiet_app: "quiet m \<Longrightarrow> a_state (snd (m w)) = a_state w \<and> a_audit (snd (m w)) = a_audit w"
  by (simp add: quiet_def)

lemma quiet_world [quiet_intros]:
  "(\<And>w. a_state (f w) = a_state w \<and> a_audit (f w) = a_audit w) \<Longrightarrow> quiet (\<lambda>w. (r, f w))"
  by (simp add: quiet_def)

lemma quiet_observe [quiet_intros]: "quiet (observe dr al)"
  by (auto simp: quiet_def observe_def py_bind_def py_seq_def py_modify_def py_ret_def read_status_def
      split: option.splits sum.splits)

lemma quiet_record_write [quiet_intros]: "quiet (record_write dr cfg al v l)"
  unfolding record_write_def by (intro quiet_intros) simp

lemma quiet_writing [quiet_intros]:
  assumes "quiet body" shows "quiet (writing dr cfg al v l body)"
  unfolding quiet_def
proof
  fix w
  obtain r w1 where b: "body (w\<lparr>a_depth := Suc (a_depth w)\<rparr>) = (r, w1)" by (cases "body (w\<lparr>a_depth := Suc (a_depth w)\<rparr>)")
  obtain q w2 where q: "record_write dr cfg al v l w1 = (q, w2)" by (cases "record_write dr cfg al v l w1")
  from quietD [OF assms b] quietD [OF quiet_record_write q]
  show "a_state (snd (writing dr cfg al v l body w)) = a_state w \<and>
      a_audit (snd (writing dr cfg al v l body w)) = a_audit w"
    using b q by (auto simp: writing_def Let_def split: sum.splits)
qed

lemma quiet_ensure [quiet_intros]: "quiet (created al) \<Longrightarrow> quiet (ensure_connection dr created al)"
  unfolding ensure_connection_def by (intro quiet_intros)

lemma quiet_follow [quiet_intros]: "quiet (follow_statement dr cfg al s st)"
  unfolding follow_statement_def by (intro quiet_intros)

lemma quiet_run_and_follow [quiet_intros]:
  "quiet run \<Longrightarrow> quiet (run_and_follow dr cfg al s st own run)"
  unfolding run_and_follow_def
  by (intro quiet_intros) (auto split: option.split intro!: quiet_intros quiet_modify)

lemma quiet_guarded_write [quiet_intros]: "quiet (guarded_write dr cfg al sql ps)"
proof -
  have run: "quiet (on_db m)" "quiet (py_bind (observe dr al) (\<lambda>status. run_and_follow dr cfg al s status False (on_db m)))"
    for m s by (intro quiet_intros)+
  show ?thesis unfolding quiet_def guarded_write_def Let_def
    by (auto simp: quiet_app [OF run(1)] quiet_app [OF run(2)] split: option.split)
qed

lemma quiet_write_gucs [quiet_intros]:
  assumes "\<And>al. quiet (created al)" shows "quiet (write_gucs dr cfg created al v l)"
proof -
  have ens: "quiet (ensure_connection dr created al)" using assms by (intro quiet_intros)
  have check: "quiet (\<lambda>w. case a_conns w al of None \<Rightarrow> (Inl ConnectionDoesNotExist, w)
      | Some cn \<Rightarrow> (case cn_raw cn of None \<Rightarrow> (Inl (OtherError ''AttributeError''), w)
          | Some raw \<Rightarrow> py_bind (read_status dr raw)
              (\<lambda>status. py_require (will_run_in_transaction cn status) RuntimeError) w))"
    by (auto simp: quiet_def py_bind_def read_status_def py_require_def split: option.split sum.split)
  show ?thesis unfolding write_gucs_def by (intro quiet_intros ens check assms)
qed

lemma quiet_apply_if_stale [quiet_intros]:
  assumes "\<And>al. quiet (created al)" shows "quiet (apply_if_stale dr cfg created al)"
proof -
  have w: "quiet (py_seq (write_gucs dr cfg created al v l) (py_ret x))" for v l x
    using assms by (intro quiet_intros)
  have "quiet (\<lambda>w. case a_conns w al of
         None \<Rightarrow> (Inr status, w)
       | Some cn \<Rightarrow>
           (let context_gucs = context_of w; held = map_option tr_values (cn_tracker cn);
                is_local = (context_gucs \<noteq> None \<and> use_local_set cfg)
            in if held = Some (tracked_of context_gucs) then (Inr status, w)
               else if status \<in> {InError, ConnectionBad} \<or> cn_needs_rollback cn then (Inr status, w)
               else if \<not> is_guarded cfg al then (Inr status, w)
               else if is_local \<and> \<not> will_run_in_transaction cn status then (Inr status, w)
               else py_seq (write_gucs dr cfg created al context_gucs is_local) (py_ret status) w))" for status
    unfolding quiet_def Let_def by (auto simp: quiet_app [OF w] split: option.split)
  then show ?thesis unfolding apply_if_stale_def by (intro quiet_bind quiet_observe)
qed

lemma quiet_apply_active [quiet_intros]:
  assumes "\<And>al. quiet (created al)" shows "quiet (apply_active_context dr cfg created al)"
  unfolding apply_active_context_def using assms by (intro quiet_intros) simp

lemma quiet_settle_alias [quiet_intros]:
  assumes "\<And>al. quiet (created al)" shows "quiet (settle_alias dr cfg created u c al)"
proof -
  have "quiet (py_bind
            (if u = None \<and> held = TUnknown
             then py_bind (observe dr al) (\<lambda>status. py_ret (status \<noteq> Idle)) else py_ret False)
            (\<lambda>unknown_in_transaction.
               if \<not> is_values held \<and> \<not> unknown_in_transaction \<and> \<not> (c \<and> (held = TNone \<or> held = TUnknown))
               then py_ret ()
               else py_except (py_bind (apply_if_stale dr cfg created al) (\<lambda>_. py_ret ()))
                      (\<lambda>e. e = DatabaseError) (\<lambda>_. py_modify (forget_values al))))" for held
    using assms by (intro quiet_intros)
  then show ?thesis unfolding settle_alias_def Let_def quiet_def by (auto split: option.split)
qed

lemma quiet_suspect_alias [quiet_intros]: "quiet (suspect_alias dr u al)"
  unfolding suspect_alias_def by (intro quiet_intros) simp

lemma quiet_suspect [quiet_intros]: "quiet (suspect_sessions dr cfg u)"
  unfolding suspect_sessions_def by (intro quiet_intros)

lemma quiet_settle_other [quiet_intros]:
  "(\<And>al. quiet (created al)) \<Longrightarrow> quiet (settle_other_aliases dr cfg created u c)"
  unfolding settle_other_aliases_def by (intro quiet_intros)

text \<open>What the code relies on of Django: its cursor, and what it runs on a new connection, leave them alone.\<close>

definition cursor_quiet :: "'d aff db \<Rightarrow> bool" where
  "cursor_quiet db \<longleftrightarrow> (\<forall>u sql ps. quiet (db_execute db u sql ps)) \<and>
     (\<forall>u b. quiet (py_modify (db_put_needs_rollback db u b)))"

definition site_ok :: "'d site \<Rightarrow> bool" where
  "site_ok st \<longleftrightarrow> cursor_quiet (st_cursor st) \<and> (\<forall>al. quiet (st_created st al))"

lemma quiet_connections [quiet_intros]: "quiet (connections_get db u)"
  by (simp add: quiet_def connections_get_def py_require_def)

lemma quiet_set_guc [quiet_intros]: "cursor_quiet db \<Longrightarrow> quiet (set_guc db n v l u)"
  unfolding set_guc_def cursor_quiet_def by (intro quiet_intros) simp_all

lemma quiet_get_guc [quiet_intros]: "cursor_quiet db \<Longrightarrow> quiet (get_guc db n u)"
  unfolding get_guc_def cursor_quiet_def Let_def by (intro quiet_intros) simp_all

lemma quiet_clear_guc [quiet_intros]: "cursor_quiet db \<Longrightarrow> quiet (clear_guc db n l u)"
  unfolding clear_guc_def by (rule quiet_set_guc)

lemma quiet_restore_guc: "cursor_quiet db \<Longrightarrow> quiet (restore_guc db n p l u)"
  unfolding restore_guc_def by (cases p) (simp_all add: quiet_intros)

lemma quiet_restore_loop: "cursor_quiet db \<Longrightarrow> quiet (restore_loop db ps l u e r)"
proof (induction ps arbitrary: r)
  case Nil
  then show ?case by (simp add: quiet_intros)
next
  case (Cons p ps)
  obtain n v where p: "p = (n, v)" by (cases p)
  note q = quiet_app [OF quiet_restore_guc [OF Cons.prems]] and ih = quiet_app [OF Cons.IH [OF Cons.prems]]
  show ?case unfolding quiet_def
  proof
    fix w
    obtain x w1 where x: "restore_guc db n v l u w = (x, w1)" by (cases "restore_guc db n v l u w")
    with q [of n v l u w] have "a_state w1 = a_state w" "a_audit w1 = a_audit w" by simp_all
    with ih x p show "a_state (snd (restore_loop db (p # ps) l u e r w)) = a_state w \<and>
        a_audit (snd (restore_loop db (p # ps) l u e r w)) = a_audit w" by (auto split: sum.split)
  qed
qed

lemma quiet_restore_gucs [quiet_intros]: "cursor_quiet db \<Longrightarrow> quiet (restore_gucs db ps l u e)"
  unfolding restore_gucs_def
  by (intro quiet_intros quiet_restore_loop) (simp_all add: cursor_quiet_def)

lemma quiet_restoring [quiet_intros]: "cursor_quiet db \<Longrightarrow> quiet (restoring db ps l u e)"
  unfolding restoring_def by (intro quiet_intros)

lemma quiet_snapshot [quiet_intros]: "cursor_quiet db \<Longrightarrow> quiet (snapshot db ns u)"
  by (induction ns) (simp_all add: quiet_intros)

lemma quiet_enter_loop: "cursor_quiet db \<Longrightarrow> quiet (enter_loop db vs pv l u un)"
proof (induction vs arbitrary: un)
  case Nil
  then show ?case by (simp add: quiet_intros)
next
  case (Cons p ps)
  obtain n v where p: "p = (n, v)" by (cases p)
  have r: "quiet (py_seq (restoring db un l u True) (py_raise e))" for e :: exn
    using Cons.prems by (intro quiet_intros)
  note q = quiet_app [OF quiet_set_guc [OF Cons.prems]] and ih = quiet_app [OF Cons.IH [OF Cons.prems]]
  show ?case unfolding quiet_def
  proof
    fix w
    obtain x w1 where x: "set_guc db n v l u w = (x, w1)" by (cases "set_guc db n v l u w")
    with q [of n v l u w] have w1: "a_state w1 = a_state w" "a_audit w1 = a_audit w" by simp_all
    show "a_state (snd (enter_loop db (p # ps) pv l u un w)) = a_state w \<and>
        a_audit (snd (enter_loop db (p # ps) pv l u un w)) = a_audit w"
    proof (cases x)
      case (Inl e)
      then show ?thesis using x p w1 quiet_app [OF r, of e w1] by simp
    next
      case (Inr y)
      then show ?thesis using x p w1 ih by simp
    qed
  qed
qed

lemma quiet_enter_gucs [quiet_intros]: "cursor_quiet db \<Longrightarrow> quiet (enter_gucs db vs l u)"
  unfolding enter_gucs_def by (intro quiet_intros quiet_enter_loop)

lemma quiet_site [quiet_intros]:
  assumes "site_ok st"
  shows "quiet (settle st al c)" "quiet (settle_after_no_context st)" "quiet (snapshot_gucs st u)"
    "quiet (session_of st u)"
  using assms unfolding settle_def settle_after_no_context_def snapshot_gucs_def session_of_def site_ok_def
  by (auto intro!: quiet_intros)

lemma quiet_write_values [quiet_intros]: "quiet body \<Longrightarrow> quiet (write_values st u v l body)"
  unfolding write_values_def by (rule quiet_writing)

lemma quiet_restore_snapshot [quiet_intros]:
  assumes ok: "site_ok st" shows "quiet (restore_snapshot st p l u e enc ses)"
proof -
  have db: "cursor_quiet (st_cursor st)" using ok by (simp add: site_ok_def)
  have elsewhere: "quiet (py_seq
          (py_bind (if ses \<noteq> None then py_bind (session_of st u) (\<lambda>s. py_ret (s = ses)) else py_ret False)
            (\<lambda>same. if same
                     then py_bind (write_values st u TUnknown l (restore_gucs (st_cursor st) sv l u e)) (\<lambda>_. py_ret ())
                     else py_modify (forget_values u)))
          (settle st (Some u) False))" for sv
    using ok db by (intro quiet_intros)
  have here: "quiet (py_bind (write_values st u v l (restore_gucs (st_cursor st) sv l u e))
          (\<lambda>restored. py_seq (if restored then py_ret () else py_modify (forget_values u))
             (settle st (Some u) False)))" for sv v
    using ok db by (intro quiet_intros)
  show ?thesis unfolding quiet_def
  proof
    fix w
    show "a_state (snd (restore_snapshot st p l u e enc ses w)) = a_state w \<and>
        a_audit (snd (restore_snapshot st p l u e enc ses w)) = a_audit w"
      unfolding restore_snapshot_def Let_def
      by (cases "current_live (a_state w) \<noteq> enc")
        (simp_all only: if_True if_False not_True_eq_False not_False_eq_True
          quiet_app [OF elsewhere] quiet_app [OF here] simp_thms)
  qed
qed

lemma quiet_restore_tenant [quiet_intros]:
  assumes "site_ok st" shows "quiet (restore_tenant_gucs st p l u e enc ses)"
  unfolding restore_tenant_gucs_def using assms
  by (intro quiet_intros) (auto split: option.split intro: quiet_intros)

lemma quiet_enter_tenant [quiet_intros]:
  assumes ok: "site_ok st" shows "quiet (enter_tenant_gucs st vs l u)"
proof -
  have db: "cursor_quiet (st_cursor st)" and cr: "\<And>al. quiet (st_created st al)"
    using ok by (simp_all add: site_ok_def)
  have "quiet (case context_gucs_of (st_cfg st) vs of
              Inl e \<Rightarrow> py_raise e
            | Inr gucs \<Rightarrow>
                py_bind (write_values st u (TVals gucs) l (enter_gucs (st_cursor st) vs l u))
                  (\<lambda>previous. py_bind (py_get (raw_of u)) (\<lambda>session. py_ret (Some previous, session))))"
    using db by (auto split: sum.split intro!: quiet_intros)
  then show ?thesis unfolding enter_tenant_gucs_def using db cr by (intro quiet_intros)
qed

subsection \<open>What a block leaves of the context variables\<close>

text \<open>
  What is true of a state between two operations: the store is well formed, a token not yet made is
  not used, and the current holder exists.
\<close>

definition state_ok :: "rls_state \<Rightarrow> bool" where
  "state_ok s \<longleftrightarrow> heap_wf s \<and> (\<forall>n \<ge> tokens s. \<not> used s n) \<and> (\<forall>a. current_live s = Some a \<longrightarrow> a < serials s)"

text \<open>
  Code trusted inside a block: it ends in the context it started in and resets no token that it
  did not make (\<open>tokened\<close>), and ends no holder but its own (\<open>scoped\<close>).  It may change every context variable.
\<close>

definition tokened :: "rls_state \<Rightarrow> rls_state \<Rightarrow> bool" where
  "tokened s t \<longleftrightarrow> state_ok t \<and> cur t = cur s \<and> serials s \<le> serials t \<and> tokens s \<le> tokens t \<and>
     (\<forall>n < tokens s. used t n = used s n)"

definition scoped :: "rls_state \<Rightarrow> rls_state \<Rightarrow> bool" where
  "scoped s t \<longleftrightarrow> tokened s t \<and> (\<forall>a < serials s. heap t a = heap s a)"

lemma tokened_trans: "tokened s t \<Longrightarrow> tokened t u \<Longrightarrow> tokened s u"
  by (auto simp: tokened_def)

text \<open>What a block gives back: besides, every context variable has its old value.\<close>

definition balanced :: "rls_state \<Rightarrow> rls_state \<Rightarrow> bool" where
  "balanced s t \<longleftrightarrow> scoped s t \<and> cur_ctx t = cur_ctx s"

text \<open>What code in a context sees of it.\<close>

definition sees :: "tenant_id option \<Rightarrow> bool \<Rightarrow> context_gucs option \<Rightarrow> rls_state \<Rightarrow> bool" where
  "sees tenant active gucs s \<longleftrightarrow>
     get_current_tenant_id s = tenant \<and> get_rls_context_active s = active \<and> get_context_gucs s = gucs"

lemma scoped_trans: "scoped s t \<Longrightarrow> scoped t u \<Longrightarrow> scoped s u"
  by (auto simp: scoped_def tokened_def)

lemma scoped_refl: "state_ok s \<Longrightarrow> scoped s s"
  by (simp add: scoped_def tokened_def)

lemma scoped_state_ok: "scoped s t \<Longrightarrow> state_ok t"
  by (simp add: scoped_def tokened_def)

lemma balanced_sees: "state_ok s \<Longrightarrow> balanced s t \<Longrightarrow> sees tenant active gucs t = sees tenant active gucs s"
  by (auto simp: balanced_def scoped_def tokened_def sees_def get_current_tenant_id_def get_rls_context_active_def
      get_context_gucs_def values_of_def current_live_def state_ok_def split: option.splits)

text \<open>The state inside a block, spelled out.\<close>

lemma enter_rls_state_eq:
  assumes "enter_rls_state active tenant gucs s = (b, s1)"
  shows "bt_active b = \<lparr>t_id = tokens s, t_ctx = cur s, t_old = c_active (cur_ctx s)\<rparr> \<and>
    bt_tenant b = \<lparr>t_id = Suc (tokens s), t_ctx = cur s, t_old = c_tenant (cur_ctx s)\<rparr> \<and>
    bt_gucs b = \<lparr>gt_token = \<lparr>t_id = Suc (Suc (tokens s)), t_ctx = cur s, t_old = c_gucs (cur_ctx s)\<rparr>, gt_live = serials s\<rparr> \<and>
    cur s1 = cur s \<and> tokens s1 = Suc (Suc (Suc (tokens s))) \<and> used s1 = used s \<and> serials s1 = Suc (serials s) \<and>
    heap s1 = (heap s)(serials s \<mapsto> \<lparr>l_values = gucs, l_block = True, l_alive = True, l_serial = serials s\<rparr>) \<and>
    cur_ctx s1 = \<lparr>c_tenant = tenant, c_active = active, c_gucs = Some (serials s)\<rparr>"
  using assms
  by (auto simp: enter_rls_state_def set_rls_context_active_def set_current_tenant_id_def set_context_gucs_def
      new_live_def cv_set_def upd_ctx_def cur_ctx_def put_active_def put_tenant_def put_gucs_def Let_def)

lemma enter_sees: "enter_rls_state active tenant gucs s = (b, s1) \<Longrightarrow> sees tenant active gucs s1"
  by (drule enter_rls_state_eq)
    (simp add: sees_def get_current_tenant_id_def get_rls_context_active_def get_context_gucs_def
      values_of_def current_live_def)

lemma enter_state_ok: "state_ok s \<Longrightarrow> enter_rls_state active tenant gucs s = (b, s1) \<Longrightarrow> state_ok s1"
  by (drule enter_rls_state_eq) (auto simp: state_ok_def heap_wf_def current_live_def)

lemma enter_scoped: "state_ok s \<Longrightarrow> enter_rls_state active tenant gucs s = (b, s1) \<Longrightarrow> scoped s s1"
  by (frule (1) enter_state_ok, drule enter_rls_state_eq) (auto simp: scoped_def tokened_def)

lemma enter_serials: "enter_rls_state active tenant gucs s = (b, s1) \<Longrightarrow> gt_live (bt_gucs b) = serials s"
  by (drule enter_rls_state_eq) simp

lemma end_if_newer_frame [simp]:
  "cur (end_if_newer l t s) = cur s" "serials (end_if_newer l t s) = serials s"
  "tokens (end_if_newer l t s) = tokens s" "used (end_if_newer l t s) = used s"
  "cur_ctx (end_if_newer l t s) = cur_ctx s"
  by (simp_all add: end_if_newer_def split: option.split)

lemma cur_ctx_used [simp]: "cur_ctx (s\<lparr>used := u\<rparr>) = cur_ctx s"
  by (simp add: cur_ctx_def)

text \<open>
  A block entered from \<open>s\<close>, in whatever order its variables were set: the three tokens are its own and
  hold the old values, and its holder is the newest.
\<close>

definition entered_from :: "rls_state \<Rightarrow> rls_state \<Rightarrow> block_tokens \<Rightarrow> bool" where
  "entered_from s s1 b \<longleftrightarrow> state_ok s \<and> state_ok s1 \<and> cur s1 = cur s \<and> serials s1 = Suc (serials s) \<and>
     tokens s1 = tokens s + 3 \<and> used s1 = used s \<and> (\<forall>a < serials s. heap s1 a = heap s a) \<and>
     gt_live (bt_gucs b) = serials s \<and>
     gt_token (bt_gucs b) = \<lparr>t_id = tokens s + 2, t_ctx = cur s, t_old = c_gucs (cur_ctx s)\<rparr> \<and>
     (\<exists>i j. {i, j} = {tokens s, tokens s + 1} \<and>
        bt_active b = \<lparr>t_id = i, t_ctx = cur s, t_old = c_active (cur_ctx s)\<rparr> \<and>
        bt_tenant b = \<lparr>t_id = j, t_ctx = cur s, t_old = c_tenant (cur_ctx s)\<rparr>)"

lemma enter_entered_from:
  assumes "state_ok s" and "enter_rls_state active tenant gucs s = (b, s1)"
  shows "entered_from s s1 b"
proof -
  note e = enter_rls_state_eq [OF assms(2)]
  have "\<exists>i j. {i, j} = {tokens s, tokens s + 1} \<and>
        bt_active b = \<lparr>t_id = i, t_ctx = cur s, t_old = c_active (cur_ctx s)\<rparr> \<and>
        bt_tenant b = \<lparr>t_id = j, t_ctx = cur s, t_old = c_tenant (cur_ctx s)\<rparr>"
    using e by (intro exI [of _ "tokens s"] exI [of _ "Suc (tokens s)"]) simp
  then show ?thesis using e assms enter_state_ok [OF assms] unfolding entered_from_def by simp
qed

text \<open>The reset of the holder: whatever the body did, it succeeds, and ends nothing older.\<close>

lemma reset_gucs_tokened:
  assumes enter: "entered_from s s1 b" and body: "tokened s1 s2"
  shows "\<exists>s3. reset_context_gucs (bt_gucs b) s2 = (Inr (), s3) \<and> tokened s s3 \<and>
    cur_ctx s3 = (cur_ctx s2)\<lparr>c_gucs := c_gucs (cur_ctx s)\<rparr> \<and>
    (\<forall>a < serials s. heap s3 a = heap s2 a) \<and>
    \<not> used s3 (tokens s) \<and> \<not> used s3 (tokens s + 1) \<and> tokens s + 3 \<le> tokens s3"
proof -
  note e = enter [unfolded entered_from_def]
  let ?own = "serials s" and ?t = "end_live (serials s) s2" and ?n = "tokens s + 2"
  let ?v = "upd_ctx (put_gucs (c_gucs (cur_ctx s))) (?t\<lparr>used := (used ?t)(?n := True)\<rparr>)"
  let ?s3 = "end_if_newer (current_live s2) (Some ?own) ?v"
  have s: "state_ok s" using e by blast
  have unused: "\<not> used s2 n" if "tokens s \<le> n" "n \<le> ?n" for n
    using body e that s by (auto simp: tokened_def state_ok_def)
  have ok2: "state_ok s2" using body by (simp add: tokened_def)
  have run: "reset_context_gucs (bt_gucs b) s2 = (Inr (), ?s3)"
    using e body unused [of ?n] by (simp add: reset_context_gucs_def Let_def cv_reset_def tokened_def)
  have wf2: "heap_wf s2" using ok2 by (simp add: state_ok_def)
  have wfv: "heap_wf ?v"
    using wf2 heap_grows_end_live [of s2 ?own] by (simp add: heap_grows_def heap_wf_def)
  have wf3: "heap_wf ?s3" using heap_grows_end_if_newer [of ?v] wfv by (simp add: heap_grows_def)
  have old: "heap ?s3 a = heap s2 a" if a: "a < ?own" for a
  proof -
    have v: "heap ?v a = heap s2 a" using a by (simp add: heap_end_live)
    have "heap ?s3 a = heap ?v a"
    proof (cases "current_live s2")
      case None
      then show ?thesis by (simp add: end_if_newer_def)
    next
      case (Some c)
      with ok2 have "c < serials ?v" by (simp add: state_ok_def)
      moreover have "?own < serials ?v" using body e by (simp add: tokened_def)
      ultimately have "serial_of ?v c = c" "serial_of ?v ?own = ?own"
        using serial_of_address [OF wfv] by blast+
      then show ?thesis using Some a by (auto simp: end_if_newer_def heap_end_live)
    qed
    with v show ?thesis by simp
  qed
  have frame: "cur ?s3 = cur s" "serials ?s3 = serials s2" "tokens ?s3 = tokens s2"
    "used ?s3 = (used s2)(?n := True)" "cur_ctx ?s3 = (cur_ctx s2)\<lparr>c_gucs := c_gucs (cur_ctx s)\<rparr>"
    using body e by (simp_all add: put_gucs_def tokened_def)
  have "state_ok ?s3"
    using wf3 frame s ok2 body e by (auto simp: state_ok_def current_live_def tokened_def)
  then have "tokened s ?s3" using frame body e by (auto simp: tokened_def)
  moreover have "\<not> used ?s3 (tokens s)" "\<not> used ?s3 (tokens s + 1)" "tokens s + 3 \<le> tokens ?s3"
    using frame unused body e by (auto simp: tokened_def)
  ultimately show ?thesis using run frame(5) old by blast
qed

text \<open>The three resets of a block's exit all succeed, and give back the context the block was entered in.\<close>

lemma exit_tokened:
  assumes enter: "entered_from s s1 b" and body: "tokened s1 s2"
  shows "\<exists>s3 s4 s5. reset_context_gucs (bt_gucs b) s2 = (Inr (), s3) \<and>
    reset_current_tenant_id (bt_tenant b) s3 = (Inr (), s4) \<and>
    reset_rls_context_active (bt_active b) s4 = (Inr (), s5) \<and> tokened s s5 \<and> cur_ctx s5 = cur_ctx s \<and>
    (\<forall>a < serials s. heap s5 a = heap s2 a)"
proof -
  note e = enter [unfolded entered_from_def]
  obtain s3 where s3: "reset_context_gucs (bt_gucs b) s2 = (Inr (), s3)" "tokened s s3"
    "cur_ctx s3 = (cur_ctx s2)\<lparr>c_gucs := c_gucs (cur_ctx s)\<rparr>" "\<forall>a < serials s. heap s3 a = heap s2 a"
    "\<not> used s3 (tokens s)" "\<not> used s3 (tokens s + 1)" "tokens s + 3 \<le> tokens s3"
    using reset_gucs_tokened [OF enter body] by blast
  obtain i j where ij: "{i, j} = {tokens s, tokens s + 1}"
    and bt: "bt_active b = \<lparr>t_id = i, t_ctx = cur s, t_old = c_active (cur_ctx s)\<rparr>"
      "bt_tenant b = \<lparr>t_id = j, t_ctx = cur s, t_old = c_tenant (cur_ctx s)\<rparr>" using e by blast
  then have ne: "i \<noteq> j" "i \<ge> tokens s" "j \<ge> tokens s" "i < tokens s3" "j < tokens s3" "\<not> used s3 i" "\<not> used s3 j"
    using s3(5-7) by (auto simp: doubleton_eq_iff)
  let ?s4 = "upd_ctx (put_tenant (c_tenant (cur_ctx s))) (s3\<lparr>used := (used s3)(j := True)\<rparr>)"
  let ?s5 = "upd_ctx (put_active (c_active (cur_ctx s))) (?s4\<lparr>used := (used ?s4)(i := True)\<rparr>)"
  have cur: "cur s3 = cur s" using s3(2) by (simp add: tokened_def)
  have four: "reset_current_tenant_id (bt_tenant b) s3 = (Inr (), ?s4)"
    using bt ne cur by (simp add: reset_current_tenant_id_def cv_reset_def)
  have five: "reset_rls_context_active (bt_active b) ?s4 = (Inr (), ?s5)"
    using bt ne cur by (simp add: reset_rls_context_active_def cv_reset_def)
  have "cur_ctx ?s5 = cur_ctx s" using s3(3) by (simp add: put_tenant_def put_active_def)
  moreover have "tokened s ?s5"
    using s3 ne e by (auto simp: tokened_def state_ok_def heap_wf_def current_live_def put_tenant_def put_active_def)
  ultimately show ?thesis using s3(1,4) four five by (intro exI [of _ s3] exI [of _ ?s4] exI [of _ ?s5]) simp
qed

lemma exit_balanced:
  assumes "state_ok s" "enter_rls_state active tenant gucs s = (b, s1)" and body: "scoped s1 s2"
  shows "\<exists>s3 s4 s5. reset_context_gucs (bt_gucs b) s2 = (Inr (), s3) \<and>
    reset_current_tenant_id (bt_tenant b) s3 = (Inr (), s4) \<and>
    reset_rls_context_active (bt_active b) s4 = (Inr (), s5) \<and> balanced s s5"
proof -
  note enter = enter_entered_from [OF assms(1,2)]
  have "tokened s1 s2" using body by (simp add: scoped_def)
  from exit_tokened [OF enter this] obtain s3 s4 s5 where x:
    "reset_context_gucs (bt_gucs b) s2 = (Inr (), s3)" "reset_current_tenant_id (bt_tenant b) s3 = (Inr (), s4)"
    "reset_rls_context_active (bt_active b) s4 = (Inr (), s5)" "tokened s s5" "cur_ctx s5 = cur_ctx s"
    "\<forall>a < serials s. heap s5 a = heap s2 a" by blast
  have "\<forall>a < serials s. heap s2 a = heap s a" using body enter by (simp add: scoped_def entered_from_def)
  with x show ?thesis by (auto simp: balanced_def scoped_def)
qed

lemma exit_rls_state_balanced:
  assumes "state_ok s" "enter_rls_state active tenant gucs s = (b, s1)" "scoped s1 s2"
  shows "\<exists>s3. exit_rls_state b s2 = (Inr (), s3) \<and> balanced s s3"
  using exit_balanced [OF assms] by (auto simp: exit_rls_state_def py_finally_def)

definition disciplined :: "('d aff, 'a) py \<Rightarrow> bool" where
  "disciplined m \<longleftrightarrow> (\<forall>w. state_ok (a_state w) \<longrightarrow> scoped (a_state w) (a_state (snd (m w))))"

lemma disciplinedD: "disciplined m \<Longrightarrow> state_ok (a_state w) \<Longrightarrow> m w = (r, w') \<Longrightarrow> scoped (a_state w) (a_state w')"
  unfolding disciplined_def by (metis snd_conv)

lemma disciplined_quiet: "quiet m \<Longrightarrow> disciplined m"
  by (simp add: disciplined_def quiet_def scoped_refl)

lemma disciplined_bind: "disciplined m \<Longrightarrow> (\<And>x. disciplined (f x)) \<Longrightarrow> disciplined (py_bind m f)"
  unfolding disciplined_def py_bind_def
  by (auto split: prod.splits sum.splits) (metis scoped_trans scoped_state_ok snd_conv)+

lemma on_state_run: "m (a_state w) = (r, s) \<Longrightarrow> on_state m w = (r, w\<lparr>a_state := s\<rparr>)"
  by (simp add: on_state_def)

lemma log_context_frame [simp]:
  "a_state (log_context st ev o' t u w) = a_state w" "a_db (log_context st ev o' t u w) = a_db w"
  by (simp_all add: log_context_def)

lemma leave_block_balanced:
  assumes s: "state_ok s" "enter_rls_state active tenant gucs s = (b, s1)" "scoped s1 (a_state w)"
    and restore: "\<And>exc. quiet (restore exc)" and exited: "\<And>w. a_state (exited w) = a_state w"
  shows "balanced s (a_state (snd (leave_block st b restore exited entered r w)))"
proof -
  obtain s3 where s3: "exit_rls_state b (a_state w) = (Inr (), s3)" "balanced s s3"
    using exit_rls_state_balanced [OF s] by blast
  let ?w3 = "w\<lparr>a_state := s3\<rparr>"
  have left: "py_finally (\<lambda>w. (r, w)) (\<lambda>_. on_state (exit_rls_state b)) w = (r, ?w3)"
    using s3 by (simp add: py_finally_def on_state_run)
  obtain q w4 where q: "restore (isl r) ?w3 = (q, w4)" by (cases "restore (isl r) ?w3")
  then have "a_state w4 = s3" using quietD [OF restore q] by simp
  then have "a_state (snd (leave_block st b restore exited entered r w)) = s3"
    using q left exited
    by (auto simp: leave_block_def py_finally_def py_modify_def py_ret_def split: sum.splits prod.splits)
  with s3 show ?thesis by simp
qed

lemma run_block_balanced:
  assumes body: "disciplined body" and s: "state_ok (a_state w)"
    and written: "quiet write" and restore: "\<And>exc. quiet (restore exc)"
  shows "balanced (a_state w) (a_state (snd (run_block st tenant gucs write restore u o' body w)))"
proof -
  obtain b s1 where b: "enter_rls_state True tenant (Some gucs) (a_state w) = (b, s1)"
    by (cases "enter_rls_state True tenant (Some gucs) (a_state w)")
  obtain q w1 where q: "write (w\<lparr>a_state := s1\<rparr>) = (q, w1)" by (cases "write (w\<lparr>a_state := s1\<rparr>)")
  let ?e = "log_context st ''context.entered'' o' tenant u w1"
  have w1: "a_state w1 = s1" using quietD [OF written q] by simp
  have ok1: "state_ok s1" using enter_state_ok [OF s b] .
  obtain r w2 where r: "body ?e = (r, w2)" by (cases "body ?e")
  then have "scoped s1 (a_state w2)" using disciplinedD [OF body _ r] w1 ok1 by simp
  moreover have "scoped s1 (a_state w1)" using w1 ok1 by (simp add: scoped_refl)
  ultimately show ?thesis
    using b q r by (auto simp: run_block_def Let_def split: sum.splits
        intro!: leave_block_balanced [OF s b] restore)
qed

lemma run_block_cong:
  assumes "\<And>w1. write (w\<lparr>a_state := snd (enter_rls_state True tenant (Some gucs) (a_state w))\<rparr>) = (Inr (), w1) \<Longrightarrow>
    body (log_context st ''context.entered'' o' tenant u w1) = body' (log_context st ''context.entered'' o' tenant u w1)"
  shows "run_block st tenant gucs write restore u o' body w = run_block st tenant gucs write restore u o' body' w"
proof -
  obtain b s1 where b: "enter_rls_state True tenant (Some gucs) (a_state w) = (b, s1)"
    by (cases "enter_rls_state True tenant (Some gucs) (a_state w)")
  obtain q w1 where q: "write (w\<lparr>a_state := s1\<rparr>) = (q, w1)" by (cases "write (w\<lparr>a_state := s1\<rparr>)")
  show ?thesis
  proof (cases q)
    case (Inl e)
    then show ?thesis using b q by (simp add: run_block_def Let_def)
  next
    case (Inr x)
    then have "body (log_context st ''context.entered'' o' tenant u w1) =
        body' (log_context st ''context.entered'' o' tenant u w1)"
      using assms [of w1] b q by simp
    then show ?thesis using b q Inr by (simp add: run_block_def Let_def)
  qed
qed

lemma run_block_sees:
  assumes "\<And>w1. state_ok (a_state w1) \<Longrightarrow> sees tenant True (Some gucs) (a_state w1) \<Longrightarrow> body w1 = body' w1"
    and s: "state_ok (a_state w)" and written: "quiet write"
  shows "run_block st tenant gucs write restore u o' body w = run_block st tenant gucs write restore u o' body' w"
proof (rule run_block_cong)
  fix w1
  obtain b s1 where b: "enter_rls_state True tenant (Some gucs) (a_state w) = (b, s1)"
    by (cases "enter_rls_state True tenant (Some gucs) (a_state w)")
  assume "write (w\<lparr>a_state := snd (enter_rls_state True tenant (Some gucs) (a_state w))\<rparr>) = (Inr (), w1)"
  then have "a_state w1 = s1" using quietD [OF written] b by fastforce
  then show "body (log_context st ''context.entered'' o' tenant u w1) = body' (log_context st ''context.entered'' o' tenant u w1)"
    using enter_sees [OF b] enter_state_ok [OF s b] assms(1) by simp
qed

lemma quiet_bind_cong:
  assumes "quiet m" and "state_ok (a_state w)" and "\<And>x w'. state_ok (a_state w') \<Longrightarrow> f x w' = g x w'"
  shows "py_bind m f w = py_bind m g w"
proof (rule py_bind_cong)
  fix x w'
  assume "m w = (Inr x, w')"
  with assms show "f x w' = g x w'" using quietD [OF assms(1)] by fastforce
qed

lemma balanced_after_quiet:
  assumes "quiet m" and "\<And>x w'. a_state w' = a_state w \<Longrightarrow> balanced (a_state w') (a_state (snd (f x w')))"
    and "state_ok (a_state w)"
  shows "balanced (a_state w) (a_state (snd (py_bind m f w)))"
proof -
  obtain r w' where r: "m w = (r, w')" by (cases "m w")
  then have "a_state w' = a_state w" using quietD [OF assms(1) r] by simp
  moreover have "balanced (a_state w) (a_state w)" using assms(3) by (simp add: balanced_def scoped_refl)
  ultimately show ?thesis using r assms(2) by (cases r) (auto simp: py_bind_def)
qed

text \<open>The writes of the two synchronous blocks leave the context variables alone.\<close>

lemma quiet_block_write:
  assumes "site_ok st" and "\<And>l. quiet (write l)"
  shows "quiet (if b then write_values st u v l (write l) else py_ret ())"
  using assms by (intro quiet_intros)

lemma context_block_balanced:
  assumes ok: "site_ok st" and written: "\<And>l. quiet (write l)" and body: "disciplined body" and s: "state_ok (a_state w)"
  shows "balanced (a_state w) (a_state (snd (context_block st tenant gucs write u o' body w)))"
proof -
  have snap: "quiet (if b then py_bind (snapshot_gucs st u) (\<lambda>p. py_ret (Some p)) else py_ret None)" for b
    using ok by (intro quiet_intros)
  show ?thesis unfolding context_block_def Let_def
    by (intro balanced_after_quiet snap s quiet_site(4) [OF ok] quiet_basic(4) run_block_balanced body
        quiet_block_write [OF ok written] quiet_restore_tenant [OF ok]) (simp_all add: s)
qed

lemma context_block_sees:
  assumes ok: "site_ok st" and written: "\<And>l. quiet (write l)"
    and s: "state_ok (a_state w)"
    and body: "\<And>w1. state_ok (a_state w1) \<Longrightarrow> sees tenant True (Some gucs) (a_state w1) \<Longrightarrow> body w1 = body' w1"
  shows "context_block st tenant gucs write u o' body w = context_block st tenant gucs write u o' body' w"
proof -
  have snap: "quiet (if b then py_bind (snapshot_gucs st u) (\<lambda>p. py_ret (Some p)) else py_ret None)" for b
    using ok by (intro quiet_intros)
  show ?thesis unfolding context_block_def Let_def
    by (intro quiet_bind_cong snap s quiet_site(4) [OF ok] quiet_basic(4) run_block_sees body
        quiet_block_write [OF ok written]) assumption+
qed

lemma quiet_enter_hop:
  "site_ok st \<Longrightarrow> quiet (run_enter_hop (enter_tenant_gucs st vs l u)
      (\<lambda>(previous, _). restore_tenant_gucs st previous l u True enc None) cancelled)"
  unfolding run_enter_hop_def case_prod_unfold by (intro quiet_intros)

lemma async_context_block_balanced:
  assumes ok: "site_ok st" and body: "disciplined body" and s: "state_ok (a_state w)"
  shows "balanced (a_state w) (a_state (snd (async_context_block st tenant gucs u cancelled o' body w)))"
proof -
  show ?thesis unfolding async_context_block_def Let_def case_prod_unfold
    by (intro balanced_after_quiet quiet_enter_hop [unfolded case_prod_unfold] ok s quiet_basic run_block_balanced body
        quiet_restore_tenant [OF ok]) (simp_all add: s)
qed

lemma async_context_block_sees:
  assumes ok: "site_ok st" and s: "state_ok (a_state w)"
    and body: "\<And>w1. state_ok (a_state w1) \<Longrightarrow> sees tenant True (Some gucs) (a_state w1) \<Longrightarrow> body w1 = body' w1"
  shows "async_context_block st tenant gucs u cancelled o' body w =
         async_context_block st tenant gucs u cancelled o' body' w"
  unfolding async_context_block_def Let_def case_prod_unfold
  by (intro quiet_bind_cong quiet_enter_hop [unfolded case_prod_unfold] ok s run_block_sees body quiet_basic) assumption+

lemma no_rls_state_balanced:
  assumes body: "disciplined body" and s: "state_ok (a_state w)" and settling: "quiet settling"
  shows "balanced (a_state w) (a_state (snd (no_rls_state settling body w)))"
proof -
  obtain b s1 where b: "enter_rls_state False None None (a_state w) = (b, s1)"
    by (cases "enter_rls_state False None None (a_state w)")
  obtain r w2 where r: "body (w\<lparr>a_state := s1\<rparr>) = (r, w2)" by (cases "body (w\<lparr>a_state := s1\<rparr>)")
  have "scoped s1 (a_state w2)" using disciplinedD [OF body _ r] enter_state_ok [OF s b] by simp
  from exit_balanced [OF s b this] obtain s3 s4 s5 where
    t: "reset_context_gucs (bt_gucs b) (a_state w2) = (Inr (), s3)"
    "reset_current_tenant_id (bt_tenant b) s3 = (Inr (), s4)"
    "reset_rls_context_active (bt_active b) s4 = (Inr (), s5)" "balanced (a_state w) s5"
    by blast
  obtain q w6 where q: "settling (w2\<lparr>a_state := s5\<rparr>) = (q, w6)" by (cases "settling (w2\<lparr>a_state := s5\<rparr>)")
  then have "a_state w6 = s5" using quietD [OF settling q] by simp
  then show ?thesis using b r t q
    by (auto simp: no_rls_state_def py_finally_def on_state_def split: sum.splits)
qed

lemma no_rls_state_sees:
  assumes "\<And>w1. state_ok (a_state w1) \<Longrightarrow> sees None False None (a_state w1) \<Longrightarrow> body w1 = body' w1"
    and s: "state_ok (a_state w)"
  shows "no_rls_state settling body w = no_rls_state settling body' w"
proof -
  obtain b s1 where b: "enter_rls_state False None None (a_state w) = (b, s1)"
    by (cases "enter_rls_state False None None (a_state w)")
  have "body (w\<lparr>a_state := s1\<rparr>) = body' (w\<lparr>a_state := s1\<rparr>)"
    using assms enter_sees [OF b] enter_state_ok [OF s b] by simp
  then show ?thesis using b by (simp add: no_rls_state_def py_finally_def)
qed

subsection \<open>The contract of the context managers\<close>

text \<open>
  What code in and around a block relies on: its body runs with the block's context variables, and
  however it ends, the enclosing block's are back.
\<close>

locale context_manager =
  fixes valid :: "'d site \<Rightarrow> bool"
    and cm :: "'d site \<Rightarrow> ('d aff, 'a) py \<Rightarrow> ('d aff, 'a) py"
    and tenant :: "tenant_id option" and active :: bool and gucs :: "context_gucs option"
  assumes restores: "valid st \<Longrightarrow> disciplined body \<Longrightarrow> state_ok (a_state w) \<Longrightarrow>
      balanced (a_state w) (a_state (snd (cm st body w)))"
    and runs_inside: "valid st \<Longrightarrow> state_ok (a_state w) \<Longrightarrow>
      (\<And>w1. state_ok (a_state w1) \<Longrightarrow> sees tenant active gucs (a_state w1) \<Longrightarrow> body w1 = body' w1) \<Longrightarrow>
      cm st body w = cm st body' w"
begin

text \<open>A block is itself trusted code, so blocks nest.\<close>

lemma nests: "valid st \<Longrightarrow> disciplined body \<Longrightarrow> disciplined (cm st body)"
  using restores by (simp add: disciplined_def balanced_def)

text \<open>The code after a block runs in the context of the code before it.\<close>

lemma afterwards:
  assumes "valid st" "disciplined body" "state_ok (a_state w)" and "sees t act g (a_state w)"
    and after: "\<And>x w1. state_ok (a_state w1) \<Longrightarrow> sees t act g (a_state w1) \<Longrightarrow> f x w1 = f' x w1"
  shows "py_bind (cm st body) f w = py_bind (cm st body) f' w"
proof (rule py_bind_cong)
  fix x w1
  assume "cm st body w = (Inr x, w1)"
  then have b: "balanced (a_state w) (a_state w1)" using restores [OF assms(1-3)] by simp
  then have "state_ok (a_state w1)" by (simp add: balanced_def scoped_def tokened_def)
  then show "f x w1 = f' x w1" using after balanced_sees [OF assms(3) b] assms(4) by simp
qed

end

lemma refused_balanced: "state_ok (a_state w) \<Longrightarrow> balanced (a_state w) (a_state (snd (refuse_tenant_id_none st o' w)))"
  by (simp add: refuse_tenant_id_none_def balanced_def scoped_refl split: option.split)

lemma balanced_refl: "state_ok s \<Longrightarrow> balanced s s"
  by (simp add: balanced_def scoped_refl)

lemma tenant_context_balanced:
  assumes "site_ok st" "disciplined body" "state_ok (a_state w)"
  shows "balanced (a_state w) (a_state (snd (tenant_context st tenant u o' body w)))"
    and "balanced (a_state w) (a_state (snd (async_tenant_context st tenant u cancelled o' body w)))"
  using assms by (cases tenant; auto simp: tenant_context_def async_tenant_context_def Let_def refused_balanced
      site_ok_def intro!: context_block_balanced async_context_block_balanced quiet_intros)+

lemma tenant_context_sees:
  assumes "site_ok st" "state_ok (a_state w)"
    and "\<And>w1. state_ok (a_state w1) \<Longrightarrow> sees tenant True (map_option gucs_for_tenant tenant) (a_state w1) \<Longrightarrow>
      body w1 = body' w1"
  shows "tenant_context st tenant u o' body w = tenant_context st tenant u o' body' w"
    and "async_tenant_context st tenant u cancelled o' body w = async_tenant_context st tenant u cancelled o' body' w"
  using assms by (cases tenant; auto simp: tenant_context_def async_tenant_context_def Let_def
      site_ok_def refuse_tenant_id_none_def intro!: context_block_sees async_context_block_sees quiet_intros)+

interpretation tenant_cm: context_manager site_ok "\<lambda>st. tenant_context st tenant u o'" tenant True
  "map_option gucs_for_tenant tenant" for tenant u o'
  by unfold_locales (auto intro: tenant_context_balanced tenant_context_sees)

interpretation admin_cm: context_manager site_ok "\<lambda>st. admin_context st u o'" None True "Some admin_gucs" for u o'
  unfolding admin_context_def
  by unfold_locales (auto simp: site_ok_def intro!: context_block_balanced context_block_sees quiet_intros)

interpretation no_cm: context_manager site_ok "\<lambda>st. no_rls_state (settle_after_no_context st)" None False None
  by unfold_locales (auto intro!: no_rls_state_balanced no_rls_state_sees quiet_intros)

interpretation async_tenant_cm: context_manager site_ok "\<lambda>st. async_tenant_context st tenant u cancelled o'" tenant True
  "map_option gucs_for_tenant tenant" for tenant u cancelled o'
  by unfold_locales (auto intro: tenant_context_balanced tenant_context_sees)

interpretation async_admin_cm: context_manager site_ok "\<lambda>st. async_admin_context st u cancelled o'" None True
  "Some admin_gucs" for u cancelled o'
  unfolding async_admin_context_def
  by unfold_locales (auto intro!: async_context_block_balanced async_context_block_sees)

subsection \<open>What the blocks promise\<close>

text \<open>
  C3. A context block gives back the context it was entered in: whatever its body does to the
  context variables, whether it returns or raises, and whether the entry, the restore of the
  session's values or the settling of the other connections fails, the tenant, the flag and the
  GUC values of the current context are those from before it, for the four context managers
  and for the block without a context.
\<close>

theorem context_blocks_restore:
  assumes ok: "site_ok st" and body: "disciplined body" and s: "state_ok (a_state w)"
  shows "balanced (a_state w) (a_state (snd (tenant_context st tenant u o' body w))) \<and>
         balanced (a_state w) (a_state (snd (admin_context st u o' body w))) \<and>
         balanced (a_state w) (a_state (snd (async_tenant_context st tenant u cancelled o' body w))) \<and>
         balanced (a_state w) (a_state (snd (async_admin_context st u cancelled o' body w))) \<and>
         balanced (a_state w) (a_state (snd (no_rls_state (settle_after_no_context st) body w)))"
  by (intro conjI tenant_cm.restores admin_cm.restores async_tenant_cm.restores async_admin_cm.restores
      no_cm.restores assms)


text \<open>
  With \<^verbatim>\<open>USE_LOCAL_SET\<close>, entering \<^verbatim>\<open>tenant_context(t)\<close> on a configured alias sends nothing to
  the database: the body runs on the database as it was, with the context variables of \<open>t\<close>.
\<close>

theorem local_block_enters_silently:
  assumes "use_local_set (st_cfg st)" "u \<in> set (databases (st_cfg st))" "db_known (st_cursor st) u w"
    and body: "\<And>w1. a_db w1 = a_db w \<Longrightarrow> sees (Some t) True (Some (gucs_for_tenant t)) (a_state w1) \<Longrightarrow>
      body w1 = body' w1"
  shows "tenant_context st (Some t) u o' body w = tenant_context st (Some t) u o' body' w"
proof -
  obtain b s1 where b: "enter_rls_state True (Some t) (Some (gucs_for_tenant t)) (a_state w) = (b, s1)"
    by (cases "enter_rls_state True (Some t) (Some (gucs_for_tenant t)) (a_state w)")
  have "run_block st (Some t) (gucs_for_tenant t) (py_ret ()) restore u o' body w =
      run_block st (Some t) (gucs_for_tenant t) (py_ret ()) restore u o' body' w" for restore
    by (rule run_block_cong) (use enter_sees [OF b] b body in \<open>auto simp: py_ret_def\<close>)
  with assms(1-3) show ?thesis
    by (simp add: tenant_context_def context_block_def writes_gucs_def session_of_def connections_get_def
        py_seq_def py_bind_def py_simps Let_def)
qed

subsection \<open>The audit log of a block\<close>

definition logs :: "audit_record list \<Rightarrow> ('d aff, 'a) py \<Rightarrow> bool" where
  "logs l m \<longleftrightarrow> (\<forall>w. a_audit (snd (m w)) = a_audit w @ l)"

lemma context_event_append: "context_event en ev o' t u l = l @ context_event en ev o' t u []"
  by (simp add: context_event_def emit_def Let_def split: option.split)

lemma leave_block_audit:
  assumes restore: "\<And>exc. quiet (restore exc)"
  shows "a_audit (snd (leave_block st b restore (log_context st ev o' t u) entered r w)) =
         (if entered then context_event (st_audits st) ev o' t u (a_audit w) else a_audit w)"
proof -
  obtain q w1 where q: "py_finally (\<lambda>w. (r, w)) (\<lambda>_. on_state (exit_rls_state b)) w = (q, w1)"
    by (cases "py_finally (\<lambda>w. (r, w)) (\<lambda>_. on_state (exit_rls_state b)) w")
  then have w1: "a_audit w1 = a_audit w" by (auto simp: py_finally_def on_state_def split: prod.splits sum.splits)
  obtain x w2 where x: "restore (isl q) w1 = (x, w2)" by (cases "restore (isl q) w1")
  then have "a_audit w2 = a_audit w" using quietD [OF restore x] w1 by simp
  then show ?thesis using q x
    by (auto simp: leave_block_def py_finally_def py_modify_def py_ret_def log_context_def
        split: prod.splits sum.splits)
qed

definition audited :: "'d site \<Rightarrow> origin \<Rightarrow> tenant_id option \<Rightarrow> string \<Rightarrow> audit_record list \<Rightarrow> 'd aff \<Rightarrow> 'd aff \<Rightarrow> bool" where
  "audited st o' t u l w w' \<longleftrightarrow>
     a_audit w' = a_audit w \<or>
     a_audit w' = a_audit w @ context_event (st_audits st) ''context.entered'' o' t u [] @ l @
       context_event (st_audits st) ''context.exited'' o' t u []"

lemma run_block_audited:
  assumes written: "quiet write" and restore: "\<And>exc. quiet (restore exc)" and body: "logs l body"
  shows "audited st o' t u l w (snd (run_block st t gucs write restore u o' body w))"
proof -
  obtain b s1 where b: "enter_rls_state True t (Some gucs) (a_state w) = (b, s1)"
    by (cases "enter_rls_state True t (Some gucs) (a_state w)")
  obtain q w1 where q: "write (w\<lparr>a_state := s1\<rparr>) = (q, w1)" by (cases "write (w\<lparr>a_state := s1\<rparr>)")
  then have w1: "a_audit w1 = a_audit w" using quietD [OF written q] by simp
  let ?e = "log_context st ''context.entered'' o' t u w1"
  obtain r w2 where r: "body ?e = (r, w2)" by (cases "body ?e")
  then have w2: "a_audit w2 = context_event (st_audits st) ''context.entered'' o' t u (a_audit w) @ l"
    using body [unfolded logs_def, THEN spec, of ?e] w1 by (simp add: log_context_def)
  show ?thesis
    using b q r w1 w2
      context_event_append [of "st_audits st" "''context.entered''" o' t u "a_audit w"]
      context_event_append [of "st_audits st" "''context.exited''" o' t u "a_audit w2"]
    by (auto simp: run_block_def Let_def audited_def leave_block_audit [where restore = restore, OF restore]
        split: sum.split)
qed

lemma audited_after_quiet:
  assumes "quiet m" and "\<And>x w'. audited st o' t u l w' (snd (f x w'))"
  shows "audited st o' t u l w (snd (py_bind m f w))"
proof -
  obtain r w' where r: "m w = (r, w')" by (cases "m w")
  then show ?thesis using quietD [OF assms(1) r] assms(2) [of w']
    by (cases r) (auto simp: py_bind_def audited_def)
qed

lemma context_block_audited:
  assumes ok: "site_ok st" and written: "\<And>l. quiet (write l)" and body: "logs l body"
  shows "audited st o' t u l w (snd (context_block st t gucs write u o' body w))"
proof -
  have snap: "quiet (if b then py_bind (snapshot_gucs st u) (\<lambda>p. py_ret (Some p)) else py_ret None)" for b
    using ok by (intro quiet_intros)
  show ?thesis unfolding context_block_def Let_def
    by (intro audited_after_quiet snap quiet_site(4) [OF ok] quiet_basic(4) run_block_audited body
        quiet_block_write [OF ok written] quiet_restore_tenant [OF ok])
qed

lemma async_context_block_audited:
  assumes ok: "site_ok st" and body: "logs l body"
  shows "audited st o' t u l w (snd (async_context_block st t gucs u cancelled o' body w))"
  unfolding async_context_block_def Let_def case_prod_unfold
  by (intro audited_after_quiet quiet_enter_hop [unfolded case_prod_unfold] ok quiet_basic run_block_audited body
      quiet_restore_tenant [OF ok])

text \<open>
  The audit log pairs every entry with its exit: a block adds nothing to the log when it could
  not be entered, and otherwise its \<^verbatim>\<open>context.entered\<close> record, what its body logged and its
  \<^verbatim>\<open>context.exited\<close> record, in this order, however the body and the restore ended.
\<close>

theorem context_blocks_audited:
  assumes ok: "site_ok st" and body: "logs l body"
  shows "audited st o' (Some t) u l w (snd (tenant_context st (Some t) u o' body w)) \<and>
         audited st o' None u l w (snd (admin_context st u o' body w)) \<and>
         audited st o' (Some t) u l w (snd (async_tenant_context st (Some t) u cancelled o' body w)) \<and>
         audited st o' None u l w (snd (async_admin_context st u cancelled o' body w))"
proof -
  have db: "cursor_quiet (st_cursor st)" using ok by (simp add: site_ok_def)
  show ?thesis
    unfolding tenant_context_def admin_context_def async_tenant_context_def async_admin_context_def Let_def option.case
    using db by (intro conjI context_block_audited [OF ok _ body] async_context_block_audited [OF ok body] quiet_intros)
qed

subsection \<open>The decorator\<close>

text \<open>The context a call with this user argument must run in; \<open>None\<close>: it must not run.\<close>

definition call_context :: "tenant_user option \<Rightarrow> rls_state \<Rightarrow> bool" where
  "call_context as_user s \<longleftrightarrow>
     (case as_user of
        None \<Rightarrow> sees None False None s
      | Some user \<Rightarrow>
          if u_is_admin user then sees None True (Some admin_gucs) s
          else (case u_tenant user of None \<Rightarrow> False | Some t \<Rightarrow> sees (Some t) True (Some (gucs_for_tenant t)) s))"

lemma tenant_id_state:
  assumes "decorated_call_tenant_id st user w = (Inr t, w1)"
  shows "w1 = w \<and> (if u_is_admin user then t = None else t = u_tenant user \<and> t \<noteq> None)"
  using assms by (cases "u_tenant user")
    (auto simp: decorated_call_tenant_id_def py_seq_def py_bind_def py_simps dest: sym [of "Some _"] split: if_splits)

text \<open>
  C18. A function decorated with \<^verbatim>\<open>@with_rls_context\<close> runs only in the context of its user
  argument, synchronous or not: with the user's tenant for a plain user, as admin for an admin,
  with no context for a \<^verbatim>\<open>None\<close> user, whatever context encloses the call, and not at all for a
  plain user without a tenant.  What the function would do anywhere else does not matter.
\<close>

theorem decorated_call_runs_in_context:
  assumes ok: "site_ok st" and s: "state_ok (a_state w)"
    and fn: "\<And>w1. call_context as_user (a_state w1) \<Longrightarrow> fn w1 = fn' w1"
  shows "sync_wrapper st as_user fn w = sync_wrapper st as_user fn' w \<and>
         async_wrapper st cancelled as_user fn w = async_wrapper st cancelled as_user fn' w"
proof (cases as_user)
  case None
  then have agree: "sees None False None (a_state w1) \<Longrightarrow> fn w1 = fn' w1" for w1
    using fn by (simp add: call_context_def)
  have a: "no_rls_state (settle_after_no_context st) (py_bind fn reject_coroutine) w =
      no_rls_state (settle_after_no_context st) (py_bind fn' reject_coroutine) w"
    by (rule no_cm.runs_inside [OF ok s]) (simp add: py_bind_def agree)
  have "no_rls_state (py_ret ()) fn w = no_rls_state (py_ret ()) fn' w"
    by (rule no_rls_state_sees [OF _ s]) (rule agree)
  with a None show ?thesis by (simp add: sync_wrapper_def async_wrapper_def Let_def py_finally_def)
next
  case (Some user)
  have agree: "fn w1 = fn' w1" if "decorated_call_tenant_id st user w = (Inr t, w)"
    "sees t True (Some (case t of None \<Rightarrow> admin_gucs | Some i \<Rightarrow> gucs_for_tenant i)) (a_state w1)" for t w1
    using that tenant_id_state [OF that(1)] fn Some
    by (cases t) (auto simp: call_context_def split: if_splits)
  have sync: "(if t = None then admin_context st ''default'' p else tenant_context st t ''default'' p) (py_bind fn reject_coroutine) w =
      (if t = None then admin_context st ''default'' p else tenant_context st t ''default'' p) (py_bind fn' reject_coroutine) w"
    if t: "decorated_call_tenant_id st user w = (Inr t, w)" for t p
    using agree [OF t] by (cases t)
      (auto intro!: admin_cm.runs_inside [OF ok s] tenant_cm.runs_inside [OF ok s] simp: py_bind_def)
  have async: "(if t = None then async_admin_context st ''default'' cancelled p else async_tenant_context st t ''default'' cancelled p) fn w =
      (if t = None then async_admin_context st ''default'' cancelled p else async_tenant_context st t ''default'' cancelled p) fn' w"
    if t: "decorated_call_tenant_id st user w = (Inr t, w)" for t p
    using agree [OF t] by (cases t)
      (auto intro!: async_admin_cm.runs_inside [OF ok s] async_tenant_cm.runs_inside [OF ok s])
  show ?thesis using Some unfolding sync_wrapper_def async_wrapper_def attributed_def Let_def
    by (auto intro!: py_bind_cong sync async dest: tenant_id_state)
qed

subsection \<open>The user argument of a call\<close>

lemma bind_positional_ordinary:
  "list_all (\<lambda>p. pa_kind p = PosOrKw) sig \<Longrightarrow> length args \<le> length sig \<Longrightarrow>
     bind_positional sig args = Inr (zip (take (length args) (map pa_name sig)) args, drop (length args) sig)"
  by (induction sig args rule: bind_positional.induct) simp_all

text \<open>
  The user argument is found however it is passed: for a function of ordinary parameters, by
  position, by keyword, or by its default; \<open>None\<close> when it is none of these.
\<close>

theorem user_argument_found:
  assumes kinds: "list_all (\<lambda>p. pa_kind p = PosOrKw) sig" and names: "distinct (map pa_name sig)"
    and i: "i < length sig" and args: "length args \<le> length sig"
    and kwargs: "list_all (\<lambda>(n, _). n \<in> set (map pa_name (drop (length args) sig))) kwargs"
  shows "get_arg_from_signature sig (pa_name (sig ! i)) args kwargs =
    Inr (if i < length args then args ! i
         else case map_of kwargs (pa_name (sig ! i)) of
                Some v \<Rightarrow> v
              | None \<Rightarrow> (case pa_default (sig ! i) of None \<Rightarrow> None | Some dflt \<Rightarrow> dflt))"
proof -
  let ?n = "length args" and ?names = "map pa_name sig"
  have pos: "bind_positional sig args = Inr (zip (take ?n ?names) args, drop ?n sig)"
    using kinds args by (rule bind_positional_ordinary)
  have keys: "fst ` set (zip (take ?n ?names) args) = set (take ?n ?names)"
    using args by (simp add: set_map [symmetric] del: set_map)
  have disjoint: "set (take ?n ?names) \<inter> set (drop ?n ?names) = {}"
    using names by (simp add: set_take_disj_set_drop_if_distinct)
  have left: "map pa_name (filter (\<lambda>p. pa_kind p \<in> {PosOrKw, KwOnly}) (drop ?n sig)) = drop ?n ?names"
  proof -
    have "filter (\<lambda>p. pa_kind p \<in> {PosOrKw, KwOnly}) (drop ?n sig) = drop ?n sig"
      using kinds by (auto simp: list_all_iff filter_id_conv dest: in_set_dropD)
    then show ?thesis by (simp only: drop_map)
  qed
  have ok: "list_all (\<lambda>(n, _). n \<notin> set (map pa_name (filter (\<lambda>p. pa_kind p = PosOrKw \<and> pa_name p \<in> set (take ?n ?names)) sig)) \<and>
      (n \<in> set (drop ?n ?names) \<or> v)) kwargs" for v
    using kwargs disjoint by (fastforce simp: list_all_iff drop_map)
  have all: "filter (\<lambda>(n, _). n \<in> set (drop ?n ?names)) kwargs = kwargs"
    using kwargs by (simp add: filter_id_conv list_all_iff drop_map)
  have bound: "bind_partial sig args kwargs = Inr (zip (take ?n ?names) args @ kwargs)"
    unfolding bind_partial_def pos ck_bind_simps prod.case Let_def left keys
    using ok all by simp
  have dflt: "map_of (map (\<lambda>p. (pa_name p, pa_default p)) sig) (pa_name (sig ! i)) = Some (pa_default (sig ! i))"
    using names i by (simp add: map_of_eq_Some_iff comp_def)
  show ?thesis
  proof (cases "i < ?n")
    case True
    then have "map_of (zip (take ?n ?names) args) (take ?n ?names ! i) = Some (args ! i)"
      using names args by (intro map_of_zip_nth) simp_all
    then show ?thesis using True i bound args
      by (simp add: get_arg_from_signature_def map_add_Some_iff)
  next
    case False
    then have "pa_name (sig ! i) \<in> set (drop ?n ?names)"
      using i by (auto simp: in_set_conv_nth intro!: exI [of _ "i - ?n"])
    then have "map_of (zip (take ?n ?names) args) (pa_name (sig ! i)) = None"
      using disjoint keys by (auto simp: map_of_eq_None_iff)
    then show ?thesis using False bound dflt
      by (auto simp: get_arg_from_signature_def map_add_def split: option.splits)
  qed
qed

subsection \<open>One concrete site\<close>

definition demo_cursor :: "demo_pg_state aff db" where
  "demo_cursor = \<lparr>db_known = (\<lambda>u _. u = ''default''), db_in_atomic = (\<lambda>_ w. dp_open (a_db w)),
     db_needs_rollback = (\<lambda>_ _. False), db_put_needs_rollback = (\<lambda>_ _ w. w),
     db_execute = (\<lambda>_ sql ps. py_bind (on_db (dr_execute demo_driver 0 True sql ps)) (\<lambda>_. py_ret None))\<rparr>"

definition demo_site :: "bool \<Rightarrow> demo_pg_state site" where
  "demo_site local = \<lparr>st_driver = demo_driver, st_cfg = demo_cfg local, st_created = (\<lambda>_. py_ret ()),
     st_cursor = demo_cursor, st_audits = (\<lambda>_. True)\<rparr>"

lemma demo_site_ok: "site_ok (demo_site l)"
  unfolding site_ok_def demo_site_def cursor_quiet_def demo_cursor_def
  by (auto intro!: quiet_intros quiet_modify)

lemma demo_state_ok: "state_ok (a_state demo_world)"
proof -
  have "cv_reachable (snd demo_outer)"
    unfolding demo_outer_def by (rule cv_reachable.step [OF cv_reachable.start cv_step.enter])
  then show ?thesis
    by (simp add: state_ok_def reachable_heap_wf demo_world_def) (simp add: demo_defs current_live_def)
qed

text \<open>A body that enters a block of its own and fails in it.\<close>

definition demo_body :: "(demo_pg_state aff, unit) py" where
  "demo_body = tenant_context (demo_site False) (Some (TInt 2)) ''default'' direct_origin (py_raise DatabaseError)"

lemma demo_body_disciplined: "disciplined demo_body"
  unfolding demo_body_def by (rule tenant_cm.nests [OF demo_site_ok]) (simp add: disciplined_quiet quiet_intros)

lemma context_blocks_restore_witness:
  "balanced (a_state demo_world)
     (a_state (snd (admin_context (demo_site True) ''default'' direct_origin demo_body demo_world)))"
  using context_blocks_restore [OF demo_site_ok demo_body_disciplined demo_state_ok] by blast


lemma local_block_enters_silently_witness:
  "tenant_context (demo_site True) (Some (TInt 3)) ''default'' direct_origin (py_get a_db) demo_world =
   tenant_context (demo_site True) (Some (TInt 3)) ''default'' direct_origin (py_ret (a_db demo_world)) demo_world"
  by (rule local_block_enters_silently) (simp_all add: demo_site_def demo_cfg_def demo_cursor_def py_simps)

lemma context_blocks_audited_witness:
  "audited (demo_site True) direct_origin None ''default'' [] demo_world
     (snd (admin_context (demo_site True) ''default'' direct_origin (py_raise DatabaseError :: (demo_pg_state aff, unit) py) demo_world))"
proof -
  have "logs [] (py_raise DatabaseError :: (demo_pg_state aff, unit) py)" by (simp add: logs_def py_raise_def)
  from context_blocks_audited [OF demo_site_ok this] show ?thesis by blast
qed

text \<open>A call without a user, inside \<^verbatim>\<open>tenant_context(1)\<close>.\<close>

lemma decorated_call_runs_in_context_witness:
  "sync_wrapper (demo_site True) None (py_get (\<lambda>w. Returned (get_current_tenant_id (a_state w)))) demo_world =
   sync_wrapper (demo_site True) None (py_ret (Returned None)) demo_world"
  by (rule decorated_call_runs_in_context [where as_user = None, OF demo_site_ok demo_state_ok, THEN conjunct1])
    (simp add: call_context_def sees_def py_simps)

lemma user_argument_found_witness:
  "get_arg_from_signature
     [\<lparr>pa_name = ''request'', pa_kind = PosOrKw, pa_default = None\<rparr>,
      \<lparr>pa_name = ''as_user'', pa_kind = PosOrKw, pa_default = None\<rparr>] ''as_user'' [Some (0 :: nat)] [(''as_user'', Some 7)] =
   Inr (Some 7)"
proof -
  let ?sig = "[\<lparr>pa_name = ''request'', pa_kind = PosOrKw, pa_default = None\<rparr>,
      \<lparr>pa_name = ''as_user'', pa_kind = PosOrKw, pa_default = None\<rparr>] :: nat param list"
  have "get_arg_from_signature ?sig (pa_name (?sig ! 1)) [Some 0] [(''as_user'', Some 7)] = Inr (Some 7)"
    by (subst user_argument_found) simp_all
  then show ?thesis by simp
qed

end
