(* ===== verification/Selection.thy ===== *)
theory Selection
  imports Audit_Log
begin

text \<open>
  \<^verbatim>\<open>tenants/selection.py\<close>: the tenant a request of a user with several tenants runs in, and the
  selection kept in the session.  A request is a record of what the code reads and writes of it;
  the world is that request and the audit log.  The tenant model's \<^verbatim>\<open>pk.to_python\<close> is the parameter
  \<open>sl_to_python\<close>; the settings read are fields of \<open>sel_cfg\<close>.
\<close>

subsection \<open>Users, requests, settings\<close>

text \<open>
  \<open>ru_ids\<close> is \<^verbatim>\<open>rls_tenant_ids\<close>, for a \<^verbatim>\<open>MultiTenantUser\<close>; \<open>ru_meta_pk\<close> is \<^verbatim>\<open>_meta.pk.value_to_string\<close>, for a
  user that is a model instance.
\<close>

record request_user = tenant_user +
  ru_authenticated :: bool
  ru_ids :: "tenant_id list option"
  ru_meta_pk :: "string option"

type_synonym session = "string \<rightharpoonup> tenant_id"

record request =
  rq_user :: "request_user option"
  rq_headers :: "string \<Rightarrow> string option"
  rq_session :: "session option"
  rq_vary :: "string option"

record sel_cfg =
  sl_header :: "string option"
  sl_session_key :: "string option"
  sl_to_python :: "tenant_id \<Rightarrow> tenant_id option checked"
  sl_audits :: "audit_level \<Rightarrow> bool"

record ('q) sel_world =
  sw_request :: 'q
  sw_log :: "audit_record list"

definition permission_denied :: exn where
  "permission_denied = OtherError ''PermissionDenied''"

definition validation_error :: exn where
  "validation_error = OtherError ''ValidationError''"

text \<open>\<^verbatim>\<open>django.contrib.auth.SESSION_KEY\<close>: where \<^verbatim>\<open>login()\<close> stores the user's key.\<close>

definition session_user_key :: string where
  "session_user_key = ''_auth_user_id''"

subsection \<open>Which tenants a user may select\<close>

definition selects_tenants :: "('z) request_user_scheme \<Rightarrow> bool" where
  "selects_tenants user \<longleftrightarrow> ru_ids user \<noteq> None \<and> \<not> u_is_admin user"

definition selectable :: "sel_cfg \<Rightarrow> request_user \<Rightarrow> tenant_id list checked" where
  "selectable cfg user =
     (case ru_ids user of
        None \<Rightarrow> Inl (OtherError ''AttributeError'')
      | Some ids \<Rightarrow>
          ck_bind (map_checked (sl_to_python cfg) ids) (\<lambda>pks.
          ck_bind (case u_tenant user of
                     None \<Rightarrow> Inr []
                   | Some t \<Rightarrow> ck_bind (sl_to_python cfg t) (\<lambda>p. Inr [p])) (\<lambda>dflt.
          Inr (List.map_filter (\<lambda>p. p) (pks @ dflt)))))"

definition may_select :: "sel_cfg \<Rightarrow> request_user \<Rightarrow> tenant_id \<Rightarrow> tenant_id option checked" where
  "may_select cfg user value =
     (case sl_to_python cfg value of
        Inl e \<Rightarrow> if e \<in> {validation_error, TypeError, ValueError} then Inr None else Inl e
      | Inr None \<Rightarrow> Inr None
      | Inr (Some t) \<Rightarrow>
          ck_bind (selectable cfg user) (\<lambda>s. Inr (if t \<notin> set s then None else Some t)))"

definition other_tenants :: "sel_cfg \<Rightarrow> request_user \<Rightarrow> tenant_id list checked" where
  "other_tenants cfg user =
     ck_bind (selectable cfg user) (\<lambda>s.
       case u_tenant user of
         None \<Rightarrow> Inr s
       | Some t \<Rightarrow> ck_bind (sl_to_python cfg t) (\<lambda>p. Inr (filter (\<lambda>x. Some x \<noteq> p) s)))"

subsection \<open>Refusals\<close>

definition shown_length :: nat where
  "shown_length = 64"

fun shown :: "tenant_id \<Rightarrow> audit_value" where
  "shown (TStr s) = AStr (if length s > shown_length then take shown_length s @ ''...'' else s)"
| "shown (TInt i) = AInt i"

definition log_on :: "(audit_record list \<Rightarrow> audit_record list) \<Rightarrow> ('q sel_world, unit) py" where
  "log_on f = py_modify (\<lambda>w. w\<lparr>sw_log := f (sw_log w)\<rparr>)"

definition on_request :: "('q \<Rightarrow> 'q) \<Rightarrow> ('q sel_world, unit) py" where
  "on_request f = py_modify (\<lambda>w. w\<lparr>sw_request := f (sw_request w)\<rparr>)"

text \<open>\<^verbatim>\<open>raise _refuse(...)\<close>.\<close>

definition refuse ::
  "sel_cfg \<Rightarrow> tenant_id option \<Rightarrow> tenant_id \<Rightarrow> string \<Rightarrow> string \<Rightarrow> ('q sel_world, 'a) py" where
  "refuse cfg user_id raw source via =
     py_seq (log_on (denied (sl_audits cfg) source ''tenant_not_selectable'' user_id None None
               [(''selected'', Some (shown raw)), (''via'', Some (AStr via))]))
       (py_raise permission_denied)"

subsection \<open>The session\<close>

definition is_session_of :: "session \<Rightarrow> request_user \<Rightarrow> bool" where
  "is_session_of session user =
     (case session session_user_key of
        None \<Rightarrow> False
      | Some stored \<Rightarrow>
          (case ru_meta_pk user of
             Some pk \<Rightarrow> stored = TStr pk
           | None \<Rightarrow> (case u_pk user of None \<Rightarrow> False | Some pk \<Rightarrow> stored = TStr (tenant_str pk))))"

definition put_session :: "session \<Rightarrow> ('z) request_scheme \<Rightarrow> ('z) request_scheme" where
  "put_session s r = r\<lparr>rq_session := Some s\<rparr>"

definition depends_on_header :: "string \<Rightarrow> (('z) request_scheme sel_world, unit) py" where
  "depends_on_header header = on_request (\<lambda>r. r\<lparr>rq_vary := Some header\<rparr>)"

text \<open>\<^verbatim>\<open>patch_vary_headers\<close> is Django's.\<close>

definition vary_on_tenant_header ::
  "(string \<Rightarrow> 'resp \<Rightarrow> 'resp) \<Rightarrow> ('z) request_scheme \<Rightarrow> 'resp \<Rightarrow> 'resp" where
  "vary_on_tenant_header patch_vary r response =
     (case rq_vary r of None \<Rightarrow> response | Some header \<Rightarrow> patch_vary header response)"

subsection \<open>The tenant of a request\<close>

text \<open>A selection that is found is the answer, or the request is refused.\<close>

definition answer_selection ::
  "sel_cfg \<Rightarrow> request_user \<Rightarrow> tenant_id \<Rightarrow> string \<Rightarrow> string \<Rightarrow> ('q sel_world, unit) py \<Rightarrow>
     ('q sel_world, tenant_id option) py" where
  "answer_selection cfg user raw source via drop_it = (\<lambda>w.
     case may_select cfg user raw of
       Inl e \<Rightarrow> (Inl e, w)
     | Inr None \<Rightarrow> py_seq drop_it (refuse cfg (u_pk user) raw source via) w
     | Inr (Some t) \<Rightarrow> (Inr (Some t), w))"

definition session_tenant_id ::
  "sel_cfg \<Rightarrow> request_user \<Rightarrow> string \<Rightarrow> (('z) request_scheme sel_world, tenant_id option) py" where
  "session_tenant_id cfg user source = (\<lambda>w.
     case (sl_session_key cfg, rq_session (sw_request w)) of
       (Some key, Some session) \<Rightarrow>
         (case session key of
            None \<Rightarrow> (Inr (u_tenant user), w)
          | Some raw \<Rightarrow>
              if \<not> is_session_of session user then (Inr (u_tenant user), w)
              else answer_selection cfg user raw source ''session''
                     (on_request (put_session (session(key := None)))) w)
     | _ \<Rightarrow> (Inr (u_tenant user), w))"

definition request_tenant_id ::
  "sel_cfg \<Rightarrow> request_user \<Rightarrow> string \<Rightarrow> (('z) request_scheme sel_world, tenant_id option) py" where
  "request_tenant_id cfg user source =
     (case sl_header cfg of
        None \<Rightarrow> session_tenant_id cfg user source
      | Some header \<Rightarrow>
          py_seq (depends_on_header header) (\<lambda>w.
            case rq_headers (sw_request w) header of
              Some raw \<Rightarrow> answer_selection cfg user (TStr raw) source ''header'' (py_ret ()) w
            | None \<Rightarrow> session_tenant_id cfg user source w))"

subsection \<open>Switching\<close>

definition selection_session :: "sel_cfg \<Rightarrow> (('z) request_scheme sel_world, session \<times> string) py" where
  "selection_session cfg = (\<lambda>w.
     case (sl_session_key cfg, rq_session (sw_request w)) of
       (Some key, Some session) \<Rightarrow> (Inr (session, key), w)
     | _ \<Rightarrow> (Inl RLSConfigurationError, w))"

text \<open>The user of the request, if it may switch at all.\<close>

definition switching_user :: "('z) request_scheme \<Rightarrow> request_user option" where
  "switching_user r =
     (case rq_user r of
        None \<Rightarrow> None
      | Some user \<Rightarrow> if \<not> ru_authenticated user \<or> \<not> selects_tenants user then None else Some user)"

definition user_id_of :: "('z) request_scheme \<Rightarrow> tenant_id option" where
  "user_id_of r = Option.bind (rq_user r) u_pk"

definition switch :: "sel_cfg \<Rightarrow> tenant_id \<Rightarrow> string \<Rightarrow> string \<Rightarrow> (('z) request_scheme sel_world, tenant_id) py" where
  "switch cfg value source via =
     py_bind (selection_session cfg) (\<lambda>(session, key) w.
       case switching_user (sw_request w) of
         None \<Rightarrow> refuse cfg (user_id_of (sw_request w)) value source via w
       | Some user \<Rightarrow>
           if \<not> is_session_of session user then refuse cfg (u_pk user) value source via w
           else (case may_select cfg user value of
              Inl e \<Rightarrow> (Inl e, w)
            | Inr None \<Rightarrow> refuse cfg (u_pk user) value source via w
            | Inr (Some t) \<Rightarrow>
                py_seq (on_request (put_session (session(key \<mapsto> TStr (tenant_str t)))))
               (py_seq (log_on (emit (sl_audits cfg) ''tenant.switched'' source Info (Some t) (Some False) (u_pk user)
                          [(''previous'', map_option id_value (session key))]))
                  (py_ret t)) w))"

definition clear_selection :: "sel_cfg \<Rightarrow> string \<Rightarrow> (('z) request_scheme sel_world, unit) py" where
  "clear_selection cfg source =
     py_bind (selection_session cfg) (\<lambda>(session, key) w.
       case rq_user (sw_request w) of
         None \<Rightarrow> (Inr (), w)
       | Some user \<Rightarrow>
           if \<not> ru_authenticated user \<or> \<not> is_session_of session user then (Inr (), w)
           else (case session key of
              None \<Rightarrow> (Inr (), w)
            | Some previous \<Rightarrow>
                py_seq (on_request (put_session (session(key := None))))
                  (log_on (emit (sl_audits cfg) ''tenant.switched'' source Info None (Some False) (u_pk user)
                          [(''previous'', Some (id_value previous))])) w))"

definition switch_tenant :: "sel_cfg \<Rightarrow> tenant_id \<Rightarrow> (('z) request_scheme sel_world, tenant_id) py" where
  "switch_tenant cfg tenant = switch cfg tenant ''selection'' ''switch''"

definition clear_tenant_selection :: "sel_cfg \<Rightarrow> (('z) request_scheme sel_world, unit) py" where
  "clear_tenant_selection cfg = clear_selection cfg ''selection''"

subsection \<open>What a selection can do\<close>

text \<open>Resolving the tenant changes nothing of a request but its session and the header noted for \<^verbatim>\<open>Vary\<close>.\<close>

lemma request_tenant_id_more:
  "request.more (sw_request (snd (request_tenant_id cfg user source w))) = request.more (sw_request w)"
  by (auto simp: request_tenant_id_def session_tenant_id_def answer_selection_def refuse_def log_on_def on_request_def
      depends_on_header_def put_session_def py_seq_def py_bind_def py_simps split: option.split sum.split)

lemma may_select_selectable:
  assumes "may_select cfg user raw = Inr (Some t)"
  shows "sl_to_python cfg raw = Inr (Some t) \<and> (\<exists>s. selectable cfg user = Inr s \<and> t \<in> set s)"
  using assms by (auto simp: may_select_def split: sum.splits option.splits if_splits)

text \<open>The selection a request makes: the header, else the session's, if it is the user's session.\<close>

definition selection :: "sel_cfg \<Rightarrow> request_user \<Rightarrow> ('z) request_scheme \<Rightarrow> tenant_id option" where
  "selection cfg user r =
     (case Option.bind (sl_header cfg) (rq_headers r) of
        Some raw \<Rightarrow> Some (TStr raw)
      | None \<Rightarrow> Option.bind (sl_session_key cfg) (\<lambda>key.
          Option.bind (rq_session r) (\<lambda>session. if is_session_of session user then session key else None)))"

definition selected_tenant :: "sel_cfg \<Rightarrow> request_user \<Rightarrow> tenant_id option \<Rightarrow> tenant_id option checked" where
  "selected_tenant cfg user sel =
     (case sel of
        None \<Rightarrow> Inr (u_tenant user)
      | Some raw \<Rightarrow> ck_bind (may_select cfg user raw) (\<lambda>t. if t = None then Inl permission_denied else Inr t))"

lemma fst_answer_selection:
  assumes "\<And>w. fst (drop_it w) = Inr ()"
  shows "fst (answer_selection cfg user raw source via drop_it w) = selected_tenant cfg user (Some raw)"
proof (cases "may_select cfg user raw")
  case (Inl e)
  then show ?thesis by (simp add: answer_selection_def selected_tenant_def)
next
  case (Inr t)
  obtain w1 where "drop_it w = (Inr (), w1)" using assms [of w] by (cases "drop_it w") simp
  with Inr show ?thesis
    by (cases t) (simp_all add: answer_selection_def selected_tenant_def refuse_def log_on_def py_seq_def py_bind_def py_simps)
qed

lemma selection_keeps_user:
  "rq_user (sw_request (snd (request_tenant_id cfg user source w))) = rq_user (sw_request w)"
  by (auto simp: request_tenant_id_def session_tenant_id_def answer_selection_def refuse_def depends_on_header_def
      on_request_def log_on_def put_session_def py_seq_def py_bind_def py_simps split: option.split sum.split)

lemma drops [simp]: "fst (on_request f w) = Inr ()" "fst (py_ret () w) = Inr ()"
  by (simp_all add: on_request_def py_simps)

lemma fst_session_tenant_id:
  "fst (session_tenant_id cfg user source w) =
     selected_tenant cfg user (Option.bind (sl_session_key cfg) (\<lambda>key.
       Option.bind (rq_session (sw_request w)) (\<lambda>session. if is_session_of session user then session key else None)))"
  by (auto simp: session_tenant_id_def fst_answer_selection selected_tenant_def split: option.split)

lemma fst_request_tenant_id:
  "fst (request_tenant_id cfg user source w) = selected_tenant cfg user (selection cfg user (sw_request w))"
proof (cases "sl_header cfg")
  case None
  then show ?thesis by (simp add: request_tenant_id_def selection_def fst_session_tenant_id)
next
  case (Some header)
  let ?w1 = "w\<lparr>sw_request := (sw_request w)\<lparr>rq_vary := Some header\<rparr>\<rparr>"
  have "request_tenant_id cfg user source w =
      (case rq_headers (sw_request ?w1) header of
         Some raw \<Rightarrow> answer_selection cfg user (TStr raw) source ''header'' (py_ret ()) ?w1
       | None \<Rightarrow> session_tenant_id cfg user source ?w1)"
    using Some by (simp add: request_tenant_id_def depends_on_header_def on_request_def py_seq_def)
  then show ?thesis using Some
    by (simp add: selection_def fst_answer_selection fst_session_tenant_id split: option.split)
qed

text \<open>
  C16. A request runs in a tenant of its user: if the request makes a selection (with the header,
  which goes before the session's), then its tenant is that selection, converted to the tenant
  model's key, and one of the user's tenants, never another one and never the default in its
  place; without a selection it is the user's default.
\<close>

theorem request_tenant_is_the_users:
  assumes "fst (request_tenant_id cfg user source w) = Inr t"
  shows "case selection cfg user (sw_request w) of
           None \<Rightarrow> t = u_tenant user
         | Some raw \<Rightarrow> \<exists>p s. t = Some p \<and> sl_to_python cfg raw = Inr (Some p) \<and>
                           selectable cfg user = Inr s \<and> p \<in> set s"
  using assms unfolding fst_request_tenant_id
  by (auto simp: selected_tenant_def split: option.splits if_splits dest: may_select_selectable)

text \<open>
  A stale selection ends itself: a session's selection that is not one of the user's tenants is
  refused with one \<^verbatim>\<open>context.denied\<close> record and removed from the session, with every other key kept,
  and the user's next request in this session runs in the default tenant.
\<close>

theorem stale_selection_dropped:
  assumes header: "Option.bind (sl_header cfg) (rq_headers (sw_request w)) = None"
    and key: "sl_session_key cfg = Some key" and session: "rq_session (sw_request w) = Some s"
    and stale: "is_session_of s user" "s key = Some raw" "may_select cfg user raw = Inr None"
    and run: "request_tenant_id cfg user source w = (r, w')"
  shows "r = Inl permission_denied \<and> rq_session (sw_request w') = Some (s(key := None)) \<and>
         sw_log w' = denied (sl_audits cfg) source ''tenant_not_selectable'' (u_pk user) None None
           [(''selected'', Some (shown raw)), (''via'', Some (AStr ''session''))] (sw_log w) \<and>
         fst (request_tenant_id cfg user source w') = Inr (u_tenant user)"
proof -
  have dropped: "session_tenant_id cfg user source v =
      (Inl permission_denied, v\<lparr>sw_request := put_session (s(key := None)) (sw_request v),
         sw_log := denied (sl_audits cfg) source ''tenant_not_selectable'' (u_pk user) None None
           [(''selected'', Some (shown raw)), (''via'', Some (AStr ''session''))] (sw_log v)\<rparr>)"
    if "rq_session (sw_request v) = Some s" for v
    using that key stale
    by (simp add: session_tenant_id_def answer_selection_def refuse_def on_request_def log_on_def
        py_seq_def py_bind_def py_simps)
  have w': "r = Inl permission_denied" "rq_session (sw_request w') = Some (s(key := None))"
    "rq_headers (sw_request w') = rq_headers (sw_request w)"
    "sw_log w' = denied (sl_audits cfg) source ''tenant_not_selectable'' (u_pk user) None None
           [(''selected'', Some (shown raw)), (''via'', Some (AStr ''session''))] (sw_log w)"
    using run session header
    by (auto simp: dropped request_tenant_id_def depends_on_header_def on_request_def py_seq_def put_session_def
        split: option.splits)
  have "selection cfg user (sw_request w') = None"
    using w' header key by (auto simp: selection_def split: option.split)
  then show ?thesis using w' unfolding fst_request_tenant_id by (simp add: selected_tenant_def)
qed

text \<open>
  Switching and clearing are what the next requests see: after \<^verbatim>\<open>switch_tenant\<close> the user's requests
  of this session without the header run in the tenant it returned, which is one of the user's, and
  after \<^verbatim>\<open>clear_tenant_selection\<close> they run in the default tenant again.
\<close>

theorem switch_then_request:
  assumes run: "switch_tenant cfg value w = (Inr t, w')" and user: "rq_user (sw_request w) = Some user"
    and header: "Option.bind (sl_header cfg) (rq_headers (sw_request w)) = None"
    and key: "sl_session_key cfg = Some key" "key \<noteq> session_user_key"
    and string_form: "sl_to_python cfg (TStr (tenant_str t)) = sl_to_python cfg value"
  shows "fst (request_tenant_id cfg user source w') = Inr (Some t) \<and>
         (\<exists>s. selectable cfg user = Inr s \<and> t \<in> set s) \<and>
         (\<exists>w''. clear_tenant_selection cfg w' = (Inr (), w'') \<and>
                fst (request_tenant_id cfg user source w'') = Inr (u_tenant user))"
proof -
  obtain s where session: "rq_session (sw_request w) = Some s"
    using run key(1) by (auto simp: switch_tenant_def switch_def selection_session_def py_bind_def split: option.splits)
  have user_ok: "ru_authenticated user" "is_session_of s user" "may_select cfg user value = Inr (Some t)"
    and w': "sw_request w' = put_session (s(key \<mapsto> TStr (tenant_str t))) (sw_request w)"
    using run key(1) session user
    by (auto simp: switch_tenant_def switch_def selection_session_def py_bind_def switching_user_def refuse_def
        log_on_def on_request_def py_seq_def py_simps split: option.splits if_splits sum.splits)
  have mine: "is_session_of (s(key := v)) user" for v
    using user_ok(2) key(2) by (simp add: is_session_of_def)
  have again: "may_select cfg user (TStr (tenant_str t)) = Inr (Some t)"
    using user_ok(3) string_form by (simp add: may_select_def)
  have "selection cfg user (sw_request w') = Some (TStr (tenant_str t))"
    using w' header key mine by (simp add: selection_def put_session_def)
  then have first: "fst (request_tenant_id cfg user source w') = Inr (Some t)"
    unfolding fst_request_tenant_id by (simp add: selected_tenant_def again)
  obtain w'' where w'': "clear_tenant_selection cfg w' = (Inr (), w'')"
    "sw_request w'' = put_session ((s(key \<mapsto> TStr (tenant_str t)))(key := None)) (sw_request w')"
    using w' user user_ok(1) key mine
    by (auto simp: clear_tenant_selection_def clear_selection_def selection_session_def py_bind_def put_session_def
        py_seq_def on_request_def log_on_def py_simps)
  have "selection cfg user (sw_request w'') = None"
    using w' w''(2) header key mine by (simp add: selection_def put_session_def)
  then have "fst (request_tenant_id cfg user source w'') = Inr (u_tenant user)"
    unfolding fst_request_tenant_id by (simp add: selected_tenant_def)
  with first w''(1) may_select_selectable [OF user_ok(3)] show ?thesis by blast
qed

subsection \<open>Examples of these hypotheses\<close>

definition demo_sel_cfg :: sel_cfg where
  "demo_sel_cfg = \<lparr>sl_header = Some ''X-Tenant'', sl_session_key = Some ''rls_tenant'',
     sl_to_python = (\<lambda>v. case v of TInt i \<Rightarrow> Inr (Some (TInt i))
        | TStr s \<Rightarrow> if s = ''7'' then Inr (Some (TInt 7)) else Inl validation_error),
     sl_audits = (\<lambda>_. True)\<rparr>"

definition demo_member :: request_user where
  "demo_member = \<lparr>u_is_admin = False, u_tenant = Some (TInt 1), u_pk = Some (TInt 5), ru_authenticated = True,
     ru_ids = Some [TInt 7], ru_meta_pk = Some ''5''\<rparr>"

definition demo_request :: "session \<Rightarrow> request" where
  "demo_request s = \<lparr>rq_user = Some demo_member, rq_headers = (\<lambda>_. None),
     rq_session = Some (s(session_user_key \<mapsto> TStr ''5'')), rq_vary = None\<rparr>"

lemmas demo_selection_defs = demo_request_def demo_member_def demo_sel_cfg_def session_user_key_def
  selectable_def may_select_def is_session_of_def selection_def selected_tenant_def map_filter_def
  validation_error_def permission_denied_def

lemma request_tenant_is_the_users_witness:
  "fst (request_tenant_id demo_sel_cfg demo_member ''middleware''
     \<lparr>sw_request = demo_request [''rls_tenant'' \<mapsto> TStr ''7''], sw_log = []\<rparr>) = Inr (Some (TInt 7)) \<and>
   (\<exists>s. selectable demo_sel_cfg demo_member = Inr s \<and> TInt 7 \<in> set s)"
proof -
  let ?w = "\<lparr>sw_request = demo_request [''rls_tenant'' \<mapsto> TStr ''7''], sw_log = []\<rparr>"
  have t: "fst (request_tenant_id demo_sel_cfg demo_member ''middleware'' ?w) = Inr (Some (TInt 7))"
    unfolding fst_request_tenant_id by (simp add: demo_selection_defs)
  have "selection demo_sel_cfg demo_member (sw_request ?w) = Some (TStr ''7'')"
    by (simp add: demo_selection_defs)
  with t request_tenant_is_the_users [OF t] show ?thesis by auto
qed

lemma stale_selection_dropped_witness:
  "\<exists>r w'. request_tenant_id demo_sel_cfg demo_member ''middleware''
     \<lparr>sw_request = demo_request [''rls_tenant'' \<mapsto> TStr ''8''], sw_log = []\<rparr> = (r, w') \<and>
   r = Inl permission_denied \<and> fst (request_tenant_id demo_sel_cfg demo_member ''middleware'' w') = Inr (Some (TInt 1))"
proof -
  let ?w = "\<lparr>sw_request = demo_request [''rls_tenant'' \<mapsto> TStr ''8''], sw_log = []\<rparr>"
  obtain r w' where run: "request_tenant_id demo_sel_cfg demo_member ''middleware'' ?w = (r, w')"
    by (cases "request_tenant_id demo_sel_cfg demo_member ''middleware'' ?w")
  note stale = stale_selection_dropped [where key = "''rls_tenant''" and raw = "TStr ''8''"
      and s = "[''rls_tenant'' \<mapsto> TStr ''8''](session_user_key \<mapsto> TStr ''5'')", OF _ _ _ _ _ _ run]
  have "r = Inl permission_denied \<and> fst (request_tenant_id demo_sel_cfg demo_member ''middleware'' w') = Inr (u_tenant demo_member)"
    by (intro conjI stale [THEN conjunct1] stale [THEN conjunct2, THEN conjunct2, THEN conjunct2])
      (simp_all add: demo_selection_defs)
  then show ?thesis using run by (auto simp: demo_member_def)
qed

lemma switch_then_request_witness:
  "\<exists>w'. switch_tenant demo_sel_cfg (TStr ''7'') \<lparr>sw_request = demo_request Map.empty, sw_log = []\<rparr> = (Inr (TInt 7), w') \<and>
     fst (request_tenant_id demo_sel_cfg demo_member ''middleware'' w') = Inr (Some (TInt 7))"
proof -
  let ?w = "\<lparr>sw_request = demo_request Map.empty, sw_log = []\<rparr>"
  have "fst (switch_tenant demo_sel_cfg (TStr ''7'') ?w) = Inr (TInt 7)"
    by (simp add: switch_tenant_def switch_def selection_session_def switching_user_def selects_tenants_def
        demo_selection_defs py_seq_def py_bind_def py_simps on_request_def log_on_def)
  then obtain w' where run: "switch_tenant demo_sel_cfg (TStr ''7'') ?w = (Inr (TInt 7), w')"
    by (cases "switch_tenant demo_sel_cfg (TStr ''7'') ?w") simp
  have "fst (request_tenant_id demo_sel_cfg demo_member ''middleware'' w') = Inr (Some (TInt 7))"
    by (rule switch_then_request [where key = "''rls_tenant''", OF run, THEN conjunct1])
      (simp_all add: demo_selection_defs show_int_def show_nat.simps digit_char_def char_of_eq_iff)
  with run show ?thesis by blast
qed

end
