(* ===== verification/Middleware.thy ===== *)
theory Middleware
  imports Tenant_Context Selection
begin

text \<open>
  \<^verbatim>\<open>tenants/middleware.py\<close>: the request middleware, on the synchronous path (with and without the
  transaction it owns) and on the native asynchronous path.  The world is the request with the
  attributes the middleware keeps on it, the affinity world, and the variable \<^verbatim>\<open>rls_gucs_set\<close> with
  the marker of the current thread.  The rest of the middleware chain and the view are the
  argument \<open>get_response\<close>; \<^verbatim>\<open>transaction.atomic()\<close> is entered and left through the site.  The path of
  a subclass that overrides the hooks (\<^verbatim>\<open>_acall_through_sync_hooks\<close>) is not modelled.
\<close>

subsection \<open>Requests and worlds\<close>

text \<open>An attribute that was never set is \<open>None\<close> or \<open>False\<close>; \<open>mr_audited\<close> is tenant, admin flag, user.\<close>

record mw_request = request +
  mr_found :: "nat option option"
  mr_tenant_token :: "tenant_id option token option"
  mr_active_token :: "bool token option"
  mr_gucs_token :: "gucs_token option"
  mr_state_reset :: bool
  mr_owns_tx :: bool
  mr_rollback_tx :: bool
  mr_audited :: "(tenant_id option \<times> bool \<times> tenant_id option) option"

record 'd mw =
  m_req :: mw_request
  m_aff :: "'d aff"
  m_gucs_set :: "nat option"
  m_thread :: nat

record 'd mw_site =
  ms_site :: "'d site"
  ms_sel :: sel_cfg
  ms_atomic_enter :: "string \<Rightarrow> ('d aff, unit) py"
  ms_atomic_exit :: "string \<Rightarrow> bool \<Rightarrow> ('d aff, unit) py"
  ms_set_rollback :: "string \<Rightarrow> ('d aff, unit) py"

definition on_aff :: "('d aff, 'a) py \<Rightarrow> ('d mw, 'a) py" where
  "on_aff m = (\<lambda>w. case m (m_aff w) of (r, a) \<Rightarrow> (r, w\<lparr>m_aff := a\<rparr>))"

definition on_ctx :: "(rls_state, 'a) py \<Rightarrow> ('d mw, 'a) py" where
  "on_ctx m = on_aff (on_state m)"

text \<open>A setter of a context variable, which returns its token and cannot raise.\<close>

definition on_set :: "(rls_state \<Rightarrow> 'a \<times> rls_state) \<Rightarrow> ('d mw, 'a) py" where
  "on_set f = on_ctx (\<lambda>s. case f s of (t, s') \<Rightarrow> (Inr t, s'))"

text \<open>\<^verbatim>\<open>setattr(request, ...)\<close>.\<close>

definition set_attr :: "(mw_request \<Rightarrow> mw_request) \<Rightarrow> ('d mw, unit) py" where
  "set_attr f = py_modify (\<lambda>w. w\<lparr>m_req := f (m_req w)\<rparr>)"

definition on_sel :: "(mw_request sel_world, 'a) py \<Rightarrow> ('d mw, 'a) py" where
  "on_sel m = (\<lambda>w. case m \<lparr>sw_request = m_req w, sw_log = a_audit (m_aff w)\<rparr> of
     (r, v) \<Rightarrow> (r, w\<lparr>m_req := sw_request v, m_aff := (m_aff w)\<lparr>a_audit := sw_log v\<rparr>\<rparr>))"

definition log_audit :: "(audit_record list \<Rightarrow> audit_record list) \<Rightarrow> ('d mw, unit) py" where
  "log_audit f = py_modify (\<lambda>w. w\<lparr>m_aff := (m_aff w)\<lparr>a_audit := f (a_audit (m_aff w))\<rparr>\<rparr>)"

text \<open>\<^verbatim>\<open>with suppress(Exception)\<close>.\<close>

definition suppressed :: "('w, unit) py \<Rightarrow> ('w, unit) py" where
  "suppressed m = py_except m is_exception (\<lambda>_. py_ret ())"

definition state_of :: "'d mw \<Rightarrow> rls_state" where
  "state_of w = a_state (m_aff w)"

definition cfg_of :: "'d mw_site \<Rightarrow> aff_cfg" where
  "cfg_of ms = st_cfg (ms_site ms)"

subsection \<open>The flag\<close>

definition mark_gucs_set :: "nat option \<Rightarrow> ('d mw, unit) py" where
  "mark_gucs_set marker = py_modify (\<lambda>w. w\<lparr>m_gucs_set := Some (case marker of None \<Rightarrow> m_thread w | Some m \<Rightarrow> m)\<rparr>)"

definition clear_gucs_set_flag :: "('d mw, unit) py" where
  "clear_gucs_set_flag = py_modify (\<lambda>w. w\<lparr>m_gucs_set := None\<rparr>)"

definition were_gucs_set :: "'d mw \<Rightarrow> bool" where
  "were_gucs_set w \<longleftrightarrow> m_gucs_set w \<noteq> None"

definition were_gucs_set_on_this_thread :: "'d mw \<Rightarrow> bool" where
  "were_gucs_set_on_this_thread w \<longleftrightarrow> m_gucs_set w = Some (m_thread w)"

subsection \<open>Context variables\<close>

definition reset_or_clear :: "'t option \<Rightarrow> ('t \<Rightarrow> ('w, unit) py) \<Rightarrow> ('w, unit) py \<Rightarrow> ('w, unit) py" where
  "reset_or_clear token reset clear =
     (case token of
        Some t \<Rightarrow> py_except (reset t) (\<lambda>e. e = ValueError) (\<lambda>_. clear)
      | None \<Rightarrow> clear)"

definition reset_or_clear_tenant :: "tenant_id option token option \<Rightarrow> ('d mw, unit) py" where
  "reset_or_clear_tenant token =
     reset_or_clear token (\<lambda>t. on_ctx (reset_current_tenant_id t))
       (py_bind (on_set (set_current_tenant_id None)) (\<lambda>_. py_ret ()))"

definition reset_or_clear_active :: "bool token option \<Rightarrow> ('d mw, unit) py" where
  "reset_or_clear_active token =
     reset_or_clear token (\<lambda>t. on_ctx (reset_rls_context_active t))
       (py_bind (on_set (set_rls_context_active False)) (\<lambda>_. py_ret ()))"

definition end_context_gucs :: "gucs_token option \<Rightarrow> ('d mw, unit) py" where
  "end_context_gucs entered =
     (case entered of
        None \<Rightarrow> py_ret ()
      | Some e \<Rightarrow> py_except (on_ctx (reset_context_gucs e)) (\<lambda>e. e = ValueError) (\<lambda>_. py_ret ()))"

definition holder_for_the_request :: "('d mw, 'a) py \<Rightarrow> ('d mw, 'a) py" where
  "holder_for_the_request body =
     py_bind (on_set hold_context_gucs) (\<lambda>held.
     py_seq (set_attr (\<lambda>r. r\<lparr>mr_found := Some (Some (gt_live held))\<rparr>))
       (py_finally body (\<lambda>_. on_ctx (release_context_gucs held))))"

definition served_inside_a_context :: "'d mw \<Rightarrow> bool" where
  "served_inside_a_context w \<longleftrightarrow>
     (case mr_found (m_req w) of None \<Rightarrow> False | Some live \<Rightarrow> values_of (state_of w) live \<noteq> None)"

definition end_blocks_left_open :: "('d mw, unit) py" where
  "end_blocks_left_open = (\<lambda>w.
     case mr_found (m_req w) of
       None \<Rightarrow> (Inr (), w)
     | Some found \<Rightarrow>
         (let current = current_live (state_of w) in
          if (case mr_gucs_token (m_req w) of None \<Rightarrow> False | Some own \<Rightarrow> current = Some (gt_live own))
          then (Inr (), w)
          else on_ctx (py_modify (end_if_newer current found)) w))"

subsection \<open>GUCs\<close>

definition is_authenticated :: "mw_request \<Rightarrow> bool" where
  "is_authenticated r \<longleftrightarrow> (case rq_user r of None \<Rightarrow> False | Some user \<Rightarrow> ru_authenticated user)"

definition write_alias :: "'d mw_site \<Rightarrow> context_gucs option \<Rightarrow> string \<Rightarrow> ('d mw, unit) py" where
  "write_alias ms values alias =
     on_aff (py_seq (connections_get (st_cursor (ms_site ms)) alias)
       (write_gucs (st_driver (ms_site ms)) (cfg_of ms) (st_created (ms_site ms)) alias values False))"

definition clear_alias_gucs :: "'d mw_site \<Rightarrow> string \<Rightarrow> ('d mw, unit) py" where
  "clear_alias_gucs ms = write_alias ms None"

definition clear_gucs_on_all_databases :: "'d mw_site \<Rightarrow> ('d mw, unit) py" where
  "clear_gucs_on_all_databases ms = py_for (databases (cfg_of ms)) (\<lambda>alias. suppressed (clear_alias_gucs ms alias))"

definition clear_gucs_on_open_databases :: "'d mw_site \<Rightarrow> ('d mw, unit) py" where
  "clear_gucs_on_open_databases ms =
     py_for (databases (cfg_of ms)) (\<lambda>alias w.
       if raw_of alias (m_aff w) = None then (Inr (), w) else suppressed (clear_alias_gucs ms alias) w)"

definition clear_request_gucs :: "'d mw_site \<Rightarrow> ('d mw, unit) py" where
  "clear_request_gucs ms =
     (if use_local_set (cfg_of ms)
      then on_aff (suspect_sessions (st_driver (ms_site ms)) (cfg_of ms) True)
      else py_for (databases (cfg_of ms)) (clear_alias_gucs ms))"

text \<open>\<open>done\<close> are the aliases already set, which a failure on a later one clears again.\<close>

fun set_gucs_loop :: "'d mw_site \<Rightarrow> context_gucs \<Rightarrow> string list \<Rightarrow> string list \<Rightarrow> ('d mw, unit) py" where
  "set_gucs_loop ms gucs [] completed = py_ret ()"
| "set_gucs_loop ms gucs (alias # rest) completed = (\<lambda>w.
     case write_alias ms (Some gucs) alias w of
       (Inr _, w1) \<Rightarrow> set_gucs_loop ms gucs rest (completed @ [alias]) w1
     | (Inl e, w1) \<Rightarrow>
         (if is_exception e
          then py_seq (py_for completed (\<lambda>a. suppressed (clear_alias_gucs ms a))) (py_raise e)
          else py_raise e) w1)"

definition set_gucs_on_all_databases :: "'d mw_site \<Rightarrow> (string \<times> string) list \<Rightarrow> ('d mw, unit) py" where
  "set_gucs_on_all_databases ms guc_vars =
     (if use_local_set (cfg_of ms) then py_ret ()
      else case context_gucs_of (cfg_of ms) guc_vars of
             Inl e \<Rightarrow> py_raise e
           | Inr gucs \<Rightarrow> set_gucs_loop ms gucs (databases (cfg_of ms)) [])"

subsection \<open>The user of a request\<close>

text \<open>\<open>member\<close>: the tenant of the request of a user who selects tenants (\<open>Some None\<close>: none).\<close>

definition member_of :: "'d mw_site \<Rightarrow> request_user \<Rightarrow> ('d mw, tenant_id option option) py" where
  "member_of ms user =
     (if \<not> selects_tenants user then py_ret None
      else py_bind (on_sel (request_tenant_id (ms_sel ms) user ''middleware'')) (\<lambda>t. py_ret (Some t)))"

definition resolve_request_user ::
  "'d mw_site \<Rightarrow> request_user \<Rightarrow> tenant_id option option \<Rightarrow> ('d mw, (string \<times> string) list) py" where
  "resolve_request_user ms user member =
     (case resolve_user_guc_vars (cfg_of ms) (tenant_user.truncate user)
             (case member of None \<Rightarrow> None | Some t \<Rightarrow> t) of
        Inr guc_vars \<Rightarrow> py_ret guc_vars
      | Inl e \<Rightarrow>
          py_seq (if e = NoTenantContextError
                  then log_audit (denied (st_audits (ms_site ms)) ''middleware'' ''user_without_tenant'' (u_pk user) None None [])
                  else py_ret ())
            (py_raise e))"

definition scope_tenant_id :: "request_user \<Rightarrow> tenant_id option option \<Rightarrow> tenant_id option" where
  "scope_tenant_id user member =
     (case member of
        Some t \<Rightarrow> t
      | None \<Rightarrow> if u_is_admin user then None else u_tenant user)"

definition audit_request_entered ::
  "'d mw_site \<Rightarrow> tenant_id option \<Rightarrow> bool \<Rightarrow> tenant_id option \<Rightarrow> ('d mw, unit) py" where
  "audit_request_entered ms tenant admin user_id =
     py_seq (log_audit (emit (st_audits (ms_site ms)) ''context.entered'' ''middleware'' Info tenant (Some admin) user_id []))
       (set_attr (\<lambda>r. r\<lparr>mr_audited := Some (tenant, admin, user_id)\<rparr>))"

definition audit_request_exited :: "'d mw_site \<Rightarrow> ('d mw, unit) py" where
  "audit_request_exited ms = (\<lambda>w.
     case mr_audited (m_req w) of
       None \<Rightarrow> (Inr (), w)
     | Some (tenant, admin, user_id) \<Rightarrow>
         py_seq (set_attr (\<lambda>r. r\<lparr>mr_audited := None\<rparr>))
           (log_audit (emit (st_audits (ms_site ms)) ''context.exited'' ''middleware'' Info tenant (Some admin) user_id [])) w)"

subsection \<open>The end of a request\<close>

definition has_token :: "mw_request \<Rightarrow> bool" where
  "has_token r \<longleftrightarrow> mr_gucs_token r \<noteq> None \<or> mr_tenant_token r \<noteq> None \<or> mr_active_token r \<noteq> None"

definition reset_request_state :: "('d mw, unit) py" where
  "reset_request_state = (\<lambda>w.
     if mr_state_reset (m_req w) then (Inr (), w)
     else py_seq
       (if has_token (m_req w) \<or> \<not> served_inside_a_context w
        then py_seq (end_context_gucs (mr_gucs_token (m_req w)))
            (py_seq (reset_or_clear_tenant (mr_tenant_token (m_req w)))
              (reset_or_clear_active (mr_active_token (m_req w))))
        else py_ret ())
       (set_attr (\<lambda>r. r\<lparr>mr_state_reset := True\<rparr>)) w)"

definition clear_if_set :: "'d mw_site \<Rightarrow> ('d mw, unit) py" where
  "clear_if_set ms = (\<lambda>w.
     if were_gucs_set w then py_seq (clear_request_gucs ms) clear_gucs_set_flag w else (Inr (), w))"

definition cleanup_rls_state :: "'d mw_site \<Rightarrow> ('d mw, unit) py" where
  "cleanup_rls_state ms =
     py_finally reset_request_state
       (\<lambda>_. py_finally (clear_if_set ms) (\<lambda>_. audit_request_exited ms))"

subsection \<open>The hooks\<close>

text \<open>The \<^verbatim>\<open>except Exception\<close> branch of \<^verbatim>\<open>process_request\<close>, with the tokens made so far.\<close>

definition enter_failed ::
  "'d mw_site \<Rightarrow> gucs_token option \<Rightarrow> tenant_id option token option \<Rightarrow> bool token option \<Rightarrow> exn \<Rightarrow> ('d mw, 'a) py" where
  "enter_failed ms gucs_token tenant_token active_token e =
     py_seq (end_context_gucs gucs_token)
    (py_seq (reset_or_clear_tenant tenant_token)
    (py_seq (reset_or_clear_active active_token)
    (py_seq (set_attr (\<lambda>r. r\<lparr>mr_state_reset := True\<rparr>))
    (py_seq (clear_gucs_on_all_databases ms)
      (py_raise e)))))"

text \<open>The values of the user, set on every alias.\<close>

definition prepared :: "'d mw_site \<Rightarrow> request_user \<Rightarrow> tenant_id option option \<Rightarrow> ('d mw, (string \<times> string) list) py" where
  "prepared ms user member =
     py_bind (resolve_request_user ms user member) (\<lambda>guc_vars.
       py_seq (set_gucs_on_all_databases ms guc_vars) (py_ret guc_vars))"

definition enter_user ::
  "'d mw_site \<Rightarrow> request_user \<Rightarrow> tenant_id option option \<Rightarrow> ('d mw, unit) py" where
  "enter_user ms user member =
     py_bind
       (py_except
         (prepared ms user member)
         is_exception (enter_failed ms None None None))
       (\<lambda>guc_vars.
          let tenant = scope_tenant_id user member in
          py_bind (on_set (set_current_tenant_id tenant)) (\<lambda>tenant_token.
          py_seq (set_attr (\<lambda>r. r\<lparr>mr_tenant_token := Some tenant_token\<rparr>))
         (py_bind (on_set (set_rls_context_active True)) (\<lambda>active_token.
          py_seq (set_attr (\<lambda>r. r\<lparr>mr_active_token := Some active_token\<rparr>))
            (case context_gucs_of (cfg_of ms) guc_vars of
               Inl e \<Rightarrow> enter_failed ms None (Some tenant_token) (Some active_token) e
             | Inr gucs \<Rightarrow>
                 py_bind (on_set (set_context_gucs (Some gucs) False)) (\<lambda>gucs_token.
                 py_seq (set_attr (\<lambda>r. r\<lparr>mr_gucs_token := Some gucs_token\<rparr>))
                (py_seq (mark_gucs_set None)
                  (audit_request_entered ms tenant (u_is_admin user) (u_pk user)))))))))"

definition process_request :: "'d mw_site \<Rightarrow> ('d mw, unit) py" where
  "process_request ms = (\<lambda>w.
     case rq_user (m_req w) of
       None \<Rightarrow> (Inr (), w)
     | Some user \<Rightarrow>
         if \<not> ru_authenticated user then (Inr (), w)
         else py_bind (member_of ms user)
           (\<lambda>member. if member = Some None then py_ret () else enter_user ms user member) w)"

definition process_response ::
  "'d mw_site \<Rightarrow> (string \<Rightarrow> 'resp \<Rightarrow> 'resp) \<Rightarrow> 'resp \<Rightarrow> ('d mw, 'resp) py" where
  "process_response ms patch_vary response =
     py_seq (cleanup_rls_state ms)
       (\<lambda>w. (Inr (vary_on_tenant_header patch_vary (m_req w) response), w))"

definition process_exception :: "'d mw_site \<Rightarrow> ('d mw, unit) py" where
  "process_exception ms =
     py_finally
       (\<lambda>w. if mr_owns_tx (m_req w) then set_attr (\<lambda>r. r\<lparr>mr_rollback_tx := True\<rparr>) w
            else cleanup_rls_state ms w)
       (\<lambda>_. end_blocks_left_open)"

subsection \<open>Serving a request synchronously\<close>

text \<open>Django's \<^verbatim>\<open>MiddlewareMixin.__call__\<close>, for a \<^verbatim>\<open>process_request\<close> that returns \<^verbatim>\<open>None\<close>.\<close>

definition mixin_call ::
  "'d mw_site \<Rightarrow> (string \<Rightarrow> 'resp \<Rightarrow> 'resp) \<Rightarrow> ('d mw, 'resp) py \<Rightarrow> ('d mw, 'resp) py" where
  "mixin_call ms patch_vary get_response =
     py_seq (process_request ms) (py_bind get_response (process_response ms patch_vary))"

fun in_transactions :: "'d mw_site \<Rightarrow> string list \<Rightarrow> ('d mw, 'a) py \<Rightarrow> ('d mw, 'a) py" where
  "in_transactions ms [] body = body"
| "in_transactions ms (alias # rest) body =
     py_seq (on_aff (ms_atomic_enter ms alias))
       (py_finally (in_transactions ms rest body) (\<lambda>exc. on_aff (ms_atomic_exit ms alias exc)))"

definition request_rollback :: "'d mw_site \<Rightarrow> ('d mw, unit) py" where
  "request_rollback ms = (\<lambda>w.
     if mr_rollback_tx (m_req w)
     then py_for (databases (cfg_of ms)) (\<lambda>alias v.
            if db_in_atomic (st_cursor (ms_site ms)) alias (m_aff v) then on_aff (ms_set_rollback ms alias) v
            else (Inr (), v)) w
     else (Inr (), w))"

definition call_in_transaction ::
  "'d mw_site \<Rightarrow> (string \<Rightarrow> 'resp \<Rightarrow> 'resp) \<Rightarrow> ('d mw, 'resp) py \<Rightarrow> ('d mw, 'resp) py" where
  "call_in_transaction ms patch_vary get_response =
     in_transactions ms (databases (cfg_of ms))
       (py_seq (set_attr (\<lambda>r. r\<lparr>mr_owns_tx := True\<rparr>))
         (py_finally (mixin_call ms patch_vary get_response)
           (\<lambda>_. py_finally (py_seq (request_rollback ms) (cleanup_rls_state ms))
             (\<lambda>_. set_attr (\<lambda>r. r\<lparr>mr_owns_tx := False\<rparr>)))))"

definition call_sync ::
  "'d mw_site \<Rightarrow> (string \<Rightarrow> 'resp \<Rightarrow> 'resp) \<Rightarrow> ('d mw, 'resp) py \<Rightarrow> ('d mw, 'resp) py" where
  "call_sync ms patch_vary get_response = (\<lambda>w.
     if \<not> use_local_set (cfg_of ms) \<or> \<not> is_authenticated (m_req w)
     then py_except (mixin_call ms patch_vary get_response) (\<lambda>_. True)
            (\<lambda>e. py_seq (suppressed (cleanup_rls_state ms)) (py_raise e)) w
     else call_in_transaction ms patch_vary get_response w)"

definition call ::
  "'d mw_site \<Rightarrow> (string \<Rightarrow> 'resp \<Rightarrow> 'resp) \<Rightarrow> ('d mw, 'resp) py \<Rightarrow> ('d mw, 'resp) py" where
  "call ms patch_vary get_response = holder_for_the_request (call_sync ms patch_vary get_response)"

text \<open>
  \<^verbatim>\<open>_validate_exception_middleware_order\<close>, over what it asks of each entry of \<^verbatim>\<open>MIDDLEWARE\<close>: a class
  (this middleware's, or with \<^verbatim>\<open>process_exception\<close>) or a factory.
\<close>

datatype mw_entry = MwClass (mw_is_self: bool) (mw_handles: bool) | MwFactory

fun validate_exception_middleware_order :: "mw_entry list \<Rightarrow> bool \<Rightarrow> unit checked" where
  "validate_exception_middleware_order [] after_rls = Inr ()"
| "validate_exception_middleware_order (MwFactory # rest) after_rls =
     (if after_rls then Inl RLSConfigurationError else validate_exception_middleware_order rest after_rls)"
| "validate_exception_middleware_order (MwClass own handles # rest) after_rls =
     (if own then validate_exception_middleware_order rest True
      else if after_rls \<and> handles then Inl RLSConfigurationError
      else validate_exception_middleware_order rest after_rls)"

subsection \<open>Serving a request natively on the asynchronous path\<close>

text \<open>A hop runs on another thread, in a copy of the request's context that holds the same values.\<close>

definition on_thread :: "nat \<Rightarrow> ('d mw, 'a) py \<Rightarrow> ('d mw, 'a) py" where
  "on_thread t m = (\<lambda>w. case m (w\<lparr>m_thread := t\<rparr>) of (r, w1) \<Rightarrow> (r, w1\<lparr>m_thread := m_thread w\<rparr>))"

record request_scope =
  sc_tenant :: "tenant_id option"
  sc_gucs :: context_gucs
  sc_marker :: nat
  sc_user :: "tenant_id option"

definition enter_request_gucs :: "'d mw_site \<Rightarrow> ('d mw, request_scope option) py" where
  "enter_request_gucs ms = (\<lambda>w.
     case rq_user (m_req w) of
       None \<Rightarrow> (Inr None, w)
     | Some user \<Rightarrow>
         if \<not> ru_authenticated user then (Inr None, w)
         else py_bind (member_of ms user) (\<lambda>member.
           if member = Some None then py_ret None
           else py_bind
             (py_except
               (prepared ms user member)
               is_exception (\<lambda>e. py_seq (clear_gucs_on_all_databases ms) (py_raise e)))
             (\<lambda>guc_vars v.
                case context_gucs_of (cfg_of ms) guc_vars of
                  Inl e \<Rightarrow> (Inl e, v)
                | Inr gucs \<Rightarrow>
                    (Inr (Some \<lparr>sc_tenant = scope_tenant_id user member, sc_gucs = gucs,
                                sc_marker = m_thread v, sc_user = u_pk user\<rparr>), v))) w)"

text \<open>A cancellation discards what the hop returned; a second hop clears what it may have set.\<close>

definition aenter_request :: "'d mw_site \<Rightarrow> nat \<Rightarrow> bool \<Rightarrow> ('d mw, request_scope option) py" where
  "aenter_request ms hop cancelled =
     (if cancelled
      then (\<lambda>w. case on_thread hop (enter_request_gucs ms) w of
              (_, w1) \<Rightarrow> py_seq (on_thread hop (clear_gucs_on_all_databases ms)) (py_raise cancelled_error) w1)
      else on_thread hop (enter_request_gucs ms))"

definition varied :: "(string \<Rightarrow> 'resp \<Rightarrow> 'resp) \<Rightarrow> 'resp \<Rightarrow> ('d mw, 'resp) py" where
  "varied patch_vary response = (\<lambda>w. (Inr (vary_on_tenant_header patch_vary (m_req w) response), w))"

definition leave_scope ::
  "'d mw_site \<Rightarrow> nat \<Rightarrow> tenant_id option token \<Rightarrow> bool token \<Rightarrow> gucs_token \<Rightarrow> ('d mw, unit) py" where
  "leave_scope ms hop tenant_token active_token gucs_token =
     py_finally
       (py_seq (set_attr (\<lambda>r. r\<lparr>mr_gucs_token := None\<rparr>))
         (py_seq (end_context_gucs (Some gucs_token))
           (py_seq (on_ctx (reset_current_tenant_id tenant_token))
             (on_ctx (reset_rls_context_active active_token)))))
       (\<lambda>_. py_finally
         (\<lambda>w. if were_gucs_set w then py_seq (on_thread hop (clear_request_gucs ms)) clear_gucs_set_flag w
              else (Inr (), w))
         (\<lambda>_. audit_request_exited ms))"

definition serve_scope ::
  "'d mw_site \<Rightarrow> (string \<Rightarrow> 'resp \<Rightarrow> 'resp) \<Rightarrow> nat \<Rightarrow> request_scope \<Rightarrow> ('d mw, 'resp) py \<Rightarrow> ('d mw, 'resp) py" where
  "serve_scope ms patch_vary hop scope get_response =
     py_bind (py_get (\<lambda>w. current_live (state_of w))) (\<lambda>found.
     py_seq (set_attr (\<lambda>r. r\<lparr>mr_found := Some found\<rparr>))
    (py_bind (on_set (set_current_tenant_id (sc_tenant scope))) (\<lambda>tenant_token.
     py_bind (on_set (set_rls_context_active True)) (\<lambda>active_token.
     py_bind (on_set (set_context_gucs (Some (sc_gucs scope)) True)) (\<lambda>gucs_token.
     py_seq (set_attr (\<lambda>r. r\<lparr>mr_gucs_token := Some gucs_token\<rparr>))
    (py_seq (mark_gucs_set (Some (sc_marker scope)))
      (py_finally
        (py_seq (audit_request_entered ms (sc_tenant scope) (sc_tenant scope = None) (sc_user scope))
          (py_bind get_response (varied patch_vary)))
        (\<lambda>_. leave_scope ms hop tenant_token active_token gucs_token))))))))"

definition acall ::
  "'d mw_site \<Rightarrow> (string \<Rightarrow> 'resp \<Rightarrow> 'resp) \<Rightarrow> nat \<Rightarrow> bool \<Rightarrow> ('d mw, 'resp) py \<Rightarrow> ('d mw, 'resp) py" where
  "acall ms patch_vary hop cancelled get_response =
     py_bind (aenter_request ms hop cancelled) (\<lambda>scope.
       case scope of
         None \<Rightarrow> py_bind (holder_for_the_request get_response) (varied patch_vary)
       | Some sc \<Rightarrow> serve_scope ms patch_vary hop sc get_response)"

subsection \<open>Code that leaves the context and the request's marks alone\<close>

text \<open>The attributes by which the end of a request finds what to undo.\<close>

definition same_marks :: "mw_request \<Rightarrow> mw_request \<Rightarrow> bool" where
  "same_marks r r' \<longleftrightarrow> mr_found r' = mr_found r \<and> mr_tenant_token r' = mr_tenant_token r \<and>
     mr_active_token r' = mr_active_token r \<and> mr_gucs_token r' = mr_gucs_token r \<and>
     mr_state_reset r' = mr_state_reset r"

definition unmarked :: "('d mw, 'a) py \<Rightarrow> bool" where
  "unmarked m \<longleftrightarrow> (\<forall>w. state_of (snd (m w)) = state_of w \<and> same_marks (m_req w) (m_req (snd (m w))))"

named_theorems unmarked_intros "code that leaves the context and the request's marks alone"

lemma same_marks_refl [simp]: "same_marks r r"
  by (simp add: same_marks_def)

lemma same_marks_trans: "same_marks r s \<Longrightarrow> same_marks s t \<Longrightarrow> same_marks r t"
  by (simp add: same_marks_def)

lemma unmarkedD: "unmarked m \<Longrightarrow> m w = (r, w') \<Longrightarrow> state_of w' = state_of w \<and> same_marks (m_req w) (m_req w')"
  unfolding unmarked_def by (metis snd_conv)

lemma unmarked_app: "unmarked m \<Longrightarrow> state_of (snd (m w)) = state_of w \<and> same_marks (m_req w) (m_req (snd (m w)))"
  by (simp add: unmarked_def)

lemma unmarked_basic [unmarked_intros]:
  "unmarked (py_ret x)" "unmarked (py_raise e)" "unmarked (py_get f)" "unmarked (Pair r)"
  by (simp_all add: unmarked_def py_simps)

lemma unmarked_bind [unmarked_intros]: "unmarked m \<Longrightarrow> (\<And>x. unmarked (f x)) \<Longrightarrow> unmarked (py_bind m f)"
  unfolding unmarked_def py_bind_def
  by (auto split: prod.splits sum.splits) (metis same_marks_trans snd_conv)+

lemma unmarked_seq [unmarked_intros]: "unmarked m \<Longrightarrow> unmarked n \<Longrightarrow> unmarked (py_seq m n)"
  by (simp add: py_seq_def unmarked_bind)

lemma unmarked_except [unmarked_intros]:
  "unmarked m \<Longrightarrow> (\<And>e. unmarked (h e)) \<Longrightarrow> unmarked (py_except m sel h)"
  unfolding unmarked_def py_except_def
  by (auto split: prod.splits sum.splits) (metis same_marks_trans snd_conv)+

lemma unmarked_finally [unmarked_intros]:
  "unmarked m \<Longrightarrow> (\<And>b. unmarked (f b)) \<Longrightarrow> unmarked (py_finally m f)"
  unfolding unmarked_def py_finally_def
  by (auto split: prod.splits sum.splits) (metis same_marks_trans snd_conv)+

lemma unmarked_for [unmarked_intros]: "(\<And>x. unmarked (f x)) \<Longrightarrow> unmarked (py_for xs f)"
  by (induction xs) (simp_all add: unmarked_intros)

lemma unmarked_branches [unmarked_intros]:
  "unmarked m \<Longrightarrow> unmarked n \<Longrightarrow> unmarked (\<lambda>w. if c w then m w else n w)"
  "unmarked m \<Longrightarrow> unmarked n \<Longrightarrow> unmarked (if b then m else n)"
  "unmarked m \<Longrightarrow> (\<And>x. unmarked (p x)) \<Longrightarrow> unmarked (\<lambda>w. case f w of None \<Rightarrow> m w | Some x \<Rightarrow> p x w)"
  by (auto simp: unmarked_def split: option.splits)

lemma unmarked_on_aff [unmarked_intros]: "quiet m \<Longrightarrow> unmarked (on_aff m)"
  by (auto simp: unmarked_def on_aff_def state_of_def quiet_def split: prod.split) (metis snd_conv)

lemma unmarked_suppressed [unmarked_intros]: "unmarked m \<Longrightarrow> unmarked (suppressed m)"
  unfolding suppressed_def by (intro unmarked_intros)

lemma unmarked_set_attr: "(\<And>r. same_marks r (f r)) \<Longrightarrow> unmarked (set_attr f)"
  by (simp add: unmarked_def set_attr_def py_modify_def state_of_def)

lemma unmarked_log [unmarked_intros]: "unmarked (log_audit f)"
  by (simp add: unmarked_def log_audit_def py_modify_def state_of_def)

lemma unmarked_flag [unmarked_intros]: "unmarked (mark_gucs_set m)" "unmarked clear_gucs_set_flag"
  by (simp_all add: unmarked_def mark_gucs_set_def clear_gucs_set_flag_def py_modify_def state_of_def)

lemma unmarked_on_thread [unmarked_intros]: "unmarked m \<Longrightarrow> unmarked (on_thread t m)"
proof -
  assume m: "unmarked m"
  have "state_of (x\<lparr>m_thread := v\<rparr>) = state_of x" for x :: "'a mw" and v by (simp add: state_of_def)
  then show ?thesis using unmarked_app [OF m]
    by (auto simp: unmarked_def on_thread_def split: prod.split) (metis mw.select_convs(1) mw.surjective mw.update_convs(4) snd_conv)+
qed

text \<open>
  What the middleware relies on of Django: its site, and \<^verbatim>\<open>atomic()\<close>, leave the context variables alone,
  and \<^verbatim>\<open>set_rollback()\<close> inside an atomic block does not raise.
\<close>

definition mw_ok :: "'d mw_site \<Rightarrow> bool" where
  "mw_ok ms \<longleftrightarrow> site_ok (ms_site ms) \<and> (\<forall>al. quiet (ms_atomic_enter ms al)) \<and>
     (\<forall>al b. quiet (ms_atomic_exit ms al b)) \<and> (\<forall>al. quiet (ms_set_rollback ms al)) \<and>
     (\<forall>al a. fst (ms_set_rollback ms al a) = Inr ())"

lemma unmarked_write_alias [unmarked_intros]: "mw_ok ms \<Longrightarrow> unmarked (write_alias ms v al)"
  unfolding write_alias_def mw_ok_def site_ok_def by (intro unmarked_intros quiet_intros) simp

lemma unmarked_clears [unmarked_intros]:
  assumes "mw_ok ms"
  shows "unmarked (clear_alias_gucs ms al)" "unmarked (clear_gucs_on_all_databases ms)" "unmarked (clear_request_gucs ms)"
proof -
  show one: "unmarked (clear_alias_gucs ms al)" for al
    unfolding clear_alias_gucs_def using assms by (rule unmarked_write_alias)
  show "unmarked (clear_gucs_on_all_databases ms)" "unmarked (clear_request_gucs ms)"
    unfolding clear_gucs_on_all_databases_def clear_request_gucs_def
    by (intro unmarked_intros quiet_intros one)+
qed

lemma unmarked_set_loop: "mw_ok ms \<Longrightarrow> unmarked (set_gucs_loop ms g als completed)"
proof (induction als arbitrary: completed)
  case Nil
  then show ?case by (simp add: unmarked_intros)
next
  case (Cons al als)
  have fail: "unmarked (if b then py_seq (py_for completed (\<lambda>a. suppressed (clear_alias_gucs ms a))) (py_raise e) else py_raise e)"
    for b and e :: exn using Cons.prems by (intro unmarked_intros)
  show ?case unfolding unmarked_def
  proof
    fix w
    obtain x w1 where x: "write_alias ms (Some g) al w = (x, w1)" by (cases "write_alias ms (Some g) al w")
    note w1 = unmarkedD [OF unmarked_write_alias [OF Cons.prems] x]
    show "state_of (snd (set_gucs_loop ms g (al # als) completed w)) = state_of w \<and>
        same_marks (m_req w) (m_req (snd (set_gucs_loop ms g (al # als) completed w)))"
    proof (cases x)
      case (Inl e)
      then show ?thesis using x w1 unmarked_app [OF fail, of "is_exception e" e w1]
        by (auto intro: same_marks_trans)
    next
      case (Inr y)
      then show ?thesis using x w1 unmarked_app [OF Cons.IH [OF Cons.prems], of "completed @ [al]" w1]
        by (auto intro: same_marks_trans)
    qed
  qed
qed

lemma unmarked_set_gucs [unmarked_intros]: "mw_ok ms \<Longrightarrow> unmarked (set_gucs_on_all_databases ms vs)"
  unfolding set_gucs_on_all_databases_def
  by (cases "context_gucs_of (cfg_of ms) vs") (auto intro!: unmarked_intros unmarked_set_loop)

lemma unmarked_resolve [unmarked_intros]: "unmarked (resolve_request_user ms user member)"
  unfolding resolve_request_user_def by (auto split: sum.split intro!: unmarked_intros)

lemma unmarked_audits [unmarked_intros]:
  "unmarked (audit_request_entered ms t a u)" "unmarked (audit_request_exited ms)"
proof -
  show "unmarked (audit_request_entered ms t a u)"
    unfolding audit_request_entered_def by (intro unmarked_intros unmarked_set_attr) (simp add: same_marks_def)
  have "unmarked (py_seq (set_attr (\<lambda>r. r\<lparr>mr_audited := None\<rparr>)) (log_audit f))" for f
    by (intro unmarked_intros unmarked_set_attr) (simp add: same_marks_def)
  then show "unmarked (audit_request_exited ms)"
    unfolding audit_request_exited_def unmarked_def by (auto split: option.split)
qed

lemma same_more: "request.more r' = request.more r \<Longrightarrow> same_marks r r'"
  by (cases r; cases r') (simp add: same_marks_def)

lemma unmarked_member_of [unmarked_intros]: "unmarked (member_of ms user)"
proof -
  have "unmarked (on_sel (request_tenant_id (ms_sel ms) user s))" for s
    unfolding unmarked_def on_sel_def case_prod_unfold
    by (auto simp: state_of_def same_more [OF request_tenant_id_more, of "\<lparr>sw_request = _, sw_log = _\<rparr>", simplified])
  then show ?thesis unfolding member_of_def by (intro unmarked_intros)
qed

subsection \<open>What happens to the state during a request\<close>

text \<open>
  Code that may do anything to the context variables and end any holder, but brings none back to
  life, uses no token of another and stays in its context.
\<close>

definition tame :: "rls_state \<Rightarrow> rls_state \<Rightarrow> bool" where
  "tame s t \<longleftrightarrow> tokened s t \<and> (\<forall>a < serials s. values_of s (Some a) = None \<longrightarrow> values_of t (Some a) = None)"

lemma tame_trans: "tame s t \<Longrightarrow> tame t u \<Longrightarrow> tame s u"
  by (auto simp: tame_def tokened_def)

lemma tame_refl: "state_ok s \<Longrightarrow> tame s s"
  by (simp add: tame_def tokened_def)

lemma tame_ok: "tame s t \<Longrightarrow> state_ok t"
  by (simp add: tame_def tokened_def)

text \<open>No context, as between two requests.\<close>

abbreviation no_context :: "rls_state \<Rightarrow> bool" where
  "no_context s \<equiv> sees None False None s"

definition at_rest :: "rls_state \<Rightarrow> rls_state \<Rightarrow> bool" where
  "at_rest s t \<longleftrightarrow> tame s t \<and> c_tenant (cur_ctx t) = None \<and> \<not> c_active (cur_ctx t)"

lemma values_of_heap: "heap t a = heap s a \<Longrightarrow> values_of t (Some a) = values_of s (Some a)"
  by (simp add: values_of_def)

lemma hold_no_context:
  assumes ok: "state_ok s" and none: "no_context s" and hold: "hold_context_gucs s = (h, s1)"
  shows "at_rest s s1 \<and> gt_live h < serials s1 \<and> values_of s1 (Some (gt_live h)) = None \<and> tokens s1 = Suc (tokens s) \<and>
    gt_token h = \<lparr>t_id = tokens s, t_ctx = cur s, t_old = current_live s\<rparr> \<and>
    (\<forall>a < serials s. heap s1 a = heap s a) \<and> used s1 = used s"
proof (cases "current_live s")
  case None
  then show ?thesis using assms
    by (auto simp: hold_context_gucs_def new_live_def cv_set_def Let_def state_ok_def heap_wf_def at_rest_def tame_def
        tokened_def current_live_def put_gucs_def sees_def get_current_tenant_id_def get_rls_context_active_def
        values_of_def cur_ctx_def upd_ctx_def less_Suc_eq split: if_splits)
next
  case (Some a)
  then show ?thesis using assms
    by (auto simp: hold_context_gucs_def cv_set_def Let_def state_ok_def heap_wf_def at_rest_def tame_def
        tokened_def current_live_def put_gucs_def sees_def get_current_tenant_id_def get_rls_context_active_def
        get_context_gucs_def values_of_def cur_ctx_def upd_ctx_def)
qed

lemma release_no_context:
  assumes ok: "state_ok s" and none: "no_context s" and hold: "hold_context_gucs s = (h, s1)" and rest: "at_rest s1 t"
  shows "\<exists>t'. release_context_gucs h t = (Inr (), t') \<and> no_context t' \<and> state_ok t' \<and> cur t' = cur s"
proof -
  note h = hold_no_context [OF ok none hold]
  have t: "state_ok t" "cur t = cur s" "\<not> used t (tokens s)" "serials s \<le> serials t" "tokens s < tokens t"
    using rest h ok by (auto simp: at_rest_def tame_def tokened_def state_ok_def)
  let ?v = "upd_ctx (put_gucs (current_live s)) (t\<lparr>used := (used t)(tokens s := True)\<rparr>)"
  let ?t' = "end_if_newer (current_live t) (Some (gt_live h)) ?v"
  have run: "release_context_gucs h t = (Inr (), ?t')"
    using h t by (simp add: release_context_gucs_def Let_def cv_reset_def)
  have "heap_wf ?v" using t(1) by (simp add: state_ok_def heap_wf_def)
  then have wf: "heap_wf ?t'" using heap_grows_end_if_newer [of ?v] by (simp add: heap_grows_def)
  have ctx: "cur_ctx ?t' = \<lparr>c_tenant = None, c_active = False, c_gucs = current_live s\<rparr>"
    using rest by (cases "cur_ctx t") (auto simp: at_rest_def put_gucs_def)
  have old: "values_of ?t' (current_live s) = None"
  proof (cases "current_live s")
    case None
    then show ?thesis by (simp add: values_of_def)
  next
    case (Some a)
    then have "a < serials s" "values_of s (Some a) = None"
      using ok none by (auto simp: state_ok_def sees_def get_context_gucs_def)
    moreover have "tame s t" using h rest tame_trans unfolding at_rest_def by blast
    ultimately have "values_of t (Some a) = None" by (simp add: tame_def)
    then show ?thesis using Some
      by (auto simp: values_of_def end_if_newer_def end_live_def split: option.splits)
  qed
  have "state_ok ?t'"
    using wf t ok ctx by (auto simp: state_ok_def current_live_def)
  moreover have "no_context ?t'"
    using ctx old by (simp add: sees_def get_current_tenant_id_def get_rls_context_active_def get_context_gucs_def current_live_def)
  ultimately show ?thesis using run t(2) by simp
qed

text \<open>Setting a context variable.\<close>

lemma cv_set_tame:
  assumes "state_ok s" and "cv_set get put v s = (t, s1)" and "\<And>c. c_gucs (put v c) = c_gucs c"
  shows "tame s s1 \<and> cur_ctx s1 = put v (cur_ctx s)"
  using assms by (auto simp: cv_set_def tame_def tokened_def state_ok_def heap_wf_def current_live_def cur_ctx_def
      upd_ctx_def values_of_def)

lemma clear_tenant_tame:
  assumes "state_ok (state_of w)"
  shows "\<exists>s1. reset_or_clear_tenant None w = (Inr (), w\<lparr>m_aff := (m_aff w)\<lparr>a_state := s1\<rparr>\<rparr>) \<and> tame (state_of w) s1 \<and>
     cur_ctx s1 = put_tenant None (cur_ctx (state_of w))"
proof -
  obtain t s1 where s1: "set_current_tenant_id None (state_of w) = (t, s1)" by (cases "set_current_tenant_id None (state_of w)")
  have "tame (state_of w) s1 \<and> cur_ctx s1 = put_tenant None (cur_ctx (state_of w))"
    by (rule cv_set_tame [OF assms s1 [unfolded set_current_tenant_id_def]]) (simp add: put_tenant_def)
  then show ?thesis using s1
    by (intro exI [of _ s1]) (simp add: reset_or_clear_tenant_def reset_or_clear_def on_set_def on_ctx_def on_aff_def on_state_def
        py_bind_def py_ret_def state_of_def)
qed

lemma clear_active_tame:
  assumes "state_ok (state_of w)"
  shows "\<exists>s1. reset_or_clear_active None w = (Inr (), w\<lparr>m_aff := (m_aff w)\<lparr>a_state := s1\<rparr>\<rparr>) \<and> tame (state_of w) s1 \<and>
     cur_ctx s1 = put_active False (cur_ctx (state_of w))"
proof -
  obtain t s1 where s1: "set_rls_context_active False (state_of w) = (t, s1)" by (cases "set_rls_context_active False (state_of w)")
  have "tame (state_of w) s1 \<and> cur_ctx s1 = put_active False (cur_ctx (state_of w))"
    by (rule cv_set_tame [OF assms s1 [unfolded set_rls_context_active_def]]) (simp add: put_active_def)
  then show ?thesis using s1
    by (intro exI [of _ s1]) (simp add: reset_or_clear_active_def reset_or_clear_def on_set_def on_ctx_def on_aff_def on_state_def
        py_bind_def py_ret_def state_of_def)
qed

lemma state_of_put [simp]: "state_of (w\<lparr>m_aff := a\<rparr>) = a_state a" "state_of (w\<lparr>m_req := q\<rparr>) = state_of w"
  by (simp_all add: state_of_def)

subsection \<open>The phases of a request\<close>

text \<open>
  \<open>s1\<close> is the state in which the request started, with its holder.  A request is fresh (nothing set),
  entered (its three tokens are on it, and what ran since is tame), or done.
\<close>

definition served :: "rls_state \<Rightarrow> 'd mw \<Rightarrow> bool" where
  "served s1 w \<longleftrightarrow> at_rest s1 s1 \<and>
     (\<exists>h. mr_found (m_req w) = Some (Some h) \<and> h < serials s1 \<and> values_of s1 (Some h) = None)"

definition fresh_req :: "rls_state \<Rightarrow> 'd mw \<Rightarrow> bool" where
  "fresh_req s1 w \<longleftrightarrow> \<not> mr_state_reset (m_req w) \<and> \<not> has_token (m_req w) \<and> tame s1 (state_of w)"

definition entered_req :: "rls_state \<Rightarrow> 'd mw \<Rightarrow> bool" where
  "entered_req s1 w \<longleftrightarrow> \<not> mr_state_reset (m_req w) \<and>
     (\<exists>s s2 b. at_rest s1 s \<and> entered_from s s2 b \<and> tame s2 (state_of w) \<and>
        mr_tenant_token (m_req w) = Some (bt_tenant b) \<and> mr_active_token (m_req w) = Some (bt_active b) \<and>
        mr_gucs_token (m_req w) = Some (bt_gucs b))"

definition done_req :: "rls_state \<Rightarrow> 'd mw \<Rightarrow> bool" where
  "done_req s1 w \<longleftrightarrow> mr_state_reset (m_req w) \<and> at_rest s1 (state_of w)"

definition req_inv :: "rls_state \<Rightarrow> 'd mw \<Rightarrow> bool" where
  "req_inv s1 w \<longleftrightarrow> served s1 w \<and> (fresh_req s1 w \<or> entered_req s1 w \<or> done_req s1 w)"

lemmas phase_defs = served_def fresh_req_def entered_req_def done_req_def req_inv_def has_token_def

lemma phases_cong:
  assumes "state_of w' = state_of w" "same_marks (m_req w) (m_req w')"
  shows "served s1 w' = served s1 w" "done_req s1 w' = done_req s1 w" "req_inv s1 w' = req_inv s1 w"
  using assms by (simp_all add: phase_defs same_marks_def)

text \<open>What runs between the hooks: it keeps the marks, and after the end of the request's context, that end.\<close>

definition calm :: "'d mw \<Rightarrow> 'd mw \<Rightarrow> bool" where
  "calm w w' \<longleftrightarrow> same_marks (m_req w) (m_req w') \<and> tame (state_of w) (state_of w') \<and>
     (mr_state_reset (m_req w) \<longrightarrow>
        c_tenant (cur_ctx (state_of w')) = c_tenant (cur_ctx (state_of w)) \<and>
        c_active (cur_ctx (state_of w')) = c_active (cur_ctx (state_of w)))"

lemma calm_inv:
  assumes w: "req_inv s1 w" and c: "calm w w'"
  shows "req_inv s1 w'"
proof -
  have t: "tame s (state_of w')" if "tame s (state_of w)" for s
    using tame_trans [OF that] c by (simp add: calm_def)
  have "served s1 w'" using w c by (auto simp: req_inv_def served_def calm_def same_marks_def)
  moreover consider "fresh_req s1 w" | "entered_req s1 w" | "done_req s1 w" using w by (auto simp: req_inv_def)
  then have "fresh_req s1 w' \<or> entered_req s1 w' \<or> done_req s1 w'"
  proof cases
    case 1
    then have "fresh_req s1 w'" using c t [of s1]
      by (simp add: fresh_req_def has_token_def calm_def same_marks_def)
    then show ?thesis by simp
  next
    case 2
    then obtain s s2 b where b: "at_rest s1 s" "entered_from s s2 b" "tame s2 (state_of w)"
      "mr_tenant_token (m_req w) = Some (bt_tenant b)" "mr_active_token (m_req w) = Some (bt_active b)"
      "mr_gucs_token (m_req w) = Some (bt_gucs b)" "\<not> mr_state_reset (m_req w)"
      unfolding entered_req_def by blast
    then have "entered_req s1 w'" using c t [OF b(3)] unfolding entered_req_def calm_def same_marks_def by metis
    then show ?thesis by simp
  next
    case 3
    then have "done_req s1 w'" using c t [of s1] by (simp add: done_req_def at_rest_def calm_def same_marks_def)
    then show ?thesis by simp
  qed
  ultimately show ?thesis by (simp add: req_inv_def)
qed

lemma req_inv_ok: "req_inv s1 w \<Longrightarrow> state_ok (state_of w)"
  by (auto simp: phase_defs at_rest_def dest: tame_ok)

lemma entered_from_tame: "entered_from s s2 b \<Longrightarrow> tame s s2"
  by (auto simp: entered_from_def tame_def tokened_def values_of_def)

lemma on_ctx_run: "m (state_of w) = (r, s) \<Longrightarrow> on_ctx m w = (r, w\<lparr>m_aff := (m_aff w)\<lparr>a_state := s\<rparr>\<rparr>)"
  by (simp add: on_ctx_def on_aff_def on_state_def state_of_def)

lemma end_blocks_calm:
  assumes "state_ok (state_of w)" shows "calm w (snd (end_blocks_left_open w))"
proof -
  have t: "tame s (end_if_newer c f s) \<and> cur_ctx (end_if_newer c f s) = cur_ctx s" if s: "state_ok s" for c f s
  proof -
    have "heap_wf s" using s by (simp add: state_ok_def)
    then have "heap_wf (end_if_newer c f s)" using heap_grows_end_if_newer [of s c f] by (simp add: heap_grows_def)
    then have "state_ok (end_if_newer c f s)" using s by (simp add: state_ok_def current_live_def)
    moreover have "values_of s (Some a) = None \<Longrightarrow> values_of (end_if_newer c f s) (Some a) = None" for a
      by (auto simp: end_if_newer_def end_live_def values_of_def split: option.splits if_splits)
    ultimately show ?thesis by (simp add: tame_def tokened_def)
  qed
  have same: "calm w w" using assms by (simp add: calm_def tame_refl)
  show ?thesis using same t [OF assms]
    by (auto simp: end_blocks_left_open_def Let_def calm_def on_ctx_def on_aff_def on_state_def py_modify_def state_of_def
        split: option.split)
qed

subsection \<open>The end of a request ends its context\<close>

lemma reset_fresh:
  assumes w: "fresh_req s1 w" "served s1 w"
  shows "\<exists>w'. reset_request_state w = (Inr (), w') \<and> done_req s1 w' \<and> served s1 w'"
proof -
  have ok: "state_ok (state_of w)" using w by (auto simp: fresh_req_def dest: tame_ok)
  obtain h where h: "mr_found (m_req w) = Some (Some h)" "h < serials s1" "values_of s1 (Some h) = None"
    using w(2) by (auto simp: served_def)
  have notin: "\<not> served_inside_a_context w"
    using w h by (auto simp: served_inside_a_context_def fresh_req_def tame_def)
  obtain s2 where s2: "reset_or_clear_tenant None w = (Inr (), w\<lparr>m_aff := (m_aff w)\<lparr>a_state := s2\<rparr>\<rparr>)"
    "tame (state_of w) s2" "cur_ctx s2 = put_tenant None (cur_ctx (state_of w))"
    using clear_tenant_tame [OF ok] by blast
  let ?w2 = "w\<lparr>m_aff := (m_aff w)\<lparr>a_state := s2\<rparr>\<rparr>"
  have ok2: "state_ok (state_of ?w2)" using tame_ok [OF s2(2)] by simp
  obtain s3 where s3: "reset_or_clear_active None ?w2 = (Inr (), ?w2\<lparr>m_aff := (m_aff ?w2)\<lparr>a_state := s3\<rparr>\<rparr>)"
    "tame (state_of ?w2) s3" "cur_ctx s3 = put_active False (cur_ctx (state_of ?w2))"
    using clear_active_tame [OF ok2] by blast
  let ?w3 = "?w2\<lparr>m_aff := (m_aff ?w2)\<lparr>a_state := s3\<rparr>\<rparr>"
  let ?w4 = "?w3\<lparr>m_req := (m_req ?w3)\<lparr>mr_state_reset := True\<rparr>\<rparr>"
  have "reset_request_state w = (Inr (), ?w4)"
    using w(1) notin s2(1) s3(1)
    by (simp add: reset_request_state_def fresh_req_def has_token_def end_context_gucs_def py_seq_def py_bind_def
        set_attr_def py_simps)
  moreover have "at_rest s1 (state_of ?w4)"
    using w(1) s2 s3 tame_trans [OF _ tame_trans [OF s2(2)]]
    by (auto simp: at_rest_def fresh_req_def put_tenant_def put_active_def)
  then have "done_req s1 ?w4" by (simp add: done_req_def)
  moreover have "served s1 ?w4" using w(2) by (simp add: served_def)
  ultimately show ?thesis by blast
qed

lemma reset_entered:
  assumes w: "entered_req s1 w" "served s1 w"
  shows "\<exists>w'. reset_request_state w = (Inr (), w') \<and> done_req s1 w' \<and> served s1 w'"
proof -
  obtain s s2 b where b: "at_rest s1 s" "entered_from s s2 b" "tame s2 (state_of w)"
    and marks: "\<not> mr_state_reset (m_req w)" "mr_tenant_token (m_req w) = Some (bt_tenant b)"
      "mr_active_token (m_req w) = Some (bt_active b)" "mr_gucs_token (m_req w) = Some (bt_gucs b)"
    using w(1) by (auto simp: entered_req_def)
  have "tokened s2 (state_of w)" using b(3) by (simp add: tame_def)
  from exit_tokened [OF b(2) this] obtain s3 s4 s5 where x:
    "reset_context_gucs (bt_gucs b) (state_of w) = (Inr (), s3)" "reset_current_tenant_id (bt_tenant b) s3 = (Inr (), s4)"
    "reset_rls_context_active (bt_active b) s4 = (Inr (), s5)" "tokened s s5" "cur_ctx s5 = cur_ctx s"
    "\<forall>a < serials s. heap s5 a = heap (state_of w) a" by blast
  let ?w4 = "w\<lparr>m_aff := (m_aff w)\<lparr>a_state := s5\<rparr>, m_req := (m_req w)\<lparr>mr_state_reset := True\<rparr>\<rparr>"
  have "tame s (state_of w)" using tame_trans [OF entered_from_tame [OF b(2)] b(3)] .
  then have "tame s s5" using x(4,6) by (auto simp: tame_def values_of_def)
  then have "at_rest s1 s5" using b(1) x(5) tame_trans unfolding at_rest_def by metis
  moreover have "reset_request_state w = (Inr (), ?w4)"
    using marks x
    by (simp add: reset_request_state_def has_token_def end_context_gucs_def reset_or_clear_tenant_def
        reset_or_clear_active_def reset_or_clear_def py_seq_def py_bind_def py_except_def on_ctx_run set_attr_def py_simps)
  ultimately show ?thesis using w(2) by (auto simp: done_req_def served_def)
qed

lemma cleanup_done:
  assumes ok: "mw_ok ms" and w: "req_inv s1 w"
  shows "done_req s1 (snd (cleanup_rls_state ms w)) \<and> served s1 (snd (cleanup_rls_state ms w))"
proof -
  have served: "served s1 w" using w by (simp add: req_inv_def)
  obtain w1 where w1: "reset_request_state w = (Inr (), w1)" "done_req s1 w1" "served s1 w1"
    using w reset_fresh [of s1 w] reset_entered [of s1 w]
    by (fastforce simp: req_inv_def done_req_def reset_request_state_def)
  have "unmarked (clear_if_set ms)"
    unfolding clear_if_set_def using ok by (intro unmarked_intros)
  then have "unmarked (py_finally (clear_if_set ms) (\<lambda>_. audit_request_exited ms))" by (intro unmarked_intros)
  then obtain r w2 where w2: "py_finally (clear_if_set ms) (\<lambda>_. audit_request_exited ms) w1 = (r, w2)"
    "state_of w2 = state_of w1" "same_marks (m_req w1) (m_req w2)"
    using unmarkedD by (metis surj_pair)
  then have "snd (cleanup_rls_state ms w) = w2"
    using w1(1) by (auto simp: cleanup_rls_state_def py_finally_def split: sum.splits)
  then show ?thesis using w1 phases_cong [OF w2(2,3)] by simp
qed

lemma cleanup_inv: "mw_ok ms \<Longrightarrow> req_inv s1 w \<Longrightarrow> req_inv s1 (snd (cleanup_rls_state ms w))"
  by (drule (1) cleanup_done) (simp add: req_inv_def)

lemma process_exception_inv:
  assumes ok: "mw_ok ms" and w: "req_inv s1 w"
  shows "req_inv s1 (snd (process_exception ms w))"
proof -
  let ?first = "\<lambda>w. if mr_owns_tx (m_req w) then set_attr (\<lambda>r. r\<lparr>mr_rollback_tx := True\<rparr>) w else cleanup_rls_state ms w"
  obtain r w1 where w1: "?first w = (r, w1)" by (cases "?first w")
  have "req_inv s1 w1"
  proof (cases "mr_owns_tx (m_req w)")
    case True
    have "unmarked (set_attr (\<lambda>r. r\<lparr>mr_rollback_tx := True\<rparr>))" by (rule unmarked_set_attr) (simp add: same_marks_def)
    then show ?thesis using True w1 w phases_cong(3) unmarkedD by (metis (no_types, lifting))
  next
    case False
    then show ?thesis using w1 cleanup_inv [OF ok w] by simp
  qed
  moreover have "calm w1 (snd (end_blocks_left_open w1))"
    using end_blocks_calm req_inv_ok calculation by blast
  moreover have "snd (process_exception ms w) = snd (end_blocks_left_open w1)"
    using w1 by (auto simp: process_exception_def py_finally_def split: prod.split sum.split)
  ultimately show ?thesis using calm_inv by simp
qed


subsection \<open>The start of a request\<close>

lemma entered_from_sets:
  assumes ok: "state_ok s"
    and sets: "set_current_tenant_id tenant s = (t, sa)" "set_rls_context_active True sa = (a, sb)"
      "set_context_gucs gucs block sb = (g, sc)"
  shows "entered_from s sc \<lparr>bt_active = a, bt_tenant = t, bt_gucs = g\<rparr> \<and> sees tenant True gucs sc"
proof -
  have frame: "t = \<lparr>t_id = tokens s, t_ctx = cur s, t_old = c_tenant (cur_ctx s)\<rparr>"
    "a = \<lparr>t_id = tokens s + 1, t_ctx = cur s, t_old = c_active (cur_ctx s)\<rparr>"
    "g = \<lparr>gt_token = \<lparr>t_id = tokens s + 2, t_ctx = cur s, t_old = c_gucs (cur_ctx s)\<rparr>, gt_live = serials s\<rparr>"
    "cur sc = cur s" "tokens sc = tokens s + 3" "used sc = used s" "serials sc = Suc (serials s)"
    "heap sc = (heap s)(serials s \<mapsto> \<lparr>l_values = gucs, l_block = block, l_alive = True, l_serial = serials s\<rparr>)"
    "cur_ctx sc = \<lparr>c_tenant = tenant, c_active = True, c_gucs = Some (serials s)\<rparr>"
    using sets
    by (auto simp: set_rls_context_active_def set_current_tenant_id_def set_context_gucs_def
      new_live_def cv_set_def upd_ctx_def cur_ctx_def put_active_def put_tenant_def put_gucs_def Let_def)
  have "state_ok sc" using ok frame(4-9) by (auto simp: state_ok_def heap_wf_def current_live_def)
  moreover have "sees tenant True gucs sc"
    using frame(4-9) by (simp add: sees_def get_current_tenant_id_def get_rls_context_active_def
        get_context_gucs_def values_of_def current_live_def)
  ultimately show ?thesis using ok frame unfolding entered_from_def
    by (auto intro!: exI [of _ "Suc (tokens s)"] exI [of _ "tokens s"])
qed

lemma context_gucs_of_items [simp]: "\<exists>g. context_gucs_of cfg (guc_items cfg a t) = Inr g"
  by (simp add: context_gucs_of_def guc_items_def)

lemma resolved_items:
  assumes "resolve_request_user ms user member w = (Inr vs, w')"
  shows "w' = w \<and> resolve_user_guc_vars (cfg_of ms) (tenant_user.truncate user) (case member of None \<Rightarrow> None | Some t \<Rightarrow> t) = Inr vs"
  using assms
  by (auto simp: resolve_request_user_def py_seq_def py_bind_def py_simps log_audit_def split: sum.splits if_splits)

lemma resolved_context: "resolve_user_guc_vars cfg user sel = Inr vs \<Longrightarrow> \<exists>g. context_gucs_of cfg vs = Inr g"
  by (auto simp: resolve_user_guc_vars_def split: if_splits option.splits)

lemma enter_failed_done:
  assumes ok: "mw_ok ms" and w: "fresh_req s1 w" "at_rest s1 (state_of w)" "served s1 w"
    and run: "enter_failed ms None None None e w = (r, w')"
  shows "req_inv s1 w' \<and> isl r"
proof -
  have ok0: "state_ok (state_of w)" using w by (auto simp: at_rest_def dest: tame_ok)
  obtain s2 where s2: "reset_or_clear_tenant None w = (Inr (), w\<lparr>m_aff := (m_aff w)\<lparr>a_state := s2\<rparr>\<rparr>)"
    "tame (state_of w) s2" "cur_ctx s2 = put_tenant None (cur_ctx (state_of w))"
    using clear_tenant_tame [OF ok0] by blast
  let ?w2 = "w\<lparr>m_aff := (m_aff w)\<lparr>a_state := s2\<rparr>\<rparr>"
  have ok2: "state_ok (state_of ?w2)" using tame_ok [OF s2(2)] by simp
  obtain s3 where s3: "reset_or_clear_active None ?w2 = (Inr (), ?w2\<lparr>m_aff := (m_aff ?w2)\<lparr>a_state := s3\<rparr>\<rparr>)"
    "tame (state_of ?w2) s3" "cur_ctx s3 = put_active False (cur_ctx (state_of ?w2))"
    using clear_active_tame [OF ok2] by blast
  let ?w3 = "?w2\<lparr>m_aff := (m_aff ?w2)\<lparr>a_state := s3\<rparr>\<rparr>"
  let ?w4 = "?w3\<lparr>m_req := (m_req ?w3)\<lparr>mr_state_reset := True\<rparr>\<rparr>"
  have "at_rest s1 (state_of ?w4)"
    using w(2) s2 s3 tame_trans [OF _ tame_trans [OF s2(2)]]
    by (auto simp: at_rest_def put_tenant_def put_active_def)
  then have d: "done_req s1 ?w4" "served s1 ?w4" using w(3) by (simp_all add: done_req_def served_def)
  have rest: "unmarked (py_seq (clear_gucs_on_all_databases ms) (py_raise e))"
    using ok by (intro unmarked_intros)
  have "py_seq (clear_gucs_on_all_databases ms) (py_raise e) ?w4 = (r, w')"
    using run s2(1) s3(1)
    by (simp add: enter_failed_def end_context_gucs_def py_seq_def py_bind_def py_modify_def py_ret_def set_attr_def)
  from unmarkedD [OF rest this] d have "req_inv s1 w'"
    using phases_cong [of w' ?w4 s1] by (auto simp: req_inv_def)
  moreover have "isl r" using run by (auto simp: enter_failed_def py_seq_def py_bind_def py_raise_def split: prod.splits sum.splits)
  ultimately show ?thesis by simp
qed

lemma entered_reqI:
  "\<not> mr_state_reset (m_req w) \<Longrightarrow> at_rest s1 s \<Longrightarrow> entered_from s s2 b \<Longrightarrow> tame s2 (state_of w) \<Longrightarrow>
   mr_tenant_token (m_req w) = Some (bt_tenant b) \<Longrightarrow> mr_active_token (m_req w) = Some (bt_active b) \<Longrightarrow>
   mr_gucs_token (m_req w) = Some (bt_gucs b) \<Longrightarrow> entered_req s1 w"
  unfolding entered_req_def by blast

lemma unmarked_prepared: "mw_ok ms \<Longrightarrow> unmarked (prepared ms user member)"
  unfolding prepared_def by (intro unmarked_intros)

text \<open>Entering a user either fails and ends as if it had not begun, or leaves the three tokens on the request.\<close>

lemma enter_user_inv:
  assumes ok: "mw_ok ms" and w: "fresh_req s1 w" "at_rest s1 (state_of w)" "served s1 w"
    and run: "enter_user ms user member w = (r, w')"
  shows "req_inv s1 w' \<and>
    (r = Inr () \<longrightarrow> (\<exists>vs g. resolve_user_guc_vars (cfg_of ms) (tenant_user.truncate user) (case member of None \<Rightarrow> None | Some t \<Rightarrow> t) = Inr vs \<and>
        context_gucs_of (cfg_of ms) vs = Inr g \<and> sees (scope_tenant_id user member) True (Some g) (state_of w')))"
proof -
  obtain q w1 where q: "prepared ms user member w = (q, w1)" by (cases "prepared ms user member w")
  note u = unmarkedD [OF unmarked_prepared [OF ok] q]
  have w1: "fresh_req s1 w1" "at_rest s1 (state_of w1)" "served s1 w1"
    using w u phases_cong(1) [of w1 w s1] by (auto simp: fresh_req_def has_token_def same_marks_def)
  show ?thesis
  proof (cases q)
    case (Inl e)
    show ?thesis
    proof (cases "is_exception e")
      case True
      obtain p w2 where p: "enter_failed ms None None None e w1 = (p :: exn + (string \<times> string) list, w2)" by (cases "enter_failed ms None None None e w1 :: (exn + (string \<times> string) list) \<times> _")
      with enter_failed_done [OF ok w1 p] obtain e' where "p = Inl e'" "req_inv s1 w2" by (cases p) auto
      then show ?thesis using run q Inl True p
        by (auto simp: enter_user_def py_except_def py_bind_def)
    next
      case False
      then have "w' = w1" "r = Inl e" using run q Inl
        by (auto simp: enter_user_def py_except_def py_bind_def)
      then show ?thesis using w1 by (simp add: req_inv_def)
    qed
  next
    case (Inr vs)
    then have vs: "resolve_user_guc_vars (cfg_of ms) (tenant_user.truncate user) (case member of None \<Rightarrow> None | Some t \<Rightarrow> t) = Inr vs"
      using q unfolding prepared_def
      by (auto elim!: py_bind_InrE py_seq_InrE dest!: resolved_items simp: py_ret_def)
    then obtain g where g: "context_gucs_of (cfg_of ms) vs = Inr g" using resolved_context by blast
    let ?s = "state_of w1"
    obtain t sa where t: "set_current_tenant_id (scope_tenant_id user member) ?s = (t, sa)" by (cases "set_current_tenant_id (scope_tenant_id user member) ?s")
    obtain a sb where a: "set_rls_context_active True sa = (a, sb)" by (cases "set_rls_context_active True sa")
    obtain k sc where k: "set_context_gucs (Some g) False sb = (k, sc)" by (cases "set_context_gucs (Some g) False sb")
    have "state_ok ?s" using w1(2) by (auto simp: at_rest_def dest: tame_ok)
    note e = entered_from_sets [OF this t a k]
    let ?w2 = "w1\<lparr>m_aff := (m_aff w1)\<lparr>a_state := sc\<rparr>, m_req := (m_req w1)\<lparr>mr_tenant_token := Some t, mr_active_token := Some a, mr_gucs_token := Some k\<rparr>\<rparr>"
    have sa: "a_state (m_aff w1) = ?s" by (simp add: state_of_def)
    have tail: "enter_user ms user member w = py_seq (mark_gucs_set None)
        (audit_request_entered ms (scope_tenant_id user member) (u_is_admin user) (u_pk user)) ?w2"
      using q Inr g t a k sa
      by (simp add: enter_user_def py_except_def py_bind_def py_seq_def Let_def on_set_def
          on_ctx_def on_aff_def on_state_def set_attr_def py_modify_def)
    have un: "unmarked (py_seq (mark_gucs_set None) (audit_request_entered ms (scope_tenant_id user member) (u_is_admin user) (u_pk user)))"
      by (intro unmarked_intros)
    have "state_ok sc" using e by (simp add: entered_from_def)
    then have "entered_req s1 ?w2" using w1 e
      by (intro entered_reqI [of ?w2 s1 ?s sc "\<lparr>bt_active = a, bt_tenant = t, bt_gucs = k\<rparr>"])
         (simp_all add: fresh_req_def tame_refl)
    moreover have "served s1 ?w2" using w1(3) by (simp add: served_def)
    ultimately have "req_inv s1 ?w2" by (simp add: req_inv_def)
    then show ?thesis using run tail unmarkedD [OF un, of ?w2 r w'] phases_cong(3) [of w' ?w2 s1] e vs g by auto
  qed
qed

lemma process_request_inv:
  assumes ok: "mw_ok ms" and w: "fresh_req s1 w" "at_rest s1 (state_of w)" "served s1 w"
  shows "req_inv s1 (snd (process_request ms w))"
proof (cases "rq_user (m_req w)")
  case None
  then show ?thesis using w by (simp add: process_request_def req_inv_def)
next
  case (Some user)
  obtain r w1 where r: "member_of ms user w = (r, w1)" by (cases "member_of ms user w")
  note u = unmarkedD [OF unmarked_member_of r]
  have w1: "fresh_req s1 w1" "at_rest s1 (state_of w1)" "served s1 w1"
    using w u phases_cong(1) [of w1 w s1] by (auto simp: fresh_req_def has_token_def same_marks_def)
  have "req_inv s1 (snd (enter_user ms user m w1))" for m
    using enter_user_inv [OF ok w1, of user m] by (metis surj_pair snd_conv)
  then show ?thesis using Some r w w1
    by (auto simp: process_request_def py_bind_def req_inv_def py_ret_def split: sum.split)
qed

subsection \<open>A whole request\<close>

text \<open>
  What is trusted of the rest of the chain and the view: it may do anything to the context variables,
  raise, and leave blocks open, and Django may run \<^verbatim>\<open>process_exception\<close> in it once; it uses no token of
  the middleware, and what runs after \<^verbatim>\<open>process_exception\<close> gives back the tenant and the flag it finds.
\<close>

definition chain_ok :: "'d mw_site \<Rightarrow> ('d mw, 'resp) py \<Rightarrow> bool" where
  "chain_ok ms g \<longleftrightarrow> (\<forall>w. state_ok (state_of w) \<longrightarrow>
     (\<exists>w1. calm w w1 \<and> (calm w1 (snd (g w)) \<or> calm (snd (process_exception ms w1)) (snd (g w)))))"

lemma chain_inv: "mw_ok ms \<Longrightarrow> chain_ok ms g \<Longrightarrow> req_inv s1 w \<Longrightarrow> req_inv s1 (snd (g w))"
  unfolding chain_ok_def using calm_inv process_exception_inv req_inv_ok by metis

lemma rest_of_inv: "done_req s1 w \<Longrightarrow> at_rest s1 (state_of w)"
  by (simp add: done_req_def)

lemma mixin_call_inv:
  assumes ok: "mw_ok ms" "chain_ok ms g" and w: "fresh_req s1 w" "at_rest s1 (state_of w)" "served s1 w"
    and run: "mixin_call ms pv g w = (r, w')"
  shows "req_inv s1 w' \<and> (r = Inr x \<longrightarrow> done_req s1 w')"
proof -
  obtain p w1 where p: "process_request ms w = (p, w1)" by (cases "process_request ms w")
  have i1: "req_inv s1 w1" using process_request_inv [OF ok(1) w] p by simp
  obtain q w2 where q: "g w1 = (q, w2)" by (cases "g w1")
  have i2: "req_inv s1 w2" using chain_inv [OF ok i1] q by simp
  obtain c w3 where c: "cleanup_rls_state ms w2 = (c, w3)" by (cases "cleanup_rls_state ms w2")
  have d: "done_req s1 w3" "served s1 w3" using cleanup_done [OF ok(1) i2] c by simp_all
  show ?thesis using run p q c i1 i2 d
    by (auto simp: mixin_call_def process_response_def py_seq_def py_bind_def req_inv_def split: sum.splits)
qed

lemma fresh_unmarked:
  assumes "unmarked m" "m w = (r, w')" and w: "fresh_req s1 w" "at_rest s1 (state_of w)" "served s1 w"
  shows "fresh_req s1 w'" "at_rest s1 (state_of w')" "served s1 w'"
  using unmarkedD [OF assms(1,2)] w phases_cong(1) [of w' w s1]
  by (auto simp: fresh_req_def has_token_def same_marks_def)

lemma in_transactions_rest:
  assumes ok: "mw_ok ms"
    and body: "\<And>w. fresh_req s1 w \<Longrightarrow> at_rest s1 (state_of w) \<Longrightarrow> served s1 w \<Longrightarrow> at_rest s1 (state_of (snd (body w)))"
    and w: "fresh_req s1 w" "at_rest s1 (state_of w)" "served s1 w"
  shows "at_rest s1 (state_of (snd (in_transactions ms als body w)))"
  using w
proof (induction als arbitrary: w)
  case Nil
  then show ?case using body by simp
next
  case (Cons al als)
  have un: "unmarked (on_aff (ms_atomic_enter ms al))" "unmarked (on_aff (ms_atomic_exit ms al b))" for b
    using ok by (auto simp: mw_ok_def intro!: unmarked_intros)
  obtain r w1 where r: "on_aff (ms_atomic_enter ms al) w = (r, w1)" by (cases "on_aff (ms_atomic_enter ms al) w")
  note f = fresh_unmarked [OF un(1) r Cons.prems]
  obtain q w2 where q: "in_transactions ms als body w1 = (q, w2)" by (cases "in_transactions ms als body w1")
  have "at_rest s1 (state_of w2)" using Cons.IH [OF f] q by simp
  moreover have "state_of (snd (on_aff (ms_atomic_exit ms al (isl q)) w2)) = state_of w2"
    using unmarked_app [OF un(2)] by blast
  ultimately have "at_rest s1 (state_of (snd (py_finally (in_transactions ms als body) (\<lambda>exc. on_aff (ms_atomic_exit ms al exc)) w1)))"
    using q by (auto simp: py_finally_def split: prod.split sum.split)
  then show ?case using r f(2) by (cases r) (simp_all add: py_seq_def py_bind_def)
qed

lemma py_for_returns: "(\<And>x w. fst (f x w) = Inr ()) \<Longrightarrow> fst (py_for xs f w) = Inr ()"
proof (induction xs arbitrary: w)
  case (Cons x xs)
  then show ?case using Cons.prems [of x w]
    by (cases "f x w") (simp add: py_seq_def py_bind_def)
qed (simp add: py_ret_def)

lemma request_rollback_returns: "mw_ok ms \<Longrightarrow> fst (request_rollback ms w) = Inr ()"
  by (auto simp: request_rollback_def mw_ok_def on_aff_def intro!: py_for_returns split: prod.split) (metis fst_conv)

lemma call_sync_rest:
  assumes ok: "mw_ok ms" "chain_ok ms g" and w: "fresh_req s1 w" "at_rest s1 (state_of w)" "served s1 w"
  shows "at_rest s1 (state_of (snd (call_sync ms pv g w)))"
proof (cases "\<not> use_local_set (cfg_of ms) \<or> \<not> is_authenticated (m_req w)")
  case True
  obtain r w1 where r: "mixin_call ms pv g w = (r, w1)" by (cases "mixin_call ms pv g w")
  obtain c w2 where c: "cleanup_rls_state ms w1 = (c, w2)" by (cases "cleanup_rls_state ms w1")
  have i: "req_inv s1 w1" "\<And>x. r = Inr x \<Longrightarrow> done_req s1 w1" using mixin_call_inv [OF ok w r] by blast+
  have "done_req s1 w2" using cleanup_done [OF ok(1) i(1)] c by simp
  then show ?thesis using True r c i(2)
    by (auto simp: call_sync_def py_except_def suppressed_def py_seq_def py_bind_def py_ret_def py_raise_def
        done_req_def split: sum.split)
next
  case False
  let ?owns = "\<lambda>b. set_attr (\<lambda>r. r\<lparr>mr_owns_tx := b\<rparr>)"
  have own: "unmarked (?owns b)" for b by (rule unmarked_set_attr) (simp add: same_marks_def)
  have rb: "unmarked (request_rollback ms)"
    unfolding request_rollback_def using ok(1) by (intro unmarked_intros) (auto simp: mw_ok_def)
  have "at_rest s1 (state_of (snd (py_seq (?owns True) (py_finally (mixin_call ms pv g)
           (\<lambda>_. py_finally (py_seq (request_rollback ms) (cleanup_rls_state ms)) (\<lambda>_. ?owns False))) v)))"
    if v: "fresh_req s1 v" "at_rest s1 (state_of v)" "served s1 v" for v
  proof -
    obtain v1 where v1: "?owns True v = (Inr (), v1)" by (simp add: set_attr_def py_modify_def)
    note f = fresh_unmarked [OF own v1 v]
    obtain r v2 where r: "mixin_call ms pv g v1 = (r, v2)" by (cases "mixin_call ms pv g v1")
    have i: "req_inv s1 v2" using mixin_call_inv [OF ok f r] by blast
    obtain p v3 where p: "request_rollback ms v2 = (p, v3)" by (cases "request_rollback ms v2")
    have i3: "req_inv s1 v3" using phases_cong(3) unmarkedD [OF rb p] i by metis
    obtain c v4 where c: "cleanup_rls_state ms v3 = (c, v4)" by (cases "cleanup_rls_state ms v3")
    have "p = Inr ()" using request_rollback_returns [OF ok(1), of v2] p by simp
    moreover have "done_req s1 v4" using cleanup_done [OF ok(1) i3] c by simp
    moreover have "state_of (snd (?owns False v4)) = state_of v4" using unmarked_app [OF own] by blast
    ultimately show ?thesis using v1 r p c
      by (auto simp: py_seq_def py_bind_def py_finally_def done_req_def set_attr_def py_modify_def split: sum.split)
  qed
  then show ?thesis using False unfolding call_sync_def call_in_transaction_def
    by (simp add: in_transactions_rest [OF ok(1) _ w])
qed

text \<open>
  C2. No request leaks into the next: on a thread with no context, whatever happens to a request
  (anonymous, of any user, refused, failing while its values are written, in the view, in
  the cleanup itself, interrupted by an exception that is not an \<^verbatim>\<open>Exception\<close>; with session values or in the
  transaction the middleware owns; with values or blocks left behind by the view), the thread has
  no tenant, no active flag and no GUC values for the guard when the request is over.
\<close>

theorem no_request_leaks:
  assumes ok: "mw_ok ms" "chain_ok ms get_response"
    and start: "state_ok (state_of w)" "no_context (state_of w)"
    and new: "\<not> has_token (m_req w)" "\<not> mr_state_reset (m_req w)"
  shows "no_context (state_of (snd (call ms patch_vary get_response w))) \<and>
         state_ok (state_of (snd (call ms patch_vary get_response w)))"
proof -
  obtain h s1 where h: "hold_context_gucs (state_of w) = (h, s1)" by (cases "hold_context_gucs (state_of w)")
  note held = hold_no_context [OF start h]
  let ?w1 = "w\<lparr>m_aff := (m_aff w)\<lparr>a_state := s1\<rparr>, m_req := (m_req w)\<lparr>mr_found := Some (Some (gt_live h))\<rparr>\<rparr>"
  have ok1: "state_ok s1" using held by (auto simp: at_rest_def dest: tame_ok)
  then have rest1: "at_rest s1 s1" using held by (auto simp: at_rest_def tame_refl)
  then have f: "fresh_req s1 ?w1" "at_rest s1 (state_of ?w1)" "served s1 ?w1"
    using new held ok1 by (simp_all add: fresh_req_def has_token_def served_def tame_refl)
  obtain r w2 where r: "call_sync ms patch_vary get_response ?w1 = (r, w2)"
    by (cases "call_sync ms patch_vary get_response ?w1")
  have "at_rest s1 (state_of w2)" using call_sync_rest [OF ok f] r by (metis snd_conv)
  from release_no_context [OF start h this] obtain t where
    t: "release_context_gucs h (state_of w2) = (Inr (), t)" "no_context t" "state_ok t" by blast
  have "call ms patch_vary get_response w = (r, w2\<lparr>m_aff := (m_aff w2)\<lparr>a_state := t\<rparr>\<rparr>)"
    using h r on_ctx_run [where m = "release_context_gucs h", OF t(1)]
    by (simp add: call_def holder_for_the_request_def on_set_def on_ctx_def on_aff_def on_state_def set_attr_def
        py_modify_def py_bind_def py_seq_def py_finally_def state_of_def)
  then show ?thesis using t by simp
qed

subsection \<open>The asynchronous path\<close>

lemma unmarked_enter_request_gucs: "mw_ok ms \<Longrightarrow> unmarked (enter_request_gucs ms)"
proof -
  assume ok: "mw_ok ms"
  have "unmarked (\<lambda>v. case context_gucs_of (cfg_of ms) vs of Inl e \<Rightarrow> (Inl e, v)
      | Inr gucs \<Rightarrow> (Inr (Some \<lparr>sc_tenant = t, sc_gucs = gucs, sc_marker = m_thread v, sc_user = u\<rparr>), v))" for vs t u
    by (simp add: unmarked_def split: sum.split)
  then have "unmarked (py_bind (member_of ms user) (\<lambda>member.
      if member = Some None then py_ret None
      else py_bind (py_except (prepared ms user member) is_exception (\<lambda>e. py_seq (clear_gucs_on_all_databases ms) (py_raise e)))
        (\<lambda>guc_vars v. case context_gucs_of (cfg_of ms) guc_vars of Inl e \<Rightarrow> (Inl e, v)
          | Inr gucs \<Rightarrow> (Inr (Some \<lparr>sc_tenant = scope_tenant_id user member, sc_gucs = gucs,
                                sc_marker = m_thread v, sc_user = u_pk user\<rparr>), v))))" for user
    using ok by (intro unmarked_intros unmarked_prepared)
  then show ?thesis unfolding enter_request_gucs_def unmarked_def by (auto split: option.split)
qed

lemma unmarked_aenter: "mw_ok ms \<Longrightarrow> unmarked (aenter_request ms hop cancelled)"
proof -
  assume ok: "mw_ok ms"
  have one: "unmarked (on_thread hop (enter_request_gucs ms))"
    using ok by (intro unmarked_intros unmarked_enter_request_gucs)
  have two: "unmarked (py_seq (on_thread hop (clear_gucs_on_all_databases ms)) (py_raise cancelled_error))"
    using ok by (intro unmarked_intros)
  show ?thesis unfolding unmarked_def
  proof
    fix w
    obtain r w1 where r: "on_thread hop (enter_request_gucs ms) w = (r, w1)" by (cases "on_thread hop (enter_request_gucs ms) w")
    from unmarkedD [OF one r] unmarked_app [OF two, of w1]
    show "state_of (snd (aenter_request ms hop cancelled w)) = state_of w \<and>
        same_marks (m_req w) (m_req (snd (aenter_request ms hop cancelled w)))"
      using r by (auto simp: aenter_request_def intro: same_marks_trans)
  qed
qed

text \<open>
  The rest of the chain, awaited (hops in copies of the context run \<^verbatim>\<open>process_exception\<close>): it may do
  anything to the context variables of an entered request, and gives back the tenant and the flag
  where no context is active, as nothing ends them there.
\<close>

definition tame_chain :: "('d mw, 'resp) py \<Rightarrow> bool" where
  "tame_chain g \<longleftrightarrow> (\<forall>w. state_ok (state_of w) \<longrightarrow> tame (state_of w) (state_of (snd (g w))) \<and>
     (\<not> c_active (cur_ctx (state_of w)) \<longrightarrow>
        c_tenant (cur_ctx (state_of (snd (g w)))) = c_tenant (cur_ctx (state_of w)) \<and>
        \<not> c_active (cur_ctx (state_of (snd (g w))))))"

lemma snd_finally: "m w = (r, w1) \<Longrightarrow> snd (py_finally m f w) = snd (f (isl r) w1)"
  by (simp add: py_finally_def split: prod.split sum.split)

lemma snd_varied [simp]: "snd (varied patch_vary x v) = v"
  by (simp add: varied_def)

lemma leave_scope_state:
  assumes ok: "mw_ok ms" and b: "entered_from s s1 b" and t: "tokened s1 (state_of w)"
  shows "\<exists>s5. state_of (snd (leave_scope ms hop (bt_tenant b) (bt_active b) (bt_gucs b) w)) = s5 \<and> tokened s s5 \<and>
    cur_ctx s5 = cur_ctx s \<and> (\<forall>a < serials s. heap s5 a = heap (state_of w) a)"
proof -
  from exit_tokened [OF b t] obtain s3 s4 s5 where x:
    "reset_context_gucs (bt_gucs b) (state_of w) = (Inr (), s3)" "reset_current_tenant_id (bt_tenant b) s3 = (Inr (), s4)"
    "reset_rls_context_active (bt_active b) s4 = (Inr (), s5)" "tokened s s5" "cur_ctx s5 = cur_ctx s"
    "\<forall>a < serials s. heap s5 a = heap (state_of w) a" by blast
  let ?w4 = "w\<lparr>m_aff := (m_aff w)\<lparr>a_state := s5\<rparr>, m_req := (m_req w)\<lparr>mr_gucs_token := None\<rparr>\<rparr>"
  let ?first = "py_seq (set_attr (\<lambda>r. r\<lparr>mr_gucs_token := None\<rparr>))
         (py_seq (end_context_gucs (Some (bt_gucs b)))
           (py_seq (on_ctx (reset_current_tenant_id (bt_tenant b)))
             (on_ctx (reset_rls_context_active (bt_active b)))))"
  let ?rest = "py_finally
         (\<lambda>w. if were_gucs_set w then py_seq (on_thread hop (clear_request_gucs ms)) clear_gucs_set_flag w
              else (Inr (), w)) (\<lambda>_. audit_request_exited ms)"
  have un: "unmarked ?rest" using ok by (intro unmarked_intros)
  obtain r w5 where r: "?rest ?w4 = (r, w5)" by (cases "?rest ?w4")
  have first: "?first w = (Inr (), ?w4)"
    using x(1-3) by (simp add: end_context_gucs_def py_seq_def py_bind_def py_except_def on_ctx_run set_attr_def py_modify_def)
  have "snd (leave_scope ms hop (bt_tenant b) (bt_active b) (bt_gucs b) w) = w5"
    unfolding leave_scope_def by (simp add: snd_finally [where m = ?first, OF first] r)
  then show ?thesis using unmarkedD [OF un r] x(4-6) by simp
qed

lemma holder_rests:
  assumes start: "state_ok (state_of w)" "no_context (state_of w)" and g: "tame_chain get_response"
  shows "no_context (state_of (snd (holder_for_the_request get_response w))) \<and>
         state_ok (state_of (snd (holder_for_the_request get_response w)))"
proof -
  obtain h s1 where h: "hold_context_gucs (state_of w) = (h, s1)" by (cases "hold_context_gucs (state_of w)")
  note held = hold_no_context [OF start h]
  let ?w1 = "w\<lparr>m_aff := (m_aff w)\<lparr>a_state := s1\<rparr>, m_req := (m_req w)\<lparr>mr_found := Some (Some (gt_live h))\<rparr>\<rparr>"
  obtain r w2 where r: "get_response ?w1 = (r, w2)" by (cases "get_response ?w1")
  have ok1: "state_ok s1" "c_tenant (cur_ctx s1) = None" "\<not> c_active (cur_ctx s1)"
    using held by (auto simp: at_rest_def dest: tame_ok)
  then have "at_rest s1 (state_of w2)"
    using g [unfolded tame_chain_def, THEN spec, of ?w1] r by (simp add: at_rest_def)
  from release_no_context [OF start h this] obtain t where
    t: "release_context_gucs h (state_of w2) = (Inr (), t)" "no_context t" "state_ok t" by blast
  have "holder_for_the_request get_response w = (r, w2\<lparr>m_aff := (m_aff w2)\<lparr>a_state := t\<rparr>\<rparr>)"
    using h r on_ctx_run [where m = "release_context_gucs h", OF t(1)]
    by (simp add: holder_for_the_request_def on_set_def on_ctx_def on_aff_def on_state_def set_attr_def
        py_modify_def py_bind_def py_seq_def py_finally_def state_of_def)
  then show ?thesis using t by simp
qed

lemma no_context_back:
  assumes s: "state_ok s" "no_context s" and t: "tokened s t" "cur_ctx t = cur_ctx s"
    and v: "\<forall>a < serials s. values_of s (Some a) = None \<longrightarrow> values_of t (Some a) = None"
  shows "no_context t \<and> state_ok t"
  using assms
  by (cases "c_gucs (cur_ctx s)")
     (auto simp: sees_def get_current_tenant_id_def get_rls_context_active_def get_context_gucs_def current_live_def
        values_of_def state_ok_def tokened_def split: option.splits)

lemma scope_rests:
  assumes ok: "mw_ok ms" and g: "tame_chain get_response"
    and start: "state_ok (state_of w)" "no_context (state_of w)"
  shows "no_context (state_of (snd (serve_scope ms patch_vary hop sc get_response w))) \<and>
         state_ok (state_of (snd (serve_scope ms patch_vary hop sc get_response w)))"
proof -
  let ?s = "state_of w"
  obtain t sa where t: "set_current_tenant_id (sc_tenant sc) ?s = (t, sa)" by (cases "set_current_tenant_id (sc_tenant sc) ?s")
  obtain a sb where a: "set_rls_context_active True sa = (a, sb)" by (cases "set_rls_context_active True sa")
  obtain k s2 where k: "set_context_gucs (Some (sc_gucs sc)) True sb = (k, s2)" by (cases "set_context_gucs (Some (sc_gucs sc)) True sb")
  let ?b = "\<lparr>bt_active = a, bt_tenant = t, bt_gucs = k\<rparr>"
  have b: "entered_from ?s s2 ?b" using entered_from_sets [OF start(1) t a k] by simp
  let ?w2 = "w\<lparr>m_aff := (m_aff w)\<lparr>a_state := s2\<rparr>,
      m_req := (m_req w)\<lparr>mr_found := Some (current_live ?s), mr_gucs_token := Some k\<rparr>,
      m_gucs_set := Some (sc_marker sc)\<rparr>"
  obtain r3 w3 where w3: "audit_request_entered ms (sc_tenant sc) (sc_tenant sc = None) (sc_user sc) ?w2 = (r3, w3)"
    by (cases "audit_request_entered ms (sc_tenant sc) (sc_tenant sc = None) (sc_user sc) ?w2")
  have s3: "state_of w3 = s2" "r3 = Inr ()" using unmarkedD [OF unmarked_audits(1) w3] w3
    by (simp_all add: state_of_def audit_request_entered_def log_audit_def set_attr_def py_modify_def py_seq_def py_bind_def)
  obtain r4 w4 where w4: "py_bind get_response (varied patch_vary) w3 = (r4, w4)" by (cases "py_bind get_response (varied patch_vary) w3")
  then have "state_of w4 = state_of (snd (get_response w3))"
    by (auto simp: py_bind_def varied_def split: prod.splits sum.splits)
  moreover have ok2: "state_ok s2" using b by (simp add: entered_from_def)
  ultimately have tm: "tame s2 (state_of w4)" using g s3(1) by (metis tame_chain_def)
  then have "tokened s2 (state_of w4)" by (simp add: tame_def)
  from leave_scope_state [OF ok b this, of hop] obtain s5 where s5:
    "state_of (snd (leave_scope ms hop t a k w4)) = s5" "tokened ?s s5" "cur_ctx s5 = cur_ctx ?s"
    "\<forall>a < serials ?s. heap s5 a = heap (state_of w4) a" by auto
  have "tame ?s (state_of w4)" using tame_trans [OF entered_from_tame [OF b] tm] .
  then have "\<forall>a < serials ?s. values_of ?s (Some a) = None \<longrightarrow> values_of s5 (Some a) = None"
    using s5(4) values_of_heap by (metis tame_def)
  note ended_at = no_context_back [OF start s5(2,3) this]
  let ?body = "py_seq (audit_request_entered ms (sc_tenant sc) (sc_tenant sc = None) (sc_user sc))
          (py_bind get_response (varied patch_vary))"
  have body: "?body ?w2 = (r4, w4)" using w3 s3(2) w4 by (simp add: py_seq_def py_bind_def [of "audit_request_entered _ _ _ _"])
  have "serve_scope ms patch_vary hop sc get_response w = py_finally ?body (\<lambda>_. leave_scope ms hop t a k) ?w2"
    using t a k
    by (simp add: serve_scope_def on_set_def on_ctx_def on_aff_def on_state_def set_attr_def py_modify_def py_get_def
        py_bind_def py_seq_def mark_gucs_set_def state_of_def)
  then have "state_of (snd (serve_scope ms patch_vary hop sc get_response w)) = s5"
    using s5(1) snd_finally [where m = ?body, OF body, of "\<lambda>_. leave_scope ms hop t a k"] by simp
  then show ?thesis using ended_at by simp
qed

text \<open>
  C19. On the asynchronous path, too, a request gives back the context it was served in: cancelled
  while it enters or later, failing in the view or in the cleanup, the request coroutine's tenant,
  flag and holder are those from before it, and no GUC values come back to life.
\<close>

theorem async_request_restores:
  assumes ok: "mw_ok ms" "tame_chain get_response"
    and start: "state_ok (state_of w)" "no_context (state_of w)"
  shows "no_context (state_of (snd (acall ms patch_vary hop cancelled get_response w))) \<and>
         state_ok (state_of (snd (acall ms patch_vary hop cancelled get_response w)))"
proof -
  obtain q w1 where q: "aenter_request ms hop cancelled w = (q, w1)" by (cases "aenter_request ms hop cancelled w")
  have w1: "state_of w1 = state_of w" using unmarkedD [OF unmarked_aenter [OF ok(1)] q] by simp
  have ok1: "state_ok (state_of w1)" "no_context (state_of w1)" using start w1 by simp_all
  have holder: "no_context (state_of (snd (holder_for_the_request get_response w1))) \<and>
      state_ok (state_of (snd (holder_for_the_request get_response w1)))"
    using holder_rests [OF ok1 ok(2)] .
  have scope: "no_context (state_of (snd (serve_scope ms patch_vary hop sc get_response w1))) \<and>
      state_ok (state_of (snd (serve_scope ms patch_vary hop sc get_response w1)))" for sc
    using scope_rests [OF ok ok1] .
  show ?thesis
  proof (cases q)
    case (Inl e)
    then show ?thesis using q ok1 by (simp add: acall_def py_bind_def)
  next
    case (Inr sc)
    show ?thesis
    proof (cases sc)
      case None
      then show ?thesis using q Inr holder
        by (auto simp: acall_def py_bind_def split: sum.split prod.split)
    next
      case (Some s)
      then show ?thesis using q Inr scope by (simp add: acall_def py_bind_def)
    qed
  qed
qed


subsection \<open>Whose request it is\<close>

lemma enter_user_sees:
  assumes ok: "mw_ok ms" "state_ok (state_of w)" and run: "enter_user ms user member w = (Inr (), w')"
  shows "\<exists>vs g. resolve_user_guc_vars (cfg_of ms) (tenant_user.truncate user) (case member of None \<Rightarrow> None | Some t \<Rightarrow> t) = Inr vs \<and>
        context_gucs_of (cfg_of ms) vs = Inr g \<and> sees (scope_tenant_id user member) True (Some g) (state_of w')"
proof -
  obtain q w1 where q: "prepared ms user member w = (q, w1)" by (cases "prepared ms user member w")
  have failed: "enter_failed ms x y z e v \<noteq> (Inr vs :: exn + (string \<times> string) list, v')" for x y z e v vs v'
    by (auto simp: enter_failed_def py_seq_def py_bind_def py_raise_def split: prod.splits sum.splits)
  then obtain vs where q': "q = Inr vs" using run q
    by (cases q) (auto simp: enter_user_def py_except_def py_bind_def [of "\<lambda>_. _"] py_bind_def split: sum.splits if_splits prod.splits)
  then have vs: "resolve_user_guc_vars (cfg_of ms) (tenant_user.truncate user) (case member of None \<Rightarrow> None | Some t \<Rightarrow> t) = Inr vs"
    using q unfolding prepared_def
    by (auto elim!: py_bind_InrE py_seq_InrE dest!: resolved_items simp: py_ret_def)
  then obtain g where g: "context_gucs_of (cfg_of ms) vs = Inr g" using resolved_context by blast
  let ?s = "state_of w1"
  obtain t sa where t: "set_current_tenant_id (scope_tenant_id user member) ?s = (t, sa)" by (cases "set_current_tenant_id (scope_tenant_id user member) ?s")
  obtain a sb where a: "set_rls_context_active True sa = (a, sb)" by (cases "set_rls_context_active True sa")
  obtain k sc where k: "set_context_gucs (Some g) False sb = (k, sc)" by (cases "set_context_gucs (Some g) False sb")
  have "state_ok ?s" using ok unmarkedD [OF unmarked_prepared [OF ok(1)] q] by simp
  note e = entered_from_sets [OF this t a k]
  let ?w2 = "w1\<lparr>m_aff := (m_aff w1)\<lparr>a_state := sc\<rparr>, m_req := (m_req w1)\<lparr>mr_tenant_token := Some t, mr_active_token := Some a, mr_gucs_token := Some k\<rparr>\<rparr>"
  have sa: "a_state (m_aff w1) = ?s" by (simp add: state_of_def)
  have tail: "enter_user ms user member w = py_seq (mark_gucs_set None)
      (audit_request_entered ms (scope_tenant_id user member) (u_is_admin user) (u_pk user)) ?w2"
    using q q' g t a k sa
    by (simp add: enter_user_def py_except_def py_bind_def py_seq_def Let_def on_set_def
        on_ctx_def on_aff_def on_state_def set_attr_def py_modify_def)
  have "unmarked (py_seq (mark_gucs_set None) (audit_request_entered ms (scope_tenant_id user member) (u_is_admin user) (u_pk user)))"
    by (intro unmarked_intros)
  from unmarkedD [OF this, of ?w2 "Inr ()" w'] show ?thesis using run tail e vs g by auto
qed

text \<open>
  C7. The rest of the chain of a request runs in the context of its user, and of nobody else's: once
  \<^verbatim>\<open>process_request\<close> has returned for an authenticated user, the context is active, its tenant is the
  user's (none for an admin; the selected one of a user who selects tenants), and the values
  the guard writes are the admin's, or this tenant's.  A user who selects and has no tenant enters none.
\<close>

theorem request_runs_as_its_user:
  assumes ok: "mw_ok ms" "state_ok (state_of w)"
    and vars: "guc_is_admin (cfg_of ms) \<noteq> guc_current_tenant (cfg_of ms)"
    and user: "rq_user (m_req w) = Some user" "ru_authenticated user"
    and run: "member_of ms user w = (Inr member, w1)" "process_request ms w = (Inr (), w')"
  shows "if member = Some None then state_of w' = state_of w
         else let tenant = (if u_is_admin user then None else if member = None then u_tenant user else the member)
              in sees tenant True (Some (if u_is_admin user then admin_gucs else gucs_for_tenant (the tenant))) (state_of w') \<and>
                 (u_is_admin user \<or> tenant \<noteq> None)"
proof -
  note u = unmarkedD [OF unmarked_member_of run(1)]
  have "state_ok (state_of w1)" using ok u by simp
  note entered = enter_user_sees [OF ok(1) this, of user member w']
  have p: "process_request ms w = (if member = Some None then py_ret () else enter_user ms user member) w1"
    using user run(1) by (simp add: process_request_def py_bind_def)
  have admin: "member = None" if "u_is_admin user" using run(1) that
    by (simp add: member_of_def selects_tenants_def py_ret_def)
  show ?thesis
  proof (cases "member = Some None")
    case True
    then show ?thesis using p run(2) u by (simp add: py_ret_def)
  next
    case False
    then obtain vs g where vs: "resolve_user_guc_vars (cfg_of ms) (tenant_user.truncate user) (case member of None \<Rightarrow> None | Some t \<Rightarrow> t) = Inr vs"
      and g: "context_gucs_of (cfg_of ms) vs = Inr g" and seen: "sees (scope_tenant_id user member) True (Some g) (state_of w')"
      using entered p run(2) by auto
    show ?thesis using vs g seen False admin
      by (cases member)
        (auto simp: scope_tenant_id_def resolve_user_guc_vars_def context_gucs_of_def guc_items_def Let_def vars [symmetric]
          admin_gucs_def gucs_for_tenant_def tenant_user.truncate_def vars split: if_splits option.splits)
  qed
qed

lemma process_request_refuses:
  assumes user: "rq_user (m_req v) = Some user" "ru_authenticated user" "\<not> selects_tenants user"
    and bad: "resolve_user_guc_vars (cfg_of ms) (tenant_user.truncate user) None = Inl e"
  shows "isl (fst (process_request ms v))"
proof -
  have failed: "isl (fst (enter_failed ms None None None e v))" for v
    by (auto simp: enter_failed_def py_seq_def py_bind_def py_raise_def split: prod.splits sum.splits)
  obtain v1 where "prepared ms user None v = (Inl e, v1)"
    using bad by (cases "e = NoTenantContextError") (auto simp: prepared_def resolve_request_user_def py_bind_def py_seq_def py_ret_def py_raise_def
        log_audit_def py_modify_def)
  moreover obtain e' v2 where "enter_failed ms None None None e v1 = (Inl e' :: exn + (string \<times> string) list, v2)"
    using failed [of v1] by (metis isl_def prod.collapse)
  ultimately have "isl (fst (enter_user ms user None v))"
    by (simp add: enter_user_def py_except_def py_bind_def)
  then show ?thesis using user by (simp add: process_request_def member_of_def py_bind_def py_ret_def)
qed

lemma isl_finally: "isl (fst (m w)) \<Longrightarrow> isl (fst (py_finally m f w))"
  by (auto simp: py_finally_def split: prod.split sum.split)

lemma isl_seq: "(\<And>v. m w = (Inr (), v) \<Longrightarrow> isl (fst (n v))) \<Longrightarrow> isl (fst (py_seq m n w))"
  by (auto simp: py_seq_def py_bind_def split: prod.split sum.split)

lemma py_finally_cong: "m w = m' w \<Longrightarrow> py_finally m f w = py_finally m' f w"
  by (simp add: py_finally_def)

lemma py_seq_cong: "(\<And>v. m w = (Inr (), v) \<Longrightarrow> n v = n' v) \<Longrightarrow> py_seq m n w = py_seq m n' w"
  by (auto simp: py_seq_def py_bind_def split: prod.split sum.split)

lemma in_transactions_refused:
  assumes body: "\<And>v. m_req v = q \<Longrightarrow> isl (fst (b v)) \<and> b v = b' v"
  shows "m_req w = q \<Longrightarrow> isl (fst (in_transactions ms als b w)) \<and> in_transactions ms als b w = in_transactions ms als b' w"
proof (induction als arbitrary: w)
  case Nil
  then show ?case unfolding in_transactions.simps by (rule body)
next
  case (Cons al als)
  have req: "m_req v = q" if "on_aff (ms_atomic_enter ms al) w = (r, v)" for r v
    using that Cons.prems by (auto simp: on_aff_def split: prod.splits)
  show ?case using Cons.IH req
    by (auto intro!: isl_seq isl_finally py_seq_cong py_finally_cong)
qed

text \<open>
  C8. The middleware fails closed: a request of an authenticated user for whom no values resolve (no
  admin, and without a tenant) ends in an exception, and neither the rest of the chain nor the view
  runs at all, whichever they are, with session values and in the transaction the middleware owns.
\<close>

theorem unresolved_user_is_refused:
  assumes user: "rq_user (m_req w) = Some user" "ru_authenticated user" "\<not> selects_tenants user"
    and bad: "resolve_user_guc_vars (cfg_of ms) (tenant_user.truncate user) None = Inl e"
  shows "isl (fst (call ms patch_vary view w)) \<and> call ms patch_vary view w = call ms patch_vary other_view w"
proof -
  have mixin: "isl (fst (mixin_call ms patch_vary view v)) \<and> mixin_call ms patch_vary view v = mixin_call ms patch_vary other_view v"
    if "rq_user (m_req v) = Some user" for v
    using process_request_refuses [where v = v, OF that user(2,3) bad]
    by (auto simp: mixin_call_def py_seq_def py_bind_def split: prod.split sum.split)
  have sync: "isl (fst (call_sync ms patch_vary view v)) \<and> call_sync ms patch_vary view v = call_sync ms patch_vary other_view v"
    if v: "rq_user (m_req v) = Some user" for v
  proof (cases "\<not> use_local_set (cfg_of ms) \<or> \<not> is_authenticated (m_req v)")
    case True
    show ?thesis using True mixin [OF v]
      by (auto simp: call_sync_def py_except_def py_raise_def py_seq_def py_bind_def split: prod.split sum.split)
  next
    case False
    have "rq_user (m_req u) = Some user" if "set_attr (\<lambda>r. r\<lparr>mr_owns_tx := True\<rparr>) x = (Inr (), u)" "m_req x = m_req v" for x u
      using that v by (auto simp: set_attr_def py_modify_def)
    then show ?thesis using False unfolding call_sync_def call_in_transaction_def
      by simp (rule in_transactions_refused [where q = "m_req v"];
        auto intro!: isl_seq isl_finally py_seq_cong py_finally_cong dest: mixin)
  qed
  have "rq_user (m_req v) = Some user"
    if "set_attr (\<lambda>r. r\<lparr>mr_found := Some (Some h)\<rparr>) (w\<lparr>m_aff := a\<rparr>) = (Inr (), v)" for h a v
    using that user(1) by (auto simp: set_attr_def py_modify_def)
  note found = sync [OF this]
  show ?thesis unfolding call_def holder_for_the_request_def
    by (auto simp: on_set_def on_ctx_def on_aff_def on_state_def py_bind_def [of "\<lambda>w. case _ w of (r, a) \<Rightarrow> (r, w\<lparr>m_aff := a\<rparr>)"]
        split: prod.split intro!: isl_seq isl_finally py_seq_cong py_finally_cong dest: found)
qed

subsection \<open>Examples of these hypotheses\<close>

definition demo_mw_site :: "bool \<Rightarrow> demo_pg_state mw_site" where
  "demo_mw_site local = \<lparr>ms_site = demo_site local, ms_sel = demo_sel_cfg, ms_atomic_enter = (\<lambda>_. py_ret ()),
     ms_atomic_exit = (\<lambda>_ _. py_ret ()), ms_set_rollback = (\<lambda>_. py_ret ())\<rparr>"

definition demo_mw :: "request_user option \<Rightarrow> demo_pg_state mw" where
  "demo_mw user = \<lparr>m_req = \<lparr>rq_user = user, rq_headers = (\<lambda>_. None), rq_session = None, rq_vary = None,
       mr_found = None, mr_tenant_token = None, mr_active_token = None, mr_gucs_token = None,
       mr_state_reset = False, mr_owns_tx = False, mr_rollback_tx = False, mr_audited = None\<rparr>,
     m_aff = demo_world\<lparr>a_state := init_state\<rparr>, m_gucs_set = None, m_thread = 0\<rparr>"

text \<open>A user of tenant 1, and one without a tenant.\<close>

definition demo_user :: "tenant_id option \<Rightarrow> request_user" where
  "demo_user tenant = \<lparr>u_is_admin = False, u_tenant = tenant, u_pk = Some (TInt 5), ru_authenticated = True,
     ru_ids = None, ru_meta_pk = None\<rparr>"

lemma demo_mw_ok: "mw_ok (demo_mw_site l)"
  by (simp add: mw_ok_def demo_mw_site_def demo_site_ok quiet_intros py_ret_def)

lemma demo_mw_start: "state_ok (state_of (demo_mw u))" "no_context (state_of (demo_mw u))"
  "\<not> has_token (m_req (demo_mw u))" "\<not> mr_state_reset (m_req (demo_mw u))"
  by (simp_all add: demo_mw_def state_of_def init_state_def state_ok_def heap_wf_def current_live_def cur_ctx_def
      default_ctx_def sees_def get_current_tenant_id_def get_rls_context_active_def get_context_gucs_def values_of_def has_token_def)

lemma demo_chain_ok: "chain_ok ms (py_raise e)" "tame_chain (py_raise e)"
proof -
  have "calm w w" if "state_ok (state_of w)" for w :: "'a mw" using that by (simp add: calm_def tame_refl)
  then show "chain_ok ms (py_raise e)" unfolding chain_ok_def by (auto simp: py_raise_def)
  show "tame_chain (py_raise e)" by (simp add: tame_chain_def py_raise_def tame_refl)
qed

lemma no_request_leaks_witness:
  "no_context (state_of (snd (call (demo_mw_site True) (\<lambda>_ r. r) (py_raise DatabaseError) (demo_mw (Some (demo_user (Some (TInt 1))))))))"
  using no_request_leaks [OF demo_mw_ok demo_chain_ok(1) demo_mw_start] by blast

lemma async_request_restores_witness:
  "no_context (state_of (snd (acall (demo_mw_site True) (\<lambda>_ r. r) 3 True (py_raise DatabaseError) (demo_mw (Some (demo_user (Some (TInt 1))))))))"
  using async_request_restores [OF demo_mw_ok demo_chain_ok(2) demo_mw_start(1,2)] by blast

lemma request_runs_as_its_user_witness:
  "sees (Some (TInt 1)) True (Some (gucs_for_tenant (TInt 1)))
     (state_of (snd (process_request (demo_mw_site True) (demo_mw (Some (demo_user (Some (TInt 1))))))))"
proof -
  let ?u = "demo_user (Some (TInt 1))" let ?w = "demo_mw (Some ?u)"
  have u: "rq_user (m_req ?w) = Some ?u" "ru_authenticated ?u" by (simp_all add: demo_mw_def demo_user_def)
  have m: "member_of (demo_mw_site True) ?u ?w = (Inr None, ?w)"
    by (simp add: member_of_def selects_tenants_def demo_user_def py_ret_def)
  have p: "fst (process_request (demo_mw_site True) ?w) = Inr ()"
    using u m
    by (simp add: process_request_def py_bind_def enter_user_def prepared_def resolve_request_user_def cfg_of_def
        resolve_user_guc_vars_def tenant_user.truncate_def demo_user_def demo_mw_site_def demo_site_def demo_cfg_def
        set_gucs_on_all_databases_def guc_items_def context_gucs_of_def audit_request_entered_def log_audit_def py_seq_def
        py_simps py_except_def Let_def on_set_def on_ctx_def on_aff_def on_state_def set_attr_def mark_gucs_set_def split: prod.split)
  obtain w' where w': "process_request (demo_mw_site True) ?w = (Inr (), w')" using p by (metis prod.collapse)
  have vars: "guc_is_admin (cfg_of (demo_mw_site True)) \<noteq> guc_current_tenant (cfg_of (demo_mw_site True))"
    by (simp add: cfg_of_def demo_mw_site_def demo_site_def demo_cfg_def)
  show ?thesis using request_runs_as_its_user [OF demo_mw_ok demo_mw_start(1) vars u m w'] w'
    by (simp add: demo_user_def)
qed

lemma unresolved_user_is_refused_witness:
  "isl (fst (call (demo_mw_site False) (\<lambda>_ r. r) (py_ret ''page'') (demo_mw (Some (demo_user None)))))"
  by (rule unresolved_user_is_refused [where user = "demo_user None" and e = NoTenantContextError, THEN conjunct1])
    (simp_all add: demo_mw_def demo_user_def selects_tenants_def resolve_user_guc_vars_def tenant_user.truncate_def)

end
