(* ===== verification/Tenant_Models.thy ===== *)
theory Tenant_Models
  imports Tenant_Context M2m_Constraint "HOL-Library.AList"
begin

text \<open>
  \<^verbatim>\<open>tenants/models.py\<close>: which models are RLS-protected and by which field, the policies of the automatic
  join tables, and the check that a row's foreign keys stay in its tenant.  Django's models are their
  \<^verbatim>\<open>_meta\<close> (\<open>dj_model\<close>), registered by label; the database is read through a parameter.
\<close>

subsection \<open>Models\<close>

text \<open>\<open>fd_related\<close> is \<^verbatim>\<open>field.related_model\<close>: a model, or the name of one that is not resolved yet.\<close>

datatype related = ToModel string | ToLazy string

record dj_field =
  fd_name :: string
  fd_attname :: string
  fd_is_fk :: bool
  fd_concrete :: bool
  fd_local :: bool
  fd_related :: "related option"
  fd_null :: bool
  fd_parent_link :: bool
  fd_target_field :: string
  fd_counter :: nat

record dj_m2m =
  mm_name :: string
  mm_through :: string
  mm_related :: related
  mm_column :: string
  mm_reverse :: string

datatype dj_constraint = TenantPolicy rls_constraint | JoinPolicy m2m_constraint | OtherConstraint string

text \<open>\<open>dm_protected\<close>: a subclass of \<^verbatim>\<open>RLSProtectedModel\<close>; \<open>dm_concrete\<close>: the label of the concrete model.\<close>

record dj_model =
  dm_app :: string
  dm_name :: string
  dm_table :: string
  dm_proxy :: bool
  dm_abstract :: bool
  dm_auto_created :: bool
  dm_protected :: bool
  dm_concrete :: "string option"
  dm_constraints :: "dj_constraint list"
  dm_fields :: "dj_field list"
  dm_m2m :: "dj_m2m list"

definition model_label :: "dj_model \<Rightarrow> string" where
  "model_label m = dm_app m @ ''.'' @ dm_name m"

definition label_lower :: "dj_model \<Rightarrow> string" where
  "label_lower m = dm_app m @ ''.'' @ map ascii_lower (dm_name m)"

text \<open>The app registry: the models by label, and the labels \<^verbatim>\<open>apps.get_models()\<close> lists, in its order.\<close>

record app_registry =
  ap_models :: "string \<rightharpoonup> dj_model"
  ap_listed :: "string list"

definition concrete_of :: "app_registry \<Rightarrow> dj_model \<Rightarrow> dj_model" where
  "concrete_of apps m =
     (case dm_concrete m of
        None \<Rightarrow> m
      | Some label \<Rightarrow> (case ap_models apps label of None \<Rightarrow> m | Some c \<Rightarrow> c))"

text \<open>What these functions read of the settings.\<close>

record model_cfg =
  md_tenant_model :: string
  md_tenant_fk :: string
  md_external :: "(string \<times> string) list"

subsection \<open>The tenant field\<close>

definition add_tenant_fk :: "model_cfg \<Rightarrow> nat \<Rightarrow> dj_model \<Rightarrow> dj_model" where
  "add_tenant_fk cfg counter m =
     (if \<not> dm_protected m then m
      else if dm_abstract m \<or> dm_proxy m then m
      else if md_tenant_fk cfg \<in> set (map fd_name (filter fd_local (dm_fields m))) then m
      else m\<lparr>dm_fields := dm_fields m @
             [\<lparr>fd_name = md_tenant_fk cfg, fd_attname = md_tenant_fk cfg @ ''_id'', fd_is_fk = True,
               fd_concrete = True, fd_local = True, fd_related = Some (ToModel (md_tenant_model cfg)),
               fd_null = False, fd_parent_link = False, fd_target_field = ''id'', fd_counter = counter\<rparr>]\<rparr>)"

fun first_policy :: "dj_constraint list \<Rightarrow> rls_constraint option" where
  "first_policy [] = None"
| "first_policy (TenantPolicy c # cs) = Some c"
| "first_policy (_ # cs) = first_policy cs"

text \<open>\<^verbatim>\<open>label.partition(".")\<close>, with the model name in lower case.\<close>

fun normalized_label :: "string \<Rightarrow> string" where
  "normalized_label [] = ''.''"
| "normalized_label (c # cs) = (if c = CHR ''.'' then c # map ascii_lower cs else c # normalized_label cs)"

text \<open>A dict: the last entry of a label wins.\<close>

definition normalized_external_models :: "(string \<times> string) list \<Rightarrow> string \<rightharpoonup> string" where
  "normalized_external_models entries = map_of (rev (map (\<lambda>(label, field). (normalized_label label, field)) entries))"

definition external_model_fields :: "model_cfg \<Rightarrow> string \<rightharpoonup> string" where
  "external_model_fields cfg = normalized_external_models (md_external cfg)"

definition get_tenant_fk_field :: "model_cfg \<Rightarrow> dj_model \<Rightarrow> string option" where
  "get_tenant_fk_field cfg m =
     (case first_policy (dm_constraints m) of
        Some c \<Rightarrow> Some (rc_field c)
      | None \<Rightarrow> if dm_proxy m then None else external_model_fields cfg (label_lower m))"

definition declares_rls_policy :: "app_registry \<Rightarrow> dj_model \<Rightarrow> bool" where
  "declares_rls_policy apps m \<longleftrightarrow>
     dm_protected (concrete_of apps m) \<or> first_policy (dm_constraints (concrete_of apps m)) \<noteq> None"

definition get_field :: "dj_model \<Rightarrow> string \<Rightarrow> dj_field option" where
  "get_field m name = find (\<lambda>f. fd_name f = name) (dm_fields m)"

definition tenant_field :: "model_cfg \<Rightarrow> app_registry \<Rightarrow> dj_model \<Rightarrow> dj_field option" where
  "tenant_field cfg apps m =
     (case get_tenant_fk_field cfg (concrete_of apps m) of
        None \<Rightarrow> None
      | Some name \<Rightarrow>
          (case get_field (concrete_of apps m) name of
             None \<Rightarrow> None
           | Some f \<Rightarrow> if fd_is_fk f then Some f else None))"

subsection \<open>The automatic join tables\<close>

definition is_join_policy :: "dj_constraint \<Rightarrow> bool" where
  "is_join_policy c \<longleftrightarrow> (case c of JoinPolicy _ \<Rightarrow> True | _ \<Rightarrow> False)"

text \<open>The tenant field of a side that declares its policy, the configured one for want of another.\<close>

definition side_tenant_fk :: "model_cfg \<Rightarrow> dj_model \<Rightarrow> string" where
  "side_tenant_fk cfg m = (case get_tenant_fk_field cfg m of None \<Rightarrow> md_tenant_fk cfg | Some f \<Rightarrow> f)"

definition join_constraint ::
  "model_cfg \<Rightarrow> app_registry \<Rightarrow> dj_model \<Rightarrow> dj_m2m \<Rightarrow> dj_model \<Rightarrow> dj_model \<Rightarrow> m2m_constraint checked" where
  "join_constraint cfg apps from f through to =
     m2m_init \<lparr>mc_name = dm_table through @ ''_m2m_rls_constraint'',
       mc_from_model = model_label from, mc_to_model = model_label to,
       mc_from_fk = mm_column f, mc_to_fk = mm_reverse f,
       mc_from_tenant_fk = Some (side_tenant_fk cfg from),
       mc_to_tenant_fk = (if declares_rls_policy apps to then Some (side_tenant_fk cfg (concrete_of apps to)) else None),
       mc_guc_tenant_var = ''rls.current_tenant'', mc_guc_admin_var = ''rls.is_admin'', mc_tenant_pk_type = ''int''\<rparr>"

text \<open>One many-to-many field of a model that declares its policy; the world is the registry.\<close>

definition register_field :: "model_cfg \<Rightarrow> dj_model \<Rightarrow> dj_m2m \<Rightarrow> (app_registry, unit) py" where
  "register_field cfg from f = (\<lambda>apps.
     case ap_models apps (mm_through f) of
       None \<Rightarrow> (Inl LookupError, apps)
     | Some through \<Rightarrow>
         if \<not> dm_auto_created through then (Inr (), apps)
         else if list_ex is_join_policy (dm_constraints through) then (Inr (), apps)
         else (case mm_related f of
             ToLazy _ \<Rightarrow> (Inr (), apps)
           | ToModel label \<Rightarrow>
               (case ap_models apps label of
                  None \<Rightarrow> (Inl LookupError, apps)
                | Some to \<Rightarrow>
                    (case join_constraint cfg apps from f through to of
                       Inl e \<Rightarrow> (Inl e, apps)
                     | Inr c \<Rightarrow>
                         (Inr (), apps\<lparr>ap_models := (ap_models apps)(mm_through f \<mapsto>
                            through\<lparr>dm_constraints := dm_constraints through @ [JoinPolicy c]\<rparr>)\<rparr>)))))"

definition register_model :: "model_cfg \<Rightarrow> string \<Rightarrow> (app_registry, unit) py" where
  "register_model cfg label = (\<lambda>apps.
     case ap_models apps label of
       None \<Rightarrow> (Inl LookupError, apps)
     | Some m \<Rightarrow>
         if \<not> declares_rls_policy apps m \<or> dm_abstract m then (Inr (), apps)
         else py_for (dm_m2m m) (register_field cfg m) apps)"

definition register_m2m_rls :: "model_cfg \<Rightarrow> (app_registry, unit) py" where
  "register_m2m_rls cfg = (\<lambda>apps. py_for (ap_listed apps) (register_model cfg) apps)"

subsection \<open>Foreign keys to another tenant\<close>

text \<open>The error dictionary of a \<^verbatim>\<open>ValidationError\<close>: by field name, codes and the value they are about.\<close>

record verror =
  ve_code :: string
  ve_value :: "tenant_id option"

type_synonym verrors = "(string \<times> verror list) list"

text \<open>
  What the check reads outside this file: the registry and settings, the router, \<^verbatim>\<open>atomic()\<close>, the fields'
  \<^verbatim>\<open>to_python\<close>, and the query \<^verbatim>\<open>values_list(attname, flat=True)[:1]\<close> of the rows of a model whose given
  field has a value, on an alias.
\<close>

record 'd fk_site =
  fk_site :: "'d site"
  fk_cfg :: model_cfg
  fk_apps :: app_registry
  fk_router :: "string \<Rightarrow> string"
  fk_atomic_enter :: "string \<Rightarrow> ('d aff, unit) py"
  fk_atomic_exit :: "string \<Rightarrow> bool \<Rightarrow> ('d aff, unit) py"
  fk_to_python :: "dj_field \<Rightarrow> tenant_id option \<Rightarrow> verror list + tenant_id option"
  fk_rows :: "string \<Rightarrow> string \<Rightarrow> string \<Rightarrow> tenant_id \<Rightarrow> string \<Rightarrow> ('d aff, tenant_id option list) py"

definition related_model :: "'d fk_site \<Rightarrow> dj_field \<Rightarrow> dj_model option" where
  "related_model env f =
     (case fd_related f of Some (ToModel label) \<Rightarrow> ap_models (fk_apps env) label | _ \<Rightarrow> None)"

definition target_tenant_field :: "'d fk_site \<Rightarrow> dj_field \<Rightarrow> dj_field option" where
  "target_tenant_field env f = Option.bind (related_model env f) (tenant_field (fk_cfg env) (fk_apps env))"

definition checked_foreign_keys :: "'d fk_site \<Rightarrow> dj_model \<Rightarrow> (dj_field \<times> dj_field list) option" where
  "checked_foreign_keys env m =
     (case tenant_field (fk_cfg env) (fk_apps env) m of
        None \<Rightarrow> None
      | Some tf \<Rightarrow>
          Some (tf, filter (\<lambda>f. fd_concrete f \<and> fd_is_fk f \<and> f \<noteq> tf \<and> \<not> fd_parent_link f \<and>
                                target_tenant_field env f \<noteq> None) (dm_fields m)))"

definition invalid_target :: "tenant_id \<Rightarrow> verror" where
  "invalid_target value = \<lparr>ve_code = ''invalid'', ve_value = Some value\<rparr>"

definition needs_own_tx :: "'d fk_site \<Rightarrow> string \<Rightarrow> 'd aff \<Rightarrow> bool" where
  "needs_own_tx env alias w \<longleftrightarrow>
     use_local_set (st_cfg (fk_site env)) \<and> alias \<notin> set (databases (st_cfg (fk_site env))) \<and>
     \<not> db_in_atomic (st_cursor (fk_site env)) alias w"

definition in_atomic :: "'d fk_site \<Rightarrow> string \<Rightarrow> ('d aff, 'a) py \<Rightarrow> ('d aff, 'a) py" where
  "in_atomic env alias body =
     py_seq (fk_atomic_enter env alias) (py_finally body (fk_atomic_exit env alias))"

text \<open>\<^verbatim>\<open>by_alias.setdefault(alias, []).append(pair)\<close>.\<close>

fun add_pair :: "string \<Rightarrow> 'a \<Rightarrow> (string \<times> 'a list) list \<Rightarrow> (string \<times> 'a list) list" where
  "add_pair alias x [] = [(alias, [x])]"
| "add_pair alias x ((b, xs) # rest) = (if b = alias then (b, xs @ [x]) # rest else (b, xs) # add_pair alias x rest)"

definition by_alias :: "('a \<Rightarrow> string) \<Rightarrow> 'a list \<Rightarrow> (string \<times> 'a list) list" where
  "by_alias alias_of xs = fold (\<lambda>x groups. add_pair (alias_of x) x groups) xs []"

type_synonym fk_targets = "(dj_field \<times> tenant_id) list"
type_synonym fk_found = "(dj_field \<times> tenant_id option list) list"

text \<open>One query for each foreign key of an alias; the assertion is the source's.\<close>

fun look_up :: "'d fk_site \<Rightarrow> string \<Rightarrow> fk_targets \<Rightarrow> fk_found \<Rightarrow> ('d aff, fk_found) py" where
  "look_up env alias [] found = py_ret found"
| "look_up env alias ((f, value) # rest) found =
     (case (fd_related f, target_tenant_field env f) of
        (Some (ToModel label), Some tf) \<Rightarrow>
          py_bind (fk_rows env alias label (fd_target_field f) value (fd_attname tf))
            (\<lambda>tenants. look_up env alias rest (AList.update f tenants found))
      | _ \<Rightarrow> py_raise (OtherError ''AssertionError''))"

definition silent_origin :: origin where
  "silent_origin = \<lparr>o_source = None, o_user = None\<rparr>"

definition look_up_alias :: "'d fk_site \<Rightarrow> bool \<Rightarrow> string \<Rightarrow> fk_targets \<Rightarrow> fk_found \<Rightarrow> ('d aff, fk_found) py" where
  "look_up_alias env savepoint alias pairs found = (\<lambda>w.
     let body = admin_context (fk_site env) alias silent_origin (look_up env alias pairs found)
     in if savepoint \<or> needs_own_tx env alias w then in_atomic env alias body w else body w)"

fun look_up_all :: "'d fk_site \<Rightarrow> bool \<Rightarrow> (string \<times> fk_targets) list \<Rightarrow> fk_found \<Rightarrow> ('d aff, fk_found) py" where
  "look_up_all env savepoint [] found = py_ret found"
| "look_up_all env savepoint ((alias, pairs) # rest) found =
     py_bind (look_up_alias env savepoint alias pairs found) (look_up_all env savepoint rest)"

definition alias_of_target :: "'d fk_site \<Rightarrow> dj_field \<times> tenant_id \<Rightarrow> string" where
  "alias_of_target env p = (case fd_related (fst p) of Some (ToModel label) \<Rightarrow> fk_router env label | _ \<Rightarrow> [])"

definition target_tenants :: "'d fk_site \<Rightarrow> bool \<Rightarrow> fk_targets \<Rightarrow> ('d aff, fk_found) py" where
  "target_tenants env savepoint targets =
     look_up_all env savepoint (by_alias (alias_of_target env) targets) []"

definition audited_target_tenants :: "'d fk_site \<Rightarrow> fk_targets \<Rightarrow> ('d aff, fk_found) py" where
  "audited_target_tenants env rejected =
     py_except (target_tenants env True rejected) is_exception (\<lambda>_. py_ret [])"

definition foreign_keys_of_other_tenants ::
  "'d fk_site \<Rightarrow> dj_model \<Rightarrow> string \<Rightarrow> tenant_id option \<Rightarrow> tenant_id \<Rightarrow> fk_targets \<Rightarrow> fk_targets \<Rightarrow> ('d aff, dj_field list) py" where
  "foreign_keys_of_other_tenants env model source user_id tenant targets rejected =
     (let audits = st_audits (fk_site env)
      in py_bind (target_tenants env False targets) (\<lambda>found1.
         py_bind (if rejected \<noteq> [] \<and> audits Warning then audited_target_tenants env rejected else py_ret []) (\<lambda>more.
           let found = AList.updates (map fst more) (map snd more) found1;
               cross = sort_key fd_counter
                         (map fst (filter (\<lambda>(f, ts). ts \<noteq> [] \<and> ts \<noteq> [Some tenant]) found))
           in py_seq
                (if cross \<noteq> []
                 then py_modify (\<lambda>w. w\<lparr>a_audit := emit audits ''fk.cross_tenant_rejected'' source Warning (Some tenant)
                        None user_id [(''model'', Some (AStr (model_label model))),
                                      (''fields'', Some (AList (map fd_name cross)))] (a_audit w)\<rparr>)
                 else py_ret ())
                (py_ret (filter (\<lambda>f. map_of found f \<noteq> Some [Some tenant]) (map fst targets))))))"

text \<open>\<open>inst\<close> is the row: its attributes by \<^verbatim>\<open>attname\<close>.\<close>

definition not_found_value ::
  "'d fk_site \<Rightarrow> (string \<Rightarrow> tenant_id option) \<Rightarrow> dj_field \<Rightarrow> verror list \<Rightarrow> tenant_id option" where
  "not_found_value env inst f es =
     (if \<not> list_ex (\<lambda>e. ve_code e = ''invalid'') es then None
      else case fk_to_python env f (inst (fd_attname f)) of Inl _ \<Rightarrow> None | Inr v \<Rightarrow> v)"

record fk_scan =
  sn_errors :: verrors
  sn_targets :: fk_targets
  sn_rejected :: fk_targets

definition scan_field ::
  "'d fk_site \<Rightarrow> (string \<Rightarrow> tenant_id option) \<Rightarrow> string list \<Rightarrow> verrors \<Rightarrow> dj_field \<Rightarrow> fk_scan \<Rightarrow> fk_scan" where
  "scan_field env inst exclude failed f s =
     (if fd_name f \<in> set exclude then s
      else case map_of failed (fd_name f) of
        Some es \<Rightarrow>
          (case not_found_value env inst f es of
             None \<Rightarrow> s
           | Some v \<Rightarrow> s\<lparr>sn_rejected := sn_rejected s @ [(f, v)]\<rparr>)
      | None \<Rightarrow>
          (case fk_to_python env f (inst (fd_attname f)) of
             Inl es \<Rightarrow> s\<lparr>sn_errors := AList.update (fd_name f) es (sn_errors s)\<rparr>
           | Inr None \<Rightarrow> s
           | Inr (Some v) \<Rightarrow> s\<lparr>sn_targets := sn_targets s @ [(f, v)]\<rparr>))"

definition scan_fields ::
  "'d fk_site \<Rightarrow> (string \<Rightarrow> tenant_id option) \<Rightarrow> string list \<Rightarrow> verrors \<Rightarrow> dj_field list \<Rightarrow> fk_scan" where
  "scan_fields env inst exclude failed fs =
     fold (scan_field env inst exclude failed) fs \<lparr>sn_errors = [], sn_targets = [], sn_rejected = []\<rparr>"

definition cross_tenant_errors ::
  "'d fk_site \<Rightarrow> dj_model \<Rightarrow> (string \<Rightarrow> tenant_id option) \<Rightarrow> string list \<Rightarrow> verrors \<Rightarrow> ('d aff, verrors) py" where
  "cross_tenant_errors env model inst exclude failed =
     (case checked_foreign_keys env model of
        None \<Rightarrow> py_ret []
      | Some (tf, foreign_keys) \<Rightarrow>
          if fd_name tf \<in> set (map fst failed) then py_ret []
          else (case fk_to_python env tf (inst (fd_attname tf)) of
              Inl _ \<Rightarrow> py_ret []
            | Inr None \<Rightarrow> py_ret []
            | Inr (Some tenant) \<Rightarrow>
                (let s = scan_fields env inst exclude failed foreign_keys
                 in if sn_targets s = [] \<and> sn_rejected s = [] then py_ret (sn_errors s)
                    else py_bind (foreign_keys_of_other_tenants env model ''validation'' None tenant
                                    (sn_targets s) (sn_rejected s))
                      (\<lambda>bad. py_ret (fold (\<lambda>f errors. case map_of (sn_targets s) f of
                                 None \<Rightarrow> errors
                               | Some v \<Rightarrow> AList.update (fd_name f) [invalid_target v] errors) bad (sn_errors s))))))"

text \<open>A \<^verbatim>\<open>ValidationError\<close> carries its dictionary: \<open>Inl\<close> of the value.\<close>

definition validate_cross_tenant_fks ::
  "'d fk_site \<Rightarrow> dj_model \<Rightarrow> (string \<Rightarrow> tenant_id option) \<Rightarrow> string list \<Rightarrow> ('d aff, verrors + unit) py" where
  "validate_cross_tenant_fks env model inst exclude =
     py_bind (cross_tenant_errors env model inst exclude [])
       (\<lambda>errors. py_ret (if errors \<noteq> [] then Inl errors else Inr ()))"

text \<open>\<^verbatim>\<open>own\<close>: what Django's \<^verbatim>\<open>clean_fields()\<close> found.\<close>

definition clean_fields ::
  "'d fk_site \<Rightarrow> verrors \<Rightarrow> dj_model \<Rightarrow> (string \<Rightarrow> tenant_id option) \<Rightarrow> string list \<Rightarrow> ('d aff, verrors + unit) py" where
  "clean_fields env own model inst exclude =
     py_bind (cross_tenant_errors env model inst exclude own) (\<lambda>cross.
       let errors = AList.updates (map fst cross) (map snd cross) own
       in py_ret (if errors \<noteq> [] then Inl errors else Inr ()))"

definition audit_rejected_values ::
  "'d fk_site \<Rightarrow> dj_model \<Rightarrow> tenant_id \<Rightarrow> (dj_field \<times> tenant_id option) list \<Rightarrow>
     (dj_field \<Rightarrow> tenant_id option \<Rightarrow> tenant_id option checked) \<Rightarrow> string \<Rightarrow> tenant_id option \<Rightarrow> ('d aff, unit) py" where
  "audit_rejected_values env model tenant values target_to_python source user_id =
     (case checked_foreign_keys env model of
        None \<Rightarrow> py_ret ()
      | Some (tf, _) \<Rightarrow>
          if \<not> st_audits (fk_site env) Warning then py_ret ()
          else (case fk_to_python env tf (Some tenant) of
              Inr (Some t) \<Rightarrow>
                (let rejected = concat (map (\<lambda>(f, v). case target_to_python f v of
                        Inr (Some x) \<Rightarrow> if x = TStr [] then [] else [(f, x)]
                      | _ \<Rightarrow> []) values)
                 in if rejected \<noteq> []
                    then py_bind (foreign_keys_of_other_tenants env model source user_id t [] rejected) (\<lambda>_. py_ret ())
                    else py_ret ())
            | _ \<Rightarrow> py_ret ()))"


subsection \<open>What a context block returns\<close>

lemma py_finally_Inr: "py_finally m f w = (Inr x, w') \<Longrightarrow> \<exists>w1. m w = (Inr x, w1)"
  by (auto simp: py_finally_def split: prod.splits sum.splits)

lemma leave_block_returns: "leave_block st b restore exited entered r w = (Inr x, w') \<Longrightarrow> r = Inr x"
  unfolding leave_block_def by (auto dest!: py_finally_Inr)

lemma run_block_returns:
  assumes run: "run_block st tenant gucs write restore u o' body w = (Inr x, w')"
    and s: "state_ok (a_state w)" and written: "quiet write"
  shows "\<exists>w1 w2. state_ok (a_state w1) \<and> sees tenant True (Some gucs) (a_state w1) \<and> body w1 = (Inr x, w2)"
proof -
  obtain b s1 where b: "enter_rls_state True tenant (Some gucs) (a_state w) = (b, s1)"
    by (cases "enter_rls_state True tenant (Some gucs) (a_state w)")
  obtain q w1 where q: "write (w\<lparr>a_state := s1\<rparr>) = (q, w1)" by (cases "write (w\<lparr>a_state := s1\<rparr>)")
  let ?w2 = "log_context st ''context.entered'' o' tenant u w1"
  have st: "a_state ?w2 = s1" using quietD [OF written q] by simp
  obtain r w3 where r: "body ?w2 = (r, w3)" by (cases "body ?w2")
  have "r = Inr x"
  proof (cases q)
    case (Inl e)
    then show ?thesis using run b q
      by (auto simp: run_block_def Let_def dest: leave_block_returns)
  next
    case (Inr y)
    then show ?thesis using run b q r
      by (auto simp: run_block_def Let_def dest: leave_block_returns)
  qed
  then show ?thesis using r st enter_sees [OF b] enter_state_ok [OF s b]
    by (intro exI [of _ ?w2] exI [of _ w3]) simp
qed

lemma context_block_returns:
  assumes run: "context_block st tenant gucs write u o' body w = (Inr x, w')"
    and ok: "site_ok st" "\<And>l. quiet (write l)" and s: "state_ok (a_state w)"
  shows "\<exists>w1 w2. state_ok (a_state w1) \<and> sees tenant True (Some gucs) (a_state w1) \<and> body w1 = (Inr x, w2)"
proof -
  have snap: "quiet (if c then py_bind (snapshot_gucs st u) (\<lambda>p. py_ret (Some p)) else py_ret None)" for c
    using ok by (intro quiet_intros)
  have wr: "quiet (if c then write_values st u (TVals gucs) l (write l) else py_ret ())" for c l
    using ok by (intro quiet_intros)
  obtain p w1 where p: "(if writes_gucs (st_cfg st) u (use_local_set (st_cfg st))
      then py_bind (snapshot_gucs st u) (\<lambda>p. py_ret (Some p)) else py_ret None) w = (Inr p, w1)"
    using run by (auto simp: context_block_def Let_def elim!: py_bind_InrE)
  obtain ss w2 where ss: "session_of st u w1 = (Inr ss, w2)"
    using run p by (auto simp: context_block_def Let_def py_bind_def split: prod.splits sum.splits)
  have "a_state w2 = a_state w" using quietD [OF snap p] quietD [OF quiet_site(4) [OF ok(1)] ss] by simp
  then have s2: "state_ok (a_state w2)" using s by simp
  from run p ss have "run_block st tenant gucs
      (if writes_gucs (st_cfg st) u (use_local_set (st_cfg st))
       then write_values st u (TVals gucs) (use_local_set (st_cfg st)) (write (use_local_set (st_cfg st))) else py_ret ())
      (\<lambda>exc. restore_tenant_gucs st p (use_local_set (st_cfg st)) u exc (current_live (a_state w2)) ss) u o' body w2 = (Inr x, w')"
    by (simp add: context_block_def Let_def py_bind_def py_get_def)
  from run_block_returns [OF this s2 wr] show ?thesis .
qed

lemma admin_context_returns:
  assumes "admin_context st u o' body w = (Inr x, w')" and ok: "site_ok st" and s: "state_ok (a_state w)"
  shows "\<exists>w1 w2. state_ok (a_state w1) \<and> sees None True (Some admin_gucs) (a_state w1) \<and> body w1 = (Inr x, w2)"
proof -
  have "cursor_quiet (st_cursor st)" using ok by (simp add: site_ok_def)
  then have "quiet (py_seq (set_guc (st_cursor st) n v l u) (clear_guc (st_cursor st) n' l u))" for n n' v l
    by (intro quiet_intros)
  from context_block_returns [OF assms(1) [unfolded admin_context_def] ok this s] show ?thesis .
qed

subsection \<open>What the look-ups find\<close>

text \<open>What is relied on: the site, \<^verbatim>\<open>atomic()\<close> and the queries leave the context variables alone.\<close>

definition fk_ok :: "'d fk_site \<Rightarrow> bool" where
  "fk_ok env \<longleftrightarrow> site_ok (fk_site env) \<and> (\<forall>al. quiet (fk_atomic_enter env al)) \<and>
     (\<forall>al b. quiet (fk_atomic_exit env al b)) \<and> (\<forall>al l f v a. quiet (fk_rows env al l f v a))"

text \<open>
  PostgreSQL admits every row in the admin context: \<open>rows\<close> is what the tables hold, and what a query
  that returns there answers.
\<close>

definition admin_reads :: "'d fk_site \<Rightarrow> (string \<Rightarrow> string \<Rightarrow> tenant_id \<Rightarrow> string \<Rightarrow> tenant_id option list) \<Rightarrow> bool" where
  "admin_reads env rows \<longleftrightarrow> (\<forall>al l f v a w ts w'. state_ok (a_state w) \<longrightarrow> sees None True (Some admin_gucs) (a_state w) \<longrightarrow>
     fk_rows env al l f v a w = (Inr ts, w') \<longrightarrow> ts = rows l f v a)"

text \<open>The tenant of the row a foreign key points at, as the tables have it.\<close>

definition target_rows ::
  "'d fk_site \<Rightarrow> (string \<Rightarrow> string \<Rightarrow> tenant_id \<Rightarrow> string \<Rightarrow> tenant_id option list) \<Rightarrow> dj_field \<Rightarrow> tenant_id \<Rightarrow> tenant_id option list" where
  "target_rows env rows f v =
     (case (fd_related f, target_tenant_field env f) of
        (Some (ToModel label), Some tf) \<Rightarrow> rows label (fd_target_field f) v (fd_attname tf)
      | _ \<Rightarrow> [])"

definition record_found :: "(dj_field \<Rightarrow> tenant_id \<Rightarrow> tenant_id option list) \<Rightarrow> fk_targets \<Rightarrow> fk_found \<Rightarrow> fk_found" where
  "record_found look ps found = fold (\<lambda>(f, v) d. AList.update f (look f v) d) ps found"

lemma quiet_look_up: "fk_ok env \<Longrightarrow> quiet (look_up env al ps found)"
proof (induction ps arbitrary: found)
  case Nil
  then show ?case by (simp add: quiet_intros)
next
  case (Cons p ps)
  obtain f v where p: "p = (f, v)" by (cases p)
  have "quiet (fk_rows env al l fld v att)" for l fld att using Cons.prems by (simp add: fk_ok_def)
  then have "quiet (py_bind (fk_rows env al l fld v att) (\<lambda>ts. look_up env al ps (AList.update f ts found)))" for l fld att
    using Cons.IH [OF Cons.prems] by (intro quiet_intros)
  then show ?case using p by (auto split: option.split related.split intro: quiet_intros)
qed

lemma look_up_found:
  assumes ok: "fk_ok env" and reads: "admin_reads env rows"
  shows "state_ok (a_state w) \<Longrightarrow> sees None True (Some admin_gucs) (a_state w) \<Longrightarrow>
    look_up env al ps found w = (Inr found', w') \<Longrightarrow> found' = record_found (target_rows env rows) ps found"
proof (induction ps arbitrary: found w)
  case Nil
  then show ?case by (simp add: record_found_def py_ret_def)
next
  case (Cons p ps)
  obtain f v where p: "p = (f, v)" by (cases p)
  from Cons.prems(3) p obtain l tf where
    t: "fd_related f = Some (ToModel l)" "target_tenant_field env f = Some tf"
    by (auto simp: py_raise_def split: option.splits related.splits)
  with Cons.prems(3) p obtain ts w1 where r: "fk_rows env al l (fd_target_field f) v (fd_attname tf) w = (Inr ts, w1)"
    "look_up env al ps (AList.update f ts found) w1 = (Inr found', w')"
    by (auto elim!: py_bind_InrE)
  have "ts = target_rows env rows f v"
    using reads [unfolded admin_reads_def, rule_format, OF Cons.prems(1,2) r(1)] t by (simp add: target_rows_def)
  moreover have "quiet (fk_rows env al l (fd_target_field f) v (fd_attname tf))" using ok by (simp add: fk_ok_def)
  then have "a_state w1 = a_state w" using r(1) quietD by blast
  ultimately show ?case using Cons.IH [of w1] Cons.prems r(2) p by (simp add: record_found_def)
qed

lemma quiet_finallyD: "quiet (f b) \<Longrightarrow> f b w = (r, w') \<Longrightarrow> a_state w' = a_state w"
  using quietD by blast

text \<open>A block on one alias: it finds what the tables have, and gives its context back.\<close>

lemma look_up_alias_found:
  assumes ok: "fk_ok env" and s: "state_ok (a_state w)"
    and run: "look_up_alias env savepoint al ps found w = (r, w')"
  shows "balanced (a_state w) (a_state w') \<and>
    (admin_reads env rows \<longrightarrow> (\<forall>found'. r = Inr found' \<longrightarrow> found' = record_found (target_rows env rows) ps found))"
proof -
  let ?body = "admin_context (fk_site env) al silent_origin (look_up env al ps found)"
  have site: "site_ok (fk_site env)" using ok by (simp add: fk_ok_def)
  have body: "balanced (a_state v) (a_state v') \<and>
      (admin_reads env rows \<longrightarrow> (\<forall>found'. q = Inr found' \<longrightarrow> found' = record_found (target_rows env rows) ps found))"
    if "state_ok (a_state v)" "?body v = (q, v')" for v q v'
  proof -
    have "disciplined (look_up env al ps found)" using disciplined_quiet [OF quiet_look_up [OF ok]] .
    then have "balanced (a_state v) (a_state v')"
      using admin_cm.restores [where u = al and o' = silent_origin, OF site _ that(1)] that(2) by (metis snd_conv)
    moreover have "found' = record_found (target_rows env rows) ps found"
      if q: "q = Inr found'" and reads: "admin_reads env rows" for found'
      using admin_context_returns [OF _ site \<open>state_ok (a_state v)\<close>] \<open>?body v = (q, v')\<close> q look_up_found [OF ok reads]
      by metis
    ultimately show ?thesis by blast
  qed
  show ?thesis
  proof (cases "savepoint \<or> needs_own_tx env al w")
    case False
    then show ?thesis using run body [OF s] by (simp add: look_up_alias_def Let_def)
  next
    case True
    have en: "quiet (fk_atomic_enter env al)" and ex: "\<And>b. quiet (fk_atomic_exit env al b)"
      using ok by (simp_all add: fk_ok_def)
    obtain q1 w1 where w1: "fk_atomic_enter env al w = (q1, w1)" by (cases "fk_atomic_enter env al w")
    have s1: "a_state w1 = a_state w" using quietD [OF en w1] by simp
    obtain q2 w2 where w2: "?body w1 = (q2, w2)" by (cases "?body w1")
    obtain q3 w3 where w3: "fk_atomic_exit env al (isl q2) w2 = (q3, w3)" by (cases "fk_atomic_exit env al (isl q2) w2")
    have s3: "a_state w3 = a_state w2" using quietD [OF ex w3] by simp
    have run': "in_atomic env al ?body w = (r, w')" using run True by (simp add: look_up_alias_def Let_def)
    show ?thesis
    proof (cases q1)
      case (Inl e)
      then show ?thesis using run' w1 s1 s balanced_refl
        by (auto simp: in_atomic_def py_seq_def py_bind_def)
    next
      case (Inr x)
      then have fin: "py_finally ?body (fk_atomic_exit env al) w1 = (r, w')"
        using run' w1 by (simp add: in_atomic_def py_seq_def py_bind_def)
      then have "w' = w3" using w2 w3 by (auto simp: py_finally_def split: sum.splits)
      moreover have "\<And>found'. r = Inr found' \<Longrightarrow> q2 = Inr found'" using fin w2 py_finally_Inr by fastforce
      ultimately show ?thesis using body [of w1 q2 w2] s1 s3 s w2 by auto
    qed
  qed
qed

lemma balanced_trans: "balanced s t \<Longrightarrow> balanced t u \<Longrightarrow> balanced s u"
  by (auto simp: balanced_def intro: scoped_trans)

lemma balanced_ok: "balanced s t \<Longrightarrow> state_ok t"
  by (auto simp: balanced_def dest: scoped_state_ok)

lemma record_found_append: "record_found look (ps @ qs) found = record_found look qs (record_found look ps found)"
  by (simp add: record_found_def)

definition grouped :: "(string \<times> 'a list) list \<Rightarrow> 'a list" where
  "grouped gs = concat (map snd gs)"

lemma look_up_all_found:
  assumes ok: "fk_ok env"
  shows "state_ok (a_state w) \<Longrightarrow> look_up_all env savepoint groups found w = (r, w') \<Longrightarrow>
    balanced (a_state w) (a_state w') \<and>
    (admin_reads env rows \<longrightarrow> (\<forall>found'. r = Inr found' \<longrightarrow>
       found' = record_found (target_rows env rows) (grouped groups) found))"
proof (induction groups arbitrary: found w)
  case Nil
  then show ?case by (auto simp: py_ret_def record_found_def balanced_refl grouped_def)
next
  case (Cons g gs)
  obtain al ps where g: "g = (al, ps)" by (cases g)
  obtain q w1 where q: "look_up_alias env savepoint al ps found w = (q, w1)" by (cases "look_up_alias env savepoint al ps found w")
  note one = look_up_alias_found [OF ok Cons.prems(1) q]
  show ?case
  proof (cases q)
    case (Inl e)
    then show ?thesis using Cons.prems(2) g q one by (auto simp: py_bind_def)
  next
    case (Inr found1)
    then have rest: "look_up_all env savepoint gs found1 w1 = (r, w')" using Cons.prems(2) g q by (simp add: py_bind_def)
    have ok1: "state_ok (a_state w1)" using one balanced_ok by blast
    note two = Cons.IH [OF ok1 rest]
    then show ?thesis using one balanced_trans g Inr by (auto simp: record_found_append grouped_def)
  qed
qed

text \<open>Grouping by alias loses no target.\<close>

lemma add_pair_set: "set (grouped (add_pair al x gs)) = insert x (set (grouped gs))"
  by (induction al x gs rule: add_pair.induct) (auto simp: grouped_def)

lemma by_alias_set: "set (grouped (by_alias al xs)) = set xs"
proof -
  have "set (grouped (fold (\<lambda>x. add_pair (al x) x) xs gs)) = set xs \<union> set (grouped gs)" for gs
    by (induction xs arbitrary: gs) (simp_all add: add_pair_set)
  from this [of "[]"] show ?thesis by (simp add: by_alias_def grouped_def)
qed

lemma record_found_in:
  assumes "\<And>v'. (f, v') \<in> set ps \<Longrightarrow> v' = v" and "(f, v) \<in> set ps \<or> map_of found f = Some (look f v)"
  shows "map_of (record_found look ps found) f = Some (look f v)"
  using assms
proof (induction ps arbitrary: found)
  case Nil
  then show ?case by (simp add: record_found_def)
next
  case (Cons p ps)
  obtain g u where p: "p = (g, u)" by (cases p)
  have "map_of (record_found look ps (AList.update g (look g u) found)) f = Some (look f v)"
    using Cons.prems p by (intro Cons.IH) (auto simp: update_conv')
  then show ?case using p by (simp add: record_found_def)
qed

lemma target_tenants_found:
  assumes ok: "fk_ok env" and s: "state_ok (a_state w)" and run: "target_tenants env savepoint ts w = (r, w')"
  shows "balanced (a_state w) (a_state w') \<and>
    (admin_reads env rows \<longrightarrow> (\<forall>found f v. r = Inr found \<longrightarrow> (f, v) \<in> set ts \<longrightarrow> distinct (map fst ts) \<longrightarrow>
       map_of found f = Some (target_rows env rows f v)))"
proof -
  note all = look_up_all_found [OF ok s run [unfolded target_tenants_def], of rows]
  have "map_of (record_found look (grouped (by_alias (alias_of_target env) ts)) []) f = Some (look f v)"
    if "(f, v) \<in> set ts" "distinct (map fst ts)" for f v look
    using that by (intro record_found_in) (auto simp: by_alias_set dest: eq_key_imp_eq_value)
  with all show ?thesis by auto
qed


subsection \<open>The check is exact\<close>

lemma quiet_rejected: "fk_ok env \<Longrightarrow> audited_target_tenants env [] w = (Inr [], w)"
  by (simp add: audited_target_tenants_def target_tenants_def by_alias_def py_except_def py_ret_def)

text \<open>The foreign keys found bad are those whose target is not, or not only, of the tenant.\<close>

lemma others_found:
  assumes ok: "fk_ok env" and s: "state_ok (a_state w)" and d: "distinct (map fst ts)"
    and run: "foreign_keys_of_other_tenants env m source user_id tenant ts [] w = (r, w')"
  shows "balanced (a_state w) (a_state w') \<and>
    (admin_reads env rows \<longrightarrow> (\<forall>bad. r = Inr bad \<longrightarrow>
       set bad = {f. \<exists>v. (f, v) \<in> set ts \<and> target_rows env rows f v \<noteq> [Some tenant]}))"
proof -
  obtain q w1 where q: "target_tenants env False ts w = (q, w1)" by (cases "target_tenants env False ts w")
  note f = target_tenants_found [OF ok s q, of rows]
  show ?thesis
  proof (cases q)
    case (Inl e)
    then show ?thesis using run q f by (auto simp: foreign_keys_of_other_tenants_def Let_def py_bind_def)
  next
    case (Inr found)
    have "r = Inr (filter (\<lambda>f. map_of found f \<noteq> Some [Some tenant]) (map fst ts)) \<and> a_state w' = a_state w1"
      using run q Inr
      by (auto simp: foreign_keys_of_other_tenants_def Let_def py_bind_def py_seq_def py_ret_def py_modify_def split: if_splits)
    moreover have "map_of found f = Some (target_rows env rows f v)" if "(f, v) \<in> set ts" "admin_reads env rows" for f v
      using f that d Inr by blast
    ultimately show ?thesis using f by auto (metis fst_conv image_eqI)+
  qed
qed

text \<open>What the foreign keys of a row hold.\<close>

definition fk_value ::
  "'d fk_site \<Rightarrow> (string \<Rightarrow> tenant_id option) \<Rightarrow> dj_field \<Rightarrow> verror list + tenant_id option" where
  "fk_value env inst f = fk_to_python env f (inst (fd_attname f))"

definition fk_pick :: "'d fk_site \<Rightarrow> (string \<Rightarrow> tenant_id option) \<Rightarrow> string list \<Rightarrow> dj_field \<Rightarrow> (dj_field \<times> tenant_id) option" where
  "fk_pick env inst ex f =
     (if fd_name f \<in> set ex then None
      else case fk_value env inst f of Inr (Some v) \<Rightarrow> Some (f, v) | _ \<Rightarrow> None)"

lemma fk_pick_Some: "fk_pick env inst ex f = Some p \<longleftrightarrow>
   (\<exists>v. p = (f, v) \<and> fd_name f \<notin> set ex \<and> fk_value env inst f = Inr (Some v))"
  by (auto simp: fk_pick_def split: sum.splits option.splits)

lemma alist_update_not_Nil [simp]: "AList.update k v xs \<noteq> []"
  by (cases xs) auto

lemma scan_field_clean:
  "sn_rejected (scan_field env inst ex [] f s) = sn_rejected s"
  "sn_targets (scan_field env inst ex [] f s) = sn_targets s @ (case fk_pick env inst ex f of None \<Rightarrow> [] | Some p \<Rightarrow> [p])"
  "sn_errors (scan_field env inst ex [] f s) = [] \<longleftrightarrow>
     sn_errors s = [] \<and> (fd_name f \<notin> set ex \<longrightarrow> \<not> isl (fk_value env inst f))"
  by (simp_all add: scan_field_def fk_pick_def fk_value_def split: sum.split option.split)

lemma scan_clean:
  "sn_rejected (fold (scan_field env inst ex []) fs s) = sn_rejected s"
  "sn_targets (fold (scan_field env inst ex []) fs s) = sn_targets s @ List.map_filter (fk_pick env inst ex) fs"
  "sn_errors (fold (scan_field env inst ex []) fs s) = [] \<longleftrightarrow>
     sn_errors s = [] \<and> (\<forall>f \<in> set fs. fd_name f \<notin> set ex \<longrightarrow> \<not> isl (fk_value env inst f))"
  by (induction fs arbitrary: s) (auto simp: map_filter_simps scan_field_clean split: option.split)

text \<open>A row stays in its tenant: every foreign key that is checked is empty, or points at a row of the tenant.\<close>

definition in_tenant ::
  "'d fk_site \<Rightarrow> (string \<Rightarrow> string \<Rightarrow> tenant_id \<Rightarrow> string \<Rightarrow> tenant_id option list) \<Rightarrow> (string \<Rightarrow> tenant_id option) \<Rightarrow>
     tenant_id \<Rightarrow> dj_field \<Rightarrow> bool" where
  "in_tenant env rows inst tenant f \<longleftrightarrow>
     (case fk_value env inst f of
        Inl _ \<Rightarrow> False
      | Inr None \<Rightarrow> True
      | Inr (Some v) \<Rightarrow> target_rows env rows f v = [Some tenant])"

lemma fold_update_Nil:
  "fold (\<lambda>f errors. case g f of None \<Rightarrow> errors | Some v \<Rightarrow> AList.update (h f) (k v) errors) fs es = [] \<longleftrightarrow>
     es = [] \<and> (\<forall>f \<in> set fs. g f = None)"
proof (induction fs arbitrary: es)
  case (Cons f fs)
  from Cons show ?case by (auto split: option.splits)
qed simp

lemma set_map_filter_Some: "y \<in> set (List.map_filter g xs) \<longleftrightarrow> (\<exists>x \<in> set xs. g x = Some y)"
  by (induction xs) (auto simp: map_filter_simps split: option.split)

lemma fold_updates_Nil: "fold (case_prod AList.update) ps es = [] \<longleftrightarrow> ps = [] \<and> es = []"
proof (induction ps arbitrary: es)
  case (Cons p ps)
  show ?case by (cases p) (simp add: Cons.IH)
qed simp

lemma cross_tenant_errors_exact:
  assumes ok: "fk_ok env" and reads: "admin_reads env rows" and s: "state_ok (a_state w)"
    and checked: "checked_foreign_keys env m = Some (tf, fks)" "distinct (map fd_name (dm_fields m))"
    and tenant: "fk_value env inst tf = Inr (Some tenant)"
    and run: "cross_tenant_errors env m inst ex [] w = (r, w')"
  shows "balanced (a_state w) (a_state w') \<and>
    (\<forall>errors. r = Inr errors \<longrightarrow> (errors = [] \<longleftrightarrow> (\<forall>f \<in> set fks. fd_name f \<notin> set ex \<longrightarrow> in_tenant env rows inst tenant f)))"
proof -
  let ?sn = "scan_fields env inst ex [] fks" and ?ts = "List.map_filter (fk_pick env inst ex) fks"
  have sn: "sn_rejected ?sn = []" "sn_targets ?sn = ?ts"
    "sn_errors ?sn = [] \<longleftrightarrow> (\<forall>f \<in> set fks. fd_name f \<notin> set ex \<longrightarrow> \<not> isl (fk_value env inst f))"
    by (simp_all add: scan_fields_def scan_clean)
  have ts: "(f, v) \<in> set ?ts \<longleftrightarrow> f \<in> set fks \<and> fd_name f \<notin> set ex \<and> fk_value env inst f = Inr (Some v)" for f v
    by (auto simp: set_map_filter_Some fk_pick_Some)
  have "distinct (dm_fields m)" using checked(2) by (simp add: distinct_map)
  then have "distinct fks" using checked(1)
    by (auto simp: checked_foreign_keys_def split: option.splits)
  moreover have "map fst (List.map_filter (fk_pick env inst ex) xs) = filter (\<lambda>f. fk_pick env inst ex f \<noteq> None) xs" for xs
    by (induction xs) (auto simp: map_filter_simps simp del: split_paired_Ex dest: fk_pick_Some [THEN iffD1] split: option.split)
  ultimately have d: "distinct (map fst ?ts)" by simp
  have key: "(\<forall>f \<in> set fks. fd_name f \<notin> set ex \<longrightarrow> in_tenant env rows inst tenant f) \<longleftrightarrow>
      sn_errors ?sn = [] \<and> (\<forall>f v. (f, v) \<in> set ?ts \<longrightarrow> target_rows env rows f v = [Some tenant])"
    unfolding sn(3) ts in_tenant_def by (auto simp: isl_def split: sum.splits option.splits)
  show ?thesis
  proof (cases "?ts = []")
    case True
    then have "r = Inr (sn_errors ?sn) \<and> w' = w"
      using run checked(1) tenant sn by (auto simp: cross_tenant_errors_def fk_value_def Let_def py_ret_def)
    then show ?thesis using key True s by (auto simp: balanced_refl)
  next
    case False
    obtain q w1 where q: "foreign_keys_of_other_tenants env m ''validation'' None tenant ?ts [] w = (q, w1)"
      by (cases "foreign_keys_of_other_tenants env m ''validation'' None tenant ?ts [] w")
    note o = others_found [OF ok s d q, of rows]
    show ?thesis
    proof (cases q)
      case (Inl e)
      then show ?thesis using run checked(1) tenant sn False q o
        by (auto simp: cross_tenant_errors_def fk_value_def Let_def py_bind_def)
    next
      case (Inr bad)
      let ?errors = "fold (\<lambda>f errors. case map_of ?ts f of None \<Rightarrow> errors
                 | Some v \<Rightarrow> AList.update (fd_name f) [invalid_target v] errors) bad (sn_errors ?sn)"
      have r: "r = Inr ?errors" "w' = w1"
        using run checked(1) tenant sn False q Inr
        by (auto simp: cross_tenant_errors_def fk_value_def Let_def py_bind_def py_ret_def)
      have bad: "set bad = {f. \<exists>v. (f, v) \<in> set ?ts \<and> target_rows env rows f v \<noteq> [Some tenant]}" using o reads Inr by blast
      have "f \<in> set bad \<Longrightarrow> map_of ?ts f \<noteq> None" for f using bad by (auto simp: map_of_eq_None_iff image_iff) force
      then have "(\<forall>f \<in> set bad. map_of ?ts f = None) \<longleftrightarrow> bad = []" by (cases bad) auto
      moreover have "bad = [] \<longleftrightarrow> set bad = {}" by simp
      ultimately have "?errors = [] \<longleftrightarrow> sn_errors ?sn = [] \<and> (\<forall>f v. (f, v) \<in> set ?ts \<longrightarrow> target_rows env rows f v = [Some tenant])"
        unfolding fold_update_Nil bad by blast
      then show ?thesis using r key o by simp
    qed
  qed
qed


subsection \<open>Every automatic join table has a policy\<close>

text \<open>What a registration may do to a registry: append join policies to automatic join tables that have none.\<close>

definition grew :: "dj_model \<Rightarrow> dj_model \<Rightarrow> bool" where
  "grew m n \<longleftrightarrow> n = m \<or> (\<exists>c. dm_auto_created m \<and> \<not> list_ex is_join_policy (dm_constraints m) \<and>
     n = m\<lparr>dm_constraints := dm_constraints m @ [JoinPolicy c]\<rparr>)"

definition grown :: "app_registry \<Rightarrow> app_registry \<Rightarrow> bool" where
  "grown a b \<longleftrightarrow> ap_listed b = ap_listed a \<and> (\<forall>l. rel_option grew (ap_models a l) (ap_models b l))"

lemma is_join_policy_new [simp]: "is_join_policy (JoinPolicy c)"
  by (simp add: is_join_policy_def)

lemma grew_refl: "grew m m"
  by (simp add: grew_def)

lemma grew_trans: "grew l m \<Longrightarrow> grew m n \<Longrightarrow> grew l n"
  by (auto simp: grew_def)

lemma rel_option_grew_trans: "rel_option grew x y \<Longrightarrow> rel_option grew y z \<Longrightarrow> rel_option grew x z"
  by (cases x; cases y; cases z) (auto intro: grew_trans)

lemma grown_refl: "grown a a"
  by (auto simp: grown_def grew_refl intro: option.rel_refl)

lemma grown_trans: "grown a b \<Longrightarrow> grown b c \<Longrightarrow> grown a c"
  unfolding grown_def by (metis rel_option_grew_trans)

lemma first_policy_append: "first_policy (cs @ [JoinPolicy c]) = first_policy cs"
  by (induction cs rule: first_policy.induct) auto

text \<open>What is read of a model does not change.\<close>

definition same_model :: "dj_model \<Rightarrow> dj_model \<Rightarrow> bool" where
  "same_model m n \<longleftrightarrow> first_policy (dm_constraints n) = first_policy (dm_constraints m) \<and>
     n = m\<lparr>dm_constraints := dm_constraints n\<rparr>"

lemma grew_same: "grew m n \<Longrightarrow> same_model m n"
  by (auto simp: grew_def same_model_def first_policy_append)

lemma grown_model: "grown a b \<Longrightarrow> rel_option same_model (ap_models a l) (ap_models b l)"
  unfolding grown_def using grew_same by (metis option.rel_mono_strong)

lemma same_fields:
  "same_model m n \<Longrightarrow> dm_concrete n = dm_concrete m \<and> dm_protected n = dm_protected m \<and> dm_abstract n = dm_abstract m \<and>
     dm_auto_created n = dm_auto_created m \<and> dm_m2m n = dm_m2m m \<and> first_policy (dm_constraints n) = first_policy (dm_constraints m)"
  unfolding same_model_def by (cases m; cases n) auto

lemma same_declares:
  assumes g: "grown a b" and m: "same_model m n"
  shows "declares_rls_policy b n = declares_rls_policy a m"
proof -
  have "same_model (concrete_of a m) (concrete_of b n)"
  proof (cases "dm_concrete m")
    case None
    then show ?thesis using m same_fields [OF m] by (simp add: concrete_of_def)
  next
    case (Some l)
    then show ?thesis using m same_fields [OF m] grown_model [OF g, of l]
      by (cases "ap_models a l"; cases "ap_models b l") (simp_all add: concrete_of_def)
  qed
  then show ?thesis using same_fields by (simp add: declares_rls_policy_def)
qed

text \<open>A field is settled when registering it does nothing: no policy is missing, or none can be made.\<close>

definition through_done :: "app_registry \<Rightarrow> dj_m2m \<Rightarrow> bool" where
  "through_done apps f \<longleftrightarrow>
     (case ap_models apps (mm_through f) of
        None \<Rightarrow> False
      | Some through \<Rightarrow> \<not> dm_auto_created through \<or> list_ex is_join_policy (dm_constraints through) \<or>
          (\<exists>name. mm_related f = ToLazy name))"

lemma through_done_noop: "through_done apps f \<Longrightarrow> register_field cfg m f apps = (Inr (), apps)"
  by (auto simp: through_done_def register_field_def split: option.splits)

lemma through_done_grown: "through_done a f \<Longrightarrow> grown a b \<Longrightarrow> through_done b f"
  unfolding through_done_def grown_def
  by (erule conjE, drule spec [of _ "mm_through f"])
     (auto simp: grew_def option_rel_Some1 split: option.splits)

lemma register_field_grows:
  assumes "register_field cfg m f a = (r, b)"
  shows "grown a b \<and> (r = Inr () \<longrightarrow> through_done b f)"
proof -
  have same: "grown a a" by (rule grown_refl)
  show ?thesis using assms same
    by (auto simp: register_field_def through_done_def grown_def grew_def rel_option_iff
        split: option.splits related.splits sum.splits if_splits)
qed

lemma register_fields_grow:
  assumes "py_for fs (register_field cfg m) a = (r, b)"
  shows "grown a b \<and> (r = Inr () \<longrightarrow> (\<forall>f \<in> set fs. through_done b f))"
  using assms
proof (induction fs arbitrary: a)
  case Nil
  then show ?case by (simp add: py_ret_def grown_refl)
next
  case (Cons f fs)
  obtain q a1 where q: "register_field cfg m f a = (q, a1)" by (cases "register_field cfg m f a")
  note one = register_field_grows [OF q]
  show ?case
  proof (cases q)
    case (Inl e)
    then show ?thesis using Cons.prems q one by (auto simp: py_seq_def py_bind_def)
  next
    case (Inr u)
    then have "py_for fs (register_field cfg m) a1 = (r, b)" using Cons.prems q by (simp add: py_seq_def py_bind_def)
    from Cons.IH [OF this] show ?thesis using one Inr grown_trans through_done_grown by auto
  qed
qed

lemma through_done_noops: "\<forall>f \<in> set fs. through_done a f \<Longrightarrow> py_for fs (register_field cfg m) a = (Inr (), a)"
  by (induction fs) (simp_all add: through_done_noop py_ret_def py_seq_def py_bind_def)

text \<open>The join tables a listed model answers for.\<close>

definition model_done :: "app_registry \<Rightarrow> string \<Rightarrow> bool" where
  "model_done apps l \<longleftrightarrow>
     (case ap_models apps l of
        None \<Rightarrow> False
      | Some m \<Rightarrow> declares_rls_policy apps m \<longrightarrow> \<not> dm_abstract m \<longrightarrow> (\<forall>f \<in> set (dm_m2m m). through_done apps f))"

lemma model_done_noop: "model_done apps l \<Longrightarrow> register_model cfg l apps = (Inr (), apps)"
  by (auto simp: model_done_def register_model_def through_done_noops split: option.splits)

lemma model_done_grown:
  assumes "model_done a l" and g: "grown a b"
  shows "model_done b l"
proof -
  obtain m where m: "ap_models a l = Some m" using assms(1) by (auto simp: model_done_def split: option.splits)
  then obtain n where n: "ap_models b l = Some n" "same_model m n"
    using grown_model [OF g, of l] by (auto simp: option_rel_Some1)
  then show ?thesis using assms(1) m same_fields [OF n(2)] same_declares [OF g n(2)] through_done_grown [OF _ g]
    by (auto simp: model_done_def)
qed

lemma register_model_grows:
  assumes "register_model cfg l a = (r, b)"
  shows "grown a b \<and> (r = Inr () \<longrightarrow> model_done b l)"
proof (cases "ap_models a l")
  case None
  then show ?thesis using assms by (auto simp: register_model_def grown_refl)
next
  case (Some m)
  show ?thesis
  proof (cases "\<not> declares_rls_policy a m \<or> dm_abstract m")
    case True
    then show ?thesis using assms Some by (auto simp: register_model_def grown_refl model_done_def)
  next
    case False
    then have run: "py_for (dm_m2m m) (register_field cfg m) a = (r, b)" using assms Some by (auto simp: register_model_def)
    note fs = register_fields_grow [OF run]
    then obtain n where n: "ap_models b l = Some n" "same_model m n"
      using grown_model [of a b l] Some by (auto simp: option_rel_Some1)
    then show ?thesis using fs same_fields [OF n(2)] by (auto simp: model_done_def)
  qed
qed

lemma register_models_grow:
  assumes "py_for ls (register_model cfg) a = (r, b)"
  shows "grown a b \<and> (r = Inr () \<longrightarrow> (\<forall>l \<in> set ls. model_done b l))"
  using assms
proof (induction ls arbitrary: a)
  case Nil
  then show ?case by (simp add: py_ret_def grown_refl)
next
  case (Cons l ls)
  obtain q a1 where q: "register_model cfg l a = (q, a1)" by (cases "register_model cfg l a")
  note one = register_model_grows [OF q]
  show ?case
  proof (cases q)
    case (Inl e)
    then show ?thesis using Cons.prems q one by (auto simp: py_seq_def py_bind_def)
  next
    case (Inr u)
    then have "py_for ls (register_model cfg) a1 = (r, b)" using Cons.prems q by (simp add: py_seq_def py_bind_def)
    from Cons.IH [OF this] show ?thesis using one Inr grown_trans model_done_grown by auto
  qed
qed

lemma model_done_noops: "\<forall>l \<in> set ls. model_done a l \<Longrightarrow> py_for ls (register_model cfg) a = (Inr (), a)"
  by (induction ls) (simp_all add: model_done_noop py_ret_def py_seq_def py_bind_def)

text \<open>
  C35. No automatic join table is left open: once \<^verbatim>\<open>register_m2m_rls()\<close> has returned, every automatic
  join table of a listed model that declares its policy (with a resolved target) has a join policy;
  nothing was changed but by one join policy appended to automatic join tables that had none; and
  calling it again, as a second app does, changes nothing.
\<close>

theorem join_tables_covered:
  assumes run: "register_m2m_rls cfg a = (Inr (), b)"
  shows "(\<forall>l m f t. l \<in> set (ap_listed a) \<longrightarrow> ap_models a l = Some m \<longrightarrow> declares_rls_policy a m \<longrightarrow> \<not> dm_abstract m \<longrightarrow>
            f \<in> set (dm_m2m m) \<longrightarrow> mm_related f = ToModel t \<longrightarrow>
            (\<exists>through. ap_models b (mm_through f) = Some through \<and>
               (dm_auto_created through \<longrightarrow> list_ex is_join_policy (dm_constraints through)))) \<and>
         grown a b \<and> register_m2m_rls cfg b = (Inr (), b)"
proof -
  note g = register_models_grow [OF run [unfolded register_m2m_rls_def]]
  have "\<exists>through. ap_models b (mm_through f) = Some through \<and>
      (dm_auto_created through \<longrightarrow> list_ex is_join_policy (dm_constraints through))"
    if l: "l \<in> set (ap_listed a)" "ap_models a l = Some m" "declares_rls_policy a m" "\<not> dm_abstract m"
      and f: "f \<in> set (dm_m2m m)" "mm_related f = ToModel t" for l m f t
  proof -
    obtain n where n: "ap_models b l = Some n" "same_model m n"
      using grown_model [of a b l] g l(2) by (auto simp: option_rel_Some1)
    have "model_done b l" using g l(1) by blast
    moreover have "declares_rls_policy b n" using same_declares [OF _ n(2)] g l(3) by blast
    ultimately have "through_done b f" using n l(4) f(1) same_fields [OF n(2)] by (simp add: model_done_def)
    then show ?thesis using f(2) by (auto simp: through_done_def split: option.splits)
  qed
  moreover have "register_m2m_rls cfg b = (Inr (), b)"
    using g model_done_noops [of "ap_listed b" b] by (simp add: register_m2m_rls_def grown_def)
  ultimately show ?thesis using g by blast
qed


subsection \<open>Examples of these hypotheses\<close>

text \<open>A note of a tenant, with a project and tags; projects and tags are of a tenant too.\<close>

definition demo_policy :: dj_constraint where
  "demo_policy = TenantPolicy \<lparr>rc_name = ''policy'', rc_field = ''tenant'', rc_guc_tenant_var = ''rls.current_tenant'',
     rc_guc_admin_var = ''rls.is_admin'', rc_tenant_pk_type = ''int'', rc_extra_bypass_flags = [], rc_extra_predicates = []\<rparr>"

definition demo_fk :: "string \<Rightarrow> string \<Rightarrow> nat \<Rightarrow> dj_field" where
  "demo_fk name target n = \<lparr>fd_name = name, fd_attname = name @ ''_id'', fd_is_fk = True, fd_concrete = True, fd_local = True,
     fd_related = Some (ToModel target), fd_null = False, fd_parent_link = False, fd_target_field = ''id'', fd_counter = n\<rparr>"

definition demo_model :: "string \<Rightarrow> dj_constraint list \<Rightarrow> dj_field list \<Rightarrow> dj_m2m list \<Rightarrow> bool \<Rightarrow> dj_model" where
  "demo_model name cs fs m2m auto = \<lparr>dm_app = ''app'', dm_name = name, dm_table = ''app_'' @ name, dm_proxy = False,
     dm_abstract = False, dm_auto_created = auto, dm_protected = False, dm_concrete = None, dm_constraints = cs,
     dm_fields = fs, dm_m2m = m2m\<rparr>"

definition demo_note :: dj_model where
  "demo_note = demo_model ''Note'' [demo_policy] [demo_fk ''tenant'' ''app.Tenant'' 1, demo_fk ''project'' ''app.Project'' 2]
     [\<lparr>mm_name = ''tags'', mm_through = ''app.Note_tags'', mm_related = ToModel ''app.Tag'', mm_column = ''note_id'', mm_reverse = ''tag_id''\<rparr>] False"

definition demo_apps :: app_registry where
  "demo_apps = \<lparr>ap_models = [''app.Note'' \<mapsto> demo_note,
       ''app.Project'' \<mapsto> demo_model ''Project'' [demo_policy] [demo_fk ''tenant'' ''app.Tenant'' 3] [] False,
       ''app.Tag'' \<mapsto> demo_model ''Tag'' [demo_policy] [demo_fk ''tenant'' ''app.Tenant'' 4] [] False,
       ''app.Note_tags'' \<mapsto> demo_model ''Note_tags'' [] [] [] True],
     ap_listed = [''app.Note'', ''app.Project'', ''app.Tag'']\<rparr>"

definition demo_model_cfg :: model_cfg where
  "demo_model_cfg = \<lparr>md_tenant_model = ''app.Tenant'', md_tenant_fk = ''tenant'', md_external = []\<rparr>"

lemmas demo_model_defs = demo_policy_def demo_fk_def demo_model_def demo_note_def demo_apps_def demo_model_cfg_def

definition demo_rows :: "string \<Rightarrow> string \<Rightarrow> tenant_id \<Rightarrow> string \<Rightarrow> tenant_id option list" where
  "demo_rows model field value attname = (if model = ''app.Project'' \<and> value = TInt 7 then [Some (TInt 2)] else [])"

definition demo_fk_site :: "demo_pg_state fk_site" where
  "demo_fk_site = \<lparr>fk_site = demo_site True, fk_cfg = demo_model_cfg, fk_apps = demo_apps, fk_router = (\<lambda>_. ''default''),
     fk_atomic_enter = (\<lambda>_. py_ret ()), fk_atomic_exit = (\<lambda>_ _. py_ret ()), fk_to_python = (\<lambda>_ v. Inr v),
     fk_rows = (\<lambda>_ l f v a. py_ret (demo_rows l f v a))\<rparr>"

text \<open>A note of tenant 1 in project 7, which is of tenant 2.\<close>

definition demo_row :: "string \<Rightarrow> tenant_id option" where
  "demo_row = [''tenant_id'' \<mapsto> TInt 1, ''project_id'' \<mapsto> TInt 7]"

lemma demo_fk_ok: "fk_ok demo_fk_site" "admin_reads demo_fk_site demo_rows"
  by (simp_all add: fk_ok_def demo_fk_site_def demo_site_ok quiet_intros admin_reads_def py_ret_def)

lemma demo_checked:
  "checked_foreign_keys demo_fk_site demo_note = Some (demo_fk ''tenant'' ''app.Tenant'' 1, [demo_fk ''project'' ''app.Project'' 2])"
  by (simp add: checked_foreign_keys_def tenant_field_def concrete_of_def get_tenant_fk_field_def get_field_def
      target_tenant_field_def related_model_def demo_fk_site_def demo_model_defs)


lemma demo_registers: "fst (register_m2m_rls demo_model_cfg demo_apps) = Inr ()"
  by code_simp

lemma join_tables_covered_witness:
  "\<exists>through. ap_models (snd (register_m2m_rls demo_model_cfg demo_apps)) ''app.Note_tags'' = Some through \<and>
     list_ex is_join_policy (dm_constraints through)"
proof -
  obtain b where b: "register_m2m_rls demo_model_cfg demo_apps = (Inr (), b)"
    using demo_registers by (metis prod.collapse)
  let ?f = "\<lparr>mm_name = ''tags'', mm_through = ''app.Note_tags'', mm_related = ToModel ''app.Tag'', mm_column = ''note_id'', mm_reverse = ''tag_id''\<rparr>"
  have "ap_models demo_apps ''app.Note'' = Some demo_note" "''app.Note'' \<in> set (ap_listed demo_apps)"
    "declares_rls_policy demo_apps demo_note" "\<not> dm_abstract demo_note" "?f \<in> set (dm_m2m demo_note)"
    "mm_related ?f = ToModel ''app.Tag''"
    by (simp_all add: demo_model_defs declares_rls_policy_def concrete_of_def)
  with join_tables_covered [OF b] obtain through where
    t: "ap_models b (mm_through ?f) = Some through" "dm_auto_created through \<longrightarrow> list_ex is_join_policy (dm_constraints through)"
    and g: "grown demo_apps b" by blast
  have "ap_models demo_apps ''app.Note_tags'' = Some (demo_model ''Note_tags'' [] [] [] True)"
    by (simp add: demo_apps_def)
  then have "dm_auto_created through"
    using grown_model [OF g, of "''app.Note_tags''"] t(1) same_fields by (simp add: demo_model_def)
  then show ?thesis using b t by simp
qed

end
