(* ===== verification/Managers.thy ===== *)
theory Managers
  imports Tenant_Models
begin

text \<open>
  \<^verbatim>\<open>tenants/managers.py\<close>: the tenant-aware manager and queryset.  A queryset is a value, and a method that
  changes its queryset answers the changed one.  What Django does itself (the SQL a method runs on the
  queryset, the router, the descriptors of a model) is a parameter; what is modelled is where that SQL may
  run: the strict-mode guard, the scope of a \<^verbatim>\<open>for_user()\<close> user, and the filters that are added.
\<close>

subsection \<open>Querysets\<close>

text \<open>A condition on the row reached over a path of relations: its attribute has a value, or there is no row.\<close>

datatype condition =
    AttrIs "string list" string "tenant_id option"
  | PathNull "string list"
  | EitherOf condition condition

datatype selected = SelNothing | SelAll | SelFields "string list list"

record queryset =
  q_model :: dj_model
  q_filters :: "condition list"
  q_user :: "tenant_user option"
  q_shared :: bool
  q_db :: "string option"
  q_for_write :: bool
  q_cached :: bool
  q_prefetch_done :: bool
  q_prefetches :: bool
  q_selected :: selected

record 'd orm =
  or_site :: "'d site"
  or_cfg :: model_cfg
  or_apps :: app_registry
  or_strict :: bool
  or_excluded :: "string list"
  or_read :: "dj_model \<Rightarrow> string"
  or_write :: "dj_model \<Rightarrow> string"
  or_atomic_enter :: "string \<Rightarrow> ('d aff, unit) py"
  or_atomic_exit :: "string \<Rightarrow> bool \<Rightarrow> ('d aff, unit) py"

definition iterator_chunk_size :: nat where
  "iterator_chunk_size = 2000"

definition add_filter :: "condition \<Rightarrow> queryset \<Rightarrow> queryset" where
  "add_filter c qs = qs\<lparr>q_filters := q_filters qs @ [c]\<rparr>"

subsection \<open>Protected models\<close>

definition is_rls_protected :: "'d orm \<Rightarrow> dj_model \<Rightarrow> bool" where
  "is_rls_protected env m \<longleftrightarrow>
     model_label m \<in> set (ap_listed (or_apps env)) \<and>
     get_tenant_fk_field (or_cfg env) (concrete_of (or_apps env) m) \<noteq> None"

definition tenant_attname :: "'d orm \<Rightarrow> dj_model \<Rightarrow> string option" where
  "tenant_attname env m = map_option fd_attname (tenant_field (or_cfg env) (or_apps env) m)"

definition shares_rows :: "'d orm \<Rightarrow> dj_model \<Rightarrow> bool" where
  "shares_rows env m \<longleftrightarrow>
     (case first_policy (dm_constraints (concrete_of (or_apps env) m)) of
        None \<Rightarrow> False
      | Some c \<Rightarrow> rc_extra_predicates c \<noteq> [])"

definition strict_mode_excluded_labels :: "string list \<Rightarrow> string set" where
  "strict_mode_excluded_labels labels = set (map normalized_label labels)"

definition is_strict_mode_excluded :: "'d orm \<Rightarrow> dj_model \<Rightarrow> bool" where
  "is_strict_mode_excluded env m \<longleftrightarrow>
     label_lower m \<in> strict_mode_excluded_labels (or_excluded env) \<or>
     label_lower (concrete_of (or_apps env) m) \<in> strict_mode_excluded_labels (or_excluded env)"

definition tenant_column :: "'d orm \<Rightarrow> string" where
  "tenant_column env = md_tenant_fk (or_cfg env) @ ''_id''"

subsection \<open>Building querysets\<close>

definition for_user :: "'d orm \<Rightarrow> tenant_user \<Rightarrow> queryset \<Rightarrow> queryset" where
  "for_user env user qs =
     (let qs1 = qs\<lparr>q_user := Some user\<rparr>
      in if \<not> u_is_admin user \<and> \<not> q_shared qs1
         then add_filter (AttrIs [] (tenant_column env) (u_tenant user)) qs1
         else qs1)"

definition get_active_tenant_id :: "queryset \<Rightarrow> rls_state \<Rightarrow> tenant_id option" where
  "get_active_tenant_id qs s =
     (case get_current_tenant_id s of
        Some t \<Rightarrow> Some t
      | None \<Rightarrow> (case q_user qs of
            None \<Rightarrow> None
          | Some user \<Rightarrow> if u_is_admin user then None else u_tenant user))"

text \<open>The model at the end of a path, and whether a hop of it may be null.\<close>

fun resolve_related_path :: "app_registry \<Rightarrow> dj_model \<Rightarrow> string list \<Rightarrow> bool \<Rightarrow> (dj_model option \<times> bool)" where
  "resolve_related_path apps current [] nullable = (Some current, nullable)"
| "resolve_related_path apps current (part # parts) nullable =
     (case get_field current part of
        None \<Rightarrow> (None, False)
      | Some f \<Rightarrow>
          (case fd_related f of
             Some (ToModel label) \<Rightarrow>
               (case ap_models apps label of
                  None \<Rightarrow> (None, False)
                | Some m \<Rightarrow> resolve_related_path apps m parts (nullable \<or> fd_null f))
           | _ \<Rightarrow> (None, False)))"

definition related_filter :: "'d orm \<Rightarrow> dj_model \<Rightarrow> tenant_id \<Rightarrow> string list \<Rightarrow> condition option" where
  "related_filter env m t path =
     (case resolve_related_path (or_apps env) m path False of
        (None, _) \<Rightarrow> None
      | (Some related, nullable) \<Rightarrow>
          if \<not> is_rls_protected env related then None
          else (case tenant_attname env related of
              None \<Rightarrow> None
            | Some att \<Rightarrow>
                Some (if nullable then EitherOf (AttrIs path att (Some t)) (PathNull path)
                      else AttrIs path att (Some t))))"

text \<open>\<open>chosen\<close>: \<open>None\<close> for \<^verbatim>\<open>select_related(None)\<close> and \<^verbatim>\<open>select_related(False)\<close>.\<close>

definition select_fields :: "string list list \<Rightarrow> selected \<Rightarrow> selected" where
  "select_fields paths old =
     (case old of SelFields fs \<Rightarrow> SelFields (fs @ paths) | _ \<Rightarrow> SelFields paths)"

definition select_related :: "'d orm \<Rightarrow> string list list option \<Rightarrow> rls_state \<Rightarrow> queryset \<Rightarrow> queryset" where
  "select_related env chosen s qs =
     (case chosen of
        None \<Rightarrow> qs\<lparr>q_selected := SelNothing\<rparr>
      | Some [] \<Rightarrow> qs\<lparr>q_selected := SelAll\<rparr>
      | Some paths \<Rightarrow>
          (let tenant = (if q_shared qs then None else get_active_tenant_id qs s);
               qs1 = qs\<lparr>q_selected := select_fields paths (q_selected qs)\<rparr>
           in case tenant of
                None \<Rightarrow> qs1
              | Some t \<Rightarrow> fold (\<lambda>path q. case related_filter env (q_model qs) t path of
                                          None \<Rightarrow> q | Some c \<Rightarrow> add_filter c q) paths qs1))"

text \<open>\<^verbatim>\<open>_combined\<close>, for \<^verbatim>\<open>&\<close>, \<^verbatim>\<open>|\<close> and \<^verbatim>\<open>^\<close>: \<open>combined\<close> is what Django answers, a tenant queryset.\<close>

definition combine_shared :: "queryset \<Rightarrow> queryset \<Rightarrow> queryset" where
  "combine_shared combined other =
     (if \<not> q_shared other \<or> q_shared combined then combined else combined\<lparr>q_shared := True\<rparr>)"

definition new_queryset :: "dj_model \<Rightarrow> string option \<Rightarrow> queryset" where
  "new_queryset m db = \<lparr>q_model = m, q_filters = [], q_user = None, q_shared = False, q_db = db, q_for_write = False,
     q_cached = False, q_prefetch_done = False, q_prefetches = False, q_selected = SelNothing\<rparr>"

definition manager_get_queryset :: "'d orm \<Rightarrow> bool \<Rightarrow> dj_model \<Rightarrow> string option \<Rightarrow> rls_state \<Rightarrow> queryset" where
  "manager_get_queryset env shared m db s =
     (let qs = new_queryset m db
      in if shared then qs\<lparr>q_shared := True\<rparr>
         else case get_current_tenant_id s of
           None \<Rightarrow> qs
         | Some t \<Rightarrow> add_filter (AttrIs [] (tenant_column env) (Some t)) qs)"

definition manager_for_user :: "'d orm \<Rightarrow> tenant_user \<Rightarrow> dj_model \<Rightarrow> string option \<Rightarrow> rls_state \<Rightarrow> queryset" where
  "manager_for_user env user m db s = for_user env user (manager_get_queryset env False m db s)"

text \<open>On the model's own manager; a related manager's \<^verbatim>\<open>_apply_rel_filters\<close> is Django's.\<close>

definition including_shared :: "'d orm \<Rightarrow> dj_model \<Rightarrow> string option \<Rightarrow> rls_state \<Rightarrow> queryset checked" where
  "including_shared env m db s =
     (if \<not> shares_rows env m then Inl RLSConfigurationError
      else Inr (manager_get_queryset env True m db s))"

text \<open>The data of a row to be: \<open>None\<close> for \<^verbatim>\<open>None\<close>, a raw key, or an instance of the tenant model.\<close>

datatype model_value = RawValue tenant_id | TenantInstance tenant_id

definition prepare_tenant_in_model_data ::
  "'d orm \<Rightarrow> (string \<times> model_value option) list \<Rightarrow> (string \<times> model_value option) list" where
  "prepare_tenant_in_model_data env data =
     (case map_of data (md_tenant_fk (or_cfg env)) of
        Some (Some (RawValue v)) \<Rightarrow>
          AList.delete (md_tenant_fk (or_cfg env))
            (AList.update (md_tenant_fk (or_cfg env) @ ''_id'') (Some (RawValue v)) data)
      | _ \<Rightarrow> data)"

subsection \<open>The guards\<close>

definition refuse_on_shared_rows :: "queryset \<Rightarrow> ('d aff, unit) py" where
  "refuse_on_shared_rows qs = py_require (\<not> q_shared qs) TypeError"

definition check_strict_mode :: "'d orm \<Rightarrow> queryset \<Rightarrow> ('d aff, unit) py" where
  "check_strict_mode env qs = (\<lambda>w.
     if \<not> or_strict env then (Inr (), w)
     else if \<not> is_rls_protected env (q_model qs) then (Inr (), w)
     else if get_rls_context_active (a_state w) then (Inr (), w)
     else if q_user qs \<noteq> None then (Inr (), w)
     else if is_strict_mode_excluded env (q_model qs) then (Inr (), w)
     else (Inl NoTenantContextError,
           w\<lparr>a_audit := denied (st_audits (or_site env)) ''queryset'' ''strict_mode'' None None None
               [(''model'', Some (AStr (model_label (q_model qs))))] (a_audit w)\<rparr>))"

subsection \<open>The scope of a user\<close>

definition db_for_write :: "'d orm \<Rightarrow> queryset \<Rightarrow> string" where
  "db_for_write env qs = (case q_db qs of Some db \<Rightarrow> db | None \<Rightarrow> or_write env (q_model qs))"

definition queryset_db :: "'d orm \<Rightarrow> queryset \<Rightarrow> string" where
  "queryset_db env qs =
     (case q_db qs of Some db \<Rightarrow> db | None \<Rightarrow> if q_for_write qs then or_write env (q_model qs) else or_read env (q_model qs))"

definition pinned_db :: "string \<Rightarrow> queryset \<Rightarrow> queryset" where
  "pinned_db alias qs = qs\<lparr>q_db := Some alias\<rparr>"

definition changed_values :: "(string \<times> string) list \<Rightarrow> (string \<times> string option) list \<Rightarrow> (string \<times> string option) list" where
  "changed_values variables previous =
     concat (map (\<lambda>(name, value). case map_of previous name of
         None \<Rightarrow> []
       | Some old \<Rightarrow> if (case old of None \<Rightarrow> [] | Some v \<Rightarrow> v) \<noteq> value then [(name, old)] else []) variables)"

definition write_changed ::
  "'d site \<Rightarrow> string \<Rightarrow> bool \<Rightarrow> context_gucs \<Rightarrow> (string \<times> string) list \<Rightarrow> (string \<times> string option) list option \<Rightarrow> ('d aff, unit) py" where
  "write_changed st alias is_local gucs variables changed =
     (case changed of
        None \<Rightarrow> py_ret ()
      | Some olds \<Rightarrow>
          write_values st alias (TVals gucs) is_local
            (py_for (map fst olds) (\<lambda>name.
               set_guc (st_cursor st) name (case map_of variables name of None \<Rightarrow> [] | Some v \<Rightarrow> v) is_local alias)))"

text \<open>The block around the SQL; unlike the context managers' it is not audited, so its origin is silent.\<close>

definition user_block ::
  "'d site \<Rightarrow> tenant_user \<Rightarrow> (string \<times> string) list \<Rightarrow> string \<Rightarrow> ('d aff, 'a) py \<Rightarrow> ('d aff, 'a) py" where
  "user_block st user variables alias body =
     (let is_local = use_local_set (st_cfg st); writes = writes_gucs (st_cfg st) alias is_local
      in py_bind (if writes
                  then py_bind (snapshot_gucs st alias) (\<lambda>previous. py_ret (Some (changed_values variables previous)))
                  else py_ret None) (\<lambda>changed.
         case context_gucs_of (st_cfg st) variables of
           Inl e \<Rightarrow> py_raise e
         | Inr gucs \<Rightarrow>
             py_bind (session_of st alias) (\<lambda>session.
             py_bind (py_get (\<lambda>w. current_live (a_state w))) (\<lambda>enclosing.
               run_block st (if u_is_admin user then None else u_tenant user) gucs
                 (write_changed st alias is_local gucs variables changed)
                 (\<lambda>exc. restore_tenant_gucs st changed is_local alias exc enclosing session)
                 alias silent_origin body))))"

text \<open>\<^verbatim>\<open>audit.denied("for_user", ...)\<close> before the exception goes on.\<close>

definition user_without_tenant :: "'d site \<Rightarrow> tenant_user \<Rightarrow> exn \<Rightarrow> ('d aff, 'a) py" where
  "user_without_tenant st user e = (\<lambda>w.
     (Inl e,
      if e = NoTenantContextError
      then w\<lparr>a_audit := denied (st_audits st) ''for_user'' ''user_without_tenant'' (u_pk user) None None [] (a_audit w)\<rparr>
      else w))"

definition in_own_transaction :: "'d orm \<Rightarrow> string \<Rightarrow> ('d aff, 'a) py \<Rightarrow> ('d aff, 'a) py" where
  "in_own_transaction env alias body =
     py_seq (or_atomic_enter env alias) (py_finally body (or_atomic_exit env alias))"

definition user_scope :: "'d orm \<Rightarrow> tenant_user \<Rightarrow> bool \<Rightarrow> string \<Rightarrow> ('d aff, 'a) py \<Rightarrow> ('d aff, 'a) py" where
  "user_scope env user own_transaction alias body =
     (let st = or_site env
      in case resolve_user_guc_vars (st_cfg st) user None of
           Inl e \<Rightarrow> user_without_tenant st user e
         | Inr variables \<Rightarrow>
             if own_transaction \<and> use_local_set (st_cfg st)
             then py_seq (connections_get (st_cursor st) alias) (\<lambda>w.
                    if \<not> db_in_atomic (st_cursor st) alias w
                    then in_own_transaction env alias (user_block st user variables alias body) w
                    else user_block st user variables alias body w)
             else user_block st user variables alias body)"

definition rls_scope ::
  "'d orm \<Rightarrow> bool \<Rightarrow> string option \<Rightarrow> bool \<Rightarrow> queryset \<Rightarrow> (queryset \<Rightarrow> ('d aff, 'a) py) \<Rightarrow> ('d aff, 'a) py" where
  "rls_scope env for_write using_db own_transaction qs sql =
     (case q_user qs of
        None \<Rightarrow> sql qs
      | Some user \<Rightarrow>
          (let alias = (case using_db of
                          Some u \<Rightarrow> u
                        | None \<Rightarrow> if for_write then db_for_write env qs else queryset_db env qs)
           in user_scope env user own_transaction alias (sql (pinned_db alias qs))))"

subsection \<open>The methods that run SQL\<close>

text \<open>\<open>sql\<close> is what Django's own method of this name does with the queryset it is called on.\<close>

type_synonym ('d, 'a) sql = "queryset \<Rightarrow> ('d aff, 'a) py"

definition guarded_read :: "'d orm \<Rightarrow> queryset \<Rightarrow> ('d, 'a) sql \<Rightarrow> ('d aff, 'a) py" where
  "guarded_read env qs sql = py_seq (check_strict_mode env qs) (rls_scope env False None False qs sql)"

definition count :: "'d orm \<Rightarrow> queryset \<Rightarrow> ('d, 'a) sql \<Rightarrow> ('d aff, 'a) py" where
  "count env qs sql = (if q_cached qs then sql qs else guarded_read env qs sql)"

definition exists_rows :: "'d orm \<Rightarrow> queryset \<Rightarrow> ('d, 'a) sql \<Rightarrow> ('d aff, 'a) py" where
  "exists_rows env qs sql = (if q_cached qs then sql qs else guarded_read env qs sql)"

definition aggregate :: "'d orm \<Rightarrow> queryset \<Rightarrow> ('d, 'a) sql \<Rightarrow> ('d aff, 'a) py" where
  "aggregate env qs sql = guarded_read env qs sql"

definition update :: "'d orm \<Rightarrow> queryset \<Rightarrow> ('d, 'a) sql \<Rightarrow> ('d aff, 'a) py" where
  "update env qs sql =
     py_seq (refuse_on_shared_rows qs) (py_seq (check_strict_mode env qs) (rls_scope env True None False qs sql))"

definition delete :: "'d orm \<Rightarrow> queryset \<Rightarrow> ('d, 'a) sql \<Rightarrow> ('d aff, 'a) py" where
  "delete env qs sql =
     py_seq (refuse_on_shared_rows qs) (py_seq (check_strict_mode env qs) (rls_scope env True None True qs sql))"

definition create :: "'d orm \<Rightarrow> queryset \<Rightarrow> ('d, 'a) sql \<Rightarrow> ('d aff, 'a) py" where
  "create env qs sql = rls_scope env True None False qs sql"

definition bulk_create :: "'d orm \<Rightarrow> queryset \<Rightarrow> ('d, 'a) sql \<Rightarrow> ('d aff, 'a) py" where
  "bulk_create env qs sql = py_seq (check_strict_mode env qs) (rls_scope env True None True qs sql)"

definition bulk_update :: "'d orm \<Rightarrow> queryset \<Rightarrow> ('d, 'a) sql \<Rightarrow> ('d aff, 'a) py" where
  "bulk_update env qs sql =
     py_seq (refuse_on_shared_rows qs) (py_seq (check_strict_mode env qs) (rls_scope env True None True qs sql))"

definition update_or_create :: "'d orm \<Rightarrow> queryset \<Rightarrow> ('d, 'a) sql \<Rightarrow> ('d aff, 'a) py" where
  "update_or_create env qs sql = py_seq (refuse_on_shared_rows qs) (rls_scope env True None True qs sql)"

definition select_for_update :: "'d orm \<Rightarrow> queryset \<Rightarrow> ('d aff, queryset) py" where
  "select_for_update env qs = py_seq (refuse_on_shared_rows qs) (py_ret qs)"

definition explain :: "'d orm \<Rightarrow> queryset \<Rightarrow> ('d, 'a) sql \<Rightarrow> ('d aff, 'a) py" where
  "explain env qs sql = rls_scope env False None False qs sql"

definition fetch_all :: "'d orm \<Rightarrow> queryset \<Rightarrow> ('d, 'a) sql \<Rightarrow> ('d aff, 'a) py" where
  "fetch_all env qs sql =
     (if q_cached qs \<and> (q_prefetch_done qs \<or> \<not> q_prefetches qs) then sql qs else guarded_read env qs sql)"

text \<open>Their SQL runs on a clone, through \<^verbatim>\<open>_fetch_all()\<close>; \<open>narrow\<close> is what Django makes of the queryset.\<close>

definition get_row :: "'d orm \<Rightarrow> (queryset \<Rightarrow> queryset) \<Rightarrow> queryset \<Rightarrow> ('d, 'a) sql \<Rightarrow> ('d aff, 'a) py" where
  "get_row env narrow qs sql = py_seq (check_strict_mode env qs) (fetch_all env (narrow qs) sql)"

definition first_row :: "'d orm \<Rightarrow> (queryset \<Rightarrow> queryset) \<Rightarrow> queryset \<Rightarrow> ('d, 'a) sql \<Rightarrow> ('d aff, 'a) py" where
  "first_row env narrow qs sql =
     py_seq (if q_cached qs then py_ret () else check_strict_mode env qs) (fetch_all env (narrow qs) sql)"

definition last_row :: "'d orm \<Rightarrow> (queryset \<Rightarrow> queryset) \<Rightarrow> queryset \<Rightarrow> ('d, 'a) sql \<Rightarrow> ('d aff, 'a) py" where
  "last_row env narrow qs sql = py_seq (check_strict_mode env qs) (fetch_all env (narrow qs) sql)"

text \<open>
  The chunks of an iterator: \<open>pull\<close> fetches the next rows, \<open>consume\<close> is the caller's loop body on a chunk,
  which runs between the scopes.  \<open>fuel\<close> bounds the number of chunks; the result says whether the rows were exhausted.
\<close>

fun scoped_chunks ::
  "nat \<Rightarrow> 'd orm \<Rightarrow> queryset \<Rightarrow> string \<Rightarrow> nat \<Rightarrow> (nat \<Rightarrow> ('d, 'r list) sql) \<Rightarrow> ('r list \<Rightarrow> ('d aff, unit) py) \<Rightarrow> ('d aff, bool) py" where
  "scoped_chunks 0 env qs alias rows_each pull consume = py_ret False"
| "scoped_chunks (Suc fuel) env qs alias rows_each pull consume =
     py_bind
       (rls_scope env False (Some alias) False qs (\<lambda>q.
          py_seq (apply_active_context (st_driver (or_site env)) (st_cfg (or_site env)) (st_created (or_site env)) alias)
            (pull rows_each q)))
       (\<lambda>chunk. py_seq (consume chunk)
          (if length chunk < rows_each then py_ret True else scoped_chunks fuel env qs alias rows_each pull consume))"

definition iterator ::
  "nat \<Rightarrow> 'd orm \<Rightarrow> queryset \<Rightarrow> nat option \<Rightarrow> (nat \<Rightarrow> ('d, 'r list) sql) \<Rightarrow> ('d, 'r list) sql \<Rightarrow> ('r list \<Rightarrow> ('d aff, unit) py) \<Rightarrow> ('d aff, bool) py" where
  "iterator fuel env qs chunk_size pull all_rows consume =
     py_seq (check_strict_mode env qs)
       (case q_user qs of
          None \<Rightarrow> py_bind (all_rows qs) (\<lambda>rows. py_seq (consume rows) (py_ret True))
        | Some _ \<Rightarrow>
            scoped_chunks fuel env qs (queryset_db env qs)
              (case chunk_size of Some n \<Rightarrow> if n = 0 then iterator_chunk_size else n | None \<Rightarrow> iterator_chunk_size) pull consume)"


subsection \<open>The contract of the scope\<close>

definition user_tenant :: "tenant_user \<Rightarrow> tenant_id option" where
  "user_tenant user = (if u_is_admin user then None else u_tenant user)"

definition user_gucs :: "tenant_user \<Rightarrow> context_gucs option" where
  "user_gucs user = (if u_is_admin user then Some admin_gucs else map_option gucs_for_tenant (u_tenant user))"

text \<open>What is relied on: the site and \<^verbatim>\<open>atomic()\<close> leave the context variables alone; the two variables have different names.\<close>

definition orm_ok :: "'d orm \<Rightarrow> bool" where
  "orm_ok env \<longleftrightarrow> site_ok (or_site env) \<and> guc_is_admin (st_cfg (or_site env)) \<noteq> guc_current_tenant (st_cfg (or_site env)) \<and>
     (\<forall>al. quiet (or_atomic_enter env al)) \<and> (\<forall>al b. quiet (or_atomic_exit env al b))"

lemma resolved_user:
  assumes "resolve_user_guc_vars cfg user None = Inr vs" and "guc_is_admin cfg \<noteq> guc_current_tenant cfg"
  shows "\<exists>g. context_gucs_of cfg vs = Inr g \<and> user_gucs user = Some g"
  using assms
  by (auto simp: resolve_user_guc_vars_def context_gucs_of_def guc_items_def user_gucs_def gucs_for_tenant_def
      admin_gucs_def split: if_splits option.splits)

lemma quiet_write_changed [quiet_intros]:
  assumes "site_ok st" shows "quiet (write_changed st al l g vs changed)"
proof -
  have "cursor_quiet (st_cursor st)" using assms by (simp add: site_ok_def)
  then show ?thesis unfolding write_changed_def by (auto split: option.split intro!: quiet_intros)
qed

lemma quiet_changed:
  "site_ok st \<Longrightarrow> quiet (if b then py_bind (snapshot_gucs st al) (\<lambda>p. py_ret (Some (changed_values vs p))) else py_ret None)"
  by (intro quiet_intros)

lemma balanced_bind:
  assumes "quiet m" and "\<And>x w'. state_ok (a_state w') \<Longrightarrow> balanced (a_state w') (a_state (snd (f x w')))"
    and "state_ok (a_state w)"
  shows "balanced (a_state w) (a_state (snd (py_bind m f w)))"
  by (rule balanced_after_quiet [OF assms(1) _ assms(3)]) (use assms in metis)

lemma user_block_balanced:
  assumes ok: "site_ok st" and body: "disciplined body" and s: "state_ok (a_state w)"
  shows "balanced (a_state w) (a_state (snd (user_block st user vs al body w)))"
proof -
  have raised: "balanced (a_state v) (a_state (snd (py_raise e v)))" if "state_ok (a_state v)" for v :: "'a aff" and e
    using that by (simp add: py_raise_def balanced_refl)
  show ?thesis
  proof (cases "context_gucs_of (st_cfg st) vs")
    case (Inl e)
    then show ?thesis unfolding user_block_def Let_def
      by (intro balanced_bind quiet_changed ok s) (simp add: raised)
  next
    case (Inr g)
    then show ?thesis unfolding user_block_def Let_def Inr sum.case
      by (intro balanced_bind quiet_changed ok s quiet_site(4) [OF ok] quiet_basic(4) run_block_balanced body
          quiet_write_changed [OF ok] quiet_restore_tenant [OF ok]) assumption+
  qed
qed

lemma user_block_sees:
  assumes ok: "site_ok st" and s: "state_ok (a_state w)" and g: "context_gucs_of (st_cfg st) vs = Inr g"
    and body: "\<And>w1. state_ok (a_state w1) \<Longrightarrow> sees (user_tenant user) True (Some g) (a_state w1) \<Longrightarrow> body w1 = body' w1"
  shows "user_block st user vs al body w = user_block st user vs al body' w"
  unfolding user_block_def Let_def g sum.case
  by (intro quiet_bind_cong quiet_changed s quiet_site(4) [OF ok] quiet_basic(4) run_block_sees
      quiet_write_changed ok body) (simp_all add: user_tenant_def)

lemma in_own_balanced:
  assumes ok: "orm_ok env" and s: "state_ok (a_state w)"
    and body: "\<And>v. state_ok (a_state v) \<Longrightarrow> balanced (a_state v) (a_state (snd (body v)))"
  shows "balanced (a_state w) (a_state (snd (in_own_transaction env al body w)))"
proof -
  have q: "quiet (or_atomic_enter env al)" "\<And>b. quiet (or_atomic_exit env al b)" using ok by (simp_all add: orm_ok_def)
  have "balanced (a_state v) (a_state (snd (py_finally body (or_atomic_exit env al) v)))" if "state_ok (a_state v)" for v
  proof -
    obtain r v1 where r: "body v = (r, v1)" by (cases "body v")
    obtain x v2 where x: "or_atomic_exit env al (isl r) v1 = (x, v2)" by (cases "or_atomic_exit env al (isl r) v1")
    have "snd (py_finally body (or_atomic_exit env al) v) = v2" using r x by (auto simp: py_finally_def split: sum.split)
    moreover have "a_state v2 = a_state v1" using quietD [OF q(2) x] by simp
    ultimately show ?thesis using body [OF that] r by simp
  qed
  then show ?thesis unfolding in_own_transaction_def py_seq_def
    by (intro balanced_bind q s) assumption
qed

lemma in_own_sees:
  assumes ok: "orm_ok env" and s: "state_ok (a_state w)"
    and body: "\<And>v. state_ok (a_state v) \<Longrightarrow> body v = body' v"
  shows "in_own_transaction env al body w = in_own_transaction env al body' w"
proof -
  have q: "quiet (or_atomic_enter env al)" using ok by (simp add: orm_ok_def)
  show ?thesis unfolding in_own_transaction_def py_seq_def
    by (intro quiet_bind_cong q s) (simp add: py_finally_def body)
qed

lemma user_scope_balanced:
  assumes ok: "orm_ok env" and body: "disciplined body" and s: "state_ok (a_state w)"
  shows "balanced (a_state w) (a_state (snd (user_scope env user own al body w)))"
proof (cases "resolve_user_guc_vars (st_cfg (or_site env)) user None")
  case (Inl e)
  then show ?thesis using s by (simp add: user_scope_def user_without_tenant_def balanced_refl)
next
  case (Inr vs)
  have site: "site_ok (or_site env)" using ok by (simp add: orm_ok_def)
  note b = user_block_balanced [OF site body]
  show ?thesis
  proof (cases "own \<and> use_local_set (st_cfg (or_site env))")
    case False
    then show ?thesis using Inr b [OF s] by (auto simp: user_scope_def Let_def)
  next
    case True
    have "balanced (a_state v) (a_state (snd (if c v then in_own_transaction env al (user_block (or_site env) user vs al body) v
        else user_block (or_site env) user vs al body v)))" if "state_ok (a_state v)" for v c
      using b [OF that] in_own_balanced [OF ok that b] by simp
    then show ?thesis using Inr True unfolding user_scope_def Let_def py_seq_def
      by (simp only: sum.case if_True simp_thms) (intro balanced_bind quiet_connections s, assumption)
  qed
qed

lemma user_scope_sees:
  assumes ok: "orm_ok env" and s: "state_ok (a_state w)"
    and body: "\<And>w1. state_ok (a_state w1) \<Longrightarrow> sees (user_tenant user) True (user_gucs user) (a_state w1) \<Longrightarrow> body w1 = body' w1"
  shows "user_scope env user own al body w = user_scope env user own al body' w"
proof (cases "resolve_user_guc_vars (st_cfg (or_site env)) user None")
  case (Inl e)
  then show ?thesis by (simp add: user_scope_def)
next
  case (Inr vs)
  have site: "site_ok (or_site env)" using ok by (simp add: orm_ok_def)
  obtain g where g: "context_gucs_of (st_cfg (or_site env)) vs = Inr g" "user_gucs user = Some g"
    using resolved_user [OF Inr] ok by (auto simp: orm_ok_def)
  have b: "user_block (or_site env) user vs al body v = user_block (or_site env) user vs al body' v" if "state_ok (a_state v)" for v
    by (rule user_block_sees [OF site that g(1)]) (use body g(2) in simp)
  show ?thesis
  proof (cases "own \<and> use_local_set (st_cfg (or_site env))")
    case False
    then show ?thesis using Inr b [OF s] by (auto simp: user_scope_def Let_def)
  next
    case True
    have "in_own_transaction env al (user_block (or_site env) user vs al body) v =
        in_own_transaction env al (user_block (or_site env) user vs al body') v" if "state_ok (a_state v)" for v
      by (rule in_own_sees [OF ok that b])
    then show ?thesis using Inr True b unfolding user_scope_def Let_def py_seq_def
      by (simp, intro quiet_bind_cong quiet_connections s) simp
  qed
qed

text \<open>The scope of a user is a context manager like the others.\<close>

interpretation user_cm: context_manager "\<lambda>st. orm_ok (env\<lparr>or_site := st\<rparr>)"
  "\<lambda>st. user_scope (env\<lparr>or_site := st\<rparr>) user own al" "user_tenant user" True "user_gucs user" for env user own al
  by unfold_locales (auto intro: user_scope_balanced user_scope_sees)

lemma orm_site [simp]: "env\<lparr>or_site := or_site env\<rparr> = env"
  by simp


subsection \<open>Where the SQL of a queryset runs\<close>

definition needs_context :: "'d orm \<Rightarrow> dj_model \<Rightarrow> bool" where
  "needs_context env m \<longleftrightarrow> or_strict env \<and> is_rls_protected env m \<and> \<not> is_strict_mode_excluded env m"

text \<open>
  Where the SQL of a queryset may run: for a user, in the user's context and on a pinned alias; without
  one, on the queryset itself and, where strict mode guards the model, in an active context.
\<close>

definition may_run :: "'d orm \<Rightarrow> queryset \<Rightarrow> queryset \<Rightarrow> 'd aff \<Rightarrow> bool" where
  "may_run env qs q w \<longleftrightarrow> state_ok (a_state w) \<and>
     (case q_user qs of
        Some user \<Rightarrow> sees (user_tenant user) True (user_gucs user) (a_state w) \<and> (\<exists>alias. q = pinned_db alias qs)
      | None \<Rightarrow> q = qs \<and> (needs_context env (q_model qs) \<longrightarrow> get_rls_context_active (a_state w)))"

text \<open>The methods strict mode guards, and those it does not; on a queryset without cached results.\<close>

definition guarded_methods :: "'d orm \<Rightarrow> queryset \<Rightarrow> ('d, 'a) sql \<Rightarrow> ('d aff, 'a) py list" where
  "guarded_methods env qs sql =
     [count env qs sql, exists_rows env qs sql, aggregate env qs sql, update env qs sql, delete env qs sql,
      bulk_create env qs sql, bulk_update env qs sql, fetch_all env qs sql]"

definition other_methods :: "'d orm \<Rightarrow> queryset \<Rightarrow> ('d, 'a) sql \<Rightarrow> ('d aff, 'a) py list" where
  "other_methods env qs sql = [create env qs sql, update_or_create env qs sql, explain env qs sql]"

lemmas method_defs = count_def exists_rows_def aggregate_def update_def delete_def create_def bulk_create_def
  bulk_update_def update_or_create_def explain_def fetch_all_def guarded_read_def

lemma strict_mode_passes:
  "check_strict_mode env qs w = (Inr (), w') \<Longrightarrow>
     w' = w \<and> (q_user qs = None \<longrightarrow> needs_context env (q_model qs) \<longrightarrow> get_rls_context_active (a_state w))"
  by (auto simp: check_strict_mode_def needs_context_def split: if_splits)

lemma shared_refused: "refuse_on_shared_rows qs w = (Inr (), w') \<Longrightarrow> w' = w"
  by (auto simp: refuse_on_shared_rows_def py_require_def split: if_splits)

lemma rls_scope_cong:
  assumes ok: "orm_ok env" and s: "state_ok (a_state w)"
    and sql: "\<And>q v. may_run env qs q v \<Longrightarrow> sql q v = sql' q v"
    and active: "q_user qs = None \<Longrightarrow> needs_context env (q_model qs) \<Longrightarrow> get_rls_context_active (a_state w)"
  shows "rls_scope env fw u own qs sql w = rls_scope env fw u own qs sql' w"
proof (cases "q_user qs")
  case None
  then have "may_run env qs qs w" using s active by (simp add: may_run_def)
  then show ?thesis using None sql by (simp add: rls_scope_def)
next
  case (Some user)
  have "user_scope env user own al (sql (pinned_db al qs)) w = user_scope env user own al (sql' (pinned_db al qs)) w" for al
    by (rule user_cm.runs_inside [where st = "or_site env" and env = env, simplified, OF ok s], rule sql)
       (use Some in \<open>auto simp: may_run_def\<close>)
  then show ?thesis using Some by (simp add: rls_scope_def Let_def)
qed

lemma guarded_cong:
  assumes "orm_ok env" "state_ok (a_state w)" "\<And>q v. may_run env qs q v \<Longrightarrow> sql q v = sql' q v"
  shows "py_seq (check_strict_mode env qs) (rls_scope env fw u own qs sql) w =
         py_seq (check_strict_mode env qs) (rls_scope env fw u own qs sql') w"
  unfolding py_seq_def
proof (rule py_bind_cong)
  fix x w'
  assume "check_strict_mode env qs w = (Inr x, w')"
  then have w': "w' = w" "q_user qs = None \<longrightarrow> needs_context env (q_model qs) \<longrightarrow> get_rls_context_active (a_state w)"
    using strict_mode_passes by fastforce+
  show "rls_scope env fw u own qs sql w' = rls_scope env fw u own qs sql' w'"
    unfolding w'(1) by (rule rls_scope_cong [where sql = sql, OF assms(1,2)]) (use assms(3) w'(2) in blast)+
qed

lemma refused_cong:
  assumes "m w = n w"
  shows "py_seq (refuse_on_shared_rows qs) m w = py_seq (refuse_on_shared_rows qs) n w"
  using assms by (simp add: py_seq_def py_bind_def refuse_on_shared_rows_def py_require_def)



lemma disciplined_seq: "disciplined m \<Longrightarrow> disciplined n \<Longrightarrow> disciplined (py_seq m n)"
  by (simp add: py_seq_def disciplined_bind)

lemma balanced_check: "state_ok (a_state w) \<Longrightarrow> balanced (a_state w) (a_state (snd (check_strict_mode env qs w)))"
  by (simp add: check_strict_mode_def balanced_refl)

lemma balanced_seq:
  assumes "state_ok (a_state w)" "balanced (a_state w) (a_state (snd (m w)))"
    and "\<And>v. state_ok (a_state v) \<Longrightarrow> balanced (a_state v) (a_state (snd (n v)))"
  shows "balanced (a_state w) (a_state (snd (py_seq m n w)))"
proof -
  obtain r v where r: "m w = (r, v)" by (cases "m w")
  then have "state_ok (a_state v)" using assms(2) balanced_ok by force
  then show ?thesis using r assms balanced_trans by (cases r) (auto simp: py_seq_def py_bind_def)
qed

lemma rls_scope_balanced:
  assumes ok: "orm_ok env" and sql: "\<And>q. disciplined (sql q)" and user: "q_user qs \<noteq> None" and s: "state_ok (a_state w)"
  shows "balanced (a_state w) (a_state (snd (rls_scope env fw u own qs sql w)))"
  using user user_cm.restores [where st = "or_site env" and env = env, simplified, OF ok sql s]
  by (auto simp: rls_scope_def Let_def)

lemma refuse_balanced: "state_ok (a_state w) \<Longrightarrow> balanced (a_state w) (a_state (snd (refuse_on_shared_rows qs w)))"
  by (simp add: refuse_on_shared_rows_def py_require_def balanced_refl)

text \<open>
  C12. A \<^verbatim>\<open>for_user()\<close> query leaves no trace: whatever method runs it, whatever its SQL (hooks and signal
  handlers included) does to the context variables, and however it ends, the tenant, the flag and the
  GUC values of the enclosing context are back afterwards.
\<close>

theorem user_queries_restore:
  assumes ok: "orm_ok env" and sql: "\<And>q. disciplined (sql q)" and user: "q_user qs \<noteq> None"
    and s: "state_ok (a_state w)" and fresh: "\<not> q_cached qs"
  shows "\<forall>m \<in> set (guarded_methods env qs sql @ other_methods env qs sql). balanced (a_state w) (a_state (snd (m w)))"
proof -
  have r: "balanced (a_state v) (a_state (snd (rls_scope env fw u own qs sql v)))" if "state_ok (a_state v)" for v fw u own
    by (rule rls_scope_balanced [where sql = sql, OF ok sql user that])
  have g: "balanced (a_state v) (a_state (snd (py_seq (check_strict_mode env qs) (rls_scope env fw u own qs sql) v)))"
    if "state_ok (a_state v)" for v fw u own
    by (intro balanced_seq balanced_check r that)
  have h: "balanced (a_state w) (a_state (snd (py_seq (refuse_on_shared_rows qs) n w)))"
    if "\<And>v. state_ok (a_state v) \<Longrightarrow> balanced (a_state v) (a_state (snd (n v)))" for n :: "('a aff, 'b) py"
    by (intro balanced_seq refuse_balanced s that)
  show ?thesis using fresh r [OF s] g [OF s] h [OF g] h [OF r]
    by (simp add: guarded_methods_def other_methods_def method_defs)
qed


subsection \<open>Iterating\<close>

text \<open>
  C33. An iterator lends the user's context to nobody: the rows of every chunk are fetched in the user's
  context on the alias the iterator was given, and the caller's loop body, between the chunks, runs in the
  context the loop is in, never in the user's, for any number of chunks.
\<close>

theorem iterator_does_not_leak:
  fixes env :: "'d orm"
  assumes ok: "orm_ok env" and user: "q_user qs = Some user"
    and pulls: "\<And>n q. disciplined (pull n q)"
    and fetched: "\<And>n q v. may_run env qs q v \<Longrightarrow> q_db q = Some alias \<Longrightarrow> pull n q v = pull' n q v"
    and body: "\<And>c v. state_ok (a_state v) \<Longrightarrow> sees t act g (a_state v) \<Longrightarrow>
        consume c v = consume' c v \<and> state_ok (a_state (snd (consume c v))) \<and> sees t act g (a_state (snd (consume c v)))"
    and start: "state_ok (a_state w)" "sees t act g (a_state w)"
  shows "scoped_chunks fuel env qs alias n pull consume w = scoped_chunks fuel env qs alias n pull' consume' w"
  using start
proof (induction fuel arbitrary: w)
  case 0
  then show ?case by simp
next
  case (Suc fuel)
  let ?apply = "apply_active_context (st_driver (or_site env)) (st_cfg (or_site env)) (st_created (or_site env)) alias"
  let ?sql = "\<lambda>p q. py_seq ?apply (p n q)"
  have cr: "\<And>al. quiet (st_created (or_site env) al)" using ok by (simp add: orm_ok_def site_ok_def)
  have q: "quiet ?apply" by (rule quiet_apply_active [OF cr])
  have "user_scope env user False alias (?sql pull (pinned_db alias qs)) w =
      user_scope env user False alias (?sql pull' (pinned_db alias qs)) w"
  proof (rule user_cm.runs_inside [where st = "or_site env" and env = env, simplified, OF ok Suc.prems(1)])
    fix v :: "'d aff"
    assume v: "state_ok (a_state v)" "sees (user_tenant user) True (user_gucs user) (a_state v)"
    show "?sql pull (pinned_db alias qs) v = ?sql pull' (pinned_db alias qs) v"
      unfolding py_seq_def
    proof (rule py_bind_cong)
      fix x v'
      assume "?apply v = (Inr x, v')"
      then have "a_state v' = a_state v" using quietD [OF q] by simp
      then have "may_run env qs (pinned_db alias qs) v'" using v user by (auto simp: may_run_def)
      then show "pull n (pinned_db alias qs) v' = pull' n (pinned_db alias qs) v'"
        by (rule fetched) (simp add: pinned_db_def)
    qed
  qed
  then have scope: "rls_scope env False (Some alias) False qs (?sql pull) w = rls_scope env False (Some alias) False qs (?sql pull') w"
    using user by (simp add: rls_scope_def Let_def)
  have disc: "disciplined (?sql pull q')" for q' by (intro disciplined_seq disciplined_quiet [OF q] pulls)
  have bal: "balanced (a_state w) (a_state (snd (rls_scope env False (Some alias) False qs (?sql pull) w)))"
    by (rule rls_scope_balanced [where sql = "?sql pull", OF ok disc _ Suc.prems(1)]) (simp add: user)
  obtain r v where r: "rls_scope env False (Some alias) False qs (?sql pull) w = (r, v)"
    by (cases "rls_scope env False (Some alias) False qs (?sql pull) w")
  have v: "state_ok (a_state v)" "sees t act g (a_state v)"
    using bal r balanced_ok balanced_sees [OF Suc.prems(1)] Suc.prems(2) by force+
  show ?case
  proof (cases r)
    case (Inl e)
    then show ?thesis using r scope unfolding scoped_chunks.simps py_bind_def by simp
  next
    case (Inr chunk)
    note c = body [OF v, of chunk]
    have ih: "scoped_chunks fuel env qs alias n pull consume (snd (consume chunk v)) =
        scoped_chunks fuel env qs alias n pull' consume' (snd (consume chunk v))"
      by (rule Suc.IH) (use c in blast)+
    obtain x v2 where x: "consume chunk v = (x, v2)" "consume' chunk v = (x, v2)" using c by (metis surj_pair)
    have step: "scoped_chunks (Suc fuel) env qs alias n p k w =
        py_seq (k chunk) (if length chunk < n then py_ret True else scoped_chunks fuel env qs alias n p k) v"
      if "rls_scope env False (Some alias) False qs (?sql p) w = (Inr chunk, v)" for p k
      using that by (simp add: py_bind_def)
    show ?thesis using step [of pull consume] step [of pull' consume'] r scope Inr x ih
      by (simp add: py_bind_def py_seq_def del: scoped_chunks.simps split: sum.split)
  qed
qed

subsection \<open>What the filters keep\<close>

text \<open>Rows, by the relations and attributes they have; a relation that is NULL leads to no row.\<close>

fun walk :: "('r \<Rightarrow> string \<Rightarrow> 'r option) \<Rightarrow> 'r \<Rightarrow> string list \<Rightarrow> 'r option" where
  "walk rel row [] = Some row"
| "walk rel row (p # ps) = (case rel row p of None \<Rightarrow> None | Some r \<Rightarrow> walk rel r ps)"

text \<open>A comparison with NULL holds for no row.\<close>

fun holds :: "('r \<Rightarrow> string \<Rightarrow> 'r option) \<Rightarrow> ('r \<Rightarrow> string \<Rightarrow> tenant_id option) \<Rightarrow> condition \<Rightarrow> 'r \<Rightarrow> bool" where
  "holds rel att (AttrIs path name v) row =
     (case walk rel row path of None \<Rightarrow> False | Some r \<Rightarrow> v \<noteq> None \<and> att r name = v)"
| "holds rel att (PathNull path) row = (walk rel row path = None)"
| "holds rel att (EitherOf c d) row = (holds rel att c row \<or> holds rel att d row)"

definition row_passes :: "('r \<Rightarrow> string \<Rightarrow> 'r option) \<Rightarrow> ('r \<Rightarrow> string \<Rightarrow> tenant_id option) \<Rightarrow> queryset \<Rightarrow> 'r \<Rightarrow> bool" where
  "row_passes rel att qs row \<longleftrightarrow> (\<forall>c \<in> set (q_filters qs). holds rel att c row)"

text \<open>What a joined row must be: of the tenant, or, on a path that may be null, no row.\<close>

definition joined_ok ::
  "'d orm \<Rightarrow> ('r \<Rightarrow> string \<Rightarrow> 'r option) \<Rightarrow> ('r \<Rightarrow> string \<Rightarrow> tenant_id option) \<Rightarrow> dj_model \<Rightarrow> tenant_id \<Rightarrow> 'r \<Rightarrow> string list \<Rightarrow> bool" where
  "joined_ok env rel att m t row path \<longleftrightarrow>
     (\<forall>target nullable name. resolve_related_path (or_apps env) m path False = (Some target, nullable) \<longrightarrow>
        is_rls_protected env target \<longrightarrow> tenant_attname env target = Some name \<longrightarrow>
        (case walk rel row path of None \<Rightarrow> nullable | Some r \<Rightarrow> att r name = Some t))"

lemma row_passes_add: "row_passes rel att (add_filter c qs) row \<longleftrightarrow> row_passes rel att qs row \<and> holds rel att c row"
  by (auto simp: row_passes_def add_filter_def)

lemma related_filter_holds:
  "(case related_filter env m t path of None \<Rightarrow> True | Some c \<Rightarrow> holds rel att c row) \<longleftrightarrow> joined_ok env rel att m t row path"
  by (auto simp: related_filter_def joined_ok_def split: prod.splits option.splits if_splits)


subsection \<open>Examples of these hypotheses\<close>

definition demo_orm :: "demo_pg_state orm" where
  "demo_orm = \<lparr>or_site = demo_site True, or_cfg = demo_model_cfg, or_apps = demo_apps, or_strict = True, or_excluded = [],
     or_read = (\<lambda>_. ''default''), or_write = (\<lambda>_. ''default''), or_atomic_enter = (\<lambda>_. py_ret ()), or_atomic_exit = (\<lambda>_ _. py_ret ())\<rparr>"

definition demo_reader :: tenant_user where
  "demo_reader = \<lparr>u_is_admin = False, u_tenant = Some (TInt 2), u_pk = Some (TInt 9)\<rparr>"

definition demo_notes :: "tenant_user option \<Rightarrow> bool \<Rightarrow> queryset" where
  "demo_notes user shared = (new_queryset demo_note None)\<lparr>q_user := user, q_shared := shared\<rparr>"

lemma demo_orm_ok: "orm_ok demo_orm"
  by (simp add: orm_ok_def demo_orm_def demo_site_ok quiet_intros) (simp add: demo_site_def demo_cfg_def)

lemma demo_note_guarded: "needs_context demo_orm demo_note"
  by (simp add: needs_context_def demo_orm_def is_rls_protected_def is_strict_mode_excluded_def strict_mode_excluded_labels_def
      get_tenant_fk_field_def concrete_of_def model_label_def demo_model_defs)



lemma user_queries_restore_witness:
  "balanced (a_state demo_world)
     (a_state (snd (delete demo_orm (demo_notes (Some demo_reader) False) (\<lambda>_. demo_body) demo_world)))"
  using user_queries_restore [where qs = "demo_notes (Some demo_reader) False" and sql = "\<lambda>_. demo_body", OF demo_orm_ok demo_body_disciplined _ demo_state_ok]
  by (simp add: guarded_methods_def demo_notes_def new_queryset_def)


text \<open>Two chunks of a row each, in a loop outside every tenant that asks for its own.\<close>

lemma iterator_does_not_leak_witness:
  "scoped_chunks 2 demo_orm (demo_notes (Some demo_reader) False) ''default'' 1 (\<lambda>n q. py_ret [n])
     (\<lambda>_. py_bind (py_get (\<lambda>w. get_current_tenant_id (a_state w))) (\<lambda>t. py_require (t = None) ValueError)) demo_world =
   scoped_chunks 2 demo_orm (demo_notes (Some demo_reader) False) ''default'' 1 (\<lambda>n q. py_ret [n]) (\<lambda>_. py_ret ()) demo_world"
proof -
  have "sees (get_current_tenant_id (a_state demo_world)) (get_rls_context_active (a_state demo_world))
      (get_context_gucs (a_state demo_world)) (a_state demo_world)" by (simp add: sees_def)
  moreover have "get_current_tenant_id (a_state demo_world) = None"
    by (simp add: demo_world_def get_current_tenant_id_def demo_defs)
  ultimately show ?thesis
    by (intro iterator_does_not_leak [where user = demo_reader and t = None, OF demo_orm_ok _ _ _ _ demo_state_ok])
      (simp_all add: demo_notes_def disciplined_quiet quiet_intros py_bind_def py_get_def py_ret_def py_require_def sees_def)
qed


end
