(* ===== verification/Open_Context.thy ===== *)
theory Open_Context
  imports Tenant_Context
begin

text \<open>
  \<^verbatim>\<open>tenants/context.py\<close>: \<^verbatim>\<open>tenant_context\<close> and \<^verbatim>\<open>admin_context\<close> as context managers that code enters at one place and
  leaves at another (Celery's signals, the exit stack of an API view), instead of around a block.  Put around a
  body they are the blocks of \<open>Tenant_Context\<close> (\<open>opened_block\<close>).
\<close>

subsection \<open>Entering, and what is left\<close>

text \<open>
  \<^verbatim>\<open>__enter__\<close> of a block's generator, which runs up to its \<^verbatim>\<open>yield\<close>; its value is \<^verbatim>\<open>__exit__\<close>, the rest of the
  generator, given how the code inside ended.
\<close>

type_synonym 'd closing = "exn + unit \<Rightarrow> ('d aff, unit) py"

definition open_run ::
  "'d site \<Rightarrow> tenant_id option \<Rightarrow> context_gucs \<Rightarrow> ('d aff, unit) py \<Rightarrow> (bool \<Rightarrow> ('d aff, unit) py) \<Rightarrow>
     string \<Rightarrow> origin \<Rightarrow> ('d aff, 'd closing) py" where
  "open_run st tenant gucs write restore using origin = (\<lambda>w.
     case enter_rls_state True tenant (Some gucs) (a_state w) of
       (b, s) \<Rightarrow>
         (let exited = log_context st ''context.exited'' origin tenant using
          in case write (w\<lparr>a_state := s\<rparr>) of
               (Inl e, w1) \<Rightarrow> leave_block st b restore exited False (Inl e) w1
             | (Inr _, w1) \<Rightarrow>
                 (Inr (leave_block st b restore exited True), log_context st ''context.entered'' origin tenant using w1)))"

definition open_block ::
  "'d site \<Rightarrow> tenant_id option \<Rightarrow> context_gucs \<Rightarrow> (bool \<Rightarrow> ('d aff, unit) py) \<Rightarrow> string \<Rightarrow> origin \<Rightarrow>
     ('d aff, 'd closing) py" where
  "open_block st tenant gucs write using origin =
     (let is_local = use_local_set (st_cfg st); writes = writes_gucs (st_cfg st) using is_local
      in py_bind (if writes then py_bind (snapshot_gucs st using) (\<lambda>p. py_ret (Some p)) else py_ret None) (\<lambda>previous.
         py_bind (session_of st using) (\<lambda>session.
         py_bind (py_get (\<lambda>w. current_live (a_state w))) (\<lambda>enclosing.
           open_run st tenant gucs
             (if writes then write_values st using (TVals gucs) is_local (write is_local) else py_ret ())
             (\<lambda>exc. restore_tenant_gucs st previous is_local using exc enclosing session)
             using origin))))"

definition open_tenant :: "'d site \<Rightarrow> tenant_id \<Rightarrow> origin \<Rightarrow> ('d aff, 'd closing) py" where
  "open_tenant st t origin =
     (let gucs = gucs_for_tenant t in
      open_block st (Some t) gucs
        (\<lambda>is_local. py_seq
           (set_guc (st_cursor st) (guc_is_admin (st_cfg st)) (g_is_admin gucs) is_local ''default'')
           (set_guc (st_cursor st) (guc_current_tenant (st_cfg st)) (g_current_tenant gucs) is_local ''default''))
        ''default'' origin)"

definition open_admin :: "'d site \<Rightarrow> origin \<Rightarrow> ('d aff, 'd closing) py" where
  "open_admin st origin =
     open_block st None admin_gucs
       (\<lambda>is_local. py_seq
          (set_guc (st_cursor st) (guc_is_admin (st_cfg st)) (g_is_admin admin_gucs) is_local ''default'')
          (clear_guc (st_cursor st) (guc_current_tenant (st_cfg st)) is_local ''default''))
       ''default'' origin"

text \<open>Leaving, for code that ended with \<open>r\<close>: the exception is raised again, or the one the leaving raises is.\<close>

definition close_with :: "'d closing \<Rightarrow> exn + 'a \<Rightarrow> ('d aff, 'a) py" where
  "close_with close_block r = (\<lambda>w.
     case close_block (map_sum id (\<lambda>_. ()) r) w of (Inl e, w1) \<Rightarrow> (Inl e, w1) | (Inr _, w1) \<Rightarrow> (r, w1))"

subsection \<open>An opened block has its context and gives back the enclosing one\<close>

lemma leave_block_raises: "isl (fst (leave_block st b restore exited entered (Inl e) w))"
  by (auto simp: leave_block_def py_finally_def split: prod.splits sum.splits)

text \<open>What an opened block promises: inside, its context, in a holder of its own; after its rest, the enclosing one.\<close>

fun opened ::
  "tenant_id option \<Rightarrow> context_gucs \<Rightarrow> rls_state \<Rightarrow> (exn + 'd closing) \<times> 'd aff \<Rightarrow> bool" where
  "opened tenant gucs s (Inl e, w1) = balanced s (a_state w1)"
| "opened tenant gucs s (Inr close_block, w1) =
     (scoped s (a_state w1) \<and> sees tenant True (Some gucs) (a_state w1) \<and> current_live (a_state w1) = Some (serials s) \<and>
      (\<forall>r w2. scoped (a_state w1) (a_state w2) \<longrightarrow> balanced s (a_state (snd (close_block r w2)))))"

definition opens ::
  "tenant_id option \<Rightarrow> context_gucs \<Rightarrow> ('d aff, 'd closing) py \<Rightarrow> bool" where
  "opens tenant gucs enter \<longleftrightarrow> (\<forall>w. state_ok (a_state w) \<longrightarrow> opened tenant gucs (a_state w) (enter w))"

lemma enter_live: "enter_rls_state active tenant gucs s = (b, s1) \<Longrightarrow> current_live s1 = Some (serials s)"
  by (drule enter_rls_state_eq) (simp add: current_live_def)

lemma open_run_opens:
  fixes wr :: "('d aff, unit) py"
  assumes written: "quiet wr" and restore: "\<And>exc. quiet (restore exc)"
  shows "opens tenant gucs (open_run st tenant gucs wr restore u o')"
  unfolding opens_def
proof (intro allI impI)
  fix w :: "'d aff"
  assume s: "state_ok (a_state w)"
  obtain b s1 where b: "enter_rls_state True tenant (Some gucs) (a_state w) = (b, s1)"
    by (cases "enter_rls_state True tenant (Some gucs) (a_state w)")
  obtain q v where q: "wr (w\<lparr>a_state := s1\<rparr>) = (q, v)" by (cases "wr (w\<lparr>a_state := s1\<rparr>)")
  have v: "a_state v = s1" using quietD [OF written q] by simp
  have ok1: "state_ok s1" using enter_state_ok [OF s b] .
  let ?exited = "log_context st ''context.exited'' o' tenant u"
  note left = leave_block_balanced [OF s b, where restore = restore and exited = ?exited, OF _ restore log_context_frame(1)]
  show "opened tenant gucs (a_state w) (open_run st tenant gucs wr restore u o' w)"
  proof (cases q)
    case (Inl e)
    let ?l = "leave_block st b restore ?exited False (Inl e) v :: (exn + 'd closing) \<times> 'd aff"
    obtain e' w1 where l: "?l = (Inl e', w1)"
      using leave_block_raises [of st b restore ?exited False e v] by (metis isl_def prod.collapse)
    have "balanced (a_state w) (a_state (snd ?l))" by (rule left) (simp add: v ok1 scoped_refl)
    then show ?thesis using b q Inl l by (simp add: open_run_def)
  next
    case (Inr x)
    then show ?thesis using b q v enter_sees [OF b] enter_scoped [OF s b] enter_live [OF b] by (simp add: open_run_def left)
  qed
qed

lemma opens_after_quiet:
  assumes "quiet m" and "\<And>x. opens tenant gucs (f x)"
  shows "opens tenant gucs (py_bind m f)"
  unfolding opens_def
proof (intro allI impI)
  fix w :: "'a aff"
  assume s: "state_ok (a_state w)"
  obtain r w1 where r: "m w = (r, w1)" by (cases "m w")
  then have w1: "a_state w1 = a_state w" using quietD [OF assms(1) r] by simp
  then have "opened tenant gucs (a_state w) (f x w1)" for x using assms(2) s by (metis opens_def)
  then show "opened tenant gucs (a_state w) (py_bind m f w)"
    using r s w1 by (cases r) (simp_all add: py_bind_def balanced_refl)
qed

lemma open_block_opens:
  assumes ok: "site_ok st" and written: "\<And>l. quiet (write l)"
  shows "opens tenant gucs (open_block st tenant gucs write u o')"
proof -
  have snap: "quiet (if b then py_bind (snapshot_gucs st u) (\<lambda>p. py_ret (Some p)) else py_ret None)" for b
    using ok by (intro quiet_intros)
  show ?thesis unfolding open_block_def Let_def
    by (intro opens_after_quiet snap quiet_site(4) [OF ok] quiet_basic(4) open_run_opens
        quiet_block_write [OF ok written] quiet_restore_tenant [OF ok])
qed

lemma opens_tenant: "site_ok st \<Longrightarrow> opens (Some t) (gucs_for_tenant t) (open_tenant st t origin)"
  by (auto simp: open_tenant_def Let_def site_ok_def intro!: open_block_opens quiet_intros)

lemma opens_admin: "site_ok st \<Longrightarrow> opens None admin_gucs (open_admin st origin)"
  by (auto simp: open_admin_def site_ok_def intro!: open_block_opens quiet_intros)

text \<open>A context that gives back what it found.\<close>

definition gives_back :: "('d aff, 'd closing) py \<Rightarrow> bool" where
  "gives_back enter \<longleftrightarrow> (\<forall>w. state_ok (a_state w) \<longrightarrow>
     (case enter w of
        (Inl _, w1) \<Rightarrow> balanced (a_state w) (a_state w1)
      | (Inr close_block, w1) \<Rightarrow> scoped (a_state w) (a_state w1) \<and>
          (\<forall>r w2. scoped (a_state w1) (a_state w2) \<longrightarrow> balanced (a_state w) (a_state (snd (close_block r w2))))))"

lemma gives_backD:
  "gives_back enter \<Longrightarrow> enter w = (q, w1) \<Longrightarrow> state_ok (a_state w) \<Longrightarrow>
     (case q of Inl _ \<Rightarrow> balanced (a_state w) (a_state w1)
      | Inr close_block \<Rightarrow> scoped (a_state w) (a_state w1) \<and>
          (\<forall>r w2. scoped (a_state w1) (a_state w2) \<longrightarrow> balanced (a_state w) (a_state (snd (close_block r w2)))))"
  unfolding gives_back_def by (drule spec [of _ w]) (simp split: sum.splits)

lemma opens_gives_back: "opens tenant gucs enter \<Longrightarrow> gives_back enter"
  unfolding opens_def gives_back_def
  by (auto split: prod.split sum.split)

lemma gucs_differ [simp]: "gucs_for_tenant t \<noteq> admin_gucs" "admin_gucs \<noteq> gucs_for_tenant t"
  by (simp_all add: gucs_for_tenant_def admin_gucs_def)

lemma gucs_never_admin [simp]:
  "map_option gucs_for_tenant t \<noteq> Some admin_gucs" "Some admin_gucs \<noteq> map_option gucs_for_tenant t"
  by (cases t; simp)+

lemma gucs_tenant [simp]: "g_current_tenant (gucs_for_tenant t) = tenant_str t"
  by (simp add: gucs_for_tenant_def)

subsection \<open>Around a body\<close>

lemma py_finally_run:
  "body w = (r, w1) \<Longrightarrow>
     py_finally body h w = (case h (isl r) w1 of (Inl e, w2) \<Rightarrow> (Inl e, w2) | (Inr _, w2) \<Rightarrow> (r, w2))"
  by (simp add: py_finally_def)

lemma leave_block_close:
  fixes restore :: "bool \<Rightarrow> ('d aff, unit) py" and r :: "exn + 'a"
  shows "leave_block st b restore exited entered r = close_with (leave_block st b restore exited entered) r"
proof
  fix w :: "'d aff"
  let ?r = "map_sum id (\<lambda>_. ()) r"
  obtain q1 w1 where q1: "on_state (exit_rls_state b) w = (q1, w1)" by (cases "on_state (exit_rls_state b) w")
  obtain q2 w2 where q2: "py_finally (restore (isl q1 \<or> isl r)) (\<lambda>_. if entered then py_modify exited else py_ret ()) w1 = (q2, w2)"
    by (cases "py_finally (restore (isl q1 \<or> isl r)) (\<lambda>_. if entered then py_modify exited else py_ret ()) w1")
  have first: "py_finally (\<lambda>w. (x, w)) (\<lambda>_. on_state (exit_rls_state b)) w = (case q1 of Inl e \<Rightarrow> Inl e | Inr _ \<Rightarrow> x, w1)" for x :: "exn + 'z"
    using q1 by (simp add: py_finally_def split: sum.split)
  have "leave_block st b restore exited entered x w =
      (case q2 of Inl e \<Rightarrow> Inl e | Inr _ \<Rightarrow> (case q1 of Inl e \<Rightarrow> Inl e | Inr _ \<Rightarrow> x), w2)"
    if "isl x = isl r" for x :: "exn + 'z"
    unfolding leave_block_def
    by (subst py_finally_run [where body = "py_finally (\<lambda>w. (x, w)) (\<lambda>_. on_state (exit_rls_state b))" and w = w, OF first])
      (use q2 that in \<open>cases q1; cases q2; simp\<close>)
  from this [of r] this [of ?r] show "leave_block st b restore exited entered r w = close_with (leave_block st b restore exited entered) r w"
    by (cases q1; cases q2; cases r) (simp_all add: close_with_def)
qed

lemma opened_run:
  fixes wr :: "('d aff, unit) py"
  shows "run_block st tenant gucs wr restore u o' body =
         py_bind (open_run st tenant gucs wr restore u o') (\<lambda>c w. case body w of (r, w1) \<Rightarrow> close_with c r w1)"
proof
  fix w :: "'d aff"
  obtain b s where b: "enter_rls_state True tenant (Some gucs) (a_state w) = (b, s)"
    by (cases "enter_rls_state True tenant (Some gucs) (a_state w)")
  obtain q v where q: "wr (w\<lparr>a_state := s\<rparr>) = (q, v)" by (cases "wr (w\<lparr>a_state := s\<rparr>)")
  let ?leave = "\<lambda>r. leave_block st b restore (log_context st ''context.exited'' o' tenant u) False r v"
  show "run_block st tenant gucs wr restore u o' body w =
         py_bind (open_run st tenant gucs wr restore u o') (\<lambda>c w. case body w of (r, w1) \<Rightarrow> close_with c r w1) w"
  proof (cases q)
    case (Inl e)
    have "?leave (Inl e :: exn + 'b) = (case (?leave (Inl e) :: (exn + 'd closing) \<times> 'd aff) of
        (Inl e', v') \<Rightarrow> (Inl e', v') | (Inr y, v') \<Rightarrow> z y v')" for z
      by (auto simp: leave_block_def py_finally_def split: prod.splits sum.splits)
    then show ?thesis using b q Inl by (simp add: run_block_def open_run_def py_bind_def Let_def)
  next
    case (Inr y)
    obtain r v' where "body (log_context st ''context.entered'' o' tenant u v) = (r, v')"
      by (cases "body (log_context st ''context.entered'' o' tenant u v)")
    then show ?thesis using b q Inr
      by (simp add: run_block_def open_run_def py_bind_def Let_def leave_block_close [where entered = True and r = r])
  qed
qed

lemma opened_block:
  "context_block st tenant gucs write u o' body =
     py_bind (open_block st tenant gucs write u o') (\<lambda>c w. case body w of (r, w1) \<Rightarrow> close_with c r w1)"
  by (simp add: context_block_def open_block_def Let_def opened_run py_bind_assoc)

end
