(* ===== verification/Celery_Tasks.thy ===== *)
theory Celery_Tasks
  imports Open_Context "HOL-Library.AList"
begin

text \<open>
  \<^verbatim>\<open>contrib/celery.py\<close>: the context of the code that enqueues a task is captured into the headers of
  its message and restored on the worker, by the task's class (\<^verbatim>\<open>RLSTask\<close>) or by Celery's signals
  (\<^verbatim>\<open>install()\<close>).  A broker and its serializer carry header values of the types of \<open>hval\<close> unchanged; Celery's
  own \<^verbatim>\<open>apply_async\<close> and \<^verbatim>\<open>apply\<close> and the task's body are arguments.
\<close>

subsection \<open>Headers and requests\<close>

datatype hval = HNone | HBool bool | HInt int | HStr string

type_synonym headers = "string \<Rightarrow> hval option"

text \<open>A task's \<^verbatim>\<open>request\<close>: its \<^verbatim>\<open>headers\<close> attribute, if a dict, and the request's other attributes.\<close>

record task_request =
  tq_headers :: "headers option"
  tq_attrs :: headers

definition tenant_header :: string where
  "tenant_header = ''rls_tenant_id''"

definition admin_header :: string where
  "admin_header = ''rls_admin''"

text \<open>\<^verbatim>\<open>bool(value)\<close>, a header's value as a tenant id, and a tenant id as a header's value.\<close>

fun truthy :: "hval \<Rightarrow> bool" where
  "truthy HNone = False"
| "truthy (HBool b) = b"
| "truthy (HInt i) = (i \<noteq> 0)"
| "truthy (HStr s) = (s \<noteq> [])"

fun header_id :: "hval \<Rightarrow> tenant_id option" where
  "header_id HNone = None"
| "header_id (HBool b) = Some (TStr (if b then ''True'' else ''False''))"
| "header_id (HInt i) = Some (TInt i)"
| "header_id (HStr s) = Some (TStr s)"

fun id_header :: "tenant_id \<Rightarrow> hval" where
  "id_header (TInt i) = HInt i"
| "id_header (TStr s) = HStr s"

definition context_headers :: "hval \<Rightarrow> bool \<Rightarrow> (string \<times> hval) list" where
  "context_headers tenant admin = [(tenant_header, tenant), (admin_header, HBool admin)]"

text \<open>The headers of the request, when they are a dict with the tenant's key.\<close>

definition rls_headers :: "task_request option \<Rightarrow> headers option" where
  "rls_headers request =
     (case request of
        None \<Rightarrow> None
      | Some q \<Rightarrow> (case tq_headers q of
            None \<Rightarrow> None
          | Some h \<Rightarrow> if h tenant_header = None then None else Some h))"

definition header_flag :: "headers \<Rightarrow> bool" where
  "header_flag h = (case h admin_header of None \<Rightarrow> False | Some v \<Rightarrow> truthy v)"

subsection \<open>Capturing the context\<close>

text \<open>\<open>task\<close> is the request of \<^verbatim>\<open>current_task\<close>, \<open>None\<close> outside a task.\<close>

definition inherited :: "task_request option \<Rightarrow> (string \<times> hval) list" where
  "inherited task =
     (case rls_headers task of
        None \<Rightarrow> []
      | Some h \<Rightarrow> context_headers (the (h tenant_header)) (header_flag h))"

definition capture :: "task_request option \<Rightarrow> rls_state \<Rightarrow> (string \<times> hval) list" where
  "capture task s =
     (case current_live s of
        Some a \<Rightarrow>
          (case values_of s (Some a) of
             Some v \<Rightarrow>
               if g_is_admin v = ''true'' then context_headers HNone True
               else if g_current_tenant v \<noteq> []
               then (case get_current_tenant_id s of
                       Some t \<Rightarrow>
                         if tenant_str t = g_current_tenant v then context_headers (id_header t) False
                         else context_headers (HStr (g_current_tenant v)) False
                     | None \<Rightarrow> context_headers (HStr (g_current_tenant v)) False)
               else inherited task
           | None \<Rightarrow> inherited task)
      | None \<Rightarrow>
          (case get_current_tenant_id s of
             Some t \<Rightarrow> context_headers (id_header t) False
           | None \<Rightarrow> if get_rls_context_active s then context_headers HNone True else inherited task))"

definition request_context :: "task_request option \<Rightarrow> tenant_id option \<times> bool" where
  "request_context request =
     (case rls_headers request of
        Some h \<Rightarrow> (header_id (the (h tenant_header)), header_flag h)
      | None \<Rightarrow>
          (case request of
             None \<Rightarrow> (None, False)
           | Some q \<Rightarrow>
               (case tq_attrs q tenant_header of None \<Rightarrow> None | Some v \<Rightarrow> header_id v, header_flag (tq_attrs q))))"

definition setdefault :: "string \<times> hval \<Rightarrow> headers \<Rightarrow> headers" where
  "setdefault p h = (case h (fst p) of None \<Rightarrow> h(fst p \<mapsto> snd p) | Some _ \<Rightarrow> h)"

text \<open>\<open>given\<close> are the caller's \<^verbatim>\<open>headers\<close> option.\<close>

definition merge_headers :: "task_request option \<Rightarrow> rls_state \<Rightarrow> headers option \<Rightarrow> headers" where
  "merge_headers task s given = fold setdefault (capture task s) (case given of None \<Rightarrow> Map.empty | Some h \<Rightarrow> h)"

subsection \<open>RLSTask\<close>

text \<open>\<^verbatim>\<open>RLSTask.apply_async\<close> and \<^verbatim>\<open>RLSTask.apply\<close>: \<open>send\<close> is the method of Celery's \<^verbatim>\<open>Task\<close>.\<close>

definition enqueue ::
  "task_request option \<Rightarrow> headers option \<Rightarrow> (headers \<Rightarrow> ('d aff, 'r) py) \<Rightarrow> ('d aff, 'r) py" where
  "enqueue task given send =
     py_bind (py_get (\<lambda>w. merge_headers task (a_state w) given)) send"

definition call_task ::
  "'d site \<Rightarrow> task_request option \<Rightarrow> bool \<Rightarrow> ('d aff, 'r) py \<Rightarrow> ('d aff, 'r) py" where
  "call_task st request require_context body =
     (case request_context request of
        (Some t, _) \<Rightarrow> attributed (\<lambda>o'. tenant_context st (Some t) ''default'' o') (Some ''celery'') None body
      | (None, True) \<Rightarrow> attributed (\<lambda>o'. admin_context st ''default'' o') (Some ''celery'') None body
      | (None, False) \<Rightarrow>
          if require_context
          then py_seq
                 (py_modify (\<lambda>w. w\<lparr>a_audit := denied (st_audits st) ''celery'' ''no_context'' None None None [] (a_audit w)\<rparr>))
                 (py_raise NoTenantContextError)
          else body)"

subsection \<open>The signals\<close>

text \<open>A worker: its thread, \<^verbatim>\<open>_signal_contexts\<close> (a dict, in its order), and whether \<^verbatim>\<open>install()\<close> connected the handlers.\<close>

record 'd worker =
  wk_aff :: "'d aff"
  wk_open :: "(string \<times> 'd closing list) list"
  wk_installed :: bool

definition on_worker :: "('d aff, 'a) py \<Rightarrow> ('d worker, 'a) py" where
  "on_worker m = (\<lambda>w. case m (wk_aff w) of (r, a) \<Rightarrow> (r, w\<lparr>wk_aff := a\<rparr>))"

definition stack_of :: "string \<Rightarrow> ('d worker) \<Rightarrow> 'd closing list" where
  "stack_of task_id w = (case map_of (wk_open w) task_id of None \<Rightarrow> [] | Some cs \<Rightarrow> cs)"

definition before_task_publish :: "task_request option \<Rightarrow> rls_state \<Rightarrow> headers option \<Rightarrow> headers option" where
  "before_task_publish task s headers = map_option (fold setdefault (capture task s)) headers"

text \<open>\<^verbatim>\<open>__exit__(None, None, None)\<close>.\<close>

definition safe_exit :: "'d closing \<Rightarrow> ('d aff, unit) py" where
  "safe_exit close_context = py_except (close_context (Inr ())) is_exception (\<lambda>_. py_ret ())"

text \<open>The context manager that \<^verbatim>\<open>_task_prerun\<close> enters, if any.\<close>

definition prerun_context :: "'d site \<Rightarrow> task_request option \<Rightarrow> ('d aff, 'd closing) py option" where
  "prerun_context st request =
     (case request_context request of
        (Some t, _) \<Rightarrow> Some (attributed (open_tenant st t) (Some ''celery'') None)
      | (None, True) \<Rightarrow> Some (attributed (open_admin st) (Some ''celery'') None)
      | (None, False) \<Rightarrow> None)"

definition task_prerun :: "'d site \<Rightarrow> string option \<Rightarrow> bool \<Rightarrow> task_request option \<Rightarrow> ('d worker, unit) py" where
  "task_prerun st task_id is_rls_task request =
     (case (task_id, prerun_context st request) of
        (Some i, Some enter) \<Rightarrow>
          if is_rls_task then py_ret ()
          else py_bind (on_worker (py_except (py_bind enter (\<lambda>c. py_ret (Some c))) is_exception (\<lambda>_. py_ret None)))
                 (\<lambda>entered. case entered of
                    None \<Rightarrow> py_ret ()
                  | Some c \<Rightarrow> py_modify (\<lambda>w. w\<lparr>wk_open := AList.update i (stack_of i w @ [c]) (wk_open w)\<rparr>))
      | _ \<Rightarrow> py_ret ())"

definition task_postrun :: "string option \<Rightarrow> ('d worker, unit) py" where
  "task_postrun task_id =
     (case task_id of
        None \<Rightarrow> py_ret ()
      | Some i \<Rightarrow> (\<lambda>w.
          let stack = stack_of i w
          in if stack = [] then (Inr (), w)
             else on_worker (safe_exit (last stack))
               (w\<lparr>wk_open := if butlast stack = [] then AList.delete i (wk_open w)
                             else AList.update i (butlast stack) (wk_open w)\<rparr>)))"

definition install :: "('d worker, unit) py" where
  "install = py_modify (\<lambda>w. w\<lparr>wk_installed := True\<rparr>)"

definition uninstall :: "('d worker, unit) py" where
  "uninstall =
     py_seq (py_modify (\<lambda>w. w\<lparr>wk_installed := False\<rparr>))
    (py_bind (py_get (\<lambda>w. concat (map (\<lambda>p. rev (snd p)) (wk_open w)))) (\<lambda>cs.
     py_seq (py_for cs (\<lambda>c. on_worker (safe_exit c)))
       (py_modify (\<lambda>w. w\<lparr>wk_open := []\<rparr>))))"

subsection \<open>What is captured\<close>

lemma headers_distinct [simp]: "tenant_header \<noteq> admin_header" "admin_header \<noteq> tenant_header"
  by (simp_all add: tenant_header_def admin_header_def)

lemma header_id_header [simp]: "header_id (id_header t) = Some t"
  by (cases t) simp_all

text \<open>Captured headers, in a message whose headers are otherwise free of the two keys, read back.\<close>

definition unmarked_headers :: "headers option \<Rightarrow> bool" where
  "unmarked_headers given \<longleftrightarrow> (\<forall>h. given = Some h \<longrightarrow> h tenant_header = None \<and> h admin_header = None)"

definition carrying :: "headers \<Rightarrow> task_request option" where
  "carrying h = Some \<lparr>tq_headers = Some h, tq_attrs = Map.empty\<rparr>"

lemma request_context_captured:
  assumes "unmarked_headers given" "capture task s = context_headers v b"
  shows "request_context (carrying (merge_headers task s given)) = (header_id v, b)"
  using assms
  by (cases given) (auto simp: merge_headers_def context_headers_def setdefault_def request_context_def rls_headers_def
      carrying_def header_flag_def unmarked_headers_def)

lemma request_context_nothing_captured:
  assumes "unmarked_headers given" "capture task s = []"
  shows "request_context (carrying (merge_headers task s given)) = (None, False)"
  using assms
  by (cases given) (auto simp: merge_headers_def request_context_def rls_headers_def
      carrying_def header_flag_def unmarked_headers_def)

text \<open>The values a context of \<open>tenant\<close> (\<open>None\<close>: an admin) has.\<close>

definition values_for :: "tenant_id option \<Rightarrow> context_gucs" where
  "values_for tenant = (case tenant of None \<Rightarrow> admin_gucs | Some t \<Rightarrow> gucs_for_tenant t)"

lemma capture_of_context:
  assumes v: "get_context_gucs s = Some (values_for tenant)" and t: "\<And>t. tenant = Some t \<Longrightarrow> tenant_str t \<noteq> []"
  shows "\<exists>h. capture task s = context_headers h (tenant = None) \<and> map_option tenant_str (header_id h) = map_option tenant_str tenant \<and>
           (get_current_tenant_id s = tenant \<longrightarrow> header_id h = tenant)"
proof -
  obtain a where a: "current_live s = Some a" "values_of s (Some a) = Some (values_for tenant)"
    using v by (cases "current_live s") (auto simp: get_context_gucs_def values_of_def)
  show ?thesis
  proof (cases tenant)
    case None
    then show ?thesis using a by (auto simp: capture_def values_for_def admin_gucs_def)
  next
    case (Some t)
    then show ?thesis using a assms(2) [OF Some]
      by (cases "get_current_tenant_id s") (auto simp: capture_def values_for_def gucs_for_tenant_def)
  qed
qed

subsection \<open>RLSTask runs in the caller's context\<close>

text \<open>What a task's body sees of a context of \<open>tenant\<close>: its values, the flag, and its tenant up to the type of the id.\<close>

definition in_context_of :: "tenant_id option \<Rightarrow> rls_state \<Rightarrow> bool" where
  "in_context_of tenant s \<longleftrightarrow> get_context_gucs s = Some (values_for tenant) \<and> get_rls_context_active s \<and>
     map_option tenant_str (get_current_tenant_id s) = map_option tenant_str tenant"

lemma call_task_cong:
  assumes ok: "site_ok st" and s: "state_ok (a_state w)" and q: "request_context request = (tenant, admin)"
    and some: "tenant \<noteq> None \<or> admin"
    and body: "\<And>w1. sees tenant True (Some (values_for tenant)) (a_state w1) \<Longrightarrow> body w1 = body' w1"
  shows "call_task st request r body w = call_task st request r body' w"
proof (cases tenant)
  case None
  have "admin_context st ''default'' o' body w = admin_context st ''default'' o' body' w" for o'
    by (rule admin_cm.runs_inside [OF ok s], rule body) (simp add: None values_for_def)
  then show ?thesis using q some None by (simp add: call_task_def attributed_def)
next
  case (Some t)
  have "tenant_context st (Some t) ''default'' o' body w = tenant_context st (Some t) ''default'' o' body' w" for o'
    by (rule tenant_cm.runs_inside [OF ok s], rule body) (simp add: Some values_for_def)
  then show ?thesis using q Some by (simp add: call_task_def attributed_def)
qed

text \<open>
  C11. A task runs in the context of the code that enqueued it: when the GUC values the library keeps for the
  caller are those of a tenant (or of an admin), the headers \<^verbatim>\<open>RLSTask\<close> sends make the worker run the
  body with these values, in an active context, and with this tenant, whatever the public state of the caller says
  and whatever context the worker is in.  What the body would do anywhere else does not matter.
\<close>

theorem task_runs_in_callers_context:
  assumes ok: "site_ok st" and s: "state_ok (a_state w)"
    and caller: "get_context_gucs s = Some (values_for tenant)" "\<And>t. tenant = Some t \<Longrightarrow> tenant_str t \<noteq> []"
    and given: "unmarked_headers given"
    and body: "\<And>w1. in_context_of tenant (a_state w1) \<Longrightarrow> body w1 = body' w1"
  shows "call_task st (carrying (merge_headers task s given)) required body w =
         call_task st (carrying (merge_headers task s given)) required body' w"
proof -
  obtain h where h: "capture task s = context_headers h (tenant = None)"
    "map_option tenant_str (header_id h) = map_option tenant_str tenant"
    using capture_of_context [OF caller(1)] caller(2) by blast
  have q: "request_context (carrying (merge_headers task s given)) = (header_id h, tenant = None)"
    by (rule request_context_captured [OF given h(1)])
  have v: "values_for (header_id h) = values_for tenant"
    using h(2) by (cases tenant) (auto simp: values_for_def gucs_for_tenant_def)
  have some: "header_id h \<noteq> None \<or> tenant = None" using h(2) by (cases tenant) auto
  show ?thesis
    by (rule call_task_cong [OF ok s q some]) (simp add: body in_context_of_def sees_def v h(2))
qed

text \<open>
  A task enqueued outside every context, and not by a task, carries none: it runs its body as it is, or, with
  \<^verbatim>\<open>rls_require_context\<close>, raises \<^verbatim>\<open>NoTenantContextError\<close> without running it at all.
\<close>

theorem unscoped_task_fails_closed:
  assumes caller: "get_context_gucs s = None" "current_live s = None \<Longrightarrow> get_current_tenant_id s = None \<and> \<not> get_rls_context_active s"
    and given: "unmarked_headers given"
  shows "call_task st (carrying (merge_headers None s given)) False body = body \<and>
         fst (call_task st (carrying (merge_headers None s given)) True body w) = Inl NoTenantContextError \<and>
         call_task st (carrying (merge_headers None s given)) True body w =
         call_task st (carrying (merge_headers None s given)) True other_body w"
proof -
  have "capture None s = []"
    using caller by (auto simp: capture_def inherited_def rls_headers_def get_context_gucs_def split: option.splits)
  from request_context_nothing_captured [OF given this] show ?thesis
    by (simp add: call_task_def py_seq_def py_simps)
qed

text \<open>
  The context flows through a canvas: what a task without a context of its own enqueues carries exactly the
  context of the task's own request.
\<close>

theorem canvas_inherits_context:
  assumes task: "request_context task = (tenant, admin)" "rls_headers task \<noteq> None"
    and own: "get_context_gucs s = None" "current_live s = None \<Longrightarrow> get_current_tenant_id s = None \<and> \<not> get_rls_context_active s"
    and given: "unmarked_headers given"
  shows "request_context (carrying (merge_headers task s given)) = (tenant, admin)"
proof -
  obtain h where h: "rls_headers task = Some h" using task(2) by blast
  have "capture task s = context_headers (the (h tenant_header)) (header_flag h)"
    using own h by (auto simp: capture_def inherited_def get_context_gucs_def split: option.splits)
  from request_context_captured [OF given this] show ?thesis
    using task(1) h by (simp add: request_context_def)
qed

text \<open>
  A task leaves the worker as it found it: however its body ends, and whatever it did to the context variables,
  the worker's context variables are those from before it, for every task that carries a context.
\<close>

theorem rls_task_restores:
  assumes ok: "site_ok st" and body: "disciplined body" and s: "state_ok (a_state w)"
    and carried: "request_context request \<noteq> (None, False)"
  shows "balanced (a_state w) (a_state (snd (call_task st request required body w)))"
proof -
  obtain tenant admin where q: "request_context request = (tenant, admin)" by force
  show ?thesis using q carried
    by (cases tenant; cases admin) (auto simp: call_task_def attributed_def
        intro!: tenant_cm.restores [OF ok body s] admin_cm.restores [OF ok body s])
qed

subsection \<open>The signals run a task like RLSTask\<close>

lemma prerun_context_opens:
  assumes "site_ok st" "prerun_context st request = Some enter"
  shows "opens (fst (request_context request)) (values_for (fst (request_context request))) enter"
  using assms
  by (auto simp: prerun_context_def attributed_def open_tenant_def open_admin_def values_for_def Let_def site_ok_def
      intro!: open_block_opens quiet_intros split: prod.splits option.splits bool.splits)

text \<open>The thread's context variables.\<close>

definition worker_state :: "('d worker) \<Rightarrow> rls_state" where
  "worker_state w = a_state (wk_aff w)"

lemma prerun_cases:
  assumes ok: "site_ok st" and s: "state_ok (worker_state w)"
    and run: "task_prerun st (Some i) is_rls_task request w = (r, w1)"
  obtains (none) "w1 = w"
  | (failed) a where "w1 = w\<lparr>wk_aff := a\<rparr>" "balanced (worker_state w) (a_state a)"
  | (entered) c a where "w1 = w\<lparr>wk_aff := a, wk_open := AList.update i (stack_of i w @ [c]) (wk_open w)\<rparr>"
      "opened (fst (request_context request)) (values_for (fst (request_context request))) (worker_state w) (Inr c, a)"
proof -
  let ?t = "fst (request_context request)"
  show ?thesis
  proof (cases "is_rls_task \<or> prerun_context st request = None")
    case True
    then have "w1 = w" using run by (auto simp: task_prerun_def py_ret_def split: option.splits)
    then show ?thesis using that(1) by simp
  next
    case False
    then obtain enter where enter: "prerun_context st request = Some enter" by blast
    obtain q a where q: "enter (wk_aff w) = (q, a)" by (cases "enter (wk_aff w)")
    have "opened ?t (values_for ?t) (worker_state w) (q, a)"
      using prerun_context_opens [OF ok enter] s q by (metis opens_def worker_state_def)
    then show ?thesis using run False enter q that
      by (cases q) (auto simp: task_prerun_def on_worker_def py_except_def py_bind_def py_simps stack_of_def split: if_splits)
  qed
qed

lemma prerun_scoped:
  assumes "site_ok st" "state_ok (worker_state w)" "task_prerun st (Some i) is_rls_task request w = (r, w1)"
  shows "scoped (worker_state w) (worker_state w1)"
  using assms by (rule prerun_cases) (use assms(2) in \<open>auto simp: worker_state_def balanced_def scoped_refl\<close>)

text \<open>
  The signals give a task its context and take it back: either \<^verbatim>\<open>_task_prerun\<close> enters the context the
  request carries, so that the body starts in it, and then, whatever the body did to the context variables and
  provided it unwound the tasks it ran itself, \<^verbatim>\<open>_task_postrun\<close> restores the context variables and
  \<^verbatim>\<open>_signal_contexts\<close>; or it leaves both as they were.
\<close>

theorem signals_restore:
  assumes ok: "site_ok st" and s: "state_ok (worker_state w)"
    and stacks: "map_of (wk_open w) i \<noteq> Some []"
    and run: "task_prerun st (Some i) is_rls_task request w = (r, w1)"
    and body: "scoped (worker_state w1) (worker_state w2)" "wk_open w2 = wk_open w1"
  shows "if stack_of i w1 = stack_of i w then balanced (worker_state w) (worker_state w1) \<and> wk_open w1 = wk_open w
         else sees (fst (request_context request)) True (Some (values_for (fst (request_context request)))) (worker_state w1) \<and>
           balanced (worker_state w) (worker_state (snd (task_postrun (Some i) w2))) \<and>
           map_of (wk_open (snd (task_postrun (Some i) w2))) = map_of (wk_open w)"
proof -
  let ?t = "fst (request_context request)"
  from ok s run show ?thesis
  proof (cases rule: prerun_cases)
    case none
    then show ?thesis using s by (simp add: balanced_refl)
  next
    case (failed a)
    then show ?thesis by (simp add: worker_state_def stack_of_def)
  next
    case (entered c a)
    then have in1: "stack_of i w1 = stack_of i w @ [c]" "stack_of i w2 = stack_of i w @ [c]"
      using body(2) by (simp_all add: stack_of_def update_conv')
    let ?v = "w2\<lparr>wk_open := if stack_of i w = [] then AList.delete i (wk_open w2) else AList.update i (stack_of i w) (wk_open w2)\<rparr>"
    have out: "task_postrun (Some i) w2 = on_worker (safe_exit c) ?v" by (simp add: task_postrun_def in1)
    have st: "worker_state (snd (on_worker (safe_exit c) ?v)) = a_state (snd (c (Inr ()) (wk_aff w2)))"
      by (auto simp: on_worker_def safe_exit_def py_except_def worker_state_def py_ret_def split: prod.split sum.split)
    have "map_of (wk_open (snd (on_worker (safe_exit c) ?v))) = map_of (wk_open w)"
      using body(2) entered(1) stacks
      by (auto simp: on_worker_def stack_of_def update_conv' delete_conv' fun_eq_iff split: prod.split option.splits)
    then show ?thesis using entered in1 out st body(1) by (simp add: worker_state_def)
  qed
qed

text \<open>A run that entered no context ends, at its \<^verbatim>\<open>_task_postrun\<close>, the context of an enclosing run of the same task id.\<close>

lemma postrun_without_entry_ends_another:
  assumes "prerun_context st request = None" "stack_of i w = [c]"
  shows "py_seq (task_prerun st (Some i) is_rls_task request) (task_postrun (Some i)) w =
         on_worker (safe_exit c) (w\<lparr>wk_open := AList.delete i (wk_open w)\<rparr>)"
  using assms by (simp add: task_prerun_def task_postrun_def py_seq_def py_simps)

subsection \<open>One concrete worker\<close>

definition demo_worker :: "demo_pg_state worker" where
  "demo_worker = \<lparr>wk_aff = demo_world\<lparr>a_state := init_state\<rparr>, wk_open = [], wk_installed = True\<rparr>"

lemma demo_worker_ok: "state_ok (worker_state demo_worker)" "state_ok init_state"
  by (simp_all add: demo_worker_def worker_state_def init_state_def state_ok_def heap_wf_def current_live_def cur_ctx_def default_ctx_def)

text \<open>A request that carries tenant 7, from an eager run.\<close>

definition demo_request :: "task_request option" where
  "demo_request = carrying [tenant_header \<mapsto> HInt 7, admin_header \<mapsto> HBool False]"

lemma demo_request_context: "request_context demo_request = (Some (TInt 7), False)"
  by (simp add: demo_request_def carrying_def request_context_def rls_headers_def header_flag_def)

lemma task_runs_in_callers_context_witness:
  "call_task (demo_site True) (carrying (merge_headers None (a_state demo_world) None)) True
     (py_get (\<lambda>w. get_context_gucs (a_state w))) (wk_aff demo_worker) =
   call_task (demo_site True) (carrying (merge_headers None (a_state demo_world) None)) True
     (py_ret (Some (gucs_for_tenant (TInt 1)))) (wk_aff demo_worker)"
  using demo_context demo_worker_ok(1)
  by (intro task_runs_in_callers_context [where tenant = "Some (TInt 1)"] demo_site_ok)
    (auto simp: context_of_def worker_state_def values_for_def unmarked_headers_def in_context_of_def py_simps show_int_def)

lemma unscoped_task_fails_closed_witness:
  "fst (call_task (demo_site True) (carrying (merge_headers None init_state None)) True (py_ret ()) demo_world) =
     Inl NoTenantContextError"
  using unscoped_task_fails_closed [of init_state None "demo_site True" "py_ret ()" demo_world]
  by (simp add: unmarked_headers_def init_state_def get_context_gucs_def values_of_def current_live_def cur_ctx_def
      default_ctx_def get_current_tenant_id_def get_rls_context_active_def)

lemma canvas_inherits_context_witness:
  "request_context (carrying (merge_headers demo_request init_state (Some [''origin'' \<mapsto> HStr ''web'']))) = (Some (TInt 7), False)"
  by (rule canvas_inherits_context [OF demo_request_context])
    (simp_all add: demo_request_def carrying_def rls_headers_def unmarked_headers_def tenant_header_def admin_header_def
      init_state_def get_context_gucs_def values_of_def current_live_def cur_ctx_def
      default_ctx_def get_current_tenant_id_def get_rls_context_active_def)

lemma rls_task_restores_witness:
  "balanced (a_state demo_world) (a_state (snd (call_task (demo_site False) demo_request True demo_body demo_world)))"
  by (rule rls_task_restores [OF demo_site_ok demo_body_disciplined demo_state_ok]) (simp add: demo_request_context)

lemma demo_prerun:
  "length (stack_of ''t'' (snd (task_prerun (demo_site True) (Some ''t'') False demo_request demo_worker))) = 1"
  by (simp add: task_prerun_def prerun_context_def demo_request_context attributed_def open_tenant_def open_block_def
      writes_gucs_def demo_site_def demo_cfg_def session_of_def connections_get_def demo_cursor_def open_run_def
      on_worker_def py_except_def py_seq_def py_bind_def py_simps stack_of_def demo_worker_def Let_def split: prod.split)

lemma signals_restore_witness:
  "sees (Some (TInt 7)) True (Some (gucs_for_tenant (TInt 7)))
     (worker_state (snd (task_prerun (demo_site True) (Some ''t'') False demo_request demo_worker))) \<and>
   balanced (worker_state demo_worker) (worker_state (snd (task_postrun (Some ''t'')
     (snd (task_prerun (demo_site True) (Some ''t'') False demo_request demo_worker)))))"
proof -
  obtain r w1 where r: "task_prerun (demo_site True) (Some ''t'') False demo_request demo_worker = (r, w1)" by force
  have n: "length (stack_of ''t'' w1) = 1" using demo_prerun r by simp
  have "stack_of ''t'' demo_worker = []" "map_of (wk_open demo_worker) ''t'' \<noteq> Some []"
    by (simp_all add: demo_worker_def stack_of_def)
  then show ?thesis
    using signals_restore [OF demo_site_ok demo_worker_ok(1) _ r scoped_refl refl] n r
      scoped_state_ok [OF prerun_scoped [OF demo_site_ok demo_worker_ok(1) r]]
    by (cases "stack_of ''t'' w1") (simp_all add: demo_request_context values_for_def)
qed

end
