(* ===== verification/Migration_Ops.thy ===== *)
theory Migration_Ops
  imports Tenant_Models
begin

text \<open>
  \<^verbatim>\<open>operations.py\<close>: the migration operations \<^verbatim>\<open>AddM2MRLSPolicy\<close> and \<^verbatim>\<open>AddRLSPolicy\<close>.  The migration state is
  the models by app and name, as Django's state apps look them up; the router, a model's kind
  (\<^verbatim>\<open>allow_migrate_model\<close>) and the schema editor's \<^verbatim>\<open>execute\<close> are arguments.
\<close>

subsection \<open>The migration state\<close>

text \<open>
  A model of the state: what the predicates read of it, and its constraints.  \<open>om_target\<close> is a foreign key's
  target by the key's name: the lower-case label of its model, or the string that is not resolved to one.
\<close>

record op_model = model_meta +
  om_proxy :: bool
  om_constraints :: "dj_constraint list"
  om_target :: "string \<Rightarrow> string"

type_synonym project_state = "string \<Rightarrow> string \<Rightarrow> op_model option"

record 'w migration_env =
  me_alias :: string
  me_allow_app :: "string \<Rightarrow> string \<Rightarrow> bool"
  me_allow_model :: "string \<Rightarrow> op_model \<Rightarrow> bool"
  me_execute :: "string \<Rightarrow> ('w, unit) py"

text \<open>The settings, read when a migration runs, and the registry in which \<^verbatim>\<open>SharedWith\<close> looks up its model.\<close>

record op_cfg =
  oc_guc_tenant :: string
  oc_guc_admin :: string
  oc_pk_type :: string
  oc_tenant_model :: string
  oc_registry :: registry

text \<open>Python that computes a value or raises, without changing the world.\<close>

definition py_lift :: "'a checked \<Rightarrow> ('w, 'a) py" where
  "py_lift r = (case r of Inl e \<Rightarrow> py_raise e | Inr x \<Rightarrow> py_ret x)"

subsection \<open>AddM2MRLSPolicy\<close>

record m2m_op =
  mo_m2m_table :: string
  mo_from_model :: string
  mo_to_model :: string
  mo_from_fk :: string
  mo_to_fk :: string
  mo_from_tenant_fk :: "string option"
  mo_to_tenant_fk :: "string option"
  mo_guc_tenant_var :: string
  mo_guc_admin_var :: string
  mo_tenant_pk_type :: string

definition m2m_op_init :: "m2m_op \<Rightarrow> m2m_op checked" where
  "m2m_op_init op =
     ck_bind (validate_field_name (mo_m2m_table op)) (\<lambda>_.
     ck_bind (validate_model_path (mo_from_model op)) (\<lambda>_.
     ck_bind (validate_model_path (mo_to_model op)) (\<lambda>_.
     ck_bind (validate_field_name (mo_from_fk op)) (\<lambda>_.
     ck_bind (validate_field_name (mo_to_fk op)) (\<lambda>_.
     ck_bind (validate_tenant_fk (mo_from_tenant_fk op)) (\<lambda>_.
     ck_bind (validate_tenant_fk (mo_to_tenant_fk op)) (\<lambda>_.
     ck_bind (validate_pk_type (mo_tenant_pk_type op)) (\<lambda>_.
     ck_bind (validate_guc_name_for_ddl (mo_guc_tenant_var op)) (\<lambda>_.
     ck_bind (validate_guc_name_for_ddl (mo_guc_admin_var op)) (\<lambda>_. Inr op))))))))))"

text \<open>\<open>model_path.split(".")\<close> into exactly two parts; another number of parts is a \<^verbatim>\<open>ValueError\<close>.\<close>

definition op_resolve_table :: "project_state \<Rightarrow> string \<Rightarrow> string checked" where
  "op_resolve_table apps path =
     (case (takeWhile (\<lambda>c. c \<noteq> CHR ''.'') path, dropWhile (\<lambda>c. c \<noteq> CHR ''.'') path) of
        (app_label, dot # model_name) \<Rightarrow>
          if CHR ''.'' \<in> set model_name then Inl ValueError
          else (case apps app_label model_name of None \<Rightarrow> Inl LookupError | Some m \<Rightarrow> Inr (m_table m))
      | _ \<Rightarrow> Inl ValueError)"

definition m2m_op_sql :: "project_state \<Rightarrow> m2m_op \<Rightarrow> string checked" where
  "m2m_op_sql to_state op =
     (let admin_check = bool_flag_sql (mo_guc_admin_var op)
      in ck_bind (op_resolve_table to_state (mo_from_model op)) (\<lambda>from_table.
         ck_bind (op_resolve_table to_state (mo_to_model op)) (\<lambda>to_table.
           Inr (build_m2m_create_sql (mo_m2m_table op) admin_check
             (build_m2m_conditions (mo_from_fk op) from_table (mo_from_tenant_fk op)
               (mo_to_fk op) to_table (mo_to_tenant_fk op) (mo_guc_tenant_var op) (mo_tenant_pk_type op))))))"

definition m2m_op_forwards :: "'w migration_env \<Rightarrow> m2m_op \<Rightarrow> string \<Rightarrow> project_state \<Rightarrow> ('w, unit) py" where
  "m2m_op_forwards env op app_label to_state =
     (if \<not> me_allow_app env (me_alias env) app_label then py_ret ()
      else py_bind (py_lift (m2m_op_sql to_state op)) (me_execute env))"

definition m2m_op_backwards :: "'w migration_env \<Rightarrow> m2m_op \<Rightarrow> string \<Rightarrow> ('w, unit) py" where
  "m2m_op_backwards env op app_label =
     (if \<not> me_allow_app env (me_alias env) app_label then py_ret ()
      else me_execute env (build_m2m_drop_sql (mo_m2m_table op)))"

definition m2m_op_describe :: "m2m_op \<Rightarrow> string" where
  "m2m_op_describe op = ''Add M2M RLS policy to '' @ mo_m2m_table op"

definition m2m_op_deconstruct :: "m2m_op \<Rightarrow> kwargs" where
  "m2m_op_deconstruct op =
     [(''m2m_table'', KStr (mo_m2m_table op)), (''from_model'', KStr (mo_from_model op)),
      (''to_model'', KStr (mo_to_model op)), (''from_fk'', KStr (mo_from_fk op)), (''to_fk'', KStr (mo_to_fk op))] @
     tenant_fk_kwarg ''from_tenant_fk'' (mo_from_tenant_fk op) @
     tenant_fk_kwarg ''to_tenant_fk'' (mo_to_tenant_fk op) @
     unless_default ''guc_tenant_var'' (mo_guc_tenant_var op) ''rls.current_tenant'' @
     unless_default ''guc_admin_var'' (mo_guc_admin_var op) ''rls.is_admin'' @
     unless_default ''tenant_pk_type'' (mo_tenant_pk_type op) ''int''"

definition m2m_op_construct :: "kwargs \<Rightarrow> m2m_op checked" where
  "m2m_op_construct kw =
     ck_bind (kw_str kw ''m2m_table'' None) (\<lambda>m2m_table.
     ck_bind (kw_str kw ''from_model'' None) (\<lambda>from_model.
     ck_bind (kw_str kw ''to_model'' None) (\<lambda>to_model.
     ck_bind (kw_str kw ''from_fk'' None) (\<lambda>from_fk.
     ck_bind (kw_str kw ''to_fk'' None) (\<lambda>to_fk.
     ck_bind (kw_tenant_fk kw ''from_tenant_fk'') (\<lambda>from_tenant_fk.
     ck_bind (kw_tenant_fk kw ''to_tenant_fk'') (\<lambda>to_tenant_fk.
     ck_bind (kw_str kw ''guc_tenant_var'' (Some ''rls.current_tenant'')) (\<lambda>guc_tenant_var.
     ck_bind (kw_str kw ''guc_admin_var'' (Some ''rls.is_admin'')) (\<lambda>guc_admin_var.
     ck_bind (kw_str kw ''tenant_pk_type'' (Some ''int'')) (\<lambda>tenant_pk_type.
       m2m_op_init \<lparr>mo_m2m_table = m2m_table, mo_from_model = from_model, mo_to_model = to_model,
         mo_from_fk = from_fk, mo_to_fk = to_fk, mo_from_tenant_fk = from_tenant_fk,
         mo_to_tenant_fk = to_tenant_fk, mo_guc_tenant_var = guc_tenant_var,
         mo_guc_admin_var = guc_admin_var, mo_tenant_pk_type = tenant_pk_type\<rparr>))))))))))"

subsection \<open>AddRLSPolicy\<close>

record rls_op =
  ro_model_name :: string
  ro_field :: string
  ro_app_label :: "string option"
  ro_tenant_pk_type :: "string option"
  ro_guc_tenant_var :: "string option"
  ro_guc_admin_var :: "string option"
  ro_extra_bypass_flags :: "string list"
  ro_extra_predicates :: "predicate list"

text \<open>A check of an argument that was given.\<close>

definition if_given :: "('a \<Rightarrow> unit checked) \<Rightarrow> 'a option \<Rightarrow> unit checked" where
  "if_given validate x = (case x of None \<Rightarrow> Inr () | Some v \<Rightarrow> validate v)"

definition rls_op_init ::
  "string \<Rightarrow> string \<Rightarrow> string option \<Rightarrow> string option \<Rightarrow> string option \<Rightarrow> string option \<Rightarrow>
     string list option \<Rightarrow> predicate_arg list option \<Rightarrow> rls_op checked" where
  "rls_op_init model_name field app_label tenant_pk_type guc_tenant_var guc_admin_var extra_bypass_flags extra_predicates =
     (let flags = (case extra_bypass_flags of None \<Rightarrow> [] | Some fs \<Rightarrow> fs)
      in ck_bind (validate_field_name model_name) (\<lambda>_.
         ck_bind (validate_field_name field) (\<lambda>_.
         ck_bind (if_given validate_field_name app_label) (\<lambda>_.
         ck_bind (if_given validate_pk_type tenant_pk_type) (\<lambda>_.
         ck_bind (if_given validate_guc_name_for_ddl guc_tenant_var) (\<lambda>_.
         ck_bind (if_given validate_guc_name_for_ddl guc_admin_var) (\<lambda>_.
         ck_bind (check_all validate_guc_name_for_ddl flags) (\<lambda>_.
         ck_bind (validated_predicates extra_predicates) (\<lambda>predicates.
           Inr \<lparr>ro_model_name = model_name, ro_field = field, ro_app_label = app_label,
             ro_tenant_pk_type = tenant_pk_type, ro_guc_tenant_var = guc_tenant_var,
             ro_guc_admin_var = guc_admin_var, ro_extra_bypass_flags = flags,
             ro_extra_predicates = predicates\<rparr>)))))))))"

text \<open>\<^verbatim>\<open>self.x or default\<close>: \<^verbatim>\<open>None\<close> and the empty text give way to the default.\<close>

definition given_or :: "string option \<Rightarrow> string \<Rightarrow> string" where
  "given_or x dflt = (case x of None \<Rightarrow> dflt | Some v \<Rightarrow> if v = [] then dflt else v)"

definition op_model_of :: "rls_op \<Rightarrow> string \<Rightarrow> project_state \<Rightarrow> op_model checked" where
  "op_model_of op app_label state =
     (case state (given_or (ro_app_label op) app_label) (ro_model_name op) of
        None \<Rightarrow> Inl ValueError
      | Some model \<Rightarrow> if om_proxy model then Inl ValueError else Inr model)"

definition applies_to :: "'w migration_env \<Rightarrow> op_model \<Rightarrow> bool" where
  "applies_to env model \<longleftrightarrow>
     me_allow_model env (me_alias env) model \<and> first_policy (om_constraints model) = None"

definition op_table :: "op_model \<Rightarrow> string checked" where
  "op_table model =
     (if \<exists>c \<in> set unsafe_identifier_chars. c \<in> set (m_table model) then Inl ValueError else Inr (m_table model))"

definition check_target :: "op_cfg \<Rightarrow> op_model \<Rightarrow> string \<Rightarrow> unit checked" where
  "check_target cfg model field_name =
     check (map ascii_lower (om_target model field_name) = map ascii_lower (oc_tenant_model cfg)) ValueError"

definition op_column :: "op_cfg \<Rightarrow> rls_op \<Rightarrow> op_model \<Rightarrow> string checked" where
  "op_column cfg op model =
     ck_bind (foreign_key (model_meta.truncate model) (ro_field op)) (\<lambda>fk.
     ck_bind (check_target cfg model (ro_field op)) (\<lambda>_.
     ck_bind (validate_field_name (fk_column fk)) (\<lambda>_.
       Inr (if fk_column fk = ro_field op @ ''_id'' \<and> fk_column fk = map ascii_lower (fk_column fk)
            then fk_column fk else dq (fk_column fk)))))"

definition policy_options :: "op_cfg \<Rightarrow> rls_op \<Rightarrow> (string \<times> string \<times> string) checked" where
  "policy_options cfg op =
     (let guc_tenant_var = given_or (ro_guc_tenant_var op) (oc_guc_tenant cfg);
          guc_admin_var = given_or (ro_guc_admin_var op) (oc_guc_admin cfg);
          tenant_pk_type = given_or (ro_tenant_pk_type op) (oc_pk_type cfg)
      in ck_bind (validate_guc_name_for_ddl guc_tenant_var) (\<lambda>_.
         ck_bind (validate_guc_name_for_ddl guc_admin_var) (\<lambda>_.
         ck_bind (validate_pk_type tenant_pk_type) (\<lambda>_.
           Inr (guc_tenant_var, guc_admin_var, tenant_pk_type)))))"

definition rls_op_create_sql :: "op_cfg \<Rightarrow> rls_op \<Rightarrow> op_model \<Rightarrow> string checked" where
  "rls_op_create_sql cfg op model =
     ck_bind (policy_options cfg op) (\<lambda>(guc_tenant_var, guc_admin_var, tenant_pk_type).
     ck_bind (op_table model) (\<lambda>table.
     ck_bind (op_column cfg op model) (\<lambda>col.
       let sql = build_policy_create_sql table col guc_tenant_var guc_admin_var tenant_pk_type (ro_extra_bypass_flags op)
       in if ro_extra_predicates op = [] then Inr sql
          else ck_bind (predicates_sql (oc_registry cfg) (model_meta.truncate model)
                         (tenant_value_sql guc_tenant_var tenant_pk_type) (ro_extra_predicates op)) (\<lambda>predicates.
               ck_bind (build_sharing_policy_create_sql table predicates) (\<lambda>sharing. Inr (sql @ sharing))))))"

definition rls_op_drop_sql :: "rls_op \<Rightarrow> op_model \<Rightarrow> string checked" where
  "rls_op_drop_sql op model =
     ck_bind (op_table model) (\<lambda>table.
       let sql = build_policy_drop_sql table
       in Inr (if ro_extra_predicates op = [] then sql else build_sharing_policy_drop_sql table @ sql))"

definition rls_op_forwards ::
  "'w migration_env \<Rightarrow> op_cfg \<Rightarrow> rls_op \<Rightarrow> string \<Rightarrow> project_state \<Rightarrow> ('w, unit) py" where
  "rls_op_forwards env cfg op app_label to_state =
     py_bind (py_lift (op_model_of op app_label to_state)) (\<lambda>model.
       if \<not> applies_to env model then py_ret ()
       else py_bind (py_lift (rls_op_create_sql cfg op model)) (me_execute env))"

definition rls_op_backwards :: "'w migration_env \<Rightarrow> rls_op \<Rightarrow> string \<Rightarrow> project_state \<Rightarrow> ('w, unit) py" where
  "rls_op_backwards env op app_label to_state =
     py_bind (py_lift (op_model_of op app_label to_state)) (\<lambda>model.
       if \<not> applies_to env model then py_ret ()
       else py_bind (py_lift (rls_op_drop_sql op model)) (me_execute env))"

definition rls_op_describe :: "rls_op \<Rightarrow> string" where
  "rls_op_describe op =
     ''Add RLS policy to '' @
     (case ro_app_label op of None \<Rightarrow> ro_model_name op
      | Some l \<Rightarrow> if l = [] then ro_model_name op else l @ ''.'' @ ro_model_name op)"

definition unless_none :: "string \<Rightarrow> string option \<Rightarrow> kwargs" where
  "unless_none key value = (case value of None \<Rightarrow> [] | Some v \<Rightarrow> [(key, KStr v)])"

definition rls_op_deconstruct :: "rls_op \<Rightarrow> kwargs" where
  "rls_op_deconstruct op =
     [(''model_name'', KStr (ro_model_name op))] @
     unless_default ''field'' (ro_field op) ''tenant'' @
     unless_none ''app_label'' (ro_app_label op) @
     unless_none ''tenant_pk_type'' (ro_tenant_pk_type op) @
     unless_none ''guc_tenant_var'' (ro_guc_tenant_var op) @
     unless_none ''guc_admin_var'' (ro_guc_admin_var op) @
     (if ro_extra_bypass_flags op \<noteq> [] then [(''extra_bypass_flags'', KFlags (ro_extra_bypass_flags op))] else []) @
     (if ro_extra_predicates op \<noteq> [] then [(''extra_predicates'', KPredicates (ro_extra_predicates op))] else [])"

definition kw_opt :: "kwargs \<Rightarrow> string \<Rightarrow> string option checked" where
  "kw_opt kw key =
     (case map_of kw key of
        None \<Rightarrow> Inr None
      | Some KNone \<Rightarrow> Inr None
      | Some (KStr s) \<Rightarrow> Inr (Some s)
      | Some _ \<Rightarrow> Inl TypeError)"

definition rls_op_construct :: "kwargs \<Rightarrow> rls_op checked" where
  "rls_op_construct kw =
     ck_bind (kw_str kw ''model_name'' None) (\<lambda>model_name.
     ck_bind (kw_str kw ''field'' (Some ''tenant'')) (\<lambda>field.
     ck_bind (kw_opt kw ''app_label'') (\<lambda>app_label.
     ck_bind (kw_opt kw ''tenant_pk_type'') (\<lambda>tenant_pk_type.
     ck_bind (kw_opt kw ''guc_tenant_var'') (\<lambda>guc_tenant_var.
     ck_bind (kw_opt kw ''guc_admin_var'') (\<lambda>guc_admin_var.
       rls_op_init model_name field app_label tenant_pk_type guc_tenant_var guc_admin_var
         (case map_of kw ''extra_bypass_flags'' of Some (KFlags fs) \<Rightarrow> Some fs | _ \<Rightarrow> None)
         (case map_of kw ''extra_predicates'' of Some (KPredicates ps) \<Rightarrow> Some (map APredicate ps) | _ \<Rightarrow> None)))))))"

subsection \<open>Migrations write back what was built\<close>

definition m2m_op_built :: "m2m_op \<Rightarrow> bool" where
  "m2m_op_built op \<longleftrightarrow> m2m_op_init op = Inr op"

lemma m2m_op_init_Inr: "m2m_op_init op = Inr op' \<longleftrightarrow> op' = op \<and> m2m_op_built op"
  by (auto simp: m2m_op_built_def m2m_op_init_def)

text \<open>What the keywords of a deconstructed operation hold, one by one.\<close>

lemma map_of_optional_kwargs [simp]:
  "map_of (unless_none k v) k' = (if k' = k then map_option KStr v else None)"
  "map_of (unless_default k s d) k' = (if k' = k \<and> s \<noteq> d then Some (KStr s) else None)"
  by (auto simp: unless_none_def unless_default_def split: option.split)

lemma map_of_tenant_fk_kwarg [simp]:
  "map_of (tenant_fk_kwarg k v) k' =
     (if k' = k \<and> v \<noteq> Some ''tenant'' then Some (case v of None \<Rightarrow> KNone | Some s \<Rightarrow> KStr s) else None)"
  by (simp add: tenant_fk_kwarg_def)

lemma m2m_op_kwargs:
  "kw_str (m2m_op_deconstruct op) ''m2m_table'' None = Inr (mo_m2m_table op)"
  "kw_str (m2m_op_deconstruct op) ''from_model'' None = Inr (mo_from_model op)"
  "kw_str (m2m_op_deconstruct op) ''to_model'' None = Inr (mo_to_model op)"
  "kw_str (m2m_op_deconstruct op) ''from_fk'' None = Inr (mo_from_fk op)"
  "kw_str (m2m_op_deconstruct op) ''to_fk'' None = Inr (mo_to_fk op)"
  "kw_tenant_fk (m2m_op_deconstruct op) ''from_tenant_fk'' = Inr (mo_from_tenant_fk op)"
  "kw_tenant_fk (m2m_op_deconstruct op) ''to_tenant_fk'' = Inr (mo_to_tenant_fk op)"
  "kw_str (m2m_op_deconstruct op) ''guc_tenant_var'' (Some ''rls.current_tenant'') = Inr (mo_guc_tenant_var op)"
  "kw_str (m2m_op_deconstruct op) ''guc_admin_var'' (Some ''rls.is_admin'') = Inr (mo_guc_admin_var op)"
  "kw_str (m2m_op_deconstruct op) ''tenant_pk_type'' (Some ''int'') = Inr (mo_tenant_pk_type op)"
  by (auto simp: m2m_op_deconstruct_def kw_str_def kw_tenant_fk_def map_add_def split: option.split)

lemma m2m_op_reconstruct: "m2m_op_built op \<Longrightarrow> m2m_op_construct (m2m_op_deconstruct op) = Inr op"
  by (cases op) (simp add: m2m_op_construct_def m2m_op_kwargs m2m_op_init_Inr)

lemma m2m_op_construct_built: "m2m_op_construct kw = Inr op \<Longrightarrow> m2m_op_built op"
  by (auto simp: m2m_op_construct_def m2m_op_init_Inr)

interpretation m2m_op_migration: deconstructible m2m_op_construct m2m_op_deconstruct m2m_op_built
  by unfold_locales (simp_all add: m2m_op_construct_built m2m_op_reconstruct)

definition rls_op_built :: "rls_op \<Rightarrow> bool" where
  "rls_op_built op \<longleftrightarrow>
     field_name_ok (ro_model_name op) \<and> field_name_ok (ro_field op) \<and> pred_option field_name_ok (ro_app_label op) \<and>
     pred_option (\<lambda>t. t \<in> set allowed_pk_types) (ro_tenant_pk_type op) \<and> pred_option guc_name_ok (ro_guc_tenant_var op) \<and>
     pred_option guc_name_ok (ro_guc_admin_var op) \<and> list_all guc_name_ok (ro_extra_bypass_flags op)"

lemma rls_op_init_Inr:
  "rls_op_init name field app ty gt ga flags preds = Inr op \<longleftrightarrow>
     (\<exists>ps. validated_predicates preds = Inr ps \<and>
        op = \<lparr>ro_model_name = name, ro_field = field, ro_app_label = app, ro_tenant_pk_type = ty,
              ro_guc_tenant_var = gt, ro_guc_admin_var = ga,
              ro_extra_bypass_flags = (case flags of None \<Rightarrow> [] | Some fs \<Rightarrow> fs), ro_extra_predicates = ps\<rparr> \<and>
        rls_op_built op)"
  by (auto simp: rls_op_init_def rls_op_built_def Let_def list_all_iff if_given_def split: option.splits)

lemma rls_op_kwargs:
  "kw_str (rls_op_deconstruct op) ''model_name'' None = Inr (ro_model_name op)"
  "kw_str (rls_op_deconstruct op) ''field'' (Some ''tenant'') = Inr (ro_field op)"
  "kw_opt (rls_op_deconstruct op) ''app_label'' = Inr (ro_app_label op)"
  "kw_opt (rls_op_deconstruct op) ''tenant_pk_type'' = Inr (ro_tenant_pk_type op)"
  "kw_opt (rls_op_deconstruct op) ''guc_tenant_var'' = Inr (ro_guc_tenant_var op)"
  "kw_opt (rls_op_deconstruct op) ''guc_admin_var'' = Inr (ro_guc_admin_var op)"
  "map_of (rls_op_deconstruct op) ''extra_bypass_flags'' =
     (if ro_extra_bypass_flags op = [] then None else Some (KFlags (ro_extra_bypass_flags op)))"
  "map_of (rls_op_deconstruct op) ''extra_predicates'' =
     (if ro_extra_predicates op = [] then None else Some (KPredicates (ro_extra_predicates op)))"
  by (auto simp: rls_op_deconstruct_def kw_str_def kw_opt_def map_add_def split: option.split)

lemma rls_op_reconstruct: "rls_op_built op \<Longrightarrow> rls_op_construct (rls_op_deconstruct op) = Inr op"
  by (cases op) (simp add: rls_op_construct_def rls_op_kwargs rls_op_init_Inr)

lemma rls_op_construct_built: "rls_op_construct kw = Inr op \<Longrightarrow> rls_op_built op"
  by (auto simp: rls_op_construct_def rls_op_init_Inr)

interpretation rls_op_migration: deconstructible rls_op_construct rls_op_deconstruct rls_op_built
  by unfold_locales (simp_all add: rls_op_construct_built rls_op_reconstruct)

subsection \<open>The policy is the constraint's\<close>

lemma py_lift_simps [simp]:
  "py_bind (py_lift (Inr x)) f = f x" "py_bind (py_lift (Inl e)) f = py_raise e"
  by (simp_all add: py_lift_def)

text \<open>The constraint a model would carry in place of the operation, with the options of the operation.\<close>

definition constraint_of :: "rls_op \<Rightarrow> string \<times> string \<times> string \<Rightarrow> rls_constraint" where
  "constraint_of op options =
     (case options of (guc_tenant_var, guc_admin_var, tenant_pk_type) \<Rightarrow>
        \<lparr>rc_name = [], rc_field = ro_field op, rc_guc_tenant_var = guc_tenant_var, rc_guc_admin_var = guc_admin_var,
         rc_tenant_pk_type = tenant_pk_type, rc_extra_bypass_flags = ro_extra_bypass_flags op,
         rc_extra_predicates = ro_extra_predicates op\<rparr>)"

definition executes :: "'w migration_env \<Rightarrow> string checked \<Rightarrow> ('w, unit) py" where
  "executes env sql = (case sql of Inl e \<Rightarrow> py_raise e | Inr s \<Rightarrow> me_execute env s)"

lemma executes_lift: "py_bind (py_lift r) (me_execute env) = executes env r"
  by (cases r) (simp_all add: executes_def)

text \<open>The tenant foreign key of the model has Django's own column name, and the table a name the SQL can hold.\<close>

definition plain_model :: "op_cfg \<Rightarrow> rls_op \<Rightarrow> op_model \<Rightarrow> bool" where
  "plain_model cfg op model \<longleftrightarrow>
     (\<exists>fk. foreign_key (model_meta.truncate model) (ro_field op) = Inr fk \<and> fk_column fk = ro_field op @ ''_id'' \<and>
        field_name_ok (fk_column fk) \<and> fk_column fk = map ascii_lower (fk_column fk)) \<and>
     map ascii_lower (om_target model (ro_field op)) = map ascii_lower (oc_tenant_model cfg) \<and>
     \<not> (\<exists>c \<in> set unsafe_identifier_chars. c \<in> set (m_table model))"

lemma table_of_meta [simp]: "m_table (model_meta.truncate model) = m_table model"
  by (simp add: model_meta.truncate_def)


definition m2m_constraint_of :: "m2m_op \<Rightarrow> m2m_constraint" where
  "m2m_constraint_of op =
     \<lparr>mc_name = [], mc_from_model = mo_from_model op, mc_to_model = mo_to_model op, mc_from_fk = mo_from_fk op,
      mc_to_fk = mo_to_fk op, mc_from_tenant_fk = mo_from_tenant_fk op, mc_to_tenant_fk = mo_to_tenant_fk op,
      mc_guc_tenant_var = mo_guc_tenant_var op, mc_guc_admin_var = mo_guc_admin_var op,
      mc_tenant_pk_type = mo_tenant_pk_type op\<rparr>"

text \<open>
  \<^verbatim>\<open>AddM2MRLSPolicy\<close> likewise, where the migration state and the registry have the same tables.
\<close>

theorem add_m2m_policy_is_the_constraints:
  assumes "op_resolve_table to_state (mo_from_model op) = resolve_table apps (mo_from_model op)"
    and "op_resolve_table to_state (mo_to_model op) = resolve_table apps (mo_to_model op)"
    and through: "m_table through = mo_m2m_table op" and allowed: "me_allow_app env (me_alias env) app_label"
  shows "m2m_op_forwards env op app_label to_state =
           executes env (ck_bind (m2m_create_sql apps (m2m_constraint_of op) through) (render apps)) \<and>
         m2m_op_backwards env op app_label = executes env (render apps (m2m_remove_sql (m2m_constraint_of op) through))"
  using assms
  by (simp add: m2m_op_forwards_def m2m_op_backwards_def executes_lift m2m_op_sql_def m2m_create_sql_def
      build_subquery_clause_def m2m_constraint_of_def m2m_remove_sql_def executes_def Let_def)
    (auto simp: ck_bind_def split: sum.split)

text \<open>Unlike \<^verbatim>\<open>RLSM2MConstraint\<close>, the operation accepts two unprotected sides: its policy then has no condition at all.\<close>

lemma m2m_op_without_sides:
  "m2m_op_built (op\<lparr>mo_from_tenant_fk := Some ''tenant'', mo_to_tenant_fk := Some ''tenant''\<rparr>) \<Longrightarrow>
     m2m_op_init (op\<lparr>mo_from_tenant_fk := None, mo_to_tenant_fk := None\<rparr>) =
       Inr (op\<lparr>mo_from_tenant_fk := None, mo_to_tenant_fk := None\<rparr>)"
  "m2m_init (c\<lparr>mc_from_tenant_fk := None, mc_to_tenant_fk := None\<rparr>) \<noteq> Inr (c\<lparr>mc_from_tenant_fk := None, mc_to_tenant_fk := None\<rparr>)"
  "build_m2m_conditions from_fk from_table None to_fk to_table None gt ty = []"
  by (auto simp: m2m_op_built_def m2m_op_init_def validate_tenant_fk_def m2m_init_def build_m2m_conditions_def)

text \<open>
  A migration keeps the operations: built from any keyword arguments that pass the checks, the
  \<^verbatim>\<open>deconstruct()\<close> of an \<^verbatim>\<open>AddRLSPolicy\<close> builds the same operation again, so that an option left out
  keeps reading the settings when the migration runs.
\<close>

theorem rls_op_roundtrip:
  assumes "rls_op_construct kw = Inr op"
  shows "rls_op_construct (rls_op_deconstruct op) = Inr op"
  by (rule rls_op_migration.roundtrip [OF assms])

subsection \<open>A migration of one model\<close>

definition demo_op :: rls_op where
  "demo_op = \<lparr>ro_model_name = ''Book'', ro_field = ''tenant'', ro_app_label = Some ''library'', ro_tenant_pk_type = None,
     ro_guc_tenant_var = None, ro_guc_admin_var = None, ro_extra_bypass_flags = [], ro_extra_predicates = []\<rparr>"

definition demo_book :: op_model where
  "demo_book = \<lparr>m_label = ''library.Book'', m_label_lower = ''library.book'', m_table = ''library_book'',
     m_fields = [(''tenant'', ForeignKey \<lparr>fk_column = ''tenant_id'', fk_related = Some ''app.tenant'', fk_target_column = ''id''\<rparr>)],
     om_proxy = False, om_constraints = [], om_target = (\<lambda>_. ''app.tenant'')\<rparr>"

definition demo_op_cfg :: op_cfg where
  "demo_op_cfg = \<lparr>oc_guc_tenant = ''rls.current_tenant'', oc_guc_admin = ''rls.is_admin'', oc_pk_type = ''int'',
     oc_tenant_model = ''app.Tenant'', oc_registry = (\<lambda>_. None)\<rparr>"

definition demo_migration_env :: "string list migration_env" where
  "demo_migration_env = \<lparr>me_alias = ''default'', me_allow_app = (\<lambda>_ _. True), me_allow_model = (\<lambda>_ _. True),
     me_execute = (\<lambda>sql. py_modify (\<lambda>log. log @ [sql]))\<rparr>"

lemma demo_options: "policy_options demo_op_cfg demo_op = Inr (''rls.current_tenant'', ''rls.is_admin'', ''int'')"
  by (simp add: policy_options_def demo_op_cfg_def demo_op_def given_or_def allowed_pk_types_def guc_char_def char_class_defs)

lemma eq_char_of: "c = char_of (n :: nat) \<longleftrightarrow> take_bit 8 n = of_char c"
  by (metis char_of_eq_iff)

lemma demo_names_plain: "plain_model demo_op_cfg demo_op demo_book"
  by (simp add: plain_model_def demo_op_cfg_def demo_op_def demo_book_def model_meta.truncate_def foreign_key_def
      unsafe_identifier_chars_def char_class_defs ascii_lower_def eq_char_of)


lemma add_m2m_policy_is_the_constraints_witness:
  "m2m_op_backwards demo_migration_env
     \<lparr>mo_m2m_table = ''book_tags'', mo_from_model = ''library.Book'', mo_to_model = ''library.Tag'', mo_from_fk = ''book_id'',
      mo_to_fk = ''tag_id'', mo_from_tenant_fk = Some ''tenant'', mo_to_tenant_fk = None, mo_guc_tenant_var = ''rls.current_tenant'',
      mo_guc_admin_var = ''rls.is_admin'', mo_tenant_pk_type = ''int''\<rparr> ''core'' [] =
   (Inr (), [build_m2m_drop_sql ''book_tags''])"
  using add_m2m_policy_is_the_constraints [where to_state = "\<lambda>_ _. None" and apps = "\<lambda>_. None"
      and through = "(model_meta.truncate demo_book)\<lparr>m_table := ''book_tags''\<rparr>" and env = demo_migration_env and app_label = "''core''"
      and op = "\<lparr>mo_m2m_table = ''book_tags'', mo_from_model = ''library.Book'', mo_to_model = ''library.Tag'', mo_from_fk = ''book_id'',
      mo_to_fk = ''tag_id'', mo_from_tenant_fk = Some ''tenant'', mo_to_tenant_fk = None, mo_guc_tenant_var = ''rls.current_tenant'',
      mo_guc_admin_var = ''rls.is_admin'', mo_tenant_pk_type = ''int''\<rparr>"]
  by (simp add: op_resolve_table_def resolve_table_def demo_migration_env_def executes_def m2m_remove_sql_def py_modify_def)

lemma rls_op_roundtrip_witness:
  "rls_op_construct (rls_op_deconstruct demo_op) = Inr demo_op"
proof -
  have "rls_op_construct [(''model_name'', KStr ''Book''), (''app_label'', KStr ''library'')] = Inr demo_op"
    by (simp add: rls_op_construct_def kw_str_def kw_opt_def rls_op_init_Inr demo_op_def rls_op_built_def char_class_defs)
  then show ?thesis by (rule rls_op_roundtrip)
qed

end
