(* ===== verification/Pool_Hooks.thy ===== *)
theory Pool_Hooks
  imports Tenant_Models
begin

text \<open>
  \<^verbatim>\<open>pool.py\<close>: the variables every policy of the library reads, the one statement that clears them, and its two
  users: the pool's \<^verbatim>\<open>reset\<close> callback and the clear of a new connection.  The cache of the declared names is left
  out: it holds what the function returns.
\<close>

subsection \<open>The variables the policies read\<close>

text \<open>\<^verbatim>\<open>tuple(dict.fromkeys(xs))\<close>: without duplicates, the first of each kept.\<close>

definition from_keys :: "'a list \<Rightarrow> 'a list" where
  "from_keys xs = rev (remdups (rev xs))"

definition guc_part_char :: "char \<Rightarrow> bool" where
  "guc_part_char c \<longleftrightarrow> ident_char c \<or> c = CHR ''$''"

text \<open>The pattern \<^verbatim>\<open>_CUSTOM_GUC_NAME_RE\<close>, matched against the whole name: identifiers joined by dots, at least two.\<close>

fun guc_part :: "string \<Rightarrow> bool" where
  "guc_part [] = False"
| "guc_part (c # cs) = (ident_start c \<and> list_all guc_part_char cs)"

fun dotted_parts :: "string \<Rightarrow> string \<Rightarrow> string list" where
  "dotted_parts part [] = [part]"
| "dotted_parts part (c # cs) = (if c = CHR ''.'' then part # dotted_parts [] cs else dotted_parts (part @ [c]) cs)"

definition custom_guc_name :: "string \<Rightarrow> bool" where
  "custom_guc_name name \<longleftrightarrow> length (dotted_parts [] name) > 1 \<and> list_all guc_part (dotted_parts [] name)"

fun constraint_gucs :: "dj_constraint \<Rightarrow> string list" where
  "constraint_gucs (TenantPolicy c) = rc_guc_tenant_var c # rc_guc_admin_var c # rc_extra_bypass_flags c"
| "constraint_gucs (JoinPolicy c) = [mc_guc_tenant_var c, mc_guc_admin_var c]"
| "constraint_gucs (OtherConstraint _) = []"

definition declared_policy_guc_names :: "dj_model list \<Rightarrow> string list" where
  "declared_policy_guc_names models =
     from_keys (concat (map (\<lambda>m. concat (map constraint_gucs (dm_constraints m))) models))"

definition policy_guc_names :: "aff_cfg \<Rightarrow> dj_model list \<Rightarrow> string list" where
  "policy_guc_names cfg models =
     filter custom_guc_name (from_keys (guc_is_admin cfg # guc_current_tenant cfg # declared_policy_guc_names models))"

definition build_clear_gucs_sql :: "nat \<Rightarrow> string" where
  "build_clear_gucs_sql count = ''SELECT '' @ py_join '', '' (replicate count (''set_config(%s, '' @ [CHR 0x27, CHR 0x27] @ '', false)''))"

subsection \<open>Pools\<close>

text \<open>The value of \<^verbatim>\<open>OPTIONS["pool"]\<close>: absent or falsy, \<^verbatim>\<open>True\<close>, or options.\<close>

datatype 'o pool_setting = NotPooled | PoolDefaults | PoolWith 'o

definition pool_options :: "'o list pool_setting \<Rightarrow> 'o list option" where
  "pool_options p = (case p of NotPooled \<Rightarrow> None | PoolDefaults \<Rightarrow> Some [] | PoolWith os \<Rightarrow> if os = [] then None else Some os)"

text \<open>
  What the handlers read besides the settings: the pool options of each alias and the installed models; and the
  \<^verbatim>\<open>connection_created\<close> handlers that run if a write has to open a connection once more.
\<close>

record ('d, 'o) signal_env =
  se_driver :: "'d driver"
  se_cfg :: aff_cfg
  se_pool :: "string \<Rightarrow> 'o list pool_setting"
  se_models :: "dj_model list"
  se_created :: "string \<Rightarrow> ('d aff, unit) py"

definition guc_names_of :: "('d, 'o) signal_env \<Rightarrow> string list" where
  "guc_names_of env = policy_guc_names (se_cfg env) (se_models env)"

definition is_pooled :: "('d, 'o) signal_env \<Rightarrow> string \<Rightarrow> bool" where
  "is_pooled env alias \<longleftrightarrow> pool_options (se_pool env alias) \<noteq> None"

text \<open>
  The pool's \<^verbatim>\<open>reset\<close> callback, on a raw connection: \<open>execute\<close> and \<open>commit\<close> are its methods.
\<close>

definition reset_rls_gucs ::
  "string list \<Rightarrow> bool \<Rightarrow> (string \<Rightarrow> string list \<Rightarrow> ('d, unit) py) \<Rightarrow> ('d, unit) py \<Rightarrow> ('d, unit) py" where
  "reset_rls_gucs names autocommit execute commit =
     (if names = [] then py_ret ()
      else py_seq (execute (build_clear_gucs_sql (length names)) names)
             (if \<not> autocommit then commit else py_ret ()))"

definition clear_policy_gucs :: "('d, 'o) signal_env \<Rightarrow> string \<Rightarrow> ('d aff, unit) py" where
  "clear_policy_gucs env alias =
     (let names = guc_names_of env
      in if names = [] then py_ret ()
         else py_seq (ensure_connection (se_driver env) (se_created env) alias)
             (py_seq (guarded_write (se_driver env) (se_cfg env) alias (build_clear_gucs_sql (length names)) names)
               (\<lambda>w. if \<not> (case a_conns w alias of None \<Rightarrow> True | Some cn \<Rightarrow> cn_autocommit cn)
                    then send_transaction_control (se_driver env) alias ''COMMIT'' w else (Inr (), w))))"

subsection \<open>Which variables\<close>

lemma from_keys_set [simp]: "set (from_keys xs) = set xs" "distinct (from_keys xs)"
  by (simp_all add: from_keys_def)

lemma dotted_parts_nonempty [simp]: "dotted_parts p s \<noteq> []"
  by (induction p s rule: dotted_parts.induct) simp_all

lemma dotted_parts_join: "py_join ''.'' (dotted_parts p s) = p @ s"
proof (induction p s rule: dotted_parts.induct)
  case (2 p c cs)
  then show ?case
    by (cases "dotted_parts [] cs") (auto simp: neq_Nil_conv)
qed simp

lemma dotted_parts_of_join:
  "CHR ''.'' \<notin> set q \<Longrightarrow> dotted_parts p (q @ CHR ''.'' # s) = (p @ q) # dotted_parts [] s"
  "CHR ''.'' \<notin> set q \<Longrightarrow> dotted_parts p q = [p @ q]"
  by (induction q arbitrary: p) auto

lemma guc_part_no_dot: "guc_part p \<Longrightarrow> CHR ''.'' \<notin> set p"
  by (cases p) (auto simp: list_all_iff guc_part_char_def ident_char_def ident_start_def is_alpha_def is_digit_def)

lemma dotted_parts_parts: "parts \<noteq> [] \<Longrightarrow> list_all guc_part parts \<Longrightarrow> dotted_parts [] (py_join ''.'' parts) = parts"
proof (induction parts)
  case (Cons p ps)
  then show ?case by (cases ps) (simp_all add: dotted_parts_of_join guc_part_no_dot)
qed simp

text \<open>The names the filter keeps are those the regular expression describes: two identifiers or more, joined by dots.\<close>

lemma custom_guc_name_iff:
  "custom_guc_name name \<longleftrightarrow> (\<exists>parts. length parts > 1 \<and> list_all guc_part parts \<and> name = py_join ''.'' parts)"
proof
  assume "custom_guc_name name"
  then show "\<exists>parts. length parts > 1 \<and> list_all guc_part parts \<and> name = py_join ''.'' parts"
    by (intro exI [of _ "dotted_parts [] name"]) (simp add: custom_guc_name_def dotted_parts_join)
next
  assume "\<exists>parts. length parts > 1 \<and> list_all guc_part parts \<and> name = py_join ''.'' parts"
  then obtain parts where "length parts > 1" "list_all guc_part parts" "name = py_join ''.'' parts" by blast
  moreover from this have "dotted_parts [] name = parts" using dotted_parts_parts [of parts] by fastforce
  ultimately show "custom_guc_name name" by (simp add: custom_guc_name_def)
qed

text \<open>
  The clear covers every variable the policies on the installed models read, and nothing else: a name is in the
  list exactly when it is a dotted name and is one of the two configured variables or is declared by an
  \<^verbatim>\<open>RLSConstraint\<close> (its bypass flags included) or an \<^verbatim>\<open>RLSM2MConstraint\<close> of some model; and no name is cleared twice.
\<close>

theorem cleared_variables_exact:
  "distinct (policy_guc_names cfg models) \<and>
   (n \<in> set (policy_guc_names cfg models) \<longleftrightarrow>
      (\<exists>parts. length parts > 1 \<and> list_all guc_part parts \<and> n = py_join ''.'' parts) \<and>
      (n = guc_is_admin cfg \<or> n = guc_current_tenant cfg \<or>
       (\<exists>m \<in> set models. \<exists>c \<in> set (dm_constraints m). n \<in> set (constraint_gucs c))))"
  unfolding custom_guc_name_iff [symmetric] by (auto simp: policy_guc_names_def declared_policy_guc_names_def)

subsection \<open>What the clear does\<close>

text \<open>
  The statement that clears a list of variables with both of the library's among them leaves the session with
  neither; outside autocommit it opens a transaction when none is open; \<^verbatim>\<open>commit()\<close> commits the open one.
\<close>

definition clear_laws :: "'d driver \<Rightarrow> aff_cfg \<Rightarrow> 's pg \<Rightarrow> (nat \<Rightarrow> 'd \<Rightarrow> 's) \<Rightarrow> bool" where
  "clear_laws dr cfg pg sess \<longleftrightarrow> pg_laws pg \<and>
     (\<forall>raw ac names d d'. {guc_is_admin cfg, guc_current_tenant cfg} \<subseteq> set names \<and>
        dr_execute dr raw ac (build_clear_gucs_sql (length names)) names d = (Inr (), d') \<longrightarrow>
        (\<exists>s. (if ac \<or> pg_open pg (sess raw d) then s = sess raw d else pg_step pg (sess raw d) PgBegin s) \<and>
           pg_step pg s (PgSet None False) (sess raw d'))) \<and>
     (\<forall>raw d d'. dr_send dr raw ''COMMIT'' d = (Inr (), d') \<longrightarrow>
        (if pg_open pg (sess raw d) then pg_step pg (sess raw d) PgCommit (sess raw d') else sess raw d' = sess raw d))"

lemma clear_law:
  assumes laws: "clear_laws dr cfg pg sess" and names: "{guc_is_admin cfg, guc_current_tenant cfg} \<subseteq> set names"
    and exec: "dr_execute dr raw ac (build_clear_gucs_sql (length names)) names d = (Inr (), d1)"
    and commit: "if ac then d2 = d1 else dr_send dr raw ''COMMIT'' d1 = (Inr (), d2)"
  shows "pg_seen pg (sess raw d2) = None \<and> (\<not> pg_open pg (sess raw d) \<longrightarrow> \<not> pg_open pg (sess raw d2))"
proof -
  have pg: "pg_laws pg" using laws by (simp add: clear_laws_def)
  obtain s where s: "if ac \<or> pg_open pg (sess raw d) then s = sess raw d else pg_step pg (sess raw d) PgBegin s"
    and set: "pg_step pg s (PgSet None False) (sess raw d1)"
    using laws names exec unfolding clear_laws_def by blast
  have seen: "pg_seen pg (sess raw d1) = None" "pg_commit pg (sess raw d1) = None"
    "pg_open pg (sess raw d1) \<longleftrightarrow> pg_open pg s"
    using pg_set [OF pg set] by (simp_all add: pg_same_frame_def)
  show ?thesis
  proof (cases ac)
    case True
    with commit s seen show ?thesis by simp
  next
    case False
    with commit have c: "if pg_open pg (sess raw d1) then pg_step pg (sess raw d1) PgCommit (sess raw d2) else sess raw d2 = sess raw d1"
      using laws unfolding clear_laws_def by simp
    then show ?thesis using seen pg_commits [OF pg, of "sess raw d1" "sess raw d2"]
      by (cases "pg_open pg (sess raw d1)") simp_all
  qed
qed

lemma guc_names_contain:
  "custom_guc_name (guc_is_admin cfg) \<Longrightarrow> custom_guc_name (guc_current_tenant cfg) \<Longrightarrow>
     {guc_is_admin cfg, guc_current_tenant cfg} \<subseteq> set (policy_guc_names cfg models)"
  by (simp add: policy_guc_names_def)

text \<open>
  A session the pool takes back holds no context: when the \<^verbatim>\<open>reset\<close> callback returns, the session sees neither
  variable, in autocommit or not, and is idle if it was; when it raises, the pool discards the session.
\<close>

theorem pool_reset_leaves_session_clean:
  assumes laws: "clear_laws dr cfg pg sess"
    and custom: "custom_guc_name (guc_is_admin cfg)" "custom_guc_name (guc_current_tenant cfg)"
    and run: "reset_rls_gucs (policy_guc_names cfg models) ac (dr_execute dr raw ac) (dr_send dr raw ''COMMIT'') d = (Inr (), d')"
  shows "pg_seen pg (sess raw d') = None \<and> (\<not> pg_open pg (sess raw d) \<longrightarrow> \<not> pg_open pg (sess raw d'))"
proof -
  let ?names = "policy_guc_names cfg models"
  note names = guc_names_contain [OF custom, of models]
  then have "?names \<noteq> []" by auto
  with run obtain d1 where "dr_execute dr raw ac (build_clear_gucs_sql (length ?names)) ?names d = (Inr (), d1)"
    "if ac then d' = d1 else dr_send dr raw ''COMMIT'' d1 = (Inr (), d')"
    by (auto simp: reset_rls_gucs_def py_ret_def py_seq_def py_bind_def split: if_splits prod.splits sum.splits)
  then show ?thesis by (rule clear_law [OF laws names])
qed

lemma plain_clear_sql: "plain_sql (build_clear_gucs_sql n)"
proof -
  let ?item = "''set_config(%s, '' @ [CHR 0x27, CHR 0x27] @ '', false)''"
  have item: "set ?item \<subseteq> {c. c \<noteq> CHR '';''}" by simp
  have "set (py_join '', '' (replicate n ?item)) \<subseteq> {c. c \<noteq> CHR '';''}"
  proof (rule set_py_join_bound)
    show "\<forall>x \<in> set (replicate n ?item). set x \<subseteq> {c. c \<noteq> CHR '';''}"
      using item by (metis in_set_replicate)
  qed simp
  then have "CHR '';'' \<notin> set (py_join '', '' (replicate n ?item))" by blast
  then show ?thesis unfolding build_clear_gucs_sql_def by (rule plain_select)
qed

lemma keeps_clear_policy [simp]: "keeps alias (clear_policy_gucs env alias)"
proof -
  have "keeps alias (\<lambda>w. if \<not> (case a_conns w alias of None \<Rightarrow> True | Some cn \<Rightarrow> cn_autocommit cn)
      then send_transaction_control (se_driver env) alias ''COMMIT'' w else (Inr (), w))"
    using keeps_send [of "alias" "se_driver env" "''COMMIT''"] by (simp add: keeps_def)
  then show ?thesis unfolding clear_policy_gucs_def Let_def by (auto intro!: keeps_seq)
qed

lemma clear_policy_clears:
  assumes laws: "clear_laws (se_driver env) (se_cfg env) pg sess"
    and custom: "custom_guc_name (guc_is_admin (se_cfg env))" "custom_guc_name (guc_current_tenant (se_cfg env))"
    and ok: "conn_ok alias raw ac w" and run: "clear_policy_gucs env alias w = (Inr (), w')"
  shows "pg_seen pg (sess raw (a_db w')) = None"
proof -
  let ?names = "guc_names_of env"
  have names: "{guc_is_admin (se_cfg env), guc_current_tenant (se_cfg env)} \<subseteq> set ?names"
    unfolding guc_names_of_def by (rule guc_names_contain [OF custom])
  then have ne: "?names \<noteq> []" by auto
  have opn: "raw_of alias w \<noteq> None" using conn_okD [OF ok] by simp
  from run ne opn obtain w1 where
    wr: "guarded_write (se_driver env) (se_cfg env) alias (build_clear_gucs_sql (length ?names)) ?names w = (Inr (), w1)"
    and c: "(if \<not> (case a_conns w1 alias of None \<Rightarrow> True | Some cn \<Rightarrow> cn_autocommit cn)
       then send_transaction_control (se_driver env) alias ''COMMIT'' w1 else (Inr (), w1)) = (Inr (), w')"
    by (auto simp: clear_policy_gucs_def Let_def py_seq_def py_bind_def ensure_open split: prod.splits sum.splits)
  have ok1: "conn_ok alias raw ac w1" using keepsD [OF keeps_guarded_write ok wr] by simp
  then have "if ac then a_db w' = a_db w1 else dr_send (se_driver env) raw ''COMMIT'' (a_db w1) = (Inr (), a_db w')"
    using c by (auto simp: conn_ok_def send_transaction_control_def raw_of_def on_db_def split: prod.splits if_splits)
  with clear_law [OF laws names guarded_write_db [OF plain_clear_sql ok wr]] show ?thesis by blast
qed

subsection \<open>One concrete pool\<close>

text \<open>A driver whose every statement clears the variables, and a session that a borrower left set.\<close>

definition demo_clear :: "bool \<Rightarrow> (demo_pg_state, unit) py" where
  "demo_clear ac d =
     (let d1 = (if \<not> dp_open d \<and> \<not> ac then the (demo_exec d PgBegin) else d)
      in (Inr (), the (demo_exec d1 (PgSet None False))))"

definition demo_pool_driver :: "demo_pg_state driver" where
  "demo_pool_driver = demo_driver\<lparr>dr_execute := (\<lambda>_ ac _ _. demo_clear ac)\<rparr>"

definition demo_left :: demo_pg_state where
  "demo_left = demo_idle\<lparr>dp_seen := Some (gucs_for_tenant (TInt 1)), dp_commit := Some (gucs_for_tenant (TInt 1))\<rparr>"

lemma demo_clear_laws: "clear_laws demo_pool_driver cfg demo_pg (\<lambda>_ d. d)"
proof -
  have clears: "\<exists>s. (if ac \<or> pg_open demo_pg d then s = d else pg_step demo_pg d PgBegin s) \<and> pg_step demo_pg s (PgSet None False) d'"
    if "demo_clear ac d = (Inr (), d')" for ac d d'
    using that by (intro exI [of _ "if \<not> dp_open d \<and> \<not> ac then the (demo_exec d PgBegin) else d"])
      (auto simp: demo_clear_def demo_pg_def Let_def)
  have "if pg_open demo_pg d then pg_step demo_pg d PgCommit d' else d' = d"
    if "demo_send ''COMMIT'' d = (Inr (), d')" for d d'
    using that by (auto simp: demo_send_def demo_pg_def split: option.splits if_splits)
  with clears show ?thesis
    by (simp add: clear_laws_def demo_pg_laws demo_pool_driver_def demo_driver_def)
qed

lemma demo_custom:
  "custom_guc_name (guc_is_admin (demo_cfg l))" "custom_guc_name (guc_current_tenant (demo_cfg l))"
  by (simp_all add: demo_cfg_def custom_guc_name_def ident_start_def guc_part_char_def ident_char_def is_alpha_def is_digit_def)

lemma pool_reset_leaves_session_clean_witness:
  "\<exists>d'. reset_rls_gucs (policy_guc_names (demo_cfg False) []) False (dr_execute demo_pool_driver 0 False)
      (dr_send demo_pool_driver 0 ''COMMIT'') demo_left = (Inr (), d') \<and> dp_seen d' = None \<and> \<not> dp_open d'"
proof -
  let ?run = "reset_rls_gucs (policy_guc_names (demo_cfg False) []) False (dr_execute demo_pool_driver 0 False)
      (dr_send demo_pool_driver 0 ''COMMIT'') demo_left"
  have "policy_guc_names (demo_cfg False) [] \<noteq> []" using guc_names_contain [OF demo_custom, of False "[]"] by auto
  then have "fst ?run = Inr ()"
    by (simp add: reset_rls_gucs_def py_seq_def py_bind_def demo_pool_driver_def demo_clear_def demo_driver_def demo_send_def
        demo_left_def demo_idle_def)
  then obtain d' where d': "?run = (Inr (), d')" by (metis prod.collapse)
  from pool_reset_leaves_session_clean [OF demo_clear_laws demo_custom d'] d' show ?thesis
    by (simp add: demo_pg_def demo_left_def demo_idle_def)
qed

end
