(* ===== verification/App_Signals.thy ===== *)
theory App_Signals
  imports Middleware Pool_Hooks
begin

text \<open>
  \<^verbatim>\<open>apps.py\<close>: what the library does when Django opens a connection, when a request has finished and when an error
  response is built.  The handler of \<^verbatim>\<open>connection_created\<close> is what the \<open>created\<close> argument of the affinity model
  stands for.  That \<^verbatim>\<open>ready()\<close> connects the handlers is Django's signal machinery; the log messages are left out.
\<close>

subsection \<open>A new connection\<close>

definition apply_request_gucs :: "('d, 'o) signal_env \<Rightarrow> string \<Rightarrow> ('d aff, unit) py" where
  "apply_request_gucs env alias = (\<lambda>w.
     case context_of w of
       None \<Rightarrow> (Inr (), w)
     | Some g \<Rightarrow>
         suppressed (write_gucs (se_driver env) (se_cfg env) (se_created env) alias (Some g) False) w)"

text \<open>\<^verbatim>\<open>connection.connection.pgconn.finish()\<close>: the session ends, Django's connection still names it.\<close>

definition finish_session :: "'d driver \<Rightarrow> string \<Rightarrow> ('d aff, unit) py" where
  "finish_session dr alias = (\<lambda>w.
     case raw_of alias w of
       None \<Rightarrow> (Inl (OtherError ''AttributeError''), w)
     | Some raw \<Rightarrow> on_db (dr_close dr raw) w)"

definition clear_new_connection_gucs :: "('d, 'o) signal_env \<Rightarrow> string \<Rightarrow> ('d aff, unit) py" where
  "clear_new_connection_gucs env alias =
     py_except (writing (se_driver env) (se_cfg env) alias TNone False (clear_policy_gucs env alias)) is_exception
       (\<lambda>e. if \<not> is_pooled env alias then py_ret ()
            else py_seq (suppressed (finish_session (se_driver env) alias))
                (py_seq (suppressed (close_connection (se_driver env) alias)) (py_raise e)))"

text \<open>
  \<^verbatim>\<open>_prepare_new_connection\<close>; \<open>set_here\<close> and \<open>set_anywhere\<close> are \<^verbatim>\<open>_were_gucs_set_on_this_thread()\<close> and
  \<^verbatim>\<open>_were_gucs_set()\<close>.
\<close>

definition prepare_new_connection :: "('d, 'o) signal_env \<Rightarrow> bool \<Rightarrow> bool \<Rightarrow> string \<Rightarrow> ('d aff, unit) py" where
  "prepare_new_connection env set_anywhere set_here alias =
     py_seq (py_modify (upd_conn alias (install_guard (if is_pooled env alias then TUnknown else TNone))))
       (if alias \<notin> set (databases (se_cfg env)) then py_ret ()
        else if set_anywhere \<and> \<not> set_here then clear_new_connection_gucs env alias
        else py_seq (if is_pooled env alias then clear_new_connection_gucs env alias else py_ret ())
               (if set_here \<and> \<not> use_local_set (se_cfg env) then apply_request_gucs env alias else py_ret ()))"

text \<open>\<open>opened\<close>: this thread's connections.\<close>

definition guard_open_connections :: "string list \<Rightarrow> ('d aff, unit) py" where
  "guard_open_connections opened = py_for opened (\<lambda>alias. py_modify (guard_open_connection alias))"

subsection \<open>The end of a request\<close>

text \<open>The aliases whose connection is open are cleared; the result are those that could not be.\<close>

fun clear_open_aliases :: "'d mw_site \<Rightarrow> string list \<Rightarrow> ('d mw, string list) py" where
  "clear_open_aliases ms [] = py_ret []"
| "clear_open_aliases ms (alias # rest) =
     py_seq (on_aff (connections_get (st_cursor (ms_site ms)) alias))
       (\<lambda>w. if raw_of alias (m_aff w) = None then clear_open_aliases ms rest w
            else py_bind
              (py_except
                (py_seq (on_aff (write_gucs (st_driver (ms_site ms)) (cfg_of ms) (st_created (ms_site ms)) alias None False))
                  (py_ret []))
                is_exception (\<lambda>_. py_ret [alias]))
              (\<lambda>failed. py_bind (clear_open_aliases ms rest) (\<lambda>more. py_ret (failed @ more))) w)"

definition clear_finished_request_gucs :: "'d mw_site \<Rightarrow> ('d mw, unit) py" where
  "clear_finished_request_gucs ms =
     (if use_local_set (cfg_of ms)
      then on_aff (suspect_sessions (st_driver (ms_site ms)) (cfg_of ms) True)
      else py_bind (clear_open_aliases ms (databases (cfg_of ms)))
             (\<lambda>failed. if failed \<noteq> [] then py_raise RuntimeError else py_ret ()))"

definition audit_safety_net_clear :: "'d mw_site \<Rightarrow> tenant_id option \<Rightarrow> bool \<Rightarrow> ('d mw, unit) py" where
  "audit_safety_net_clear ms tenant active =
     log_audit (emit (st_audits (ms_site ms)) ''gucs.cleared'' ''safety_net'' Warning tenant
       (if active then Some (tenant = None) else None) None [(''databases'', Some (AList (databases (cfg_of ms))))])"

text \<open>The \<^verbatim>\<open>request_finished\<close> handler.\<close>

definition clear_rls_on_request_finished :: "'d mw_site \<Rightarrow> ('d mw, unit) py" where
  "clear_rls_on_request_finished ms = (\<lambda>w.
     if \<not> were_gucs_set w then (Inr (), w)
     else py_finally
       (py_except
         (py_bind (py_get (\<lambda>w. (get_current_tenant_id (state_of w), get_rls_context_active (state_of w)))) (\<lambda>(tenant, active).
          py_bind (on_set (set_current_tenant_id None)) (\<lambda>_.
          py_bind (on_set (set_rls_context_active False)) (\<lambda>_.
          py_seq (on_ctx (py_modify clear_context_gucs))
         (py_seq (clear_finished_request_gucs ms)
           (audit_safety_net_clear ms tenant active))))))
         is_exception (\<lambda>_. py_ret ()))
       (\<lambda>_. clear_gucs_set_flag) w)"

text \<open>The \<^verbatim>\<open>got_request_exception\<close> handler; the signal may name no request.\<close>

definition end_blocks_left_open_on_error :: "bool \<Rightarrow> ('d mw, unit) py" where
  "end_blocks_left_open_on_error request_given = (if request_given then end_blocks_left_open else py_ret ())"

subsection \<open>The handlers leave the context alone\<close>

text \<open>The handler the library connects to \<^verbatim>\<open>connection_created\<close> obeys the law its clients put on such a handler.\<close>

lemma quiet_send [quiet_intros]: "quiet (send_transaction_control dr al c)"
  by (auto simp: quiet_def send_transaction_control_def on_db_def split: option.split prod.split)

lemma quiet_close [quiet_intros]: "quiet (close_connection dr al)"
  by (auto simp: quiet_def close_connection_def on_db_def upd_conn_def put_conn_def split: option.split prod.split)

lemma quiet_finish [quiet_intros]: "quiet (finish_session dr al)"
  by (auto simp: quiet_def finish_session_def on_db_def split: option.split prod.split)

lemma quiet_suppressed [quiet_intros]: "quiet m \<Longrightarrow> quiet (suppressed m)"
  unfolding suppressed_def by (intro quiet_intros)

lemma quiet_pointwise: "(\<And>v. quiet (m v)) \<Longrightarrow> quiet (\<lambda>w. m (f w) w)"
  by (simp add: quiet_def)

lemma quiet_clear_policy [quiet_intros]:
  assumes "\<And>al. quiet (se_created env al)"
  shows "quiet (clear_policy_gucs env alias)"
proof -
  have "quiet (\<lambda>w. if \<not> (case a_conns w alias of None \<Rightarrow> True | Some cn \<Rightarrow> cn_autocommit cn)
      then send_transaction_control (se_driver env) alias ''COMMIT'' w else (Inr (), w))"
    using quiet_send [of "se_driver env" "alias" "''COMMIT''"] by (simp add: quiet_def)
  then show ?thesis unfolding clear_policy_gucs_def Let_def
    by (auto intro!: quiet_intros assms)
qed

lemma prepare_new_connection_quiet [quiet_intros]:
  assumes created: "\<And>al. quiet (se_created env al)"
  shows "quiet (prepare_new_connection env set_anywhere set_here alias)"
proof -
  have clear: "quiet (clear_new_connection_gucs env alias)"
    unfolding clear_new_connection_gucs_def by (intro quiet_intros created)
  have "quiet (apply_request_gucs env alias)"
    unfolding apply_request_gucs_def by (intro quiet_intros created)
  with clear show ?thesis unfolding prepare_new_connection_def by (intro quiet_intros)
qed

subsection \<open>The end of a request\<close>

lemma unmarked_clear_open [unmarked_intros]:
  assumes ok: "mw_ok ms"
  shows "unmarked (clear_open_aliases ms als)"
proof (induction als)
  case Nil
  show ?case by (simp add: unmarked_intros)
next
  case (Cons al als)
  have "quiet (st_created (ms_site ms) al)" for al using ok by (simp add: mw_ok_def site_ok_def)
  then show ?case unfolding clear_open_aliases.simps
    by (intro unmarked_intros quiet_intros Cons.IH)
qed

lemma unmarked_finish [unmarked_intros]:
  assumes "mw_ok ms"
  shows "unmarked (clear_finished_request_gucs ms)" "unmarked (audit_safety_net_clear ms t a)"
proof -
  show "unmarked (clear_finished_request_gucs ms)"
    unfolding clear_finished_request_gucs_def using assms by (intro unmarked_intros quiet_intros)
  show "unmarked (audit_safety_net_clear ms t a)"
    unfolding audit_safety_net_clear_def by (rule unmarked_log)
qed

lemma cur_ctx_cv_set: "cur_ctx (snd (cv_set get put v s)) = put v (cur_ctx s)"
  by (simp add: cv_set_def upd_ctx_def cur_ctx_def)

lemma cur_ctx_end_live: "cur_ctx (end_live_context s) = cur_ctx s"
  by (simp add: end_live_context_def split: option.split)

lemma cleared_ctx:
  "cur_ctx (clear_context_gucs (snd (set_rls_context_active a (snd (set_current_tenant_id t s)))))
     = put_gucs None (put_active a (put_tenant t (cur_ctx s)))"
  by (simp add: clear_context_gucs_def set_rls_context_active_def set_current_tenant_id_def cur_ctx_cv_set cur_ctx_end_live)

text \<open>
  C25. The safety net: once the \<^verbatim>\<open>request_finished\<close> handler has run for a request the middleware left set, no context
  is left behind on the thread, whether or not the databases could be cleared: no tenant, no active flag, no
  GUC values, so that the guard clears every connection before its next statement, and the flag is down.  It raises
  nothing but what is no \<^verbatim>\<open>Exception\<close>.  A request whose flag is down is left alone.
\<close>

theorem finished_request_leaves_nothing:
  assumes ok: "mw_ok ms" and run: "clear_rls_on_request_finished ms w = (r, w')"
  shows "if were_gucs_set w
         then sees None False None (state_of w') \<and> \<not> were_gucs_set w' \<and> (case r of Inl e \<Rightarrow> \<not> is_exception e | Inr _ \<Rightarrow> True)
         else r = Inr () \<and> w' = w"
proof (cases "were_gucs_set w")
  case False
  then show ?thesis using run by (simp add: clear_rls_on_request_finished_def)
next
  case True
  let ?s = "state_of w"
  let ?s3 = "clear_context_gucs (snd (set_rls_context_active False (snd (set_current_tenant_id None ?s))))"
  let ?w3 = "w\<lparr>m_aff := (m_aff w)\<lparr>a_state := ?s3\<rparr>\<rparr>"
  let ?rest = "py_seq (clear_finished_request_gucs ms) (audit_safety_net_clear ms (get_current_tenant_id ?s) (get_rls_context_active ?s))"
  have s3: "sees None False None ?s3"
    by (simp add: sees_def get_current_tenant_id_def get_rls_context_active_def get_context_gucs_def current_live_def values_of_def
        cleared_ctx put_gucs_def put_active_def put_tenant_def)
  obtain q w4 where q: "?rest ?w3 = (q, w4)" by (cases "?rest ?w3")
  have "unmarked ?rest" using ok by (intro unmarked_intros)
  from unmarkedD [OF this q] have w4: "state_of w4 = ?s3" by (simp add: state_of_def)
  have "clear_rls_on_request_finished ms w =
      (case (case q of Inl e \<Rightarrow> if is_exception e then Inr () else Inl e | Inr u \<Rightarrow> Inr u) of
         r \<Rightarrow> (r, w4\<lparr>m_gucs_set := None\<rparr>))"
    using True q
    by (auto simp: clear_rls_on_request_finished_def py_finally_def py_except_def py_seq_def py_bind_def py_simps on_set_def
        on_ctx_def on_aff_def on_state_def clear_gucs_set_flag_def state_of_def case_prod_unfold split: sum.split)
  then show ?thesis using run True s3 w4
    by (auto simp: were_gucs_set_def state_of_def split: sum.splits if_splits)
qed

subsection \<open>A connection from a pool\<close>

lemma install_conn_ok:
  assumes "a_conns w alias = Some cn" "cn_postgresql cn" "cn_raw cn = Some raw"
  shows "conn_ok alias raw (cn_autocommit cn) (upd_conn alias (install_guard TUnknown) w)"
  using assms by (auto simp: upd_conn_def put_conn_def conn_ok_def install_guard_def follow_transaction_ends_def Let_def attach_def)

lemma close_connection_raw: "raw_of alias (snd (close_connection dr alias w)) = None"
  by (auto simp: close_connection_def raw_of_def on_db_def upd_conn_def put_conn_def split: option.splits prod.splits)

lemma suppressed_snd [simp]: "snd (suppressed m w) = snd (m w)"
  by (auto simp: suppressed_def py_except_def py_ret_def split: prod.split sum.split)

lemma suppressed_raises: "suppressed m w = (Inl e, w') \<Longrightarrow> \<not> is_exception e"
  by (auto simp: suppressed_def py_except_def py_ret_def split: prod.splits sum.splits if_splits)

text \<open>What is left of a pooled connection whose clear failed: it is closed, unless the closing was interrupted too.\<close>

lemma discarded:
  assumes "py_seq (suppressed m) (py_seq (suppressed (close_connection dr alias)) (py_raise e)) w = (r, w')"
  shows "\<exists>e'. r = Inl e' \<and> (is_exception e' \<longrightarrow> raw_of alias w' = None)"
proof -
  obtain q w1 where q: "suppressed m w = (q, w1)" by (cases "suppressed m w")
  obtain p w2 where p: "suppressed (close_connection dr alias) w1 = (p, w2)" by (cases "suppressed (close_connection dr alias) w1")
  have "raw_of alias w2 = None"
    using close_connection_raw [of "alias" dr w1] suppressed_snd [of "close_connection dr alias" w1] p by simp
  then show ?thesis using assms q p suppressed_raises [of m w]
    by (cases q; cases p) (auto simp: py_seq_def py_bind_def py_raise_def)
qed

lemma clear_new_connection_clears:
  assumes laws: "clear_laws (se_driver env) (se_cfg env) pg sess"
    and custom: "custom_guc_name (guc_is_admin (se_cfg env))" "custom_guc_name (guc_current_tenant (se_cfg env))"
    and ok: "conn_ok alias raw ac w" and guarded: "is_guarded (se_cfg env) alias" and pooled: "is_pooled env alias"
    and run: "clear_new_connection_gucs env alias w = (r, w')"
  shows "case r of Inr _ \<Rightarrow> pg_seen pg (sess raw (a_db w')) = None \<and> map_option tr_values (tracker_of alias w') = Some TNone
         | Inl e \<Rightarrow> is_exception e \<longrightarrow> raw_of alias w' = None"
proof -
  let ?body = "clear_policy_gucs env alias"
  obtain q w1 where q: "writing (se_driver env) (se_cfg env) alias TNone False ?body w = (q, w1)"
    by (cases "writing (se_driver env) (se_cfg env) alias TNone False ?body w")
  show ?thesis
  proof (cases q)
    case (Inl e)
    then show ?thesis using q run pooled
      by (auto simp: clear_new_connection_gucs_def py_except_def split: if_splits dest!: discarded)
  next
    case (Inr u)
    then have r: "r = Inr ()" "w' = w1" using q run by (auto simp: clear_new_connection_gucs_def py_except_def)
    obtain w2 where body: "?body (w\<lparr>a_depth := Suc (a_depth w)\<rparr>) = (Inr (), w2)" and db: "a_db w1 = a_db w2"
      using writing_Inr_db [of "se_driver env" "se_cfg env" "alias" TNone False ?body w "()" w1] q Inr by auto
    have ok0: "conn_ok alias raw ac (w\<lparr>a_depth := Suc (a_depth w)\<rparr>)" using ok by simp
    have "conn_ok alias raw ac w2" using keepsD [OF keeps_clear_policy ok0 body] by simp
    moreover have "pg_seen pg (sess raw (a_db w2)) = None" by (rule clear_policy_clears [OF laws custom ok0 body])
    ultimately show ?thesis using writing_restores_depth [OF body q] Inr r db guarded by simp
  qed
qed


subsection \<open>Concrete signals\<close>

definition demo_signal_env :: "(demo_pg_state, unit) signal_env" where
  "demo_signal_env = \<lparr>se_driver = demo_pool_driver, se_cfg = demo_cfg False, se_pool = (\<lambda>_. PoolDefaults), se_models = [],
     se_created = (\<lambda>_. py_ret ())\<rparr>"


text \<open>A request whose cleanup did not run, in a worker that is to serve the next one.\<close>

definition demo_unfinished :: "demo_pg_state mw" where
  "demo_unfinished = (demo_mw None)\<lparr>m_aff := demo_world, m_gucs_set := Some 0\<rparr>"

lemma finished_request_leaves_nothing_witness:
  "were_gucs_set demo_unfinished \<and> get_context_gucs (state_of demo_unfinished) \<noteq> None \<and>
   sees None False None (state_of (snd (clear_rls_on_request_finished (demo_mw_site False) demo_unfinished)))"
proof -
  have set: "were_gucs_set demo_unfinished" by (simp add: demo_unfinished_def were_gucs_set_def)
  have "get_context_gucs (state_of demo_unfinished) \<noteq> None"
    using demo_context by (simp add: demo_unfinished_def state_of_def context_of_def)
  moreover have "sees None False None (state_of (snd (clear_rls_on_request_finished (demo_mw_site False) demo_unfinished)))"
    using finished_request_leaves_nothing [OF demo_mw_ok, of False demo_unfinished] set
    by (cases "clear_rls_on_request_finished (demo_mw_site False) demo_unfinished") simp
  ultimately show ?thesis using set by blast
qed

end
