(* ===== verification/System_Checks.thy ===== *)
theory System_Checks
  imports Managers Migration_Ops Pool_Hooks
begin

text \<open>
  \<^verbatim>\<open>tenants/checks.py\<close>: Django's system checks of the library.  A message is its id and the values it names; the
  wording and the hints are left out.  The registered models are those of \<open>Tenant_Models\<close>; what only the checks
  read of a model (its unique sets, what replaced it) is a record of its own.  The database is reached through
  the operations of a Django connection.
\<close>

subsection \<open>Messages\<close>

text \<open>What a model declares unique: a field, an entry of \<^verbatim>\<open>unique_together\<close>, a constraint on fields or on expressions.\<close>

datatype unique_kind =
    UniqueField string
  | Together "string list"
  | UniqueOn string "string list"
  | UniqueExpr string

datatype allow_entry = AllowName string | AllowFields "string list"

datatype external_problem =
    NoSuchModel
  | SameModelAs string
  | SwappedFor string
  | ProxyOf string
  | HasConstraint
  | NoField string
  | NotForeignKey string
  | PointsTo string string

datatype check_msg =
    E001 string string bool bool
  | W001 string string string
  | W002 string string string
  | W004 string
  | W005 string string bool bool
  | W006 string
  | W008 string
  | W009 string string
  | W010 string
  | W011 string string string "string option" "string option"
  | W012 string unique_kind string
  | W012_entry string allow_entry
  | W012_label string
  | W013 string exn string
  | W014 string
  | W015 string bool
  | W016 string external_problem
  | W017 string predicate
  | W017_name string
  | W018 string predicate string
  | W019 string predicate string string

subsection \<open>What the checks read\<close>

text \<open>Of \<^verbatim>\<open>CONN_MAX_AGE\<close>, whether it is \<^verbatim>\<open>None\<close>, a number, or neither; of a number, its sign.\<close>

datatype max_age = KeepForever | Seconds int | NotANumber

text \<open>An entry of \<^verbatim>\<open>settings.DATABASES\<close>; a pool option is there with a value or with \<^verbatim>\<open>None\<close>.\<close>

record dj_db =
  db_max_age :: max_age
  db_pool :: "(string \<times> bool) list pool_setting"

text \<open>An expression: a bare \<^verbatim>\<open>F()\<close>, one whose \<^verbatim>\<open>flatten()\<close> yields it and what its parts yield, or neither.\<close>

datatype dj_expr = FRef string | Combined "dj_expr list" | Opaque_expr

record unique_constraint =
  uc_name :: string
  uc_fields :: "string list"
  uc_expressions :: "dj_expr list"

record column_flags =
  cf_name :: string
  cf_unique :: bool
  cf_primary :: bool

record unique_decls =
  ud_columns :: "column_flags list"
  ud_together :: "string list list"
  ud_constraints :: "unique_constraint list"
  ud_swapped :: "string option"

text \<open>A Django connection, as the catalogue queries use it; \<^verbatim>\<open>savepoint()\<close> is \<open>None\<close> outside a transaction.\<close>

record ('w, 'row) catalogue_conn =
  cc_postgresql :: bool
  cc_cursor :: "('w, unit) py"
  cc_savepoint :: "('w, string option) py"
  cc_savepoint_rollback :: "string \<Rightarrow> ('w, unit) py"
  cc_savepoint_commit :: "string \<Rightarrow> ('w, unit) py"
  cc_rows :: "('w, 'row list) py"

type_synonym role_row = "string \<times> bool \<times> bool"
type_synonym default_row = "string option \<times> string option \<times> string list"

text \<open>
  The settings (valid ones: a value the configuration refuses ends the checks with its error), the registry, the
  models \<^verbatim>\<open>apps.get_models()\<close> lists with the automatic ones, \<^verbatim>\<open>apps.get_model\<close> (\<open>None\<close>: \<^verbatim>\<open>LookupError\<close> or \<^verbatim>\<open>ValueError\<close>),
  and each alias's connection for the two queries.
\<close>

record 'w check_env =
  ce_cfg :: aff_cfg
  ce_models_cfg :: model_cfg
  ce_tenant_model :: "exn + string"
  ce_excluded :: "string list"
  ce_unique_across :: "(string \<times> allow_entry list) list"
  ce_debug :: bool
  ce_databases :: "(string \<times> dj_db) list"
  ce_apps :: app_registry
  ce_all_models :: "dj_model list"
  ce_get_model :: "string \<Rightarrow> dj_model option"
  ce_decls :: "string \<Rightarrow> unique_decls"
  ce_registry :: registry
  ce_meta :: "dj_model \<Rightarrow> model_meta"
  ce_roles :: "string \<Rightarrow> ('w, role_row) catalogue_conn"
  ce_defaults :: "string \<Rightarrow> ('w, default_row) catalogue_conn"

definition lower :: "string \<Rightarrow> string" where
  "lower s = map ascii_lower s"

text \<open>\<^verbatim>\<open>apps.get_models()\<close>.\<close>

definition installed :: "'w check_env \<Rightarrow> dj_model list" where
  "installed env = List.map_filter (ap_models (ce_apps env)) (ap_listed (ce_apps env))"

text \<open>\<^verbatim>\<open>_meta.get_field\<close>, by the field's name or its attribute name.\<close>

definition field_named :: "dj_model \<Rightarrow> string \<Rightarrow> dj_field option" where
  "field_named m name = find (\<lambda>f. fd_name f = name \<or> fd_attname f = name) (dm_fields m)"

subsection \<open>The database\<close>

definition checked_aliases :: "'w check_env \<Rightarrow> string list" where
  "checked_aliases env = filter (\<lambda>al. map_of (ce_databases env) al \<noteq> None) (databases (ce_cfg env))"

datatype 'row catalogue = Rows "'row list" | Undetermined check_msg | NotApplicable

text \<open>\<^verbatim>\<open>django.db.Error\<close> and its subclasses, and the errors that mean there is no connection.\<close>

definition is_db_error :: "exn \<Rightarrow> bool" where
  "is_db_error e \<longleftrightarrow> e = DatabaseError \<or> e \<in> OtherError ` {''Error'', ''InterfaceError'', ''OperationalError'',
     ''ProgrammingError'', ''DataError'', ''IntegrityError'', ''InternalError'', ''NotSupportedError''}"

definition cannot_connect :: "exn \<Rightarrow> bool" where
  "cannot_connect e \<longleftrightarrow> e \<in> OtherError ` {''ImproperlyConfigured'', ''InterfaceError'', ''OperationalError''}"

definition in_savepoint :: "('w, 'row) catalogue_conn \<Rightarrow> ('w, 'row list) py" where
  "in_savepoint c =
     py_bind (cc_savepoint c) (\<lambda>savepoint.
     py_bind
       (py_except (cc_rows c) is_db_error
         (\<lambda>e. py_seq (case savepoint of None \<Rightarrow> py_ret () | Some s \<Rightarrow> cc_savepoint_rollback c s) (py_raise e)))
       (\<lambda>rows. py_seq (case savepoint of None \<Rightarrow> py_ret () | Some s \<Rightarrow> cc_savepoint_commit c s) (py_ret rows)))"

definition read_catalogue ::
  "string \<Rightarrow> ('w, 'row) catalogue_conn \<Rightarrow> string \<Rightarrow> ('w, 'row catalogue) py" where
  "read_catalogue al c unconfirmed =
     (if \<not> cc_postgresql c then py_ret NotApplicable
      else (\<lambda>w. case cc_cursor c w of
        (Inl e, w1) \<Rightarrow>
          if cannot_connect e then (Inr NotApplicable, w1)
          else if is_db_error e then (Inr (Undetermined (W013 al e unconfirmed)), w1) else (Inl e, w1)
      | (Inr _, w1) \<Rightarrow>
          py_except (py_bind (in_savepoint c) (\<lambda>rows. py_ret (Rows rows))) is_db_error
            (\<lambda>e. py_ret (Undetermined (W013 al e unconfirmed))) w1))"

definition role_messages :: "bool \<Rightarrow> string \<Rightarrow> role_row catalogue \<Rightarrow> check_msg list" where
  "role_messages debug al found =
     (case found of
        NotApplicable \<Rightarrow> []
      | Undetermined m \<Rightarrow> [m]
      | Rows [] \<Rightarrow> []
      | Rows ((role, super, bypass) # _) \<Rightarrow>
          if \<not> super \<and> \<not> bypass then []
          else if debug then [W005 al role super bypass] else [E001 al role super bypass])"

text \<open>One query for each alias, the messages in their order.\<close>

fun over_aliases :: "(string \<Rightarrow> ('w, check_msg list) py) \<Rightarrow> string list \<Rightarrow> ('w, check_msg list) py" where
  "over_aliases f [] = py_ret []"
| "over_aliases f (al # als) =
     py_bind (f al) (\<lambda>ms. py_bind (over_aliases f als) (\<lambda>more. py_ret (ms @ more)))"

definition check_superuser_connection :: "'w check_env \<Rightarrow> ('w, check_msg list) py" where
  "check_superuser_connection env =
     over_aliases (\<lambda>al. py_bind (read_catalogue al (ce_roles env al) ''W005 and E001'')
       (\<lambda>found. py_ret (role_messages (ce_debug env) al found))) (checked_aliases env)"

text \<open>\<^verbatim>\<open>entry.partition("=")\<close>.\<close>

definition partition_eq :: "string \<Rightarrow> string \<times> string" where
  "partition_eq s = (takeWhile (\<lambda>c. c \<noteq> CHR ''='') s, tl (dropWhile (\<lambda>c. c \<noteq> CHR ''='') s))"

definition policy_guc_default_warnings :: "string \<Rightarrow> default_row list \<Rightarrow> string set \<Rightarrow> check_msg list" where
  "policy_guc_default_warnings al rows names =
     concat (map (\<lambda>(database, role, setconfig).
       List.map_filter (\<lambda>entry. case partition_eq entry of (name, value) \<Rightarrow>
           if lower name \<in> names then Some (W011 al name value database role) else None) setconfig) rows)"

definition default_messages :: "string set \<Rightarrow> string \<Rightarrow> default_row catalogue \<Rightarrow> check_msg list" where
  "default_messages names al found =
     (case found of
        NotApplicable \<Rightarrow> []
      | Undetermined m \<Rightarrow> [m]
      | Rows rows \<Rightarrow> policy_guc_default_warnings al rows names)"

definition policy_names_lower :: "'w check_env \<Rightarrow> string set" where
  "policy_names_lower env = lower ` set (policy_guc_names (ce_cfg env) (ce_all_models env))"

definition check_policy_guc_defaults :: "'w check_env \<Rightarrow> ('w, check_msg list) py" where
  "check_policy_guc_defaults env =
     (let names = policy_names_lower env
      in if names = {} then py_ret []
         else over_aliases (\<lambda>al. py_bind (read_catalogue al (ce_defaults env al) ''W011'')
                (\<lambda>found. py_ret (default_messages names al found))) (checked_aliases env))"

subsection \<open>The settings\<close>

definition guc_mismatches :: "aff_cfg \<Rightarrow> string \<Rightarrow> dj_constraint \<Rightarrow> check_msg list" where
  "guc_mismatches cfg name c =
     (case c of
        TenantPolicy p \<Rightarrow>
          (if rc_guc_tenant_var p \<noteq> guc_current_tenant cfg then [W001 name (rc_guc_tenant_var p) (guc_current_tenant cfg)] else []) @
          (if rc_guc_admin_var p \<noteq> guc_is_admin cfg then [W002 name (rc_guc_admin_var p) (guc_is_admin cfg)] else [])
      | _ \<Rightarrow> [])"

definition check_guc_prefix_mismatch :: "'w check_env \<Rightarrow> check_msg list" where
  "check_guc_prefix_mismatch env =
     concat (map (\<lambda>m. if \<not> declares_rls_policy (ce_apps env) m \<or> dm_proxy m then []
                      else concat (map (guc_mismatches (ce_cfg env) (dm_name m)) (dm_constraints m))) (installed env))"

definition keeps_connections :: "max_age \<Rightarrow> bool" where
  "keeps_connections a = (case a of KeepForever \<Rightarrow> True | Seconds n \<Rightarrow> n > 0 | NotANumber \<Rightarrow> False)"

definition check_conn_max_age :: "'w check_env \<Rightarrow> check_msg list" where
  "check_conn_max_age env =
     (if use_local_set (ce_cfg env) then []
      else map W004 (filter (\<lambda>al. keeps_connections
             (case map_of (ce_databases env) al of None \<Rightarrow> Seconds 0 | Some db \<Rightarrow> db_max_age db)) (databases (ce_cfg env))))"

definition pool_lacks_reset :: "(string \<times> bool) list pool_setting \<Rightarrow> bool" where
  "pool_lacks_reset p =
     (case pool_options p of None \<Rightarrow> False | Some options \<Rightarrow> map_of options ''reset'' \<noteq> Some True)"

definition check_pool_without_reset :: "'w check_env \<Rightarrow> check_msg list" where
  "check_pool_without_reset env =
     (if use_local_set (ce_cfg env) then []
      else map W010 (filter (\<lambda>al. pool_lacks_reset
             (case map_of (ce_databases env) al of None \<Rightarrow> NotPooled | Some db \<Rightarrow> db_pool db)) (databases (ce_cfg env))))"

definition check_databases_alias_exists :: "'w check_env \<Rightarrow> check_msg list" where
  "check_databases_alias_exists env =
     map W006 (filter (\<lambda>al. al \<notin> set (map fst (ce_databases env))) (databases (ce_cfg env)))"

definition check_tenant_model_resolves :: "'w check_env \<Rightarrow> check_msg list checked" where
  "check_tenant_model_resolves env =
     (case ce_tenant_model env of
        Inl e \<Rightarrow> if e = RLSConfigurationError then Inr [] else Inl e
      | Inr path \<Rightarrow> Inr (if ce_get_model env path = None then [W008 path] else []))"

subsection \<open>The models\<close>

definition check_tenant_fk_field_exists :: "'w check_env \<Rightarrow> check_msg list" where
  "check_tenant_fk_field_exists env =
     List.map_filter (\<lambda>m.
       if \<not> declares_rls_policy (ce_apps env) m \<or> dm_proxy m then None
       else let fk_field = (case get_tenant_fk_field (ce_models_cfg env) m of
                  None \<Rightarrow> md_tenant_fk (ce_models_cfg env)
                | Some f \<Rightarrow> if f = [] then md_tenant_fk (ce_models_cfg env) else f)
            in if field_named m fk_field = None then Some (W009 (dm_name m) fk_field) else None) (installed env)"

definition check_protected_models_have_constraint :: "'w check_env \<Rightarrow> check_msg list" where
  "check_protected_models_have_constraint env =
     map (\<lambda>m. W014 (model_label m))
       (filter (\<lambda>m. dm_protected m \<and> \<not> dm_proxy m \<and> get_tenant_fk_field (ce_models_cfg env) m = None) (installed env))"

definition strictly_guarded :: "'w check_env \<Rightarrow> dj_model set" where
  "strictly_guarded env =
     (\<Union>m \<in> set (filter (\<lambda>m. get_tenant_fk_field (ce_models_cfg env) m \<noteq> None) (installed env)).
        {m, concrete_of (ce_apps env) m})"

definition check_strict_mode_exclude :: "'w check_env \<Rightarrow> check_msg list" where
  "check_strict_mode_exclude env =
     List.map_filter (\<lambda>label.
       case ce_get_model env label of
         None \<Rightarrow> Some (W015 label False)
       | Some m \<Rightarrow> if concrete_of (ce_apps env) m \<in> strictly_guarded env then None else Some (W015 label True))
       (ce_excluded env)"

definition has_rls_constraint :: "dj_model \<Rightarrow> bool" where
  "has_rls_constraint m \<longleftrightarrow> first_policy (dm_constraints m) \<noteq> None"

text \<open>The problem of one entry, for its model, past the check for a second label of the model.\<close>

definition external_problem_of :: "'w check_env \<Rightarrow> dj_model option \<Rightarrow> dj_model \<Rightarrow> string \<Rightarrow> external_problem option" where
  "external_problem_of env tenant_model m field_name =
     (case ud_swapped (ce_decls env (model_label m)) of
        Some other \<Rightarrow> Some (SwappedFor other)
      | None \<Rightarrow>
          if dm_proxy m then Some (ProxyOf (model_label (concrete_of (ce_apps env) m)))
          else if has_rls_constraint m then Some HasConstraint
          else (case field_named m field_name of
            None \<Rightarrow> Some (NoField field_name)
          | Some f \<Rightarrow>
              if \<not> fd_is_fk f then Some (NotForeignKey field_name)
              else (case tenant_model of
                  None \<Rightarrow> None
                | Some t \<Rightarrow> if fd_related f \<noteq> Some (ToModel (model_label t)) then Some (PointsTo field_name (model_label t)) else None)))"

fun scan_external ::
  "'w check_env \<Rightarrow> dj_model option \<Rightarrow> (string \<times> string) list \<Rightarrow> (string \<rightharpoonup> string) \<Rightarrow> check_msg list" where
  "scan_external env tenant_model [] seen = []"
| "scan_external env tenant_model ((label, field_name) # entries) seen =
     (case ce_get_model env label of
        None \<Rightarrow> W016 label NoSuchModel # scan_external env tenant_model entries seen
      | Some m \<Rightarrow>
          (case seen (model_label m) of
             Some other \<Rightarrow> W016 label (SameModelAs other) # scan_external env tenant_model entries seen
           | None \<Rightarrow>
               (case external_problem_of env tenant_model m field_name of None \<Rightarrow> [] | Some p \<Rightarrow> [W016 label p]) @
               scan_external env tenant_model entries (seen(model_label m \<mapsto> label))))"

definition check_external_models :: "'w check_env \<Rightarrow> check_msg list checked" where
  "check_external_models env =
     (let entries = md_external (ce_models_cfg env)
      in if entries = [] then Inr []
         else case ce_tenant_model env of
           Inl e \<Rightarrow> if e \<in> {LookupError, ValueError, RLSConfigurationError}
                    then Inr (scan_external env None entries Map.empty) else Inl e
         | Inr path \<Rightarrow> Inr (scan_external env (ce_get_model env path) entries Map.empty))"

subsection \<open>The extra predicates\<close>

definition related_label_lower :: "'w check_env \<Rightarrow> dj_model \<Rightarrow> string \<Rightarrow> string checked" where
  "related_label_lower env owner name =
     (case field_named owner name of
        None \<Rightarrow> Inl (OtherError ''FieldDoesNotExist'')
      | Some f \<Rightarrow>
          (case fd_related f of
             Some (ToModel label) \<Rightarrow>
               (case ap_models (ce_apps env) label of
                  None \<Rightarrow> Inr (lower label)
                | Some m \<Rightarrow> Inr (label_lower (concrete_of (ce_apps env) m)))
           | Some (ToLazy s) \<Rightarrow> Inr (lower (if CHR ''.'' \<notin> set s then dm_app owner @ ''.'' @ s else s))
           | None \<Rightarrow> Inr (lower (dm_app owner @ ''.None''))))"

definition w019 ::
  "'w check_env \<Rightarrow> dj_model \<Rightarrow> predicate \<Rightarrow> dj_model \<Rightarrow> string \<Rightarrow> dj_model option \<Rightarrow> check_msg option checked" where
  "w019 env m p owner field_name tenant_model =
     (case tenant_model of
        None \<Rightarrow> Inr None
      | Some t \<Rightarrow>
          ck_bind (related_label_lower env owner field_name) (\<lambda>target_label.
            Inr (if target_label = label_lower t then None else Some (W019 (model_label m) p (model_label owner) field_name))))"

text \<open>\<open>None\<close> when the policy of the \<^verbatim>\<open>through\<close> model shows its rows to the tenant they are shared with.\<close>

definition hidden_by :: "dj_model \<Rightarrow> string \<Rightarrow> rls_constraint option" where
  "hidden_by through tenant_fk =
     (case first_policy (dm_constraints through) of
        None \<Rightarrow> None
      | Some c \<Rightarrow> if rc_field c = tenant_fk \<or> TenantField tenant_fk \<in> set (rc_extra_predicates c) then None else Some c)"

definition predicate_warning ::
  "'w check_env \<Rightarrow> dj_model option \<Rightarrow> dj_model \<Rightarrow> predicate \<Rightarrow> check_msg option checked" where
  "predicate_warning env tenant_model m p =
     (case policy_sql (ce_registry env) (ce_meta env m) ''NULL'' p of
        Inl e \<Rightarrow> if e = ValueError then Inr (Some (W017 (model_label m) p)) else Inl e
      | Inr _ \<Rightarrow>
          (case p of
             TenantField field \<Rightarrow> w019 env m p m field tenant_model
           | RawPredicate _ \<Rightarrow> Inr None
           | SharedWith through_path fk tenant_fk \<Rightarrow>
               (case ce_get_model env through_path of
                  None \<Rightarrow> Inl LookupError
                | Some t \<Rightarrow>
                    (let through = concrete_of (ce_apps env) t
                     in ck_bind (w019 env m p through tenant_fk tenant_model) (\<lambda>wrong.
                          Inr (if wrong \<noteq> None then wrong
                               else map_option (\<lambda>_. W018 (model_label m) p (model_label through)) (hidden_by through tenant_fk)))))))"

definition model_predicate_warnings :: "'w check_env \<Rightarrow> dj_model option \<Rightarrow> dj_model \<Rightarrow> check_msg list checked" where
  "model_predicate_warnings env tenant_model m =
     (case first_policy (dm_constraints m) of
        None \<Rightarrow> Inr []
      | Some c \<Rightarrow>
          if dm_proxy m \<or> rc_extra_predicates c = [] then Inr []
          else ck_bind (map_checked (predicate_warning env tenant_model m) (rc_extra_predicates c)) (\<lambda>ws.
            Inr ((if sharing_policy_name_problem (dm_table m) then [W017_name (model_label m)] else []) @
                 List.map_filter (\<lambda>w. w) ws)))"

definition predicates_tenant_model :: "'w check_env \<Rightarrow> dj_model option checked" where
  "predicates_tenant_model env =
     (case ce_tenant_model env of
        Inl e \<Rightarrow> if e \<in> {LookupError, ValueError} then Inr None else Inl e
      | Inr path \<Rightarrow> Inr (ce_get_model env path))"

definition check_extra_predicates :: "'w check_env \<Rightarrow> check_msg list checked" where
  "check_extra_predicates env =
     ck_bind (predicates_tenant_model env) (\<lambda>tenant_model.
     ck_bind (map_checked (model_predicate_warnings env tenant_model) (installed env)) (\<lambda>mss.
       Inr (concat mss)))"

subsection \<open>Uniqueness across tenants\<close>

record unique_set =
  us_kind :: unique_kind
  us_fields :: "string list"
  us_name :: string
  us_by_expressions :: bool

definition resolve_name :: "dj_model \<Rightarrow> string \<Rightarrow> string" where
  "resolve_name m name = (case field_named m name of None \<Rightarrow> name | Some f \<Rightarrow> fd_name f)"

text \<open>\<^verbatim>\<open>name.split("__", 1)[0]\<close>.\<close>

fun before_lookup :: "string \<Rightarrow> string" where
  "before_lookup (c # d # cs) = (if c = CHR ''_'' \<and> d = CHR ''_'' then [] else c # before_lookup (d # cs))"
| "before_lookup s = s"

fun f_names :: "dj_expr \<Rightarrow> string list" where
  "f_names (FRef name) = [name]"
| "f_names (Combined es) = concat (map f_names es)"
| "f_names Opaque_expr = []"

definition referenced_field_names :: "dj_expr \<Rightarrow> string list" where
  "referenced_field_names e = map before_lookup (f_names e)"

definition constraint_unique_set :: "dj_model \<Rightarrow> unique_constraint \<Rightarrow> unique_set" where
  "constraint_unique_set m c =
     (if uc_fields c \<noteq> []
      then \<lparr>us_kind = UniqueOn (uc_name c) (uc_fields c), us_fields = map (resolve_name m) (uc_fields c),
            us_name = uc_name c, us_by_expressions = False\<rparr>
      else \<lparr>us_kind = UniqueExpr (uc_name c),
            us_fields = concat (map (\<lambda>e. map (resolve_name m) (referenced_field_names e)) (uc_expressions c)),
            us_name = uc_name c, us_by_expressions = True\<rparr>)"

definition unique_sets :: "dj_model \<Rightarrow> unique_decls \<Rightarrow> unique_set list" where
  "unique_sets m d =
     map (\<lambda>f. \<lparr>us_kind = UniqueField (cf_name f), us_fields = [cf_name f], us_name = cf_name f, us_by_expressions = False\<rparr>)
       (filter (\<lambda>f. cf_unique f \<and> \<not> cf_primary f) (ud_columns d)) @
     map (\<lambda>together. \<lparr>us_kind = Together together, us_fields = map (resolve_name m) together, us_name = [],
                        us_by_expressions = False\<rparr>) (ud_together d) @
     map (constraint_unique_set m) (ud_constraints d)"

definition allowlists :: "dj_model \<Rightarrow> allow_entry \<Rightarrow> unique_set \<Rightarrow> bool" where
  "allowlists m entry s =
     (case entry of
        AllowName n \<Rightarrow>
          us_name s \<noteq> [] \<and> n = us_name s \<or>
          \<not> us_by_expressions s \<and> resolve_name m ` {n} = set (us_fields s)
      | AllowFields ns \<Rightarrow> \<not> us_by_expressions s \<and> resolve_name m ` set ns = set (us_fields s))"

text \<open>The messages about the unique sets, and the entries that were used.\<close>

fun scan_unique ::
  "dj_model \<Rightarrow> string \<Rightarrow> allow_entry list \<Rightarrow> unique_set list \<Rightarrow> allow_entry set \<Rightarrow> check_msg list \<times> allow_entry set" where
  "scan_unique m tfield entries [] taken = ([], taken)"
| "scan_unique m tfield entries (s # ss) taken =
     (if tfield \<in> set (us_fields s) then scan_unique m tfield entries ss taken
      else let matched = filter (\<lambda>e. allowlists m e s) entries
           in if matched \<noteq> [] then scan_unique m tfield entries ss (taken \<union> set matched)
              else case scan_unique m tfield entries ss taken of
                (ms, taken') \<Rightarrow> (W012 (model_label m) (us_kind s) tfield # ms, taken'))"

definition unique_across_tenants_warnings :: "unique_decls \<Rightarrow> dj_model \<Rightarrow> string \<Rightarrow> allow_entry list \<Rightarrow> check_msg list" where
  "unique_across_tenants_warnings d m tfield entries =
     (case scan_unique m tfield entries (unique_sets m d) {} of
        (ms, taken) \<Rightarrow> ms @ map (W012_entry (model_label m)) (filter (\<lambda>e. e \<notin> taken) entries))"

definition entries_for :: "(string \<times> allow_entry list) list \<Rightarrow> string \<Rightarrow> allow_entry list" where
  "entries_for allowlist label = concat (map snd (filter (\<lambda>(l, _). lower l = label) allowlist))"

definition unique_checked :: "'w check_env \<Rightarrow> dj_model list" where
  "unique_checked env =
     filter (\<lambda>m. get_tenant_fk_field (ce_models_cfg env) m \<noteq> None \<and> \<not> dm_proxy m) (installed env)"

definition check_unique_across_tenants :: "'w check_env \<Rightarrow> check_msg list" where
  "check_unique_across_tenants env =
     concat (map (\<lambda>m. case Option.bind (get_tenant_fk_field (ce_models_cfg env) m) (field_named m) of
         None \<Rightarrow> []
       | Some f \<Rightarrow> unique_across_tenants_warnings (ce_decls env (model_label m)) m (fd_name f)
                     (entries_for (ce_unique_across env) (label_lower m))) (unique_checked env)) @
     map W012_label (filter (\<lambda>label. lower label \<notin> label_lower ` set (unique_checked env)) (map fst (ce_unique_across env)))"

subsection \<open>All of them\<close>

definition check_rls_config :: "'w check_env \<Rightarrow> ('w, check_msg list) py" where
  "check_rls_config env =
     py_bind (check_superuser_connection env) (\<lambda>roles.
     py_bind (check_policy_guc_defaults env) (\<lambda>defaults.
     py_bind (py_lift (check_tenant_model_resolves env)) (\<lambda>tenant_model.
     py_bind (py_lift (check_external_models env)) (\<lambda>external.
     py_bind (py_lift (check_extra_predicates env)) (\<lambda>predicates.
       py_ret (roles @ defaults @ check_guc_prefix_mismatch env @ check_conn_max_age env @ check_pool_without_reset env @
         check_databases_alias_exists env @ tenant_model @ check_tenant_fk_field_exists env @
         check_unique_across_tenants env @ check_protected_models_have_constraint env @ check_strict_mode_exclude env @
         external @ predicates))))))"

subsection \<open>Unique sets\<close>

lemma scan_unique_eq:
  "scan_unique m t entries ss taken =
     (map (\<lambda>s. W012 (model_label m) (us_kind s) t)
        (filter (\<lambda>s. t \<notin> set (us_fields s) \<and> \<not> (\<exists>e \<in> set entries. allowlists m e s)) ss),
      taken \<union> {e \<in> set entries. \<exists>s \<in> set ss. t \<notin> set (us_fields s) \<and> allowlists m e s})"
proof (induction ss arbitrary: taken)
  case (Cons s ss)
  show ?case
    by (auto simp: Let_def Cons.IH filter_empty_conv split: prod.split)
qed simp

lemma unique_warnings_eq:
  "unique_across_tenants_warnings d m t entries =
     map (\<lambda>s. W012 (model_label m) (us_kind s) t)
       (filter (\<lambda>s. t \<notin> set (us_fields s) \<and> \<not> (\<exists>e \<in> set entries. allowlists m e s)) (unique_sets m d)) @
     map (W012_entry (model_label m))
       (filter (\<lambda>e. \<not> (\<exists>s \<in> set (unique_sets m d). t \<notin> set (us_fields s) \<and> allowlists m e s)) entries)"
  by (simp add: unique_across_tenants_warnings_def scan_unique_eq cong: filter_cong)

definition scoped_model :: "'w check_env \<Rightarrow> dj_model \<Rightarrow> string \<Rightarrow> bool" where
  "scoped_model env m t \<longleftrightarrow> m \<in> set (installed env) \<and> \<not> dm_proxy m \<and>
     (\<exists>fk f. get_tenant_fk_field (ce_models_cfg env) m = Some fk \<and> field_named m fk = Some f \<and> fd_name f = t)"


subsection \<open>Silence is a pass\<close>

lemma over_aliases_each:
  "over_aliases f als w = (Inr ms, w') \<Longrightarrow> al \<in> set als \<Longrightarrow> \<exists>w1 ma w2. f al w1 = (Inr ma, w2) \<and> set ma \<subseteq> set ms"
proof (induction als arbitrary: w ms)
  case (Cons a als)
  from Cons.prems(1) obtain ma w1 more where f: "f a w = (Inr ma, w1)" and rest: "over_aliases f als w1 = (Inr more, w')"
    and ms: "ms = ma @ more"
    by (auto simp: py_ret_def elim!: py_bind_InrE)
  show ?case
  proof (cases "al = a")
    case True
    with f ms show ?thesis by auto
  next
    case False
    with Cons.IH [OF rest] Cons.prems(2) ms show ?thesis by fastforce
  qed
qed simp

lemma in_savepoint_rows:
  assumes "in_savepoint c w = (Inr rows, w')"
  shows "\<exists>w1 w2. cc_rows c w1 = (Inr rows, w2)"
  using assms unfolding in_savepoint_def
  by (auto simp: py_except_def py_seq_def py_bind_def py_raise_def py_ret_def split: prod.splits sum.splits if_splits option.splits)

lemma read_catalogue_cases:
  assumes run: "read_catalogue al c unconfirmed w = (Inr r, w')" and pg: "cc_postgresql c"
    and reachable: "\<And>w e w'. cc_cursor c w = (Inl e, w') \<Longrightarrow> \<not> cannot_connect e"
  shows "(\<exists>e. r = Undetermined (W013 al e unconfirmed)) \<or> (\<exists>rows w1 w2. r = Rows rows \<and> cc_rows c w1 = (Inr rows, w2))"
proof -
  obtain q w1 where q: "cc_cursor c w = (q, w1)" by (cases "cc_cursor c w")
  show ?thesis
  proof (cases q)
    case (Inl e)
    then show ?thesis using run pg q reachable by (auto simp: read_catalogue_def split: if_splits)
  next
    case (Inr u)
    obtain p w2 where p: "in_savepoint c w1 = (p, w2)" by (cases "in_savepoint c w1")
    then show ?thesis using run pg q Inr in_savepoint_rows [of c w1 _ w2]
      by (cases p) (auto simp: read_catalogue_def py_except_def py_bind_def py_ret_def split: if_splits)
  qed
qed

text \<open>
  C26. A database whose role bypasses row-level security is never passed over in silence: when the check returns and
  the alias is a configured PostgreSQL database that can be connected to, there is the warning (with \<^verbatim>\<open>DEBUG\<close>) or
  the error (without it) that names the role, or the warning that the check could not run.
\<close>

theorem bypassing_role_is_reported:
  assumes run: "check_superuser_connection env w = (Inr ms, w')"
    and configured: "al \<in> set (databases (ce_cfg env))" "map_of (ce_databases env) al \<noteq> None"
    and reachable: "cc_postgresql (ce_roles env al)" "\<And>w e w'. cc_cursor (ce_roles env al) w = (Inl e, w') \<Longrightarrow> \<not> cannot_connect e"
    and answer: "\<And>w rows w'. cc_rows (ce_roles env al) w = (Inr rows, w') \<Longrightarrow> rows = [(role, super, bypass)]"
    and bypasses: "super \<or> bypass"
  shows "(\<exists>e. W013 al e ''W005 and E001'' \<in> set ms) \<or>
         (if ce_debug env then W005 al role super bypass else E001 al role super bypass) \<in> set ms"
proof -
  have "al \<in> set (checked_aliases env)" using configured by (simp add: checked_aliases_def)
  from over_aliases_each [OF run [unfolded check_superuser_connection_def] this]
  obtain w1 ma w2 where ma: "py_bind (read_catalogue al (ce_roles env al) ''W005 and E001'')
      (\<lambda>found. py_ret (role_messages (ce_debug env) al found)) w1 = (Inr ma, w2)" "set ma \<subseteq> set ms" by blast
  then obtain r w3 where r: "read_catalogue al (ce_roles env al) ''W005 and E001'' w1 = (Inr r, w3)"
    and m: "ma = role_messages (ce_debug env) al r" by (auto simp: py_ret_def elim!: py_bind_InrE)
  from read_catalogue_cases [OF r reachable] show ?thesis
  proof
    assume "\<exists>e. r = Undetermined (W013 al e ''W005 and E001'')"
    then show ?thesis using m ma(2) by (auto simp: role_messages_def)
  next
    assume "\<exists>rows w1 w2. r = Rows rows \<and> cc_rows (ce_roles env al) w1 = (Inr rows, w2)"
    then have "r = Rows [(role, super, bypass)]" using answer by blast
    then show ?thesis using m ma(2) bypasses by (auto simp: role_messages_def split: if_splits)
  qed
qed

subsection \<open>The sharing policies\<close>

lemma quoted_error: "quoted x = Inl e \<Longrightarrow> e = ValueError"
  by (simp add: quoted_def split: if_splits)

lemma foreign_key_error: "foreign_key m x = Inl e \<Longrightarrow> e = ValueError"
  by (auto simp: foreign_key_def split: option.splits field_meta.splits)

lemma policy_sql_error: "policy_sql apps m v p = Inl e \<Longrightarrow> e = ValueError"
  by (cases p) (auto simp: shared_with_sql_def tenant_field_sql_def ck_bind_eq_Inl quoted_error foreign_key_error
      split: option.splits if_splits)

text \<open>Whether a predicate can be built does not depend on the value it compares with.\<close>

lemma policy_sql_value: "(\<exists>s. policy_sql apps m v p = Inr s) \<longleftrightarrow> (\<exists>s. policy_sql apps m v' p = Inr s)"
  by (cases p) (auto simp: shared_with_sql_def tenant_field_sql_def ck_bind_eq_Inr split: option.splits if_splits)

lemma map_checked_set: "map_checked f xs = Inr ys \<Longrightarrow> y \<in> set ys \<longleftrightarrow> (\<exists>x \<in> set xs. f x = Inr y)"
  by (induction xs arbitrary: ys) auto

lemma w019_not_W017: "w019 env m p owner field tm = Inr (Some w) \<Longrightarrow> w \<noteq> W017 l q"
  by (auto simp: w019_def split: option.splits if_splits)

lemma predicate_warning_W017:
  "predicate_warning env tm m p = Inr (Some (W017 l q)) \<longleftrightarrow>
     l = model_label m \<and> q = p \<and> \<not> (\<exists>s. policy_sql (ce_registry env) (ce_meta env m) ''NULL'' p = Inr s)"
proof (cases "policy_sql (ce_registry env) (ce_meta env m) ''NULL'' p")
  case (Inl e)
  then show ?thesis using policy_sql_error [OF Inl] by (auto simp: predicate_warning_def)
next
  case (Inr s)
  then show ?thesis
    by (auto simp: predicate_warning_def Let_def dest: w019_not_W017 split: predicate.splits option.splits if_splits)
qed

lemma predicate_warning_not_name: "predicate_warning env tm m p \<noteq> Inr (Some (W017_name l))"
  by (auto simp: predicate_warning_def w019_def Let_def split: sum.splits predicate.splits option.splits if_splits)

lemma model_warnings_W017:
  assumes "model_predicate_warnings env tm m = Inr ms"
  shows "W017_name l \<in> set ms \<longleftrightarrow> l = model_label m \<and> \<not> dm_proxy m \<and> sharing_policy_name_problem (dm_table m) \<and>
           (\<exists>c. first_policy (dm_constraints m) = Some c \<and> rc_extra_predicates c \<noteq> [])"
    and "W017 l p \<in> set ms \<longleftrightarrow> l = model_label m \<and> \<not> dm_proxy m \<and>
           (\<exists>c. first_policy (dm_constraints m) = Some c \<and> p \<in> set (rc_extra_predicates c)) \<and>
           \<not> (\<exists>s. policy_sql (ce_registry env) (ce_meta env m) ''NULL'' p = Inr s)"
proof -
  have some: "x \<in> set (List.map_filter (\<lambda>w. w) ws) \<longleftrightarrow> Some x \<in> set ws" for x :: check_msg and ws
    by (induction ws) (auto simp: map_filter_simps split: option.split)
  show "W017_name l \<in> set ms \<longleftrightarrow> l = model_label m \<and> \<not> dm_proxy m \<and> sharing_policy_name_problem (dm_table m) \<and>
           (\<exists>c. first_policy (dm_constraints m) = Some c \<and> rc_extra_predicates c \<noteq> [])"
    using assms by (auto simp: model_predicate_warnings_def some map_checked_set predicate_warning_not_name
        split: option.splits if_splits)
  show "W017 l p \<in> set ms \<longleftrightarrow> l = model_label m \<and> \<not> dm_proxy m \<and>
           (\<exists>c. first_policy (dm_constraints m) = Some c \<and> p \<in> set (rc_extra_predicates c)) \<and>
           \<not> (\<exists>s. policy_sql (ce_registry env) (ce_meta env m) ''NULL'' p = Inr s)"
    using assms by (auto simp: model_predicate_warnings_def some map_checked_set predicate_warning_W017
        split: option.splits if_splits)
qed


subsection \<open>What the checks miss\<close>

text \<open>
  Without a \<^verbatim>\<open>TENANT_MODEL\<close> the checks never return: the check of the extra predicates reads the setting and, unlike
  the others, does not catch its error.
\<close>

lemma checks_need_tenant_model:
  assumes "ce_tenant_model env = Inl RLSConfigurationError"
  shows "check_rls_config env w \<noteq> (Inr ms, w')"
proof -
  have "check_extra_predicates env = Inl RLSConfigurationError"
    using assms by (simp add: check_extra_predicates_def predicates_tenant_model_def)
  then show ?thesis
    by (auto simp: check_rls_config_def py_lift_def py_bind_def py_raise_def split: prod.splits sum.splits)
qed

text \<open>
  The labels of \<^verbatim>\<open>UNIQUE_ACROSS_TENANTS\<close> are lowered as a whole, a model's only from the dot on: no entry is ever
  found for a model whose app label has a capital letter.
\<close>

lemma lower_idem: "lower (lower s) = lower s"
proof -
  have "ascii_lower (ascii_lower c) = ascii_lower c" for c
    by (simp add: ascii_lower_def Let_def)
  then show ?thesis by (simp add: lower_def)
qed

lemma no_entries_for_capital_app:
  assumes "lower (dm_app m) \<noteq> dm_app m"
  shows "entries_for allowlist (label_lower m) = []"
proof -
  have "lower l \<noteq> label_lower m" for l
  proof
    assume "lower l = label_lower m"
    then have "lower (label_lower m) = label_lower m" using lower_idem [of l] by simp
    then show False using assms by (auto simp: label_lower_def lower_def)
  qed
  then show ?thesis by (auto simp: entries_for_def filter_empty_conv)
qed

subsection \<open>One concrete project\<close>

text \<open>A project with one protected model, on one database reached as a superuser, inside a transaction.\<close>

definition demo_order :: dj_model where
  "demo_order = demo_model ''Order'' [TenantPolicy sample_constraint] [demo_fk ''tenant'' ''app.Tenant'' 1] [] False"

definition demo_check_env :: "unit check_env" where
  "demo_check_env = \<lparr>ce_cfg = demo_cfg False, ce_models_cfg = demo_model_cfg, ce_tenant_model = Inr ''app.Tenant'',
     ce_excluded = [], ce_unique_across = [], ce_debug = False,
     ce_databases = [(''default'', \<lparr>db_max_age = Seconds 0, db_pool = NotPooled\<rparr>)],
     ce_apps = \<lparr>ap_models = [''app.Order'' \<mapsto> demo_order], ap_listed = [''app.Order'']\<rparr>, ce_all_models = [demo_order],
     ce_get_model = (\<lambda>_. None),
     ce_decls = (\<lambda>_. \<lparr>ud_columns = [\<lparr>cf_name = ''number'', cf_unique = True, cf_primary = False\<rparr>], ud_together = [],
       ud_constraints = [], ud_swapped = None\<rparr>),
     ce_registry = empty_registry, ce_meta = (\<lambda>m. sample_model\<lparr>m_table := dm_table m\<rparr>),
     ce_roles = (\<lambda>_. \<lparr>cc_postgresql = True, cc_cursor = py_ret (), cc_savepoint = py_ret (Some ''s1''),
       cc_savepoint_rollback = (\<lambda>_. py_ret ()), cc_savepoint_commit = (\<lambda>_. py_ret ()),
       cc_rows = py_ret [(''postgres'', True, False)]\<rparr>),
     ce_defaults = (\<lambda>_. \<lparr>cc_postgresql = True, cc_cursor = py_ret (), cc_savepoint = py_ret None,
       cc_savepoint_rollback = (\<lambda>_. py_ret ()), cc_savepoint_commit = (\<lambda>_. py_ret ()), cc_rows = py_ret []\<rparr>)\<rparr>"

lemma demo_superuser_checked:
  "check_superuser_connection demo_check_env () = (Inr [E001 ''default'' ''postgres'' True False], ())"
  by (simp add: check_superuser_connection_def checked_aliases_def demo_check_env_def demo_cfg_def read_catalogue_def
      in_savepoint_def role_messages_def py_except_def py_seq_def py_bind_def py_ret_def)

lemma demo_roles:
  "''default'' \<in> set (databases (ce_cfg demo_check_env))" "map_of (ce_databases demo_check_env) ''default'' \<noteq> None"
  "cc_postgresql (ce_roles demo_check_env ''default'')" "\<not> ce_debug demo_check_env"
  "cc_cursor (ce_roles demo_check_env ''default'') w = (Inl e, w') \<Longrightarrow> \<not> cannot_connect e"
  "cc_rows (ce_roles demo_check_env ''default'') w = (Inr rows, w') \<Longrightarrow> rows = [(''postgres'', True, False)]"
  by (simp_all add: demo_check_env_def demo_cfg_def py_ret_def)

lemma bypassing_role_is_reported_witness:
  "\<exists>ms w'. check_superuser_connection demo_check_env () = (Inr ms, w') \<and>
     ((\<exists>e. W013 ''default'' e ''W005 and E001'' \<in> set ms) \<or> E001 ''default'' ''postgres'' True False \<in> set ms)"
  using bypassing_role_is_reported [OF demo_superuser_checked demo_roles(1-3,5,6)] demo_superuser_checked demo_roles(4) by auto

lemma demo_check_facts:
  "installed demo_check_env = [demo_order]" "predicates_tenant_model demo_check_env = Inr None"
  "first_policy (dm_constraints demo_order) = Some sample_constraint" "\<not> dm_proxy demo_order"
  "ce_registry demo_check_env = empty_registry" "ce_meta demo_check_env m = sample_model\<lparr>m_table := dm_table m\<rparr>"
  by (simp_all add: installed_def map_filter_simps predicates_tenant_model_def demo_check_env_def demo_order_def demo_model_def)

lemma demo_predicates_checked: "check_extra_predicates demo_check_env = Inr []"
proof -
  have "dm_table demo_order = ''app_Order''" by (simp add: demo_order_def demo_model_def)
  then have "\<exists>t. policy_sql empty_registry (sample_model\<lparr>m_table := dm_table demo_order\<rparr>) ''NULL'' (TenantField ''partner'') = Inr t"
    by (simp add: tenant_field_sql_def foreign_key_def unsafe_identifier_chars_def sample_model_def)
  then obtain t where "policy_sql empty_registry (sample_model\<lparr>m_table := dm_table demo_order\<rparr>) ''NULL'' (TenantField ''partner'') = Inr t"
    by blast
  then have "predicate_warning demo_check_env None demo_order (TenantField ''partner'') = Inr None"
    by (simp add: predicate_warning_def demo_check_facts w019_def del: policy_sql.simps)
  moreover have "\<not> sharing_policy_name_problem (dm_table demo_order)"
    by (simp add: sharing_policy_name_problem_def max_identifier_bytes_def policy_name_common_prefix_def demo_order_def demo_model_def)
  ultimately have "model_predicate_warnings demo_check_env None demo_order = Inr []"
    by (simp add: model_predicate_warnings_def demo_check_facts sample_constraint_def map_filter_simps)
  then show ?thesis by (simp add: check_extra_predicates_def demo_check_facts)
qed


end
