(* ===== verification/Drf_Views.thy ===== *)
theory Drf_Views
  imports Open_Context Selection
begin

text \<open>
  \<^verbatim>\<open>contrib/drf.py\<close>, the views: the mixin that runs an API view in the context of the user DRF authenticates, and the
  permission class.  DRF's own code is an argument: the authentication, \<^verbatim>\<open>APIView.dispatch\<close> around it (\<open>serve\<close>) and
  the rendering of a response.  A view may override \<^verbatim>\<open>get_rls_context\<close>, so the context it chooses is an argument
  too.  The warning logged beside an audit record is left out.
\<close>

subsection \<open>Views\<close>

text \<open>
  A view serving a request: the request, with the user DRF authenticated, the affinity world, and the three
  attributes of the mixin.  The exit stack holds what is left of the contexts entered, the last one first.
\<close>

record 'd api =
  v_request :: request
  v_aff :: "'d aff"
  v_exit_stack :: "'d closing list option"
  v_context_entered :: bool
  v_entered_context :: "nat option"

text \<open>\<open>vs_aliases\<close>: the aliases of this thread's connections.\<close>

record 'd api_site =
  vs_site :: "'d site"
  vs_sel :: sel_cfg
  vs_aliases :: "string list"

type_synonym 'd chosen = "(origin \<Rightarrow> ('d aff, 'd closing) py) option"

definition view_state :: "'d api \<Rightarrow> rls_state" where
  "view_state w = a_state (v_aff w)"

definition on_view :: "('d aff, 'a) py \<Rightarrow> ('d api, 'a) py" where
  "on_view m = (\<lambda>w. case m (v_aff w) of (r, a) \<Rightarrow> (r, w\<lparr>v_aff := a\<rparr>))"

definition on_view_request :: "(request sel_world, 'a) py \<Rightarrow> ('d api, 'a) py" where
  "on_view_request m = (\<lambda>w. case m \<lparr>sw_request = v_request w, sw_log = a_audit (v_aff w)\<rparr> of
     (r, v) \<Rightarrow> (r, w\<lparr>v_request := sw_request v, v_aff := (v_aff w)\<lparr>a_audit := sw_log v\<rparr>\<rparr>))"

definition view_denied ::
  "'d api_site \<Rightarrow> string \<Rightarrow> tenant_id option \<Rightarrow> tenant_id option \<Rightarrow> bool option \<Rightarrow> audit_fields \<Rightarrow> ('d api, unit) py" where
  "view_denied vs reason user tenant admin details =
     on_view (py_modify (\<lambda>a. a\<lparr>a_audit := denied (st_audits (vs_site vs)) ''drf'' reason user tenant admin details (a_audit a)\<rparr>))"

text \<open>\<^verbatim>\<open>rest_framework.exceptions.PermissionDenied\<close>, a 403.\<close>

definition drf_permission_denied :: exn where
  "drf_permission_denied = OtherError ''rest_framework.PermissionDenied''"

definition context_gucs_for :: "('z) request_user_scheme \<Rightarrow> tenant_id option \<Rightarrow> context_gucs option" where
  "context_gucs_for user tenant =
     (if u_is_admin user then Some admin_gucs
      else map_option gucs_for_tenant (case tenant of None \<Rightarrow> u_tenant user | Some t \<Rightarrow> Some t))"

definition rollback_pending :: "'d api_site \<Rightarrow> 'd aff \<Rightarrow> bool" where
  "rollback_pending vs a \<longleftrightarrow>
     list_ex (\<lambda>al. db_in_atomic (st_cursor (vs_site vs)) al a \<and>
                   (case a_conns a al of None \<Rightarrow> False | Some cn \<Rightarrow> cn_needs_rollback cn)) (vs_aliases vs)"

text \<open>\<^verbatim>\<open>request.user\<close>, if DRF authenticated it.\<close>

definition authenticated_user :: "('z) request_scheme \<Rightarrow> request_user option" where
  "authenticated_user r =
     (case rq_user r of None \<Rightarrow> None | Some user \<Rightarrow> if ru_authenticated user then Some user else None)"

text \<open>\<^verbatim>\<open>__init_subclass__\<close>: \<open>mro\<close> is the new class's, by name.\<close>

definition list_index :: "'a \<Rightarrow> 'a list \<Rightarrow> nat" where
  "list_index x xs = length (takeWhile (\<lambda>y. y \<noteq> x) xs)"

definition init_subclass :: "string list \<Rightarrow> unit checked" where
  "init_subclass mro =
     (if ''APIView'' \<in> set mro \<and> list_index ''APIView'' mro < list_index ''RLSTenantAPIViewMixin'' mro
      then Inl RLSConfigurationError else Inr ())"

subsection \<open>The context of a request\<close>

definition view_tenant :: "'d api_site \<Rightarrow> request_user \<Rightarrow> ('d api, tenant_id option) py" where
  "view_tenant vs user =
     (if selects_tenants user
      then py_except (on_view_request (request_tenant_id (vs_sel vs) user ''drf'')) (\<lambda>e. e = permission_denied)
             (\<lambda>_. py_raise drf_permission_denied)
      else py_ret (u_tenant user))"

text \<open>\<^verbatim>\<open>tenant_context(tenant_id)\<close>, where the tenant may be missing.\<close>

definition open_tenant_or_refuse :: "'d site \<Rightarrow> tenant_id option \<Rightarrow> origin \<Rightarrow> ('d aff, 'd closing) py" where
  "open_tenant_or_refuse st tenant origin =
     (case tenant of None \<Rightarrow> refuse_tenant_id_none st origin | Some t \<Rightarrow> open_tenant st t origin)"

definition get_rls_context :: "'d api_site \<Rightarrow> ('d api, 'd chosen) py" where
  "get_rls_context vs = (\<lambda>w.
     case authenticated_user (v_request w) of
       None \<Rightarrow> (Inr None, w)
     | Some user \<Rightarrow>
         py_bind (view_tenant vs user) (\<lambda>tenant w1.
           case context_gucs_for user tenant of
             None \<Rightarrow> py_seq (view_denied vs ''user_without_tenant'' (u_pk user) None None []) (py_raise drf_permission_denied) w1
           | Some wanted \<Rightarrow>
               (if get_context_gucs (view_state w1) = Some wanted then (Inr None, w1)
                else if wanted = admin_gucs then (Inr (Some (open_admin (vs_site vs))), w1)
                else (Inr (Some (open_tenant_or_refuse (vs_site vs) tenant)), w1))) w)"

definition perform_authentication ::
  "('d api, unit) py \<Rightarrow> ('d api, 'd chosen) py \<Rightarrow> ('d api, unit) py" where
  "perform_authentication authenticate pick =
     py_seq authenticate (\<lambda>w.
       case v_exit_stack w of
         None \<Rightarrow> (Inr (), w)
       | Some _ \<Rightarrow>
           py_bind pick (\<lambda>c.
             case c of
               None \<Rightarrow> py_ret ()
             | Some context \<Rightarrow>
                 py_bind (py_get (\<lambda>w. (current_live (view_state w), user_id_of (v_request w)))) (\<lambda>(enclosing, user_id).
                 py_bind (on_view (attributed context (Some ''drf'') user_id)) (\<lambda>close.
                   py_modify (\<lambda>w.
                     let entered = current_live (view_state w)
                     in w\<lparr>v_exit_stack := map_option (\<lambda>cs. close # cs) (v_exit_stack w), v_context_entered := True,
                          v_entered_context := (if entered \<noteq> enclosing then entered else v_entered_context w)\<rparr>)))) w)"

text \<open>\<^verbatim>\<open>ExitStack.__exit__\<close>: the contexts are left in reverse order; one that raises replaces the outcome.\<close>

fun leave_all :: "'d closing list \<Rightarrow> exn + 'a \<Rightarrow> ('d aff, 'a) py" where
  "leave_all [] r = (\<lambda>w. (r, w))"
| "leave_all (c # cs) r = (\<lambda>w. case close_with c r w of (r', w1) \<Rightarrow> leave_all cs r' w1)"

definition reset_view :: "'d api \<Rightarrow> 'd api" where
  "reset_view w = w\<lparr>v_exit_stack := None, v_context_entered := False, v_entered_context := None\<rparr>"

text \<open>
  What \<^verbatim>\<open>dispatch\<close> does inside its \<^verbatim>\<open>try\<close>: \<open>serve\<close> is \<^verbatim>\<open>APIView.dispatch\<close>, which calls back to authenticate;
  \<open>patch_vary\<close>, \<open>is_template\<close> and \<open>render\<close> are of the response.
\<close>

definition serve_request ::
  "'d api_site \<Rightarrow> (string \<Rightarrow> 'r \<Rightarrow> 'r) \<Rightarrow> ('r \<Rightarrow> bool) \<Rightarrow> ('r \<Rightarrow> ('d api, 'r) py) \<Rightarrow> ('d api, 'r) py \<Rightarrow> ('d api, 'r) py" where
  "serve_request vs patch_vary is_template render handled =
     py_bind handled (\<lambda>response w.
       let varied = vary_on_tenant_header patch_vary (v_request w) response
       in if v_context_entered w \<and> is_template varied \<and> \<not> rollback_pending vs (v_aff w) then render varied w
          else (Inr varied, w))"

definition dispatch ::
  "'d api_site \<Rightarrow> (string \<Rightarrow> 'r \<Rightarrow> 'r) \<Rightarrow> ('r \<Rightarrow> bool) \<Rightarrow> ('r \<Rightarrow> ('d api, 'r) py) \<Rightarrow> ('d api, unit) py \<Rightarrow>
     ('d api, 'd chosen) py \<Rightarrow> (('d api, unit) py \<Rightarrow> ('d api, 'r) py) \<Rightarrow> ('d api, 'r) py" where
  "dispatch vs patch_vary is_template render authenticate pick serve = (\<lambda>w.
     case serve_request vs patch_vary is_template render (serve (perform_authentication authenticate pick))
            (w\<lparr>v_exit_stack := Some []\<rparr>) of
       (r, w1) \<Rightarrow>
         on_view (leave_all (case v_exit_stack w1 of None \<Rightarrow> [] | Some cs \<Rightarrow> cs) r) (reset_view w1))"

subsection \<open>The permission\<close>

definition has_permission :: "'d api_site \<Rightarrow> bool \<Rightarrow> ('d api, bool) py" where
  "has_permission vs is_mixin = (\<lambda>w.
     case authenticated_user (v_request w) of
       None \<Rightarrow> (Inr False, w)
     | Some user \<Rightarrow>
         (case get_context_gucs (view_state w) of
            None \<Rightarrow> py_seq (view_denied vs ''no_context'' (u_pk user) None None []) (py_ret False) w
          | Some active \<Rightarrow>
              let refuse_it = py_seq (view_denied vs ''context_mismatch'' (u_pk user) (get_current_tenant_id (view_state w))
                                        (Some (active = admin_gucs)) []) (py_ret False)
              in if u_is_admin user \<or> Some active = context_gucs_for user None then (Inr True, w)
                 else if active = admin_gucs then refuse_it w
                 else if is_mixin \<and> v_entered_context w \<noteq> None \<and> v_entered_context w = current_live (view_state w) then (Inr True, w)
                 else if selects_tenants user
                 then (case may_select (vs_sel vs) user (TStr (g_current_tenant active)) of
                    Inl e \<Rightarrow> (Inl e, w)
                  | Inr None \<Rightarrow> refuse_it w
                  | Inr (Some _) \<Rightarrow> (Inr True, w))
                 else refuse_it w))"

text \<open>An object: its label, and what its tenant foreign key holds (\<open>None\<close>: it is no model instance, or has none).\<close>

record api_object =
  po_label :: string
  po_tenant :: "tenant_id option option"

definition has_object_permission :: "'d api_site \<Rightarrow> api_object \<Rightarrow> ('d api, bool) py" where
  "has_object_permission vs obj = (\<lambda>w.
     let user_id = user_id_of (v_request w) in
     case get_context_gucs (view_state w) of
       None \<Rightarrow> py_seq (view_denied vs ''no_context'' user_id None None []) (py_ret False) w
     | Some active \<Rightarrow>
         (if active = admin_gucs then (Inr True, w)
          else case po_tenant obj of
            None \<Rightarrow> (Inr True, w)
          | Some value \<Rightarrow>
              (if map_option tenant_str value = Some (g_current_tenant active) then (Inr True, w)
               else py_seq (view_denied vs ''object_of_other_tenant'' user_id (get_current_tenant_id (view_state w)) (Some False)
                              [(''model'', Some (AStr (po_label obj)))]) (py_ret False) w)))"

subsection \<open>A dispatched request gives back the context\<close>

text \<open>
  Code of the view: it is scoped, it leaves the exit stack alone, and before a context is entered in the stack it
  gives back the context variables.  Inside an entered context it may set them as it likes.
\<close>

definition own_step :: "'d api \<Rightarrow> 'd api \<Rightarrow> bool" where
  "own_step w w' \<longleftrightarrow> scoped (view_state w) (view_state w') \<and> v_exit_stack w' = v_exit_stack w \<and>
     (v_exit_stack w = Some [] \<longrightarrow> balanced (view_state w) (view_state w'))"

definition own_code :: "('d api, 'a) py \<Rightarrow> bool" where
  "own_code m \<longleftrightarrow> (\<forall>w. state_ok (view_state w) \<longrightarrow> own_step w (snd (m w)))"

text \<open>\<^verbatim>\<open>APIView.dispatch\<close> is made of such code and of calls of \<^verbatim>\<open>perform_authentication\<close>: what both keep, it keeps.\<close>

definition calls_back :: "(('d api, unit) py \<Rightarrow> ('d api, 'r) py) \<Rightarrow> bool" where
  "calls_back serve \<longleftrightarrow> (\<forall>auth I w.
     (\<forall>w. I w \<longrightarrow> I (snd (auth w))) \<longrightarrow> (\<forall>w w'. I w \<longrightarrow> own_step w w' \<longrightarrow> I w') \<longrightarrow>
     (\<forall>w. I w \<longrightarrow> state_ok (view_state w)) \<longrightarrow> I w \<longrightarrow> I (snd (serve auth w)))"

definition picks_context :: "('d api, 'd chosen) py \<Rightarrow> bool" where
  "picks_context pick \<longleftrightarrow> own_code pick \<and>
     (\<forall>w c origin. state_ok (view_state w) \<longrightarrow> fst (pick w) = Inr (Some c) \<longrightarrow> gives_back (c origin))"

lemma calls_backD:
  assumes "calls_back serve" "\<And>w. I w \<Longrightarrow> I (snd (auth w))" "\<And>w w'. I w \<Longrightarrow> own_step w w' \<Longrightarrow> I w'"
    "\<And>w. I w \<Longrightarrow> state_ok (view_state w)" "I w"
  shows "I (snd (serve auth w))"
proof -
  note assms(1) [unfolded calls_back_def, THEN spec [of _ auth], THEN spec [of _ I], THEN spec [of _ w], THEN mp, THEN mp,
      THEN mp, THEN mp]
  then show ?thesis using assms(2-) by blast
qed

text \<open>The contexts of an exit stack, entered one in the other from \<open>s\<close>, with \<open>t\<close> in the innermost.\<close>

fun held :: "rls_state \<Rightarrow> 'd closing list \<Rightarrow> rls_state \<Rightarrow> bool" where
  "held s [] t = balanced s t"
| "held s (c # cs) t = (\<exists>m m'. held s cs m \<and> scoped m m' \<and> scoped m' t \<and>
     (\<forall>r w. scoped m' (a_state w) \<longrightarrow> balanced m (a_state (snd (c r w)))))"

lemma balanced_then: "balanced s t \<Longrightarrow> balanced t u \<Longrightarrow> balanced s u"
  by (auto simp: balanced_def intro: scoped_trans)

lemma held_step: "held s cs t \<Longrightarrow> scoped t u \<Longrightarrow> (cs = [] \<Longrightarrow> balanced t u) \<Longrightarrow> held s cs u"
  by (cases cs) (auto intro: balanced_then scoped_trans)

lemma held_ok: "held s cs t \<Longrightarrow> state_ok t"
  by (cases cs) (auto simp: balanced_def dest: scoped_state_ok)

lemma snd_close_with: "snd (close_with c r w) = snd (c (map_sum id (\<lambda>_. ()) r) w)"
  by (simp add: close_with_def split: prod.split sum.split)

lemma leave_all_balanced: "held s cs (a_state w) \<Longrightarrow> balanced s (a_state (snd (leave_all cs r w)))"
proof (induction cs r arbitrary: w rule: leave_all.induct)
  case (2 c cs r)
  obtain r' w1 where c: "close_with c r w = (r', w1)" by (cases "close_with c r w")
  obtain m where m: "held s cs m" "balanced m (a_state w1)"
    using 2(2) snd_close_with [of c r w] c by auto
  have "held s cs (a_state w1)" using m by (auto intro: held_step simp: balanced_def)
  then show ?case using 2(1) [OF c [symmetric]] c by simp
qed simp

definition stacked :: "rls_state \<Rightarrow> 'd api \<Rightarrow> bool" where
  "stacked s w \<longleftrightarrow> (\<exists>cs. v_exit_stack w = Some cs \<and> held s cs (view_state w))"

lemma stacked_ok: "stacked s w \<Longrightarrow> state_ok (view_state w)"
  by (auto simp: stacked_def dest: held_ok)

lemma stacked_step: "stacked s w \<Longrightarrow> own_step w w' \<Longrightarrow> stacked s w'"
  by (auto simp: stacked_def own_step_def intro: held_step)

lemma stacked_own: "own_code m \<Longrightarrow> stacked s w \<Longrightarrow> stacked s (snd (m w))"
  using stacked_ok stacked_step by (metis own_code_def)

lemma stacked_authentication:
  assumes auth: "own_code authenticate" and pick: "picks_context pick" and w: "stacked s w"
  shows "stacked s (snd (perform_authentication authenticate pick w))"
proof -
  obtain r1 w1 where r1: "authenticate w = (r1, w1)" by (cases "authenticate w")
  have w1: "stacked s w1" using stacked_own [OF auth w] r1 by simp
  obtain r2 w2 where r2: "pick w1 = (r2, w2)" by (cases "pick w1")
  have w2: "stacked s w2" using stacked_own [OF _ w1, of pick] r2 pick by (simp add: picks_context_def)
  obtain cs where cs: "v_exit_stack w2 = Some cs" "held s cs (view_state w2)" using w2 by (auto simp: stacked_def)
  have some: "v_exit_stack w1 \<noteq> None" using w1 by (auto simp: stacked_def)
  show ?thesis
  proof (cases "\<exists>c. r1 = Inr () \<and> r2 = Inr (Some c)")
    case False
    obtain cs1 where cs1: "v_exit_stack w1 = Some cs1" using some by blast
    show ?thesis
    proof (cases r1)
      case (Inl e)
      then show ?thesis using r1 w1 by (simp add: perform_authentication_def py_seq_def py_bind_def)
    next
      case (Inr u)
      with False have "r2 \<noteq> Inr (Some c)" for c by simp
      then consider (raised) e where "r2 = Inl e" | (no_context) "r2 = Inr None"
        by (metis old.sum.exhaust option.exhaust)
      then show ?thesis using r1 r2 w2 cs1 Inr
        by cases (simp_all add: perform_authentication_def py_seq_def py_bind_def py_ret_def)
    qed
  next
    case True
    then obtain c where c: "r1 = Inr ()" "r2 = Inr (Some c)" by blast
    let ?o = "\<lparr>o_source = Some ''drf'', o_user = user_id_of (v_request w2)\<rparr>"
    obtain q a where q: "c ?o (v_aff w2) = (q, a)" by (cases "c ?o (v_aff w2)")
    have restores: "gives_back (c ?o)" using pick stacked_ok [OF w1] r2 c by (simp add: picks_context_def)
    have g: "case q of Inl _ \<Rightarrow> balanced (view_state w2) (a_state a)
        | Inr close_block \<Rightarrow> scoped (view_state w2) (a_state a) \<and>
          (\<forall>r v. scoped (a_state a) (a_state v) \<longrightarrow> balanced (view_state w2) (a_state (snd (close_block r v))))"
      using gives_backD [OF restores q stacked_ok [OF w2, unfolded view_state_def]] unfolding view_state_def .
    show ?thesis
    proof (cases q)
      case (Inl e)
      then have "held s cs (a_state a)" using g cs(2) by (auto intro: held_step simp: balanced_def)
      then show ?thesis using Inl q c r1 r2 some cs
        by (auto simp: perform_authentication_def py_seq_def py_bind_def py_simps on_view_def attributed_def
            stacked_def view_state_def)
    next
      case (Inr close_block)
      then have "held s (close_block # cs) (a_state a)"
        using g cs(2) scoped_refl [OF scoped_state_ok, of "view_state w2" "a_state a"] by auto
      then show ?thesis using Inr q c r1 r2 some cs
        by (auto simp: perform_authentication_def py_seq_def py_bind_def py_simps on_view_def attributed_def
            stacked_def view_state_def Let_def simp del: held.simps)
    qed
  qed
qed

text \<open>
  C13. A dispatched request gives back the context: whatever context the view picks for it (the default one or an
  override's that restores what it changes), however often it authenticates, and whether the view, the context or the
  rendering raises, the context variables after \<^verbatim>\<open>dispatch()\<close> are those before it, and the view holds nothing of the
  request.
\<close>

theorem dispatch_gives_back:
  assumes auth: "own_code authenticate" and pick: "picks_context pick" and serve: "calls_back serve"
    and render: "\<And>response. own_code (render response)" and w: "state_ok (view_state w)"
    and run: "dispatch vs patch_vary is_template render authenticate pick serve w = (r, w')"
  shows "balanced (view_state w) (view_state w') \<and>
         v_exit_stack w' = None \<and> \<not> v_context_entered w' \<and> v_entered_context w' = None"
proof -
  let ?s = "view_state w" and ?served = "serve (perform_authentication authenticate pick)"
  have w0: "stacked ?s (w\<lparr>v_exit_stack := Some []\<rparr>)"
    using w by (simp add: stacked_def view_state_def balanced_refl)
  obtain r1 w1 where r1: "?served (w\<lparr>v_exit_stack := Some []\<rparr>) = (r1, w1)"
    by (cases "?served (w\<lparr>v_exit_stack := Some []\<rparr>)")
  have "stacked ?s (snd (?served (w\<lparr>v_exit_stack := Some []\<rparr>)))"
    by (rule calls_backD [OF serve, where I = "stacked ?s"])
      (rule stacked_authentication [OF auth pick] stacked_step stacked_ok w0; assumption)+
  then have w1: "stacked ?s w1" using r1 by simp
  obtain r2 w2 where r2: "serve_request vs patch_vary is_template render ?served (w\<lparr>v_exit_stack := Some []\<rparr>) = (r2, w2)"
    by (cases "serve_request vs patch_vary is_template render ?served (w\<lparr>v_exit_stack := Some []\<rparr>)")
  have "w2 = w1 \<or> (\<exists>response. w2 = snd (render response w1))"
  proof (cases r1)
    case (Inl e)
    then show ?thesis using r1 r2 by (simp add: serve_request_def py_bind_def)
  next
    case (Inr response)
    let ?varied = "vary_on_tenant_header patch_vary (v_request w1) response"
    have "(r2, w2) = render ?varied w1 \<or> (r2, w2) = (Inr ?varied, w1)"
      using r1 r2 Inr by (auto simp: serve_request_def py_bind_def Let_def split: if_splits)
    then show ?thesis by (metis snd_conv)
  qed
  then have w2: "stacked ?s w2" using w1 stacked_own [OF render w1] by blast
  then obtain cs where cs: "v_exit_stack w2 = Some cs" "held ?s cs (a_state (v_aff w2))"
    by (auto simp: stacked_def view_state_def)
  show ?thesis using run r2 cs leave_all_balanced [OF cs(2), of r2]
    by (auto simp: dispatch_def on_view_def reset_view_def view_state_def split: prod.splits)
qed

subsection \<open>The default context is the user's\<close>

text \<open>The tenant of the request: the selected one, for a user who selects tenants.\<close>

definition tenant_of_request :: "'d api_site \<Rightarrow> request_user \<Rightarrow> ('z) request_scheme \<Rightarrow> tenant_id option checked" where
  "tenant_of_request vs user r =
     (if selects_tenants user then selected_tenant (vs_sel vs) user (selection (vs_sel vs) user r) else Inr (u_tenant user))"

text \<open>What the choice of a context leaves as it is.\<close>

definition same_view :: "'d api \<Rightarrow> 'd api \<Rightarrow> bool" where
  "same_view w w' \<longleftrightarrow> view_state w' = view_state w \<and> v_exit_stack w' = v_exit_stack w \<and>
     v_context_entered w' = v_context_entered w \<and> v_entered_context w' = v_entered_context w \<and>
     rq_user (v_request w') = rq_user (v_request w)"

lemma same_view_own: "same_view w w' \<Longrightarrow> state_ok (view_state w) \<Longrightarrow> own_step w w'"
  by (simp add: same_view_def own_step_def scoped_refl balanced_refl)

lemma same_view_user: "same_view w w' \<Longrightarrow> authenticated_user (v_request w') = authenticated_user (v_request w)"
  by (simp add: same_view_def authenticated_user_def)

lemma view_tenant_same: "same_view w (snd (view_tenant vs user w))"
proof -
  let ?m = "request_tenant_id (vs_sel vs) user ''drf''"
  let ?v = "\<lparr>sw_request = v_request w, sw_log = a_audit (v_aff w)\<rparr>"
  obtain r v where r: "?m ?v = (r, v)" by (cases "?m ?v")
  have "rq_user (sw_request v) = rq_user (v_request w)" using selection_keeps_user [of "vs_sel vs" user "''drf''" ?v] r by simp
  then show ?thesis using r
    by (cases r) (auto simp: view_tenant_def on_view_request_def py_except_def py_simps same_view_def view_state_def)
qed

lemma view_tenant_result:
  "fst (view_tenant vs user w) = Inr tenant \<longleftrightarrow> tenant_of_request vs user (v_request w) = Inr tenant"
proof -
  let ?m = "request_tenant_id (vs_sel vs) user ''drf''"
  let ?v = "\<lparr>sw_request = v_request w, sw_log = a_audit (v_aff w)\<rparr>"
  obtain r v where r: "?m ?v = (r, v)" by (cases "?m ?v")
  have "selected_tenant (vs_sel vs) user (selection (vs_sel vs) user (v_request w)) = r"
    using fst_request_tenant_id [of "vs_sel vs" user "''drf''" ?v] r by simp
  then show ?thesis using r
    by (cases r) (auto simp: view_tenant_def on_view_request_def py_except_def py_simps tenant_of_request_def)
qed

lemma view_denied_same: "same_view w (snd (view_denied vs reason user tenant admin details w))"
  by (simp add: view_denied_def on_view_def py_simps same_view_def view_state_def)

lemma get_rls_context_same: "same_view w (snd (get_rls_context vs w))"
proof (cases "authenticated_user (v_request w)")
  case (Some user)
  obtain r w1 where r: "view_tenant vs user w = (r, w1)" by (cases "view_tenant vs user w")
  have "same_view w w1" using view_tenant_same [of w vs user] r by simp
  then show ?thesis using r Some
    by (cases r) (auto simp: get_rls_context_def py_seq_def py_bind_def py_simps view_denied_def on_view_def same_view_def
        view_state_def split: option.split)
qed (simp add: get_rls_context_def same_view_def)

text \<open>What the view runs in: the values of the context of its user.\<close>

definition gucs_of_request :: "('z) request_user_scheme \<Rightarrow> tenant_id option \<Rightarrow> context_gucs option" where
  "gucs_of_request user tenant = (if u_is_admin user then Some admin_gucs else map_option gucs_for_tenant tenant)"

lemma context_gucs_for_tenant:
  assumes "tenant_of_request vs user r = Inr tenant"
  shows "context_gucs_for user tenant = gucs_of_request user tenant"
  using assms
  by (auto simp: tenant_of_request_def selected_tenant_def context_gucs_for_def gucs_of_request_def
      split: if_splits option.splits)

text \<open>The context the default picks, and when it picks none.\<close>

lemma get_rls_context_picks:
  assumes "get_rls_context vs w = (Inr c, w1)" "authenticated_user (v_request w) = Some user"
  obtains tenant where "tenant_of_request vs user (v_request w) = Inr tenant"
    "if get_context_gucs (view_state w) = gucs_of_request user tenant then c = None
     else if u_is_admin user then c = Some (open_admin (vs_site vs))
     else \<exists>t. tenant = Some t \<and> c = Some (open_tenant (vs_site vs) t)"
    "gucs_of_request user tenant \<noteq> None"
proof -
  obtain q w2 where q: "view_tenant vs user w = (q, w2)" by (cases "view_tenant vs user w")
  with assms obtain tenant where q': "q = Inr tenant"
    by (cases q) (auto simp: get_rls_context_def py_bind_def)
  have t: "tenant_of_request vs user (v_request w) = Inr tenant"
    using view_tenant_result [of vs user w tenant] q q' by simp
  have w2: "view_state w2 = view_state w" using view_tenant_same [of w vs user] q by (simp add: same_view_def)
  have c: "context_gucs_for user tenant = gucs_of_request user tenant" by (rule context_gucs_for_tenant [OF t])
  show thesis
  proof (rule that [OF t])
    show some: "gucs_of_request user tenant \<noteq> None"
      using assms q q' c
      by (cases "gucs_of_request user tenant")
        (simp_all add: get_rls_context_def py_bind_def py_seq_def py_simps view_denied_def on_view_def)
    then obtain g where g: "gucs_of_request user tenant = Some g" by blast
    show "if get_context_gucs (view_state w) = gucs_of_request user tenant then c = None
     else if u_is_admin user then c = Some (open_admin (vs_site vs))
     else \<exists>t. tenant = Some t \<and> c = Some (open_tenant (vs_site vs) t)"
      using assms q q' c g w2
      by (auto simp: get_rls_context_def py_bind_def gucs_of_request_def open_tenant_or_refuse_def fun_eq_iff
          split: if_splits)
  qed
qed

lemma get_rls_context_is_a_choice:
  assumes "site_ok (vs_site vs)"
  shows "picks_context (get_rls_context vs)"
  unfolding picks_context_def own_code_def
proof (intro conjI allI impI)
  show "own_step w (snd (get_rls_context vs w))" if "state_ok (view_state w)" for w
    by (rule same_view_own [OF get_rls_context_same that])
next
  fix w :: "'a api" and c origin
  assume c: "fst (get_rls_context vs w) = Inr (Some c)"
  obtain w1 where r: "get_rls_context vs w = (Inr (Some c), w1)" using c by (metis prod.collapse)
  then obtain user where user: "authenticated_user (v_request w) = Some user"
    by (cases "authenticated_user (v_request w)") (simp_all add: get_rls_context_def)
  show "gives_back (c origin)"
    by (rule get_rls_context_picks [OF r user])
      (auto split: if_splits intro: opens_gives_back opens_tenant opens_admin assms)
qed

lemma select_own_tenant:
  assumes "tenant_of_request vs user r = Inr (Some p)"
    and "sl_to_python (vs_sel vs) (TStr (tenant_str p)) = Inr (Some p)"
  shows "u_tenant user = Some p \<or> selects_tenants user \<and> may_select (vs_sel vs) user (TStr (tenant_str p)) = Inr (Some p)"
  using assms
  by (auto simp: tenant_of_request_def selected_tenant_def may_select_def split: if_splits option.splits sum.splits)

text \<open>
  C14. A view runs as its user: once \<^verbatim>\<open>perform_authentication()\<close> returns, the GUC values in force are those of a tenant
  admin for an admin, and otherwise those of the tenant of the request (a user without one does not get here), whatever
  context the request came in with; and \<^verbatim>\<open>RLSTenantPermission\<close> grants the request.
\<close>

theorem view_runs_as_its_user:
  assumes ok: "site_ok (vs_site vs)" and auth: "authenticate w = (Inr (), w1)"
    and w1: "v_exit_stack w1 \<noteq> None" "state_ok (view_state w1)"
    and user: "authenticated_user (v_request w1) = Some user"
    and read_back: "\<And>p. tenant_of_request vs user (v_request w1) = Inr (Some p) \<Longrightarrow>
      sl_to_python (vs_sel vs) (TStr (tenant_str p)) = Inr (Some p)"
    and run: "perform_authentication authenticate (get_rls_context vs) w = (Inr (), w2)"
  shows "(\<exists>tenant. tenant_of_request vs user (v_request w1) = Inr tenant \<and> gucs_of_request user tenant \<noteq> None \<and>
            get_context_gucs (view_state w2) = gucs_of_request user tenant) \<and>
         fst (has_permission vs True w2) = Inr True"
proof -
  obtain q v where q: "get_rls_context vs w1 = (q, v)" by (cases "get_rls_context vs w1")
  have v: "same_view w1 v" using get_rls_context_same [of w1 vs] q by simp
  obtain c where c: "q = Inr c"
    using run auth q w1 by (cases q) (auto simp: perform_authentication_def py_seq_def py_bind_def)
  obtain tenant where t: "tenant_of_request vs user (v_request w1) = Inr tenant" "gucs_of_request user tenant \<noteq> None"
    and pick: "if get_context_gucs (view_state w1) = gucs_of_request user tenant then c = None
     else if u_is_admin user then c = Some (open_admin (vs_site vs))
     else \<exists>t. tenant = Some t \<and> c = Some (open_tenant (vs_site vs) t)"
    using get_rls_context_picks [OF _ user] q c by metis
  have u2: "authenticated_user (v_request v) = Some user" using same_view_user [OF v] user by simp
  have sel: "u_tenant user = Some p \<or> selects_tenants user \<and> may_select (vs_sel vs) user (TStr (tenant_str p)) = Inr (Some p)"
    if "tenant = Some p" for p
    using select_own_tenant t(1) read_back that by metis
  show ?thesis
  proof (cases c)
    case None
    then have w2: "w2 = v" using run auth q c w1 by (auto simp: perform_authentication_def py_seq_def py_bind_def py_simps)
    have g: "get_context_gucs (view_state w2) = gucs_of_request user tenant"
      using pick None v w2 by (auto simp: same_view_def split: if_splits)
    then show ?thesis using t w2 u2 sel
      by (cases tenant; cases "u_is_admin user")
        (auto simp: has_permission_def gucs_of_request_def context_gucs_for_def Let_def)
  next
    case (Some enter)
    let ?o = "\<lparr>o_source = Some ''drf'', o_user = user_id_of (v_request v)\<rparr>"
    let ?t = "if u_is_admin user then None else tenant"
    obtain e a where e: "enter ?o (v_aff v) = (e, a)" by (cases "enter ?o (v_aff v)")
    obtain close_block where e': "e = Inr close_block"
      using run auth q c Some e w1
      by (cases e) (auto simp: perform_authentication_def py_seq_def py_bind_def py_simps on_view_def attributed_def)
    have "opens ?t (the (gucs_of_request user tenant)) (enter ?o)"
      using pick Some ok by (auto simp: gucs_of_request_def split: if_splits intro: opens_tenant opens_admin)
    then have op: "sees ?t True (gucs_of_request user tenant) (a_state a)" "current_live (a_state a) = Some (serials (view_state v))"
      using e e' v w1(2) t(2) by (auto simp: opens_def view_state_def same_view_def dest: spec [of _ "v_aff v"])
    have "current_live (view_state v) \<noteq> Some (serials (view_state v))"
      using w1(2) v by (auto simp: state_ok_def same_view_def)
    then have w2: "view_state w2 = a_state a" "v_request w2 = v_request v" "v_entered_context w2 = current_live (a_state a)"
      using run auth q c Some e e' w1 op(2)
      by (auto simp: perform_authentication_def py_seq_def py_bind_def py_simps on_view_def attributed_def view_state_def
          Let_def)
    show ?thesis using t w2 u2 op
      by (cases tenant; cases "u_is_admin user")
        (auto simp: has_permission_def sees_def gucs_of_request_def context_gucs_for_def Let_def)
  qed
qed

subsection \<open>The permission\<close>

text \<open>
  When a request is granted: in the admin bypass only to a tenant admin, and to other users only in a tenant context that
  is theirs, that their view entered for this very request, or that they may select.
\<close>

lemma permission_sound:
  assumes "fst (has_permission vs is_mixin w) = Inr True"
  obtains user active where "authenticated_user (v_request w) = Some user" "get_context_gucs (view_state w) = Some active"
    "u_is_admin user \<or> active \<noteq> admin_gucs \<and>
       (Some active = map_option gucs_for_tenant (u_tenant user) \<or>
        is_mixin \<and> v_entered_context w \<noteq> None \<and> v_entered_context w = current_live (view_state w) \<or>
        selects_tenants user \<and> (\<exists>t. may_select (vs_sel vs) user (TStr (g_current_tenant active)) = Inr (Some t)))"
proof -
  obtain user where user: "authenticated_user (v_request w) = Some user"
    using assms by (cases "authenticated_user (v_request w)") (simp_all add: has_permission_def)
  obtain active where active: "get_context_gucs (view_state w) = Some active"
    using assms user
    by (cases "get_context_gucs (view_state w)")
      (simp_all add: has_permission_def py_seq_def py_bind_def py_simps view_denied_def on_view_def)
  show thesis
    by (rule that [OF user active], use assms user active in
        \<open>auto simp: has_permission_def py_seq_def py_bind_def py_simps view_denied_def on_view_def context_gucs_for_def Let_def
          split: option.splits if_splits sum.splits\<close>)
qed

lemma has_permission_same: "same_view w (snd (has_permission vs is_mixin w))"
  by (auto simp: has_permission_def py_seq_def py_bind_def py_simps view_denied_def on_view_def same_view_def view_state_def
      Let_def split: option.split sum.split)

text \<open>
  The permissions fail closed without the mixin: a request that runs in no context is refused, with its objects, and
  a user who is not a tenant admin is refused in the admin bypass, whatever the view; each refusal of an authenticated
  user leaves exactly one \<^verbatim>\<open>context.denied\<close> record and nothing else.
\<close>

theorem permission_fails_closed:
  assumes user: "authenticated_user (v_request w) = Some user"
    and active: "get_context_gucs (view_state w) = None \<or> get_context_gucs (view_state w) = Some admin_gucs \<and> \<not> u_is_admin user"
    and run: "has_permission vs is_mixin w = (r, w')"
  shows "r = Inr False \<and> (\<exists>reason tenant admin. w' = w\<lparr>v_aff := (v_aff w)\<lparr>a_audit :=
            denied (st_audits (vs_site vs)) ''drf'' reason (u_pk user) tenant admin [] (a_audit (v_aff w))\<rparr>\<rparr>) \<and>
         (get_context_gucs (view_state w) = None \<longrightarrow> fst (has_object_permission vs obj w') = Inr False)"
proof -
  have frame: "w' = w\<lparr>v_aff := (v_aff w)\<lparr>a_audit := l\<rparr>\<rparr> \<Longrightarrow> view_state w' = view_state w" for l
    by (simp add: view_state_def)
  show ?thesis using user active run frame
    by (auto simp: has_permission_def has_object_permission_def py_seq_def py_bind_def py_simps view_denied_def on_view_def
        context_gucs_for_def Let_def split: if_splits option.splits)
qed

text \<open>An object of another tenant is refused in a tenant context, one of the tenant passes; the admin context passes all.\<close>

lemma object_permission_exact:
  assumes "get_context_gucs (view_state w) = Some active"
  shows "fst (has_object_permission vs obj w) = Inr (active = admin_gucs \<or>
     (case po_tenant obj of None \<Rightarrow> True | Some v \<Rightarrow> map_option tenant_str v = Some (g_current_tenant active)))"
  using assms
  by (auto simp: has_object_permission_def py_seq_def py_bind_def py_simps view_denied_def on_view_def Let_def split: option.split)

subsection \<open>One concrete view\<close>

definition demo_api_site :: "demo_pg_state api_site" where
  "demo_api_site = \<lparr>vs_site = demo_site True, vs_sel = demo_sel_cfg, vs_aliases = [''default'']\<rparr>"

text \<open>The session selects tenant 7.\<close>

definition demo_api :: "demo_pg_state api" where
  "demo_api = \<lparr>v_request = Selection.demo_request [''rls_tenant'' \<mapsto> TStr ''7''],
     v_aff = demo_world\<lparr>a_state := init_state\<rparr>, v_exit_stack = None, v_context_entered = False, v_entered_context = None\<rparr>"

lemma demo_api_state [simp]: "view_state demo_api = init_state" "view_state (demo_api\<lparr>v_exit_stack := e\<rparr>) = init_state"
  by (simp_all add: demo_api_def view_state_def)

lemma demo_init_ok [simp]: "state_ok init_state"
  by (simp add: init_state_def state_ok_def heap_wf_def current_live_def cur_ctx_def default_ctx_def)

lemma own_code_ret: "own_code (py_ret x)"
  by (simp add: own_code_def own_step_def py_simps scoped_refl balanced_refl)

text \<open>\<^verbatim>\<open>APIView.dispatch\<close> of a view that authenticates and answers, or fails if that fails.\<close>

definition demo_serve :: "(demo_pg_state api, unit) py \<Rightarrow> (demo_pg_state api, string) py" where
  "demo_serve auth = py_seq auth (py_ret ''[]'')"

lemma demo_serve_calls_back: "calls_back demo_serve"
  by (auto simp: calls_back_def demo_serve_def py_seq_def py_bind_def py_simps split: prod.split sum.split)

lemma dispatch_gives_back_witness:
  "balanced init_state (view_state (snd (dispatch demo_api_site (\<lambda>_ r. r) (\<lambda>_. True) py_ret (py_ret ())
     (get_rls_context demo_api_site) demo_serve demo_api)))"
proof -
  let ?run = "dispatch demo_api_site (\<lambda>_ r. r) (\<lambda>_. True) py_ret (py_ret ()) (get_rls_context demo_api_site) demo_serve demo_api"
  have "site_ok (vs_site demo_api_site)" by (simp add: demo_api_site_def demo_site_ok)
  from dispatch_gives_back [OF own_code_ret get_rls_context_is_a_choice [OF this] demo_serve_calls_back own_code_ret, where w = demo_api
      and vs = demo_api_site and r = "fst ?run" and w' = "snd ?run" and patch_vary = "\<lambda>_ r. r" and is_template = "\<lambda>_. True"]
  show ?thesis by simp
qed

lemma demo_authenticated: "authenticated_user (v_request (demo_api\<lparr>v_exit_stack := e\<rparr>)) = Some demo_member"
  by (simp add: demo_api_def Selection.demo_request_def authenticated_user_def demo_member_def)

lemma demo_tenant: "tenant_of_request demo_api_site demo_member (v_request (demo_api\<lparr>v_exit_stack := e\<rparr>)) = Inr (Some (TInt 7))"
  by (simp add: demo_api_def demo_api_site_def tenant_of_request_def selects_tenants_def demo_selection_defs)

lemma demo_runs:
  "fst (perform_authentication (py_ret ()) (get_rls_context demo_api_site) (demo_api\<lparr>v_exit_stack := Some []\<rparr>)) = Inr ()"
proof -
  let ?w = "demo_api\<lparr>v_exit_stack := Some []\<rparr>"
  obtain q v where q: "view_tenant demo_api_site demo_member ?w = (q, v)" by (cases "view_tenant demo_api_site demo_member ?w")
  have t: "q = Inr (Some (TInt 7))" using view_tenant_result [of demo_api_site demo_member ?w] demo_tenant q by simp
  have v: "view_state v = init_state" "v_exit_stack v = Some []"
    using view_tenant_same [of ?w demo_api_site demo_member] q by (simp_all add: same_view_def)
  have none: "get_context_gucs init_state = None"
    by (simp add: init_state_def get_context_gucs_def values_of_def current_live_def cur_ctx_def default_ctx_def)
  have a: "context_gucs_for demo_member (Some (TInt 7)) = Some (gucs_for_tenant (TInt 7))"
    by (simp add: context_gucs_for_def demo_member_def)
  have "get_rls_context demo_api_site ?w = (Inr (Some (open_tenant (demo_site True) (TInt 7))), v)"
    using demo_authenticated [of "Some []"] q t v none a
    by (simp add: get_rls_context_def py_bind_def open_tenant_or_refuse_def demo_api_site_def fun_eq_iff)
  moreover have "open_tenant (demo_site True) (TInt 7) o' w \<noteq> (Inl e, w')" for o' w e w'
    by (simp add: open_tenant_def open_block_def writes_gucs_def demo_site_def demo_cfg_def session_of_def connections_get_def
        demo_cursor_def open_run_def py_seq_def py_bind_def py_simps Let_def split: prod.split)
  ultimately show ?thesis
    by (auto simp: perform_authentication_def py_seq_def py_bind_def py_simps on_view_def attributed_def demo_api_def
        split: prod.split sum.split)
qed

lemma view_runs_as_its_user_witness:
  "\<exists>w2. perform_authentication (py_ret ()) (get_rls_context demo_api_site) (demo_api\<lparr>v_exit_stack := Some []\<rparr>) = (Inr (), w2) \<and>
     get_context_gucs (view_state w2) = Some (gucs_for_tenant (TInt 7)) \<and>
     fst (has_permission demo_api_site True w2) = Inr True"
proof -
  let ?w = "demo_api\<lparr>v_exit_stack := Some []\<rparr>"
  obtain w2 where r: "perform_authentication (py_ret ()) (get_rls_context demo_api_site) ?w = (Inr (), w2)"
    using demo_runs by (metis prod.collapse)
  have "site_ok (vs_site demo_api_site)" by (simp add: demo_api_site_def demo_site_ok)
  moreover have "py_ret () ?w = (Inr (), ?w)" by (simp add: py_simps)
  moreover have "sl_to_python (vs_sel demo_api_site) (TStr (tenant_str (TInt 7))) = Inr (Some (TInt 7))"
    by (simp add: demo_api_site_def demo_sel_cfg_def show_int_def show_nat.simps [of 7] digit_char_def char_of_eq_iff take_bit_nat_eq_self)
  ultimately show ?thesis
    using view_runs_as_its_user [where vs = demo_api_site and w = ?w and ?w1.0 = ?w and ?w2.0 = w2, OF _ _ _ _ demo_authenticated _ r]
      demo_tenant r
    by (auto simp: gucs_of_request_def demo_member_def)
qed

lemma permission_fails_closed_witness:
  "fst (has_permission demo_api_site True demo_api) = Inr False"
proof -
  have "get_context_gucs (view_state demo_api) = None"
    by (simp add: init_state_def get_context_gucs_def values_of_def current_live_def cur_ctx_def default_ctx_def)
  moreover have "authenticated_user (v_request demo_api) = Some demo_member"
    using demo_authenticated [of "v_exit_stack demo_api"] by simp
  ultimately show ?thesis
    using permission_fails_closed [of demo_api demo_member demo_api_site True] by (metis fst_conv prod.collapse)
qed

end
