(* ===== verification/Drf_Serializers.thy ===== *)
theory Drf_Serializers
  imports Tenant_Models Selection
begin

text \<open>
  \<^verbatim>\<open>contrib/drf.py\<close>, the serializers: the tenant default, the mixin that takes the tenant foreign key from the context
  and the check of the foreign keys the data writes.  DRF's own serializer is an argument: the fields it declares, the
  conversion of the data, its validation and the messages of its fields.
\<close>

subsection \<open>Serializers\<close>

text \<open>
  \<open>PkField\<close>, \<open>SlugField\<close> and \<open>LinkField\<close> are DRF's related fields (with \<^verbatim>\<open>pk_field.to_internal_value\<close>, if any, and
  \<^verbatim>\<open>slug_field\<close>); \<open>TenantHidden\<close> is \<^verbatim>\<open>HiddenField(default=CurrentTenantDefault())\<close>.  \<open>sf_message\<close> is the format
  of \<^verbatim>\<open>error_messages["does_not_exist"]\<close> with the value shown and the slug's name.
\<close>

type_synonym conversion = "tenant_id option \<Rightarrow> tenant_id option checked"

datatype field_kind = PkField "conversion option" | SlugField string | LinkField | TenantHidden | OtherField

record sfield =
  sf_source :: "string option"
  sf_read_only :: bool
  sf_kind :: field_kind
  sf_message :: "tenant_id option \<Rightarrow> string option \<Rightarrow> string"

type_synonym sfields = "(string \<times> sfield) list"

text \<open>\<^verbatim>\<open>ErrorDetail\<close>, and the \<^verbatim>\<open>detail\<close> of a \<^verbatim>\<open>ValidationError\<close>: a dict of errors by field, or something else.\<close>

record edetail =
  ed_message :: string
  ed_code :: string

datatype detail = DictDetail "(string \<times> edetail list) list" | OtherDetail

text \<open>
  Validated data: what is under a field's name (an object, by \<^verbatim>\<open>attname\<close>; \<open>WData\<close>: what is no model instance, such as the
  data of a nested serializer) and the values under an \<^verbatim>\<open>attname\<close>.
\<close>

datatype written = WNull | WObject "string \<Rightarrow> tenant_id option" | WData

record attrs =
  at_objects :: "string \<rightharpoonup> written"
  at_columns :: "string \<rightharpoonup> tenant_id option"

type_synonym input = "string \<rightharpoonup> tenant_id option"

text \<open>
  What a serializer has: the model and the foreign-key check, \<^verbatim>\<open>self.instance\<close> if it is of the model, the user of
  \<^verbatim>\<open>context["request"]\<close>, DRF's \<^verbatim>\<open>get_value\<close> (\<open>None\<close>: \<^verbatim>\<open>empty\<close>), and of a foreign key's target field its
  \<^verbatim>\<open>attname\<close>, whether it is the primary key, and its \<^verbatim>\<open>to_python\<close>.
\<close>

record 'd serializer =
  sr_fk :: "'d fk_site"
  sr_model :: dj_model
  sr_instance :: "(string \<Rightarrow> tenant_id option) option"
  sr_user :: "tenant_id option"
  sr_get_value :: "string \<Rightarrow> input \<Rightarrow> tenant_id option option"
  sr_target_attname :: "dj_field \<Rightarrow> string"
  sr_target_is_pk :: "dj_field \<Rightarrow> bool"
  sr_target_to_python :: "dj_field \<Rightarrow> conversion"
  sr_invalid_message :: "dj_field \<Rightarrow> tenant_id \<Rightarrow> string"

text \<open>The serializer's own state is \<^verbatim>\<open>_rls_data\<close>.\<close>

record 'd serializing =
  sz_aff :: "'d aff"
  sz_data :: "input option"

definition on_db_of :: "('d aff, 'a) py \<Rightarrow> ('d serializing, 'a) py" where
  "on_db_of m = (\<lambda>w. case m (sz_aff w) of (r, a) \<Rightarrow> (r, w\<lparr>sz_aff := a\<rparr>))"

definition drf_validation_error :: exn where
  "drf_validation_error = OtherError ''rest_framework.ValidationError''"

subsection \<open>The tenant default\<close>

text \<open>\<^verbatim>\<open>CurrentTenantDefault.__call__\<close>: the value is the instance's primary key; \<open>pk_to_python\<close> is that field's.\<close>

definition current_tenant_default ::
  "(audit_level \<Rightarrow> bool) \<Rightarrow> (tenant_id \<Rightarrow> tenant_id checked) \<Rightarrow> tenant_id option \<Rightarrow> ('d aff, tenant_id) py" where
  "current_tenant_default audits pk_to_python user_id = (\<lambda>w.
     case get_current_tenant_id (a_state w) of
       Some tenant \<Rightarrow> (pk_to_python tenant, w)
     | None \<Rightarrow> (Inl NoTenantContextError,
         w\<lparr>a_audit := denied audits ''drf'' ''no_context'' user_id None
             (if get_rls_context_active (a_state w) then Some True else None) [] (a_audit w)\<rparr>))"

subsection \<open>The fields\<close>

text \<open>\<^verbatim>\<open>s.split(".")[0]\<close>.\<close>

definition before_dot :: "string \<Rightarrow> string" where
  "before_dot s = takeWhile (\<lambda>c. c \<noteq> CHR ''.'') s"

text \<open>\<^verbatim>\<open>field.source or name\<close>.\<close>

definition source_of :: "string \<times> sfield \<Rightarrow> string" where
  "source_of = (\<lambda>(name, f). case sf_source f of None \<Rightarrow> name | Some s \<Rightarrow> if s = [] then name else s)"

definition hidden_tenant :: sfield where
  "hidden_tenant = \<lparr>sf_source = None, sf_read_only = False, sf_kind = TenantHidden, sf_message = (\<lambda>_ _. [])\<rparr>"

definition get_fields :: "model_cfg \<Rightarrow> dj_model \<Rightarrow> sfields \<Rightarrow> rls_state \<Rightarrow> sfields" where
  "get_fields cfg model declared s =
     (if get_rls_context_active s \<and> get_current_tenant_id s = None then declared
      else case get_field model (md_tenant_fk cfg) of
        None \<Rightarrow> declared
      | Some tenant_fk \<Rightarrow>
          AList.update (fd_name tenant_fk) hidden_tenant
            (filter (\<lambda>nf. sf_read_only (snd nf) \<or> before_dot (source_of nf) \<notin> {fd_name tenant_fk, fd_attname tenant_fk})
               declared))"

subsection \<open>Converting the data\<close>

text \<open>
  The value a \<^verbatim>\<open>does_not_exist\<close> error of one field is about, if it is of a foreign key that is checked; a
  conversion error of \<^verbatim>\<open>pk_field\<close> skips the field.
\<close>

definition hidden_value ::
  "'d serializer \<Rightarrow> sfields \<Rightarrow> dj_field list \<Rightarrow> input \<Rightarrow> string \<times> edetail list \<Rightarrow> (dj_field \<times> tenant_id option) option checked" where
  "hidden_value sr fs foreign_keys data = (\<lambda>(name, errors).
     case map_of fs name of
       None \<Rightarrow> Inr None
     | Some sf \<Rightarrow>
         (case sf_kind sf of
            PkField pk_field \<Rightarrow>
              if \<not> list_ex (\<lambda>e. ed_code e = ''does_not_exist'') errors then Inr None
              else (case find (\<lambda>f. source_of (name, sf) \<in> {fd_name f, fd_attname f}) (rev foreign_keys) of
                  None \<Rightarrow> Inr None
                | Some f \<Rightarrow>
                    if \<not> sr_target_is_pk sr f then Inr None
                    else let value = (case sr_get_value sr name data of None \<Rightarrow> None | Some v \<Rightarrow> v)
                      in (case pk_field of
                            None \<Rightarrow> Inr (Some (f, value))
                          | Some convert \<Rightarrow>
                              (case convert value of
                                 Inl e \<Rightarrow> if e \<in> {validation_error, drf_validation_error, TypeError, ValueError} then Inr None
                                          else Inl e
                               | Inr v \<Rightarrow> Inr (Some (f, v)))))
          | _ \<Rightarrow> Inr None))"

fun hidden_values ::
  "'d serializer \<Rightarrow> sfields \<Rightarrow> dj_field list \<Rightarrow> input \<Rightarrow> (string \<times> edetail list) list \<Rightarrow>
     (dj_field \<times> tenant_id option) list \<Rightarrow> (dj_field \<times> tenant_id option) list checked" where
  "hidden_values sr fs foreign_keys data [] found = Inr found"
| "hidden_values sr fs foreign_keys data (e # es) found =
     ck_bind (hidden_value sr fs foreign_keys data e) (\<lambda>v.
       hidden_values sr fs foreign_keys data es (case v of None \<Rightarrow> found | Some (f, x) \<Rightarrow> AList.update f x found))"

definition audit_hidden_targets :: "'d serializer \<Rightarrow> sfields \<Rightarrow> input \<Rightarrow> detail \<Rightarrow> ('d aff, unit) py" where
  "audit_hidden_targets sr fs data detail = (\<lambda>w.
     case (get_current_tenant_id (a_state w), detail) of
       (Some tenant, DictDetail errors) \<Rightarrow>
         (case checked_foreign_keys (sr_fk sr) (sr_model sr) of
            None \<Rightarrow> (Inr (), w)
          | Some (_, foreign_keys) \<Rightarrow>
              (case hidden_values sr fs foreign_keys data errors [] of
                 Inl e \<Rightarrow> (Inl e, w)
               | Inr found \<Rightarrow>
                   if found \<noteq> []
                   then audit_rejected_values (sr_fk sr) (sr_model sr) tenant found (sr_target_to_python sr) ''drf'' (sr_user sr) w
                   else (Inr (), w)))
     | _ \<Rightarrow> (Inr (), w))"

text \<open>\<open>convert\<close> is DRF's; a \<^verbatim>\<open>ValidationError\<close> is \<open>Inl\<close> of the value, with its detail.\<close>

definition to_internal_value ::
  "'d serializer \<Rightarrow> sfields \<Rightarrow> (input \<Rightarrow> ('d serializing, detail + attrs) py) \<Rightarrow> input \<Rightarrow> ('d serializing, detail + attrs) py" where
  "to_internal_value sr fs convert data =
     py_seq (py_modify (\<lambda>w. w\<lparr>sz_data := Some data\<rparr>))
       (py_bind (convert data) (\<lambda>res.
          case res of
            Inl detail \<Rightarrow> py_seq (on_db_of (audit_hidden_targets sr fs data detail)) (py_ret (Inl detail))
          | Inr attrs \<Rightarrow> py_ret (Inr attrs)))"

subsection \<open>Checking the foreign keys the data writes\<close>

definition written_value :: "'d serializer \<Rightarrow> attrs \<Rightarrow> dj_field \<Rightarrow> bool \<times> tenant_id option" where
  "written_value sr attrs f =
     (case at_objects attrs (fd_name f) of
        Some WNull \<Rightarrow> (True, None)
      | Some (WObject related) \<Rightarrow> (True, related (sr_target_attname sr f))
      | Some WData \<Rightarrow> (False, None)
      | None \<Rightarrow> (case at_columns attrs (fd_attname f) of Some v \<Rightarrow> (True, v) | None \<Rightarrow> (False, None)))"

text \<open>\<open>sent\<close>: \<open>None\<close> is \<^verbatim>\<open>empty\<close>, \<open>Some None\<close> is \<^verbatim>\<open>None\<close>.\<close>

definition smart_str :: "tenant_id option \<Rightarrow> string" where
  "smart_str v = (case v of None \<Rightarrow> ''None'' | Some t \<Rightarrow> tenant_str t)"

definition does_not_exist ::
  "'d serializer \<Rightarrow> sfield option \<Rightarrow> dj_field \<Rightarrow> tenant_id \<Rightarrow> tenant_id option option \<Rightarrow> edetail list" where
  "does_not_exist sr serializer_field f value sent =
     (let invalid = [\<lparr>ed_message = sr_invalid_message sr f value, ed_code = ''invalid''\<rparr>];
          missing = (\<lambda>sf shown slug. [\<lparr>ed_message = sf_message sf shown slug, ed_code = ''does_not_exist''\<rparr>])
      in case serializer_field of
           None \<Rightarrow> invalid
         | Some sf \<Rightarrow>
             (case sf_kind sf of
                LinkField \<Rightarrow> missing sf (Some value) None
              | PkField _ \<Rightarrow> missing sf (case sent of None \<Rightarrow> Some value | Some s \<Rightarrow> s) None
              | SlugField slug \<Rightarrow> (case sent of None \<Rightarrow> invalid | Some s \<Rightarrow> missing sf (Some (TStr (smart_str s))) (Some slug))
              | _ \<Rightarrow> invalid))"

text \<open>\<^verbatim>\<open>to_python()\<close> of the model field; its error is reported by DRF.\<close>

definition converted_value :: "'d serializer \<Rightarrow> dj_field \<Rightarrow> tenant_id option \<Rightarrow> tenant_id option checked" where
  "converted_value sr f v = (case fk_to_python (sr_fk sr) f v of Inl _ \<Rightarrow> Inl validation_error | Inr x \<Rightarrow> Inr x)"

text \<open>The targets to check, in the order of the foreign keys; \<open>moved\<close>: the data moves the object to another tenant.\<close>

fun written_targets :: "'d serializer \<Rightarrow> attrs \<Rightarrow> (string \<Rightarrow> tenant_id option) option \<Rightarrow> dj_field list \<Rightarrow> fk_targets checked" where
  "written_targets sr attrs moved [] = Inr []"
| "written_targets sr attrs moved (f # fs) =
     (let rest = written_targets sr attrs moved fs;
          check = (\<lambda>v. ck_bind (converted_value sr f v) (\<lambda>x. ck_bind rest (\<lambda>ts. Inr (case x of None \<Rightarrow> ts | Some t \<Rightarrow> (f, t) # ts))))
      in case written_value sr attrs f of
           (True, value) \<Rightarrow> check value
         | (False, _) \<Rightarrow> (case moved of None \<Rightarrow> rest | Some inst \<Rightarrow> check (inst (fd_attname f))))"

text \<open>\<^verbatim>\<open>{declared.source: name}\<close> of the writable fields: the last one of a source.\<close>

definition sources :: "sfields \<Rightarrow> string \<rightharpoonup> string" where
  "sources fs = map_of (rev (map (\<lambda>nf. (source_of nf, fst nf)) (filter (\<lambda>nf. \<not> sf_read_only (snd nf)) fs)))"

definition non_field_errors :: string where
  "non_field_errors = ''non_field_errors''"

definition field_for :: "sfields \<Rightarrow> dj_field \<Rightarrow> string option" where
  "field_for fs f = (case sources fs (fd_name f) of Some name \<Rightarrow> Some name | None \<Rightarrow> sources fs (fd_attname f))"

definition error_of :: "'d serializer \<Rightarrow> sfields \<Rightarrow> input \<Rightarrow> dj_field \<Rightarrow> tenant_id \<Rightarrow> string \<times> edetail list" where
  "error_of sr fs data f value =
     (case field_for fs f of
        None \<Rightarrow> (non_field_errors, does_not_exist sr None f value None)
      | Some name \<Rightarrow>
          (name, does_not_exist sr (map_of fs name) f value (sr_get_value sr name data)))"

fun extend_errors :: "string \<times> 'e list \<Rightarrow> (string \<times> 'e list) list \<Rightarrow> (string \<times> 'e list) list" where
  "extend_errors (k, es) [] = [(k, es)]"
| "extend_errors (k, es) ((k', fs) # rest) = (if k' = k then (k', fs @ es) # rest else (k', fs) # extend_errors (k, es) rest)"

definition mismatch_errors :: "'d serializer \<Rightarrow> sfields \<Rightarrow> input \<Rightarrow> fk_targets \<Rightarrow> dj_field list \<Rightarrow> (string \<times> edetail list) list" where
  "mismatch_errors sr fs data targets mismatched =
     fold (\<lambda>f errors. case map_of targets f of None \<Rightarrow> errors | Some v \<Rightarrow> extend_errors (error_of sr fs data f v) errors)
       mismatched []"

text \<open>\<open>own\<close> is \<^verbatim>\<open>super().validate\<close>; a \<^verbatim>\<open>ValidationError\<close> of the check is \<open>Inl\<close> of the value.\<close>

definition validate ::
  "'d serializer \<Rightarrow> sfields \<Rightarrow> (attrs \<Rightarrow> ('d serializing, detail + attrs) py) \<Rightarrow> attrs \<Rightarrow> ('d serializing, detail + attrs) py" where
  "validate sr fs own given =
     py_bind (own given) (\<lambda>res.
       case (res, checked_foreign_keys (sr_fk sr) (sr_model sr)) of
         (Inl detail, _) \<Rightarrow> py_ret (Inl detail)
       | (Inr attrs, None) \<Rightarrow> py_ret (Inr attrs)
       | (Inr attrs, Some (tf, foreign_keys)) \<Rightarrow>
           (let (tenant_written, sent) = written_value sr attrs tf;
                raw = (case sr_instance sr of Some inst \<Rightarrow> if tenant_written then sent else inst (fd_attname tf) | None \<Rightarrow> sent)
            in case converted_value sr tf raw of
                 Inl e \<Rightarrow> py_raise e
               | Inr None \<Rightarrow> py_ret (Inr attrs)
               | Inr (Some tenant) \<Rightarrow>
                   (let moved = (case sr_instance sr of
                          Some inst \<Rightarrow> if tenant_written \<and> Some tenant \<noteq> inst (fd_attname tf) then Some inst else None
                        | None \<Rightarrow> None)
                    in case written_targets sr attrs moved foreign_keys of
                         Inl e \<Rightarrow> py_raise e
                       | Inr targets \<Rightarrow>
                           if targets = [] then py_ret (Inr attrs)
                           else py_bind (on_db_of (foreign_keys_of_other_tenants (sr_fk sr) (sr_model sr) ''drf'' (sr_user sr)
                                    tenant targets [])) (\<lambda>mismatched w.
                                  if mismatched \<noteq> []
                                  then (Inr (Inl (DictDetail (mismatch_errors sr fs
                                          (case sz_data w of None \<Rightarrow> (\<lambda>_. None) | Some d \<Rightarrow> d) targets mismatched))), w)
                                  else (Inr (Inr attrs), w)))))"

subsection \<open>The context writes the tenant\<close>


subsection \<open>A saved row stays in its tenant\<close>

text \<open>What \<^verbatim>\<open>save()\<close> writes into a foreign key: the data's value, the object's own for want of one.\<close>

definition row_value :: "'d serializer \<Rightarrow> attrs \<Rightarrow> dj_field \<Rightarrow> tenant_id option" where
  "row_value sr attrs f =
     (case written_value sr attrs f of
        (True, v) \<Rightarrow> v
      | (False, _) \<Rightarrow> (case sr_instance sr of None \<Rightarrow> None | Some inst \<Rightarrow> inst (fd_attname f)))"

text \<open>The value of a foreign key that is checked, if it is.\<close>

definition checked_value :: "'d serializer \<Rightarrow> attrs \<Rightarrow> (string \<Rightarrow> tenant_id option) option \<Rightarrow> dj_field \<Rightarrow> tenant_id option option" where
  "checked_value sr attrs moved f =
     (case written_value sr attrs f of
        (True, v) \<Rightarrow> Some v
      | (False, _) \<Rightarrow> map_option (\<lambda>inst. inst (fd_attname f)) moved)"

lemma converted_value_Inr: "converted_value sr f v = Inr x \<longleftrightarrow> fk_to_python (sr_fk sr) f v = Inr x"
  by (simp add: converted_value_def split: sum.split)

lemma written_targets_sound:
  assumes "written_targets sr attrs moved fs = Inr ts"
  shows "(f, t) \<in> set ts \<longleftrightarrow>
           f \<in> set fs \<and> (\<exists>v. checked_value sr attrs moved f = Some v \<and> converted_value sr f v = Inr (Some t))"
    and "f \<in> set fs \<Longrightarrow> checked_value sr attrs moved f = Some v \<Longrightarrow> \<exists>x. converted_value sr f v = Inr x"
    and "distinct fs \<Longrightarrow> distinct (map fst ts)" and "set (map fst ts) \<subseteq> set fs"
proof -
  have main: "(\<forall>f t. (f, t) \<in> set ts \<longleftrightarrow>
           f \<in> set fs \<and> (\<exists>v. checked_value sr attrs moved f = Some v \<and> converted_value sr f v = Inr (Some t))) \<and>
         (\<forall>f v. f \<in> set fs \<longrightarrow> checked_value sr attrs moved f = Some v \<longrightarrow> (\<exists>x. converted_value sr f v = Inr x)) \<and>
         (distinct fs \<longrightarrow> distinct (map fst ts)) \<and> set (map fst ts) \<subseteq> set fs"
    using assms
  proof (induction fs arbitrary: ts)
    case (Cons g fs)
    show ?case
    proof (cases "checked_value sr attrs moved g")
      case None
      then have "written_targets sr attrs moved fs = Inr ts" using Cons.prems
        by (auto simp: checked_value_def Let_def split: prod.splits bool.splits option.splits)
      from Cons.IH [OF this] show ?thesis using None by auto
    next
      case (Some v)
      have "ck_bind (converted_value sr g v) (\<lambda>x. ck_bind (written_targets sr attrs moved fs)
              (\<lambda>ts. Inr (case x of None \<Rightarrow> ts | Some t \<Rightarrow> (g, t) # ts))) = Inr ts"
        using Cons.prems Some by (auto simp: checked_value_def Let_def split: prod.splits bool.splits option.splits)
      then obtain x rest where x: "converted_value sr g v = Inr x" "written_targets sr attrs moved fs = Inr rest"
        "ts = (case x of None \<Rightarrow> rest | Some t \<Rightarrow> (g, t) # rest)" by auto
      from Cons.IH [OF x(2)] show ?thesis using Some x by (auto split: option.splits)
    qed
  qed simp
  from main show "(f, t) \<in> set ts \<longleftrightarrow>
           f \<in> set fs \<and> (\<exists>v. checked_value sr attrs moved f = Some v \<and> converted_value sr f v = Inr (Some t))" by blast
  from main show "f \<in> set fs \<Longrightarrow> checked_value sr attrs moved f = Some v \<Longrightarrow> \<exists>x. converted_value sr f v = Inr x" by blast
  from main show "distinct fs \<Longrightarrow> distinct (map fst ts)" "set (map fst ts) \<subseteq> set fs" by blast+
qed

definition moved_from :: "'d serializer \<Rightarrow> attrs \<Rightarrow> dj_field \<Rightarrow> tenant_id \<Rightarrow> (string \<Rightarrow> tenant_id option) option" where
  "moved_from sr attrs tf tenant =
     (case sr_instance sr of
        Some inst \<Rightarrow> if fst (written_value sr attrs tf) \<and> Some tenant \<noteq> inst (fd_attname tf) then Some inst else None
      | None \<Rightarrow> None)"

lemma not_written: "written_value sr attrs f = (False, v) \<Longrightarrow> v = None"
  by (auto simp: written_value_def split: option.splits written.splits)

text \<open>The check, once the tenant of the row is known.\<close>

definition check_targets ::
  "'d serializer \<Rightarrow> sfields \<Rightarrow> attrs \<Rightarrow> dj_field list \<Rightarrow> (string \<Rightarrow> tenant_id option) option \<Rightarrow> tenant_id \<Rightarrow>
     ('d serializing, detail + attrs) py" where
  "check_targets sr fs attrs foreign_keys moved tenant =
     (case written_targets sr attrs moved foreign_keys of
        Inl e \<Rightarrow> py_raise e
      | Inr targets \<Rightarrow>
          if targets = [] then py_ret (Inr attrs)
          else py_bind (on_db_of (foreign_keys_of_other_tenants (sr_fk sr) (sr_model sr) ''drf'' (sr_user sr)
                   tenant targets [])) (\<lambda>mismatched w.
                 if mismatched \<noteq> []
                 then (Inr (Inl (DictDetail (mismatch_errors sr fs
                         (case sz_data w of None \<Rightarrow> (\<lambda>_. None) | Some d \<Rightarrow> d) targets mismatched))), w)
                 else (Inr (Inr attrs), w)))"

lemma validate_checks:
  assumes own: "own given w = (Inr (Inr attrs), w1)" and checked: "checked_foreign_keys (sr_fk sr) (sr_model sr) = Some (tf, fks)"
    and tenant: "converted_value sr tf (row_value sr attrs tf) = Inr (Some tenant)"
  shows "validate sr fs own given w = check_targets sr fs attrs fks (moved_from sr attrs tf tenant) tenant w1"
proof -
  obtain wr sent where wr: "written_value sr attrs tf = (wr, sent)" by (cases "written_value sr attrs tf")
  then have raw: "(case sr_instance sr of Some inst \<Rightarrow> if wr then sent else inst (fd_attname tf) | None \<Rightarrow> sent) =
      row_value sr attrs tf"
    using not_written [of sr attrs tf sent] by (cases wr) (auto simp: row_value_def split: option.split)
  have "(case sr_instance sr of
      Some inst \<Rightarrow> if wr \<and> Some tenant \<noteq> inst (fd_attname tf) then Some inst else None | None \<Rightarrow> None) =
      moved_from sr attrs tf tenant" using wr by (cases "sr_instance sr") (simp_all add: moved_from_def)
  then show ?thesis using own checked tenant wr raw
    by (simp add: validate_def py_bind_Inr check_targets_def Let_def)
qed

lemma foreign_keys_distinct:
  assumes "checked_foreign_keys env m = Some (tf, fks)" "distinct (map fd_name (dm_fields m))"
  shows "distinct fks"
  using assms by (auto simp: checked_foreign_keys_def distinct_map split: option.splits)

lemma extend_errors_ne [simp]: "extend_errors e xs \<noteq> []"
  by (cases e; cases xs) (auto split: if_splits)

text \<open>\<^verbatim>\<open>errors\<close> has an entry once a foreign key is mismatched.\<close>

lemma check_targets_exact:
  assumes ok: "fk_ok (sr_fk sr)" and reads: "admin_reads (sr_fk sr) rows" and s: "state_ok (a_state (sz_aff w))"
    and d: "distinct fks" and run: "check_targets sr fs attrs fks moved tenant w = (r, w')"
  shows "balanced (a_state (sz_aff w)) (a_state (sz_aff w')) \<and> sz_data w' = sz_data w \<and>
    (\<forall>res. r = Inr res \<longrightarrow>
       (\<exists>targets bad. written_targets sr attrs moved fks = Inr targets \<and>
          set bad = {f. \<exists>v. (f, v) \<in> set targets \<and> target_rows (sr_fk sr) rows f v \<noteq> [Some tenant]} \<and>
          res = (if bad = [] then Inr attrs else Inl (DictDetail (mismatch_errors sr fs
                   (case sz_data w of None \<Rightarrow> (\<lambda>_. None) | Some d \<Rightarrow> d) targets bad)))))"
proof (cases "written_targets sr attrs moved fks")
  case (Inl e)
  then show ?thesis using run s by (auto simp: check_targets_def py_simps balanced_refl)
next
  case (Inr ts)
  let ?check = "foreign_keys_of_other_tenants (sr_fk sr) (sr_model sr) ''drf'' (sr_user sr) tenant ts []"
  have dts: "distinct (map fst ts)" using written_targets_sound(3) [OF Inr] d .
  show ?thesis
  proof (cases "ts = []")
    case True
    then show ?thesis using run s Inr by (auto simp: check_targets_def py_simps balanced_refl)
  next
    case False
    obtain q a where q: "?check (sz_aff w) = (q, a)" by (cases "?check (sz_aff w)")
    note found = others_found [OF ok s dts q, of rows]
    show ?thesis
    proof (cases q)
      case (Inl e)
      then show ?thesis using run Inr False q found by (auto simp: check_targets_def on_db_of_def py_bind_def)
    next
      case bad: (Inr bad)
      have w': "w' = w\<lparr>sz_aff := a\<rparr>" and res: "r = Inr (if bad = [] then Inr attrs else Inl (DictDetail (mismatch_errors sr fs
                   (case sz_data w of None \<Rightarrow> (\<lambda>_. None) | Some d \<Rightarrow> d) ts bad)))"
        using run Inr False q bad by (simp_all add: check_targets_def on_db_of_def py_bind_def split: if_splits)
      have "set bad = {f. \<exists>v. (f, v) \<in> set ts \<and> target_rows (sr_fk sr) rows f v \<noteq> [Some tenant]}"
        using found bad reads by blast
      then have "written_targets sr attrs moved fks = Inr ts \<and>
          set bad = {f. \<exists>v. (f, v) \<in> set ts \<and> target_rows (sr_fk sr) rows f v \<noteq> [Some tenant]} \<and>
          q' = (if bad = [] then Inr attrs else Inl (DictDetail (mismatch_errors sr fs
                   (case sz_data w of None \<Rightarrow> (\<lambda>_. None) | Some d \<Rightarrow> d) ts bad)))" if "r = Inr q'" for q'
        using Inr res that by simp
      then show ?thesis using w' found by (intro conjI allI impI exI [of _ ts] exI [of _ bad]) simp_all
    qed
  qed
qed


subsection \<open>A rejection reveals nothing\<close>

text \<open>What DRF's own field reports for a value sent of an object that does not exist: \<^verbatim>\<open>fail("does_not_exist", ...)\<close>.\<close>

definition drf_missing :: "sfield \<Rightarrow> tenant_id option \<Rightarrow> edetail" where
  "drf_missing sf sent = \<lparr>ed_message = (case sf_kind sf of
       SlugField slug \<Rightarrow> sf_message sf (Some (TStr (smart_str sent))) (Some slug)
     | LinkField \<Rightarrow> sf_message sf None None
     | _ \<Rightarrow> sf_message sf sent None), ed_code = ''does_not_exist''\<rparr>"

text \<open>The foreign key has a related field that the client sent; a hyperlink's message has no placeholder.\<close>

definition sent_through :: "'d serializer \<Rightarrow> sfields \<Rightarrow> input \<Rightarrow> dj_field \<Rightarrow> string \<Rightarrow> sfield \<Rightarrow> tenant_id option \<Rightarrow> bool" where
  "sent_through sr fs data f name sf sent \<longleftrightarrow>
     field_for fs f = Some name \<and> map_of fs name = Some sf \<and> sr_get_value sr name data = Some sent \<and>
     (case sf_kind sf of PkField _ \<Rightarrow> True | SlugField _ \<Rightarrow> True
      | LinkField \<Rightarrow> (\<forall>x. sf_message sf x None = sf_message sf None None) | _ \<Rightarrow> False)"

lemma error_like_missing:
  "sent_through sr fs data f name sf sent \<Longrightarrow> error_of sr fs data f v = (name, [drf_missing sf sent])"
  by (auto simp: sent_through_def error_of_def does_not_exist_def drf_missing_def Let_def split: field_kind.splits)

text \<open>The errors of objects that do not exist, for some foreign keys.\<close>

definition missing_errors ::
  "(dj_field \<Rightarrow> string) \<Rightarrow> (dj_field \<Rightarrow> sfield) \<Rightarrow> (dj_field \<Rightarrow> tenant_id option) \<Rightarrow> dj_field list \<Rightarrow> (string \<times> edetail list) list" where
  "missing_errors name field sent bad = fold (\<lambda>f. extend_errors (name f, [drf_missing (field f) (sent f)])) bad []"

lemma mismatch_like_missing:
  assumes "\<And>f. f \<in> set bad \<Longrightarrow> sent_through sr fs data f (name f) (field f) (sent f) \<and> map_of targets f \<noteq> None"
  shows "mismatch_errors sr fs data targets bad = missing_errors name field sent bad"
  unfolding mismatch_errors_def missing_errors_def
proof (rule fold_cong [OF refl refl])
  fix f assume "f \<in> set bad"
  from assms [OF this] obtain v where "map_of targets f = Some v"
    and "error_of sr fs data f v = (name f, [drf_missing (field f) (sent f)])" using error_like_missing by blast
  then show "(\<lambda>errors. case map_of targets f of None \<Rightarrow> errors | Some v \<Rightarrow> extend_errors (error_of sr fs data f v) errors) =
      extend_errors (name f, [drf_missing (field f) (sent f)])" by simp
qed


subsection \<open>One concrete serializer\<close>

text \<open>A note of tenant 1, written with a project.\<close>

definition demo_project_field :: sfield where
  "demo_project_field = \<lparr>sf_source = None, sf_read_only = False, sf_kind = PkField None,
     sf_message = (\<lambda>v _. ''Invalid pk: '' @ smart_str v)\<rparr>"

definition demo_serializer :: "demo_pg_state serializer" where
  "demo_serializer = \<lparr>sr_fk = demo_fk_site, sr_model = demo_note, sr_instance = None, sr_user = Some (TInt 5),
     sr_get_value = (\<lambda>name data. data name), sr_target_attname = (\<lambda>_. ''id''), sr_target_is_pk = (\<lambda>_. True),
     sr_target_to_python = (\<lambda>_. Inr), sr_invalid_message = (\<lambda>_ _. ''invalid'')\<rparr>"

definition demo_attrs :: attrs where
  "demo_attrs = \<lparr>at_objects = [''tenant'' \<mapsto> WObject (\<lambda>_. Some (TInt 1)), ''project'' \<mapsto> WObject (\<lambda>_. Some (TInt 7))],
     at_columns = (\<lambda>_. None)\<rparr>"

text \<open>The project is sent as \<^verbatim>\<open>"07"\<close>; no connection is open yet.\<close>

definition demo_input :: input where
  "demo_input = [''project'' \<mapsto> Some (TStr ''07'')]"

definition demo_serializing :: "demo_pg_state serializing" where
  "demo_serializing = \<lparr>sz_aff = demo_world\<lparr>a_conns := (\<lambda>_. None)\<rparr>, sz_data = Some demo_input\<rparr>"

lemma demo_serializing_ok: "state_ok (a_state (sz_aff demo_serializing))"
  using demo_state_ok by (simp add: demo_serializing_def)

lemma demo_admin_block:
  assumes s: "state_ok (a_state w)" and unopened: "a_conns w = (\<lambda>_. None)"
  shows "fst (admin_context (demo_site True) ''default'' o' (py_ret x) w) = Inr x"
proof -
  obtain b s1 where b: "enter_rls_state True None (Some admin_gucs) (a_state w) = (b, s1)"
    by (cases "enter_rls_state True None (Some admin_gucs) (a_state w)")
  obtain s3 where s3: "exit_rls_state b s1 = (Inr (), s3)"
    using exit_rls_state_balanced [OF s b scoped_refl [OF enter_state_ok [OF s b]]] by blast
  show ?thesis using b s3 unopened
    by (simp add: admin_context_def context_block_def run_block_def leave_block_def restore_tenant_gucs_def writes_gucs_def
        demo_site_def demo_cfg_def demo_cursor_def session_of_def connections_get_def raw_of_def on_state_def log_context_def
        settle_def settle_other_aliases_def settle_alias_def suspect_sessions_def suspect_alias_def
        py_finally_def py_bind_def py_seq_def py_simps Let_def)
qed

lemma demo_found:
  "fst (foreign_keys_of_other_tenants demo_fk_site demo_note ''drf'' u (TInt 1)
     [(demo_fk ''project'' ''app.Project'' 2, TInt 7)] [] (sz_aff demo_serializing)) = Inr [demo_fk ''project'' ''app.Project'' 2]"
proof -
  let ?p = "demo_fk ''project'' ''app.Project'' 2" and ?w = "sz_aff demo_serializing"
  have found: "look_up demo_fk_site ''default'' [(?p, TInt 7)] [] = py_ret [(?p, [Some (TInt 2)])]"
    by (rule ext) (simp add: target_tenant_field_def related_model_def tenant_field_def concrete_of_def
        get_tenant_fk_field_def get_field_def demo_fk_site_def demo_model_defs demo_rows_def py_bind_def py_simps)
  have "\<not> needs_own_tx demo_fk_site ''default'' ?w" by (simp add: needs_own_tx_def demo_fk_site_def demo_site_def demo_cfg_def)
  moreover have "fst (admin_context (demo_site True) ''default'' silent_origin (py_ret [(?p, [Some (TInt 2)])]) ?w) = Inr [(?p, [Some (TInt 2)])]"
    by (rule demo_admin_block [OF demo_serializing_ok]) (simp add: demo_serializing_def)
  moreover have "by_alias (alias_of_target demo_fk_site) [(?p, TInt 7)] = [(''default'', [(?p, TInt 7)])]"
    by (simp add: by_alias_def alias_of_target_def demo_fk_def demo_fk_site_def)
  moreover have "fk_site demo_fk_site = demo_site True" by (simp add: demo_fk_site_def)
  ultimately obtain w1 where "target_tenants demo_fk_site False [(?p, TInt 7)] ?w = (Inr [(?p, [Some (TInt 2)])], w1)"
    by (cases "admin_context (demo_site True) ''default'' silent_origin (py_ret [(?p, [Some (TInt 2)])]) ?w")
      (simp add: target_tenants_def look_up_alias_def Let_def found py_bind_def py_ret_def del: look_up.simps)
  then show ?thesis
    by (simp add: foreign_keys_of_other_tenants_def Let_def py_bind_def py_seq_def py_simps split: if_split)
qed

lemma demo_rejects:
  "\<exists>detail w'. validate demo_serializer [(''project'', demo_project_field)] (\<lambda>a. py_ret (Inr a)) demo_attrs demo_serializing =
     (Inr (Inl detail), w')"
proof -
  let ?t = "demo_fk ''tenant'' ''app.Tenant'' 1" and ?p = "demo_fk ''project'' ''app.Project'' 2"
  have wr: "written_value demo_serializer demo_attrs ?t = (True, Some (TInt 1))"
    "written_value demo_serializer demo_attrs ?p = (True, Some (TInt 7))"
    by (simp_all add: written_value_def demo_attrs_def demo_fk_def)
  have sr: "sr_fk demo_serializer = demo_fk_site" "sr_model demo_serializer = demo_note" by (simp_all add: demo_serializer_def)
  have v: "converted_value demo_serializer f x = Inr x" for f x by (simp add: converted_value_def sr demo_fk_site_def)
  have "validate demo_serializer [(''project'', demo_project_field)] (\<lambda>a. py_ret (Inr a)) demo_attrs demo_serializing =
      check_targets demo_serializer [(''project'', demo_project_field)] demo_attrs [?p] None (TInt 1) demo_serializing"
    using validate_checks [where sr = demo_serializer and own = "\<lambda>a. py_ret (Inr a)" and w = demo_serializing, OF _ _ ] wr v demo_checked
    by (subst validate_checks [where tf = ?t and fks = "[?p]" and tenant = "TInt 1" and attrs = demo_attrs])
      (simp_all add: py_simps sr row_value_def moved_from_def demo_serializer_def)
  moreover obtain w1 where "foreign_keys_of_other_tenants demo_fk_site demo_note ''drf'' (sr_user demo_serializer) (TInt 1)
     [(?p, TInt 7)] [] (sz_aff demo_serializing) = (Inr [?p], w1)"
    using demo_found [of "sr_user demo_serializer"] by (metis prod.collapse)
  ultimately show ?thesis
    by (simp add: check_targets_def wr v sr on_db_of_def py_bind_def Let_def)
qed

lemma demo_serializer_meets:
  "fk_ok (sr_fk demo_serializer)" "admin_reads (sr_fk demo_serializer) demo_rows"
  "checked_foreign_keys (sr_fk demo_serializer) (sr_model demo_serializer) =
     Some (demo_fk ''tenant'' ''app.Tenant'' 1, [demo_fk ''project'' ''app.Project'' 2])"
  "distinct (map fd_name (dm_fields (sr_model demo_serializer)))"
  "fk_value (sr_fk demo_serializer) (\<lambda>_. row_value demo_serializer demo_attrs (demo_fk ''tenant'' ''app.Tenant'' 1))
     (demo_fk ''tenant'' ''app.Tenant'' 1) = Inr (Some (TInt 1))"
  using demo_fk_ok demo_checked
  by (simp_all add: demo_serializer_def) (simp_all add: demo_model_defs fk_value_def demo_fk_site_def row_value_def
      written_value_def demo_attrs_def)




end
