(* ===== verification/Admin_Views.thy ===== *)
theory Admin_Views
  imports Open_Context Selection Tenant_Models
begin

text \<open>
  \<^verbatim>\<open>tenants/admin.py\<close>: the model admin that runs each of its views in the context of the user who is logged in, the
  tenant switcher, and the hooks that hide the tenant foreign key and set it.  Django's own admin is an argument: the
  views, forms, layouts and filters that \<^verbatim>\<open>super()\<close> gives, the query for a tenant by its key, and the tenant model's
  rows.  A session is there (the admin needs it).
\<close>

subsection \<open>The admin and its requests\<close>

record admin_request = request +
  ar_get :: "string \<Rightarrow> string option"
  ar_scheme :: string
  ar_host :: "string checked"

text \<open>\<open>aw_request\<close> holds the session; \<open>ad_exists\<close> is \<^verbatim>\<open>filter(pk=raw).exists()\<close> on the tenant model.\<close>

record 'd admin_world =
  aw_request :: admin_request
  aw_aff :: "'d aff"

record 'd model_admin =
  ad_site :: "'d site"
  ad_sel :: sel_cfg
  ad_allow_tenant_switch :: bool
  ad_session_key :: string
  ad_query_param :: string
  ad_deny_without_tenant :: bool
  ad_exists :: "string \<Rightarrow> ('d aff, bool) py"

definition all_tenants :: string where
  "all_tenants = ''__all__''"

definition admin_state :: "'d admin_world \<Rightarrow> rls_state" where
  "admin_state w = a_state (aw_aff w)"

definition on_admin :: "('d aff, 'a) py \<Rightarrow> ('d admin_world, 'a) py" where
  "on_admin m = (\<lambda>w. case m (aw_aff w) of (r, a) \<Rightarrow> (r, w\<lparr>aw_aff := a\<rparr>))"

definition on_admin_request :: "(admin_request sel_world, 'a) py \<Rightarrow> ('d admin_world, 'a) py" where
  "on_admin_request m = (\<lambda>w. case m \<lparr>sw_request = aw_request w, sw_log = a_audit (aw_aff w)\<rparr> of
     (r, v) \<Rightarrow> (r, w\<lparr>aw_request := sw_request v, aw_aff := (aw_aff w)\<lparr>a_audit := sw_log v\<rparr>\<rparr>))"

definition admin_denied :: "'d model_admin \<Rightarrow> string \<Rightarrow> tenant_id option \<Rightarrow> audit_fields \<Rightarrow> ('d admin_world, unit) py" where
  "admin_denied ad reason user details =
     on_admin (py_modify (\<lambda>a. a\<lparr>a_audit := denied (st_audits (ad_site ad)) ''admin'' reason user None None details (a_audit a)\<rparr>))"

text \<open>\<^verbatim>\<open>request.user\<close>; one without the attributes of a \<^verbatim>\<open>TenantUser\<close> (an anonymous one) raises.\<close>

definition admin_user :: "('d admin_world, request_user) py" where
  "admin_user = (\<lambda>w. case rq_user (aw_request w) of
     None \<Rightarrow> (Inl (OtherError ''AttributeError''), w) | Some user \<Rightarrow> (Inr user, w))"

text \<open>\<^verbatim>\<open>request.session\<close>.\<close>

definition admin_session :: "('d admin_world, session) py" where
  "admin_session = (\<lambda>w. case rq_session (aw_request w) of
     None \<Rightarrow> (Inl (OtherError ''AttributeError''), w) | Some s \<Rightarrow> (Inr s, w))"

definition set_session :: "(session \<Rightarrow> session) \<Rightarrow> ('d admin_world, unit) py" where
  "set_session f =
     py_bind admin_session (\<lambda>s. py_modify (\<lambda>w. w\<lparr>aw_request := put_session (f s) (aw_request w)\<rparr>))"

subsection \<open>The context of a view\<close>

definition effective_tenant_id :: "'d model_admin \<Rightarrow> ('d admin_world, tenant_id option) py" where
  "effective_tenant_id ad =
     py_bind admin_user (\<lambda>user.
       if u_is_admin user
       then (if \<not> ad_allow_tenant_switch ad then py_ret None
             else py_bind admin_session (\<lambda>s. py_ret (s (ad_session_key ad))))
       else if selects_tenants user then on_admin_request (request_tenant_id (ad_sel ad) user ''admin'')
       else py_ret (u_tenant user))"

datatype view_context = TenantContext tenant_id | AdminContext | NullContext

definition rls_context_of :: "'d model_admin \<Rightarrow> ('d admin_world, view_context) py" where
  "rls_context_of ad =
     py_bind admin_user (\<lambda>user.
     py_bind (effective_tenant_id ad) (\<lambda>tenant.
       case tenant of
         Some t \<Rightarrow> py_ret (TenantContext t)
       | None \<Rightarrow>
           if u_is_admin user then py_ret AdminContext
           else if ad_deny_without_tenant ad
           then py_seq (admin_denied ad ''user_without_tenant'' (u_pk user) []) (py_raise permission_denied)
           else py_ret NullContext))"

text \<open>\<^verbatim>\<open>with context: body\<close>, the context's records attributed to the admin and the user.\<close>

definition with_opened :: "('d aff, 'd closing) py \<Rightarrow> ('d admin_world, 'a) py \<Rightarrow> ('d admin_world, 'a) py" where
  "with_opened enter body =
     py_bind (on_admin enter) (\<lambda>c w. case body w of (r, w1) \<Rightarrow> on_admin (close_with c r) w1)"

definition in_view_context ::
  "'d model_admin \<Rightarrow> tenant_id option \<Rightarrow> view_context \<Rightarrow> ('d admin_world, 'a) py \<Rightarrow> ('d admin_world, 'a) py" where
  "in_view_context ad user_id context body =
     (case context of
        NullContext \<Rightarrow> body
      | TenantContext t \<Rightarrow> with_opened (attributed (open_tenant (ad_site ad) t) (Some ''admin'') user_id) body
      | AdminContext \<Rightarrow> with_opened (attributed (open_admin (ad_site ad)) (Some ''admin'') user_id) body)"

subsection \<open>The switcher's choice\<close>

definition can_switch :: "'d model_admin \<Rightarrow> request_user \<Rightarrow> bool checked" where
  "can_switch ad user =
     (if \<not> ad_allow_tenant_switch ad then Inr False
      else if u_is_admin user then Inr True
      else if \<not> selects_tenants user \<or> sl_session_key (ad_sel ad) = None then Inr False
      else ck_bind (other_tenants (ad_sel ad) user) (\<lambda>others. Inr (others \<noteq> [])))"

definition user_can_switch_tenant :: "'d model_admin \<Rightarrow> ('d admin_world, bool) py" where
  "user_can_switch_tenant ad =
     py_bind admin_user (\<lambda>user w. (can_switch ad user, w))"

text \<open>
  \<^verbatim>\<open>urlsplit\<close>: white space and control characters in front and every tab, line feed and carriage return are dropped; a
  scheme is a letter and letters, digits, \<^verbatim>\<open>+\<close>, \<^verbatim>\<open>-\<close> or \<^verbatim>\<open>.\<close> before the first colon; the host part follows
  \<^verbatim>\<open>//\<close>.  Brackets must be paired; a bracketed host is not checked further.
\<close>

definition is_scheme_char :: "char \<Rightarrow> bool" where
  "is_scheme_char c \<longleftrightarrow> is_alpha c \<or> is_digit c \<or> c \<in> set ''+-.''"

definition url_text :: "string \<Rightarrow> string" where
  "url_text url =
     filter (\<lambda>c. c \<notin> {CHR 0x09, CHR 0x0A, CHR 0x0D}) (dropWhile (\<lambda>c. (of_char c :: nat) \<le> 32) url)"

definition url_scheme :: "string \<Rightarrow> string \<times> string" where
  "url_scheme url =
     (let scheme = takeWhile (\<lambda>c. c \<noteq> CHR '':'') url; rest = drop (length scheme) url
      in if rest \<noteq> [] \<and> scheme \<noteq> [] \<and> is_alpha (hd scheme) \<and> list_all is_scheme_char scheme
         then (map ascii_lower scheme, tl rest) else ([], url))"

definition urlsplit :: "string \<Rightarrow> (string \<times> string) checked" where
  "urlsplit url =
     (case url_scheme (url_text url) of
        (scheme, rest) \<Rightarrow>
          if take 2 rest \<noteq> ''//'' then Inr (scheme, [])
          else let netloc = takeWhile (\<lambda>c. c \<notin> set ''/?#'') (drop 2 rest)
            in if (CHR ''['' \<in> set netloc) \<noteq> (CHR '']'' \<in> set netloc) then Inl ValueError else Inr (scheme, netloc))"

definition same_origin_navigation :: "admin_request \<Rightarrow> bool checked" where
  "same_origin_navigation r =
     (case rq_headers r ''Sec-Fetch-Site'' of
        Some fetch_site \<Rightarrow> Inr (fetch_site = ''same-origin'' \<or> fetch_site = ''none'')
      | None \<Rightarrow>
          (case rq_headers r ''Referer'' of
             None \<Rightarrow> Inr False
           | Some referer \<Rightarrow>
               if referer = [] then Inr False
               else ck_bind (urlsplit referer) (\<lambda>(scheme, netloc).
                 if scheme \<noteq> ar_scheme r then Inr False
                 else ck_bind (ar_host r) (\<lambda>host. Inr (netloc = host)))))"

definition is_known_tenant :: "'d model_admin \<Rightarrow> string \<Rightarrow> ('d aff, bool) py" where
  "is_known_tenant ad raw =
     py_except (ad_exists ad raw) (\<lambda>e. e \<in> {ValueError, TypeError, validation_error}) (\<lambda>_. py_ret False)"

text \<open>A member's choice is the site's selection, and only one made on this site.\<close>

definition sync_member_selection :: "'d model_admin \<Rightarrow> request_user \<Rightarrow> string \<Rightarrow> ('d admin_world, unit) py" where
  "sync_member_selection ad user raw =
     py_bind (\<lambda>w. (same_origin_navigation (aw_request w), w)) (\<lambda>same_origin.
       if \<not> same_origin
       then py_seq (admin_denied ad ''cross_site_selection'' (u_pk user)
                      [(''selected'', Some (shown (TStr raw))), (''via'', Some (AStr ''query''))])
              (py_raise permission_denied)
       else if raw = [] \<or> raw = all_tenants then on_admin_request (clear_selection (ad_sel ad) ''admin'')
       else py_bind (on_admin_request (switch (ad_sel ad) (TStr raw) ''admin'' ''query'')) (\<lambda>_. py_ret ()))"

definition sync_admin_selection :: "'d model_admin \<Rightarrow> string \<Rightarrow> ('d admin_world, unit) py" where
  "sync_admin_selection ad raw =
     (if raw = [] \<or> raw = all_tenants then set_session (\<lambda>s. s(ad_session_key ad := None))
      else py_bind (on_admin (is_known_tenant ad raw)) (\<lambda>known.
        set_session (\<lambda>s. s(ad_session_key ad := (if known then Some (TStr raw) else None)))))"

definition sync_tenant_selection :: "'d model_admin \<Rightarrow> ('d admin_world, unit) py" where
  "sync_tenant_selection ad =
     py_bind (user_can_switch_tenant ad) (\<lambda>may_switch.
       if \<not> may_switch then py_ret ()
       else py_bind (py_get (\<lambda>w. ar_get (aw_request w) (ad_query_param ad))) (\<lambda>given.
         case given of
           None \<Rightarrow> py_ret ()
         | Some raw \<Rightarrow>
             py_bind admin_user (\<lambda>user.
               if u_is_admin user then sync_admin_selection ad raw else sync_member_selection ad user raw)))"

subsection \<open>The views\<close>

text \<open>\<open>view\<close> is what \<^verbatim>\<open>super()\<close> does: the changelist, or the page that adds, changes, deletes or shows the history of an object.\<close>

definition admin_view :: "'d model_admin \<Rightarrow> ('d admin_world, 'r) py \<Rightarrow> ('d admin_world, 'r) py" where
  "admin_view ad view =
     py_seq (sync_tenant_selection ad)
       (py_bind (rls_context_of ad) (\<lambda>context.
        py_bind (py_get (\<lambda>w. user_id_of (aw_request w))) (\<lambda>user_id.
          in_view_context ad user_id context view)))"

definition changelist_view where
  "changelist_view ad super extra_context = admin_view ad (super extra_context)"

definition add_view where
  "add_view ad super form_url extra_context = admin_view ad (super form_url extra_context)"

definition change_view where
  "change_view ad super object_id form_url extra_context = admin_view ad (super object_id form_url extra_context)"

definition delete_view where
  "delete_view ad super object_id extra_context = admin_view ad (super object_id extra_context)"

definition history_view where
  "history_view ad super object_id extra_context = admin_view ad (super object_id extra_context)"

subsection \<open>The tenant foreign key\<close>

text \<open>An entry of a layout is a field, or several on one line.\<close>

datatype layout_entry = OneField string | OnOneLine "string list"

type_synonym layout = "(string option \<times> layout_entry list) list"

definition entry_without :: "string \<Rightarrow> layout_entry \<Rightarrow> layout_entry list" where
  "entry_without field e =
     (case e of
        OneField f \<Rightarrow> if f \<noteq> field then [e] else []
      | OnOneLine fs \<Rightarrow> (let group = filter (\<lambda>f. f \<noteq> field) fs in if group \<noteq> [] then [OnOneLine group] else []))"

definition fieldsets_without :: "layout \<Rightarrow> string \<Rightarrow> layout" where
  "fieldsets_without fieldsets field = map (\<lambda>(name, entries). (name, concat (map (entry_without field) entries))) fieldsets"

definition get_exclude :: "'d model_admin \<Rightarrow> model_cfg \<Rightarrow> string list option \<Rightarrow> ('d admin_world, string list option) py" where
  "get_exclude ad cfg exclude =
     py_bind (effective_tenant_id ad) (\<lambda>tenant.
       case tenant of
         None \<Rightarrow> py_ret exclude
       | Some _ \<Rightarrow>
           (let existing = (case exclude of None \<Rightarrow> [] | Some xs \<Rightarrow> xs)
            in py_ret (Some (if md_tenant_fk cfg \<in> set existing then existing else existing @ [md_tenant_fk cfg]))))"

definition get_fieldsets :: "'d model_admin \<Rightarrow> model_cfg \<Rightarrow> layout \<Rightarrow> ('d admin_world, layout) py" where
  "get_fieldsets ad cfg fieldsets =
     py_bind (effective_tenant_id ad) (\<lambda>tenant.
       case tenant of None \<Rightarrow> py_ret fieldsets | Some _ \<Rightarrow> py_ret (fieldsets_without fieldsets (md_tenant_fk cfg)))"

text \<open>A row: its attributes by \<^verbatim>\<open>attname\<close>.  \<open>to_python\<close> is that of the tenant model's key; a model without the field raises.\<close>

type_synonym row = "string \<Rightarrow> tenant_id option"

definition stamp_tenant ::
  "model_cfg \<Rightarrow> (tenant_id \<Rightarrow> tenant_id option checked) \<Rightarrow> dj_model \<Rightarrow> tenant_id \<Rightarrow> row \<Rightarrow> row checked" where
  "stamp_tenant cfg to_python model tenant obj =
     (case get_field model (md_tenant_fk cfg) of
        None \<Rightarrow> Inl (OtherError ''FieldDoesNotExist'')
      | Some fk \<Rightarrow> ck_bind (to_python tenant) (\<lambda>v. Inr (obj(fd_attname fk := v))))"

text \<open>\<open>save\<close> is \<^verbatim>\<open>super().save_model\<close>.\<close>

definition save_model ::
  "'d model_admin \<Rightarrow> model_cfg \<Rightarrow> (tenant_id \<Rightarrow> tenant_id option checked) \<Rightarrow> dj_model \<Rightarrow>
     (row \<Rightarrow> ('d admin_world, unit) py) \<Rightarrow> row \<Rightarrow> ('d admin_world, unit) py" where
  "save_model ad cfg to_python model save obj =
     py_bind (effective_tenant_id ad) (\<lambda>tenant.
       case tenant of
         None \<Rightarrow> save obj
       | Some t \<Rightarrow> (case stamp_tenant cfg to_python model t obj of Inl e \<Rightarrow> py_raise e | Inr stamped \<Rightarrow> save stamped))"

text \<open>
  A form: whether it is bound, its instance, which of its fields are choices of rows, the data sent for a field and
  \<^verbatim>\<open>errors\<close> as codes by field.  The class \<^verbatim>\<open>get_form\<close> makes is its tenant and user; \<open>None\<close> is the form class as it is.
\<close>

record admin_form =
  fm_bound :: bool
  fm_instance :: row
  fm_choice_fields :: "string list"
  fm_data :: "string \<Rightarrow> tenant_id option"
  fm_errors :: "(string \<times> string list) list"

definition get_form :: "'d model_admin \<Rightarrow> ('d admin_world, (tenant_id \<times> tenant_id option) option) py" where
  "get_form ad =
     py_bind (effective_tenant_id ad) (\<lambda>tenant.
       case tenant of
         None \<Rightarrow> py_ret None
       | Some t \<Rightarrow> py_get (\<lambda>w. Some (t, user_id_of (aw_request w))))"

definition form_init ::
  "model_cfg \<Rightarrow> (tenant_id \<Rightarrow> tenant_id option checked) \<Rightarrow> dj_model \<Rightarrow> (tenant_id \<times> tenant_id option) option \<Rightarrow>
     admin_form \<Rightarrow> admin_form checked" where
  "form_init cfg to_python model stamped form =
     (case stamped of
        None \<Rightarrow> Inr form
      | Some (t, _) \<Rightarrow> ck_bind (stamp_tenant cfg to_python model t (fm_instance form)) (\<lambda>inst. Inr (form\<lparr>fm_instance := inst\<rparr>)))"

definition rejected_choices :: "dj_field list \<Rightarrow> admin_form \<Rightarrow> (dj_field \<times> tenant_id option) list" where
  "rejected_choices foreign_keys form =
     List.map_filter (\<lambda>(name, codes).
       case find (\<lambda>f. fd_name f = name) (rev foreign_keys) of
         None \<Rightarrow> None
       | Some f \<Rightarrow> if name \<in> set (fm_choice_fields form) \<and> ''invalid_choice'' \<in> set codes then Some (f, fm_data form name) else None)
       (fm_errors form)"

definition audit_rejected_choices ::
  "'d fk_site \<Rightarrow> (dj_field \<Rightarrow> tenant_id option \<Rightarrow> tenant_id option checked) \<Rightarrow> dj_model \<Rightarrow> admin_form \<Rightarrow> tenant_id \<Rightarrow>
     tenant_id option \<Rightarrow> ('d aff, unit) py" where
  "audit_rejected_choices env target_to_python model form tenant user_id =
     (case checked_foreign_keys env model of
        None \<Rightarrow> py_ret ()
      | Some (_, foreign_keys) \<Rightarrow>
          (let found = rejected_choices foreign_keys form
           in if found \<noteq> [] then audit_rejected_values env model tenant found target_to_python ''admin'' user_id
              else py_ret ()))"

text \<open>\<open>clean\<close> is \<^verbatim>\<open>super().full_clean()\<close>, which fills in the errors.\<close>

definition form_full_clean ::
  "'d fk_site \<Rightarrow> (dj_field \<Rightarrow> tenant_id option \<Rightarrow> tenant_id option checked) \<Rightarrow> dj_model \<Rightarrow>
     (admin_form \<Rightarrow> ('d aff, admin_form) py) \<Rightarrow> (tenant_id \<times> tenant_id option) option \<Rightarrow> admin_form \<Rightarrow> ('d aff, admin_form) py" where
  "form_full_clean env target_to_python model clean stamped form =
     py_bind (clean form) (\<lambda>cleaned.
       case stamped of
         None \<Rightarrow> py_ret cleaned
       | Some (t, user_id) \<Rightarrow>
           py_seq (if fm_bound cleaned \<and> fm_errors cleaned \<noteq> []
                   then audit_rejected_choices env target_to_python model cleaned t user_id else py_ret ())
             (py_ret cleaned))"

subsection \<open>The switcher\<close>

text \<open>
  \<open>sf_given\<close> is the base class's \<^verbatim>\<open>value()\<close>, the parameter in the query string; \<open>tenants\<close> the rows of the tenant
  model, each with its key and its \<^verbatim>\<open>str()\<close>.
\<close>

record switch_filter =
  sf_parameter :: string
  sf_member :: bool
  sf_session_value :: "tenant_id option"
  sf_given :: "string option"
  sf_lookups :: "(string \<times> string) list"

definition switcher_lookups ::
  "sel_cfg \<Rightarrow> request_user \<Rightarrow> (tenant_id \<times> string) list \<Rightarrow> (string \<times> string) list checked" where
  "switcher_lookups cfg user tenants =
     ck_bind (if selects_tenants user
              then ck_bind (selectable cfg user) (\<lambda>pks. Inr (filter (\<lambda>t. fst t \<in> set pks) tenants)) else Inr tenants)
       (\<lambda>shown_tenants. Inr (map (\<lambda>(pk, label). (tenant_str pk, label)) shown_tenants))"

definition session_value :: "'d model_admin \<Rightarrow> request_user \<Rightarrow> session \<Rightarrow> tenant_id option" where
  "session_value ad user session =
     (if selects_tenants user
      then (let selected = Option.bind (sl_session_key (ad_sel ad)) session
            in if selected \<notin> {None, Some (TStr []), Some (TInt 0)} then selected
               else map_option (\<lambda>t. TStr (tenant_str t)) (u_tenant user))
      else session (ad_session_key ad))"

definition switcher_init ::
  "'d model_admin \<Rightarrow> string \<Rightarrow> request_user \<Rightarrow> session \<Rightarrow> string option \<Rightarrow> (tenant_id \<times> string) list \<Rightarrow> switch_filter checked" where
  "switcher_init ad parameter_name user session given tenants =
     ck_bind (switcher_lookups (ad_sel ad) user tenants) (\<lambda>lookups.
       Inr \<lparr>sf_parameter = parameter_name, sf_member = selects_tenants user, sf_session_value = session_value ad user session,
            sf_given = given, sf_lookups = lookups\<rparr>)"

definition switcher_value :: "switch_filter \<Rightarrow> tenant_id option" where
  "switcher_value sf =
     (let selected = (if sf_member sf \<and> sf_given sf = Some all_tenants then None else sf_given sf)
      in case selected of
           None \<Rightarrow> sf_session_value sf
         | Some s \<Rightarrow> if s = [] then sf_session_value sf else Some (TStr s))"

definition switcher_queryset :: "'q \<Rightarrow> 'q" where
  "switcher_queryset queryset = queryset"

text \<open>A choice: whether it is selected, its query string (\<^verbatim>\<open>changelist.get_query_string\<close>) and what it shows.\<close>

definition switcher_choices ::
  "(string \<Rightarrow> string \<Rightarrow> string) \<Rightarrow> switch_filter \<Rightarrow> (bool \<times> string \<times> string) list" where
  "switcher_choices query_string sf =
     (let current = switcher_value sf
      in (if sf_member sf then []
          else [(current = None \<or> current = Some (TStr all_tenants), query_string (sf_parameter sf) all_tenants, ''All'')]) @
         map (\<lambda>(lookup, title). (current = Some (TStr lookup), query_string (sf_parameter sf) lookup, title)) (sf_lookups sf))"

text \<open>A filter is one of the admin's own, or the switcher with its parameter's name.\<close>

datatype 'f list_filter = OwnFilter 'f | TenantSwitch string

definition tenant_switch_filter_class :: "'d model_admin \<Rightarrow> 'f list_filter" where
  "tenant_switch_filter_class ad =
     (if ad_query_param ad = ''rls_tenant'' then TenantSwitch ''rls_tenant'' else TenantSwitch (ad_query_param ad))"

definition get_list_filter :: "'d model_admin \<Rightarrow> 'f list \<Rightarrow> ('d admin_world, 'f list_filter list) py" where
  "get_list_filter ad own =
     py_bind (user_can_switch_tenant ad) (\<lambda>may_switch.
       py_ret (if \<not> may_switch then map OwnFilter own else tenant_switch_filter_class ad # map OwnFilter own))"

subsection \<open>What the steps before a view leave alone\<close>

definition same_admin :: "'d admin_world \<Rightarrow> 'd admin_world \<Rightarrow> bool" where
  "same_admin w w' \<longleftrightarrow> admin_state w' = admin_state w \<and> rq_user (aw_request w') = rq_user (aw_request w)"

definition leaves :: "('d admin_world, 'a) py \<Rightarrow> bool" where
  "leaves m \<longleftrightarrow> (\<forall>w. same_admin w (snd (m w)))"

lemma leavesD: "leaves m \<Longrightarrow> m w = (r, w') \<Longrightarrow> same_admin w w'"
  by (metis leaves_def snd_conv)

lemma same_admin_trans: "same_admin w w1 \<Longrightarrow> same_admin w1 w2 \<Longrightarrow> same_admin w w2"
  by (simp add: same_admin_def)

named_theorems leaves_intros "code that leaves the context variables and the user alone"

lemma leaves_bind [leaves_intros]: "leaves m \<Longrightarrow> (\<And>x. leaves (f x)) \<Longrightarrow> leaves (py_bind m f)"
  by (simp add: leaves_def py_bind_def split: prod.split sum.split) (metis same_admin_trans snd_conv)

lemma leaves_seq [leaves_intros]: "leaves m \<Longrightarrow> leaves n \<Longrightarrow> leaves (py_seq m n)"
  unfolding py_seq_def by (intro leaves_bind)

lemma leaves_basic [leaves_intros]:
  "leaves (py_ret x)" "leaves (py_raise e)" "leaves (py_get f)" "leaves (\<lambda>w. (g w, w))" "leaves admin_user"
  "leaves admin_session" "leaves (admin_denied ad reason user details)" "leaves (set_session h)" "leaves (user_can_switch_tenant ad)"
  by (auto simp: leaves_def same_admin_def py_simps admin_user_def admin_session_def admin_denied_def on_admin_def admin_state_def
      set_session_def py_bind_def put_session_def user_can_switch_tenant_def split: option.split)

lemma leaves_if [leaves_intros]: "(b \<Longrightarrow> leaves m) \<Longrightarrow> (\<not> b \<Longrightarrow> leaves n) \<Longrightarrow> leaves (if b then m else n)"
  by simp

lemma leaves_option [leaves_intros]:
  "leaves m \<Longrightarrow> (\<And>x. leaves (f x)) \<Longrightarrow> leaves (case t of None \<Rightarrow> m | Some x \<Rightarrow> f x)"
  by (simp split: option.split)

lemma switch_keeps_user: "rq_user (sw_request (snd (switch cfg value source via v))) = rq_user (sw_request v)"
  by (auto simp: switch_def selection_session_def refuse_def log_on_def on_request_def put_session_def py_seq_def py_bind_def
      py_simps split: option.split sum.split)

lemma clear_keeps_user: "rq_user (sw_request (snd (clear_selection cfg source v))) = rq_user (sw_request v)"
  by (auto simp: clear_selection_def selection_session_def refuse_def log_on_def on_request_def put_session_def py_seq_def
      py_bind_def py_simps split: option.split sum.split)

lemma leaves_request: "(\<And>v. rq_user (sw_request (snd (m v))) = rq_user (sw_request v)) \<Longrightarrow> leaves (on_admin_request m)"
  by (auto simp: leaves_def same_admin_def on_admin_request_def admin_state_def split: prod.split) (metis snd_conv sel_world.select_convs(1))

lemmas leaves_selection [leaves_intros] =
  leaves_request [OF selection_keeps_user] leaves_request [OF switch_keeps_user] leaves_request [OF clear_keeps_user]

lemma leaves_quiet: "quiet m \<Longrightarrow> leaves (on_admin m)"
  by (auto simp: leaves_def same_admin_def on_admin_def admin_state_def quiet_def split: prod.split) (metis snd_conv)

lemma leaves_effective [leaves_intros]: "leaves (effective_tenant_id ad)"
  unfolding effective_tenant_id_def by (intro leaves_intros)

text \<open>\<open>tenant_query_ok\<close>: the query for a tenant leaves the context variables and the audit log alone.\<close>

definition tenant_query_ok :: "'d model_admin \<Rightarrow> bool" where
  "tenant_query_ok ad \<longleftrightarrow> (\<forall>raw. quiet (ad_exists ad raw))"

lemma leaves_sync:
  assumes "tenant_query_ok ad"
  shows "leaves (sync_tenant_selection ad)"
proof -
  have "quiet (is_known_tenant ad raw)" for raw
    using assms by (auto simp: tenant_query_ok_def is_known_tenant_def quiet_def py_except_def py_simps split: prod.split sum.split)
      (metis snd_conv)+
  then show ?thesis
    unfolding sync_tenant_selection_def sync_admin_selection_def sync_member_selection_def by (intro leaves_intros leaves_quiet)
qed

text \<open>What a view runs as: the tenant of its user, or the one the user selects; all tenants only for a tenant admin.\<close>

definition may_view :: "'d model_admin \<Rightarrow> request_user \<Rightarrow> session option \<Rightarrow> tenant_id option \<Rightarrow> bool" where
  "may_view ad user session tenant =
     (if u_is_admin user
      then (if ad_allow_tenant_switch ad then \<exists>s. session = Some s \<and> tenant = s (ad_session_key ad) else tenant = None)
      else tenant \<noteq> None \<and> (tenant = u_tenant user \<or>
        selects_tenants user \<and> (\<exists>s. selectable (ad_sel ad) user = Inr s \<and> the tenant \<in> set s)))"

definition runs_as_user :: "'d model_admin \<Rightarrow> request_user \<Rightarrow> 'd admin_world \<Rightarrow> bool" where
  "runs_as_user ad user w \<longleftrightarrow> state_ok (admin_state w) \<and> (\<exists>tenant. may_view ad user (rq_session (aw_request w)) tenant \<and>
     sees tenant True (Some (case tenant of None \<Rightarrow> admin_gucs | Some t \<Rightarrow> gucs_for_tenant t)) (admin_state w))"

lemma effective_tenant_may_view:
  assumes e: "effective_tenant_id ad w = (Inr tenant, w1)" and user: "rq_user (aw_request w) = Some user"
    and some: "tenant = None \<longrightarrow> u_is_admin user"
  shows "may_view ad user (rq_session (aw_request w1)) tenant"
proof (cases "u_is_admin user")
  case True
  then show ?thesis using e user
    by (auto simp: effective_tenant_id_def py_bind_def admin_user_def admin_session_def py_simps may_view_def
        split: if_splits option.splits)
next
  case member: False
  show ?thesis
  proof (cases "selects_tenants user")
    case False
    then show ?thesis using e user member some
      by (auto simp: effective_tenant_id_def py_bind_def admin_user_def py_simps may_view_def)
  next
    case True
    let ?v = "\<lparr>sw_request = aw_request w, sw_log = a_audit (aw_aff w)\<rparr>"
    have "fst (request_tenant_id (ad_sel ad) user ''admin'' ?v) = Inr tenant"
      using e user member True
      by (auto simp: effective_tenant_id_def py_bind_def admin_user_def on_admin_request_def split: prod.splits)
    then show ?thesis using member True some
      by (auto simp: may_view_def fst_request_tenant_id selected_tenant_def split: option.splits if_splits
          dest: may_select_selectable)
  qed
qed

lemma rls_context_of_may_view:
  assumes r: "rls_context_of ad w = (Inr c, w1)" and user: "rq_user (aw_request w) = Some user"
    and deny: "ad_deny_without_tenant ad"
  obtains tenant where "may_view ad user (rq_session (aw_request w1)) tenant"
    "c = (case tenant of None \<Rightarrow> AdminContext | Some t \<Rightarrow> TenantContext t)"
proof -
  obtain q v where q: "effective_tenant_id ad w = (q, v)" by (cases "effective_tenant_id ad w")
  then obtain tenant where t: "q = Inr tenant"
    using r user by (cases q) (auto simp: rls_context_of_def py_bind_def admin_user_def)
  have "v = w1 \<and> c = (case tenant of None \<Rightarrow> AdminContext | Some t \<Rightarrow> TenantContext t) \<and> (tenant = None \<longrightarrow> u_is_admin user)"
    using r user q t deny
    by (auto simp: rls_context_of_def py_bind_def py_seq_def admin_user_def py_simps admin_denied_def on_admin_def
        split: option.splits if_splits)
  then show thesis using effective_tenant_may_view [of ad w tenant w1 user] q t user that by blast
qed

lemma leaves_rls_context [leaves_intros]: "leaves (rls_context_of ad)"
  unfolding rls_context_of_def by (intro leaves_intros)

definition view_opens :: "'d model_admin \<Rightarrow> view_context \<Rightarrow> tenant_id option \<Rightarrow> ('d aff, 'd closing) py" where
  "view_opens ad context user_id =
     (case context of
        TenantContext t \<Rightarrow> attributed (open_tenant (ad_site ad) t) (Some ''admin'') user_id
      | _ \<Rightarrow> attributed (open_admin (ad_site ad)) (Some ''admin'') user_id)"

lemma in_view_context_opens:
  "context \<noteq> NullContext \<Longrightarrow> in_view_context ad user_id context body = with_opened (view_opens ad context user_id) body"
  by (cases "context") (simp_all add: in_view_context_def view_opens_def)

lemma view_opens_context:
  "site_ok (ad_site ad) \<Longrightarrow>
     opens tenant (case tenant of None \<Rightarrow> admin_gucs | Some t \<Rightarrow> gucs_for_tenant t)
       (view_opens ad (case tenant of None \<Rightarrow> AdminContext | Some t \<Rightarrow> TenantContext t) user_id)"
  by (cases tenant) (simp_all add: view_opens_def attributed_def opens_admin opens_tenant)

lemma opensD: "opens tenant gucs enter \<Longrightarrow> enter w = (e, a) \<Longrightarrow> state_ok (a_state w) \<Longrightarrow> opened tenant gucs (a_state w) (e, a)"
  unfolding opens_def by (drule spec [of _ w]) simp

text \<open>The steps before the view: what they end with, and the user and the context variables as they were.\<close>

definition before_view :: "'d model_admin \<Rightarrow> ('d admin_world, view_context \<times> tenant_id option) py" where
  "before_view ad =
     py_seq (sync_tenant_selection ad)
       (py_bind (rls_context_of ad) (\<lambda>context. py_get (\<lambda>w. (context, user_id_of (aw_request w)))))"

lemma admin_view_after:
  "admin_view ad view = py_bind (before_view ad) (\<lambda>(context, user_id). in_view_context ad user_id context view)"
  unfolding admin_view_def before_view_def
  by (rule ext) (simp add: py_seq_def py_bind_def py_simps split: prod.split sum.split)

lemma leaves_before: "tenant_query_ok ad \<Longrightarrow> leaves (before_view ad)"
  unfolding before_view_def by (intro leaves_intros leaves_sync)

lemma before_view_result:
  assumes b: "before_view ad w = (Inr (c, user_id), w1)" and user: "rq_user (aw_request w) = Some user"
    and deny: "ad_deny_without_tenant ad" and query: "tenant_query_ok ad"
  obtains tenant where "may_view ad user (rq_session (aw_request w1)) tenant"
    "c = (case tenant of None \<Rightarrow> AdminContext | Some t \<Rightarrow> TenantContext t)" "admin_state w1 = admin_state w"
proof -
  obtain q v where q: "sync_tenant_selection ad w = (q, v)" by (cases "sync_tenant_selection ad w")
  have v: "same_admin w v" using leavesD [OF leaves_sync [OF query] q] .
  have r: "rls_context_of ad v = (Inr c, w1)"
    using b q by (auto simp: before_view_def py_seq_def py_bind_def py_simps split: prod.splits sum.splits)
  have w1: "same_admin v w1" using leavesD [OF leaves_rls_context r] .
  have u: "rq_user (aw_request v) = Some user" using v user by (simp add: same_admin_def)
  show thesis by (rule rls_context_of_may_view [OF r u deny]) (use v w1 in \<open>auto simp: same_admin_def intro: that\<close>)
qed

text \<open>
  An admin view runs as its user.  Whatever Django's view does, all of it happens in the context of a tenant of the
  user, or of the tenant a tenant admin chose, or of all tenants for a tenant admin who chose none: two views that do
  the same there are the same view.  Every other request is refused before the view starts.
\<close>

theorem admin_view_runs_as_its_user:
  assumes site: "site_ok (ad_site ad)" and query: "tenant_query_ok ad" and deny: "ad_deny_without_tenant ad"
    and w: "state_ok (admin_state w)" and user: "rq_user (aw_request w) = Some user"
    and same: "\<And>v. runs_as_user ad user v \<Longrightarrow> view v = view' v"
  shows "admin_view ad view w = admin_view ad view' w"
proof -
  obtain q w1 where q: "before_view ad w = (q, w1)" by (cases "before_view ad w")
  show ?thesis
  proof (cases q)
    case (Inl e)
    then show ?thesis using q by (simp add: admin_view_after py_bind_def)
  next
    case (Inr x)
    obtain c user_id where x: "x = (c, user_id)" by (cases x)
    obtain tenant where t: "may_view ad user (rq_session (aw_request w1)) tenant"
      "c = (case tenant of None \<Rightarrow> AdminContext | Some t \<Rightarrow> TenantContext t)" "admin_state w1 = admin_state w"
      using before_view_result [OF _ user deny query] q Inr x by metis
    have null: "c \<noteq> NullContext" using t(2) by (simp split: option.splits)
    let ?enter = "view_opens ad c user_id"
    obtain e a where e: "?enter (aw_aff w1) = (e, a)" by (cases "?enter (aw_aff w1)")
    have "opened tenant (case tenant of None \<Rightarrow> admin_gucs | Some t \<Rightarrow> gucs_for_tenant t) (admin_state w1) (e, a)"
      using opensD [OF view_opens_context [OF site, of tenant user_id], of "aw_aff w1" e a] t w e by (simp add: admin_state_def)
    then have "runs_as_user ad user (w1\<lparr>aw_aff := a\<rparr>)" if "e = Inr close_block" for close_block
      using that t by (auto simp: runs_as_user_def admin_state_def scoped_state_ok)
    then have "with_opened ?enter view w1 = with_opened ?enter view' w1"
      using same e by (cases e) (simp_all add: with_opened_def on_admin_def py_bind_def)
    then show ?thesis using q Inr x null by (simp add: admin_view_after py_bind_def in_view_context_opens)
  qed
qed

text \<open>
  An admin view gives back the context: however the view ends, and whatever it sets in its own context, the context
  variables are what they were before the request.
\<close>

theorem admin_view_gives_back:
  assumes site: "site_ok (ad_site ad)" and query: "tenant_query_ok ad" and deny: "ad_deny_without_tenant ad"
    and w: "state_ok (admin_state w)"
    and view: "\<And>v. state_ok (admin_state v) \<Longrightarrow> scoped (admin_state v) (admin_state (snd (view v)))"
  shows "balanced (admin_state w) (admin_state (snd (admin_view ad view w)))"
proof -
  obtain q w1 where q: "before_view ad w = (q, w1)" by (cases "before_view ad w")
  have w1: "admin_state w1 = admin_state w"
    using leavesD [of "before_view ad", OF _ q] leaves_before [OF query] by (simp add: same_admin_def)
  show ?thesis
  proof (cases q)
    case (Inl e)
    then show ?thesis using q w w1 by (simp add: admin_view_after py_bind_def balanced_refl)
  next
    case (Inr x)
    obtain c user_id where x: "x = (c, user_id)" by (cases x)
    obtain user where user: "rq_user (aw_request w) = Some user"
      using q Inr leavesD [OF leaves_sync [OF query]]
      by (cases "rq_user (aw_request w)")
        (auto simp: before_view_def py_seq_def py_bind_def rls_context_of_def admin_user_def same_admin_def
          split: prod.splits sum.splits)
    obtain tenant where t: "c = (case tenant of None \<Rightarrow> AdminContext | Some t \<Rightarrow> TenantContext t)"
      using before_view_result [OF _ user deny query] q Inr x by metis
    have null: "c \<noteq> NullContext" using t by (simp split: option.splits)
    let ?enter = "view_opens ad c user_id"
    obtain e a where e: "?enter (aw_aff w1) = (e, a)" by (cases "?enter (aw_aff w1)")
    have g: "case e of Inl _ \<Rightarrow> balanced (admin_state w1) (a_state a)
        | Inr close_block \<Rightarrow> scoped (admin_state w1) (a_state a) \<and>
          (\<forall>r v. scoped (a_state a) (a_state v) \<longrightarrow> balanced (admin_state w1) (a_state (snd (close_block r v))))"
      using gives_backD [OF opens_gives_back [OF view_opens_context [OF site, of tenant user_id]], of "aw_aff w1"] t e w w1
      unfolding admin_state_def by simp
    show ?thesis
    proof (cases e)
      case (Inl y)
      then show ?thesis using q Inr x null e g w1
        by (simp add: admin_view_after py_bind_def in_view_context_opens with_opened_def on_admin_def admin_state_def)
    next
      case c: (Inr close_block)
      obtain r v where r: "view (w1\<lparr>aw_aff := a\<rparr>) = (r, v)" by (cases "view (w1\<lparr>aw_aff := a\<rparr>)")
      have "scoped (a_state a) (a_state (aw_aff v))"
        using view [of "w1\<lparr>aw_aff := a\<rparr>"] g c r by (auto simp: admin_state_def dest: scoped_state_ok)
      then show ?thesis using q Inr x null e g w1 c r
        by (auto simp: admin_view_after py_bind_def in_view_context_opens with_opened_def on_admin_def admin_state_def
            close_with_def split: prod.split sum.split) (metis snd_conv)+
    qed
  qed
qed

subsection \<open>What the switcher stores\<close>

text \<open>A change of a session: keys may be dropped, and what is stored satisfies \<open>P\<close>.\<close>

definition stores :: "(string \<Rightarrow> tenant_id \<Rightarrow> bool) \<Rightarrow> session option \<Rightarrow> session option \<Rightarrow> bool" where
  "stores P s s' \<longleftrightarrow> (case (s, s') of
     (Some old, Some new) \<Rightarrow> (\<forall>k. new k = old k \<or> new k = None \<or> (\<exists>v. new k = Some v \<and> P k v))
   | (None, None) \<Rightarrow> True | _ \<Rightarrow> False)"

lemma stores_refl: "stores P s s"
  by (simp add: stores_def split: option.split)

lemma switch_stores:
  assumes "rq_user (sw_request w) = Some user"
  shows "stores (\<lambda>k v. sl_session_key cfg = Some k \<and>
      (\<exists>t s. v = TStr (tenant_str t) \<and> selectable cfg user = Inr s \<and> t \<in> set s))
    (rq_session (sw_request w)) (rq_session (sw_request (snd (switch cfg value source via w))))"
  using assms
  by (auto simp: switch_def selection_session_def refuse_def log_on_def on_request_def put_session_def py_seq_def py_bind_def
      py_simps stores_def switching_user_def split: option.split sum.split if_splits dest: may_select_selectable)

lemma clear_stores: "stores P (rq_session (sw_request w)) (rq_session (sw_request (snd (clear_selection cfg source w))))"
  by (auto simp: clear_selection_def selection_session_def log_on_def on_request_def put_session_def py_seq_def py_bind_def
      py_simps stores_def split: option.split)

lemma on_admin_request_session:
  "rq_session (aw_request (snd (on_admin_request m w))) =
     rq_session (sw_request (snd (m \<lparr>sw_request = aw_request w, sw_log = a_audit (aw_aff w)\<rparr>)))"
  by (simp add: on_admin_request_def split: prod.split)

lemma on_admin_request_is [simp]: "aw_request (snd (on_admin m w)) = aw_request w"
  by (simp add: on_admin_def split: prod.split)

lemma admin_denied_request [simp]: "aw_request (snd (admin_denied ad reason user details w)) = aw_request w"
  by (simp add: admin_denied_def)

text \<open>What the switcher may store for a user: a tenant admin's, in a key of the admin's own; a member's is the site's.\<close>

definition may_store :: "'d model_admin \<Rightarrow> request_user \<Rightarrow> admin_request \<Rightarrow> string \<Rightarrow> tenant_id \<Rightarrow> bool" where
  "may_store ad user r k v \<longleftrightarrow> ad_allow_tenant_switch ad \<and>
     (if u_is_admin user
      then k = ad_session_key ad \<and> (\<exists>raw a. ar_get r (ad_query_param ad) = Some raw \<and> v = TStr raw \<and>
             fst (ad_exists ad raw a) = Inr True)
      else sl_session_key (ad_sel ad) = Some k \<and> same_origin_navigation r = Inr True \<and>
           (\<exists>t s. v = TStr (tenant_str t) \<and> selectable (ad_sel ad) user = Inr s \<and> t \<in> set s))"

lemma known_exists: "fst (is_known_tenant ad raw a) = Inr True \<longleftrightarrow> fst (ad_exists ad raw a) = Inr True"
  by (auto simp: is_known_tenant_def py_except_def py_simps split: prod.split sum.split)

text \<open>
  The switcher stores only what its user may choose: of the session, a request with the switcher's parameter changes
  nothing but the switcher's key, which ends with a tenant that exists for a tenant admin, with one of the user's own
  tenants for a user of several, chosen on this site, or without a choice.  A user who may not switch changes nothing.
\<close>

theorem switcher_stores_only_choices:
  assumes user: "rq_user (aw_request w) = Some user"
  shows "stores (may_store ad user (aw_request w)) (rq_session (aw_request w))
           (rq_session (aw_request (snd (sync_tenant_selection ad w))))"
proof -
  let ?P = "may_store ad user (aw_request w)" and ?s = "rq_session (aw_request w)"
  consider (nothing) "snd (sync_tenant_selection ad w) = w"
    | (admin) raw where "ad_allow_tenant_switch ad" "u_is_admin user" "ar_get (aw_request w) (ad_query_param ad) = Some raw"
        "sync_tenant_selection ad w = sync_admin_selection ad raw w"
    | (own) raw where "ad_allow_tenant_switch ad" "\<not> u_is_admin user"
        "sync_tenant_selection ad w = sync_member_selection ad user raw w"
  proof (cases "can_switch ad user = Inr True \<and> ar_get (aw_request w) (ad_query_param ad) \<noteq> None")
    case False
    then have "snd (sync_tenant_selection ad w) = w" using user
      by (cases "can_switch ad user")
        (auto simp: sync_tenant_selection_def py_bind_def user_can_switch_tenant_def admin_user_def py_simps)
    then show ?thesis by (rule nothing)
  next
    case True
    then obtain raw where raw: "ar_get (aw_request w) (ad_query_param ad) = Some raw" by auto
    have allow: "ad_allow_tenant_switch ad" using True by (auto simp: can_switch_def split: if_splits)
    have "sync_tenant_selection ad w =
        (if u_is_admin user then sync_admin_selection ad raw else sync_member_selection ad user raw) w"
      using True raw user by (simp add: sync_tenant_selection_def py_bind_def user_can_switch_tenant_def admin_user_def py_simps)
    then show ?thesis by (cases "u_is_admin user") (use allow raw in \<open>auto intro: admin own\<close>)
  qed
  then show ?thesis
  proof cases
    case nothing
    then show ?thesis by (simp add: stores_refl)
  next
    case admin
    have drop: "stores ?P ?s (rq_session (aw_request (snd (set_session (\<lambda>s. s(k := None)) w))))" for k
      by (auto simp: set_session_def admin_session_def py_bind_def py_simps put_session_def stores_def split: option.split)
    show ?thesis
    proof (cases "raw = [] \<or> raw = all_tenants")
      case True
      then show ?thesis using admin drop by (simp add: sync_admin_selection_def)
    next
      case False
      obtain q a where q: "is_known_tenant ad raw (aw_aff w) = (q, a)" by (cases "is_known_tenant ad raw (aw_aff w)")
      show ?thesis
      proof (cases q)
        case (Inl e)
        then show ?thesis using admin False q
          by (simp add: sync_admin_selection_def py_bind_def on_admin_def stores_refl)
      next
        case (Inr known)
        have "known \<Longrightarrow> fst (ad_exists ad raw (aw_aff w)) = Inr True" using q Inr known_exists by (metis (full_types) fst_conv)
        then show ?thesis using admin False q Inr
          by (auto simp: sync_admin_selection_def py_bind_def on_admin_def set_session_def admin_session_def py_simps
              put_session_def stores_def may_store_def split: option.split)
      qed
    qed
  next
    case own
    show ?thesis
    proof (cases "same_origin_navigation (aw_request w) = Inr True")
      case False
      then have "rq_session (aw_request (snd (sync_member_selection ad user raw w))) = ?s"
        by (auto simp: sync_member_selection_def py_seq_def py_bind_def py_simps admin_denied_def on_admin_def
            split: sum.split)
      then show ?thesis using own by (simp add: stores_refl)
    next
      case True
      have P: "?P = (\<lambda>k v. sl_session_key (ad_sel ad) = Some k \<and>
          (\<exists>t s. v = TStr (tenant_str t) \<and> selectable (ad_sel ad) user = Inr s \<and> t \<in> set s))"
        using own True by (auto simp: may_store_def fun_eq_iff)
      have after: "aw_request (snd (py_bind m (\<lambda>_. py_ret ()) w)) = aw_request (snd (m w))" for m :: "('a admin_world, 'z) py"
        by (simp add: py_bind_def py_simps split: prod.split sum.split)
      let ?v = "\<lparr>sw_request = aw_request w, sw_log = a_audit (aw_aff w)\<rparr>"
      have "rq_user (sw_request ?v) = Some user" using user by simp
      note stored = switch_stores [OF this, of "ad_sel ad" "TStr raw" "''admin''" "''query''"]
        clear_stores [of ?P ?v "ad_sel ad" "''admin''"]
      show ?thesis using own True stored unfolding P
        by (simp add: sync_member_selection_def py_bind_def [of "\<lambda>w. (same_origin_navigation (aw_request w), w)"] after
            on_admin_request_session)
    qed
  qed
qed

text \<open>
  A link from another site switches no tenant of a member: the request is a 403 with exactly one audit record, and the
  session and everything else are as they were.
\<close>

theorem cross_site_link_refused:
  assumes user: "rq_user (aw_request w) = Some user" "\<not> u_is_admin user" and may: "can_switch ad user = Inr True"
    and given: "ar_get (aw_request w) (ad_query_param ad) = Some raw"
    and other: "same_origin_navigation (aw_request w) = Inr False"
  shows "sync_tenant_selection ad w = (Inl permission_denied, w\<lparr>aw_aff := (aw_aff w)\<lparr>a_audit :=
           denied (st_audits (ad_site ad)) ''admin'' ''cross_site_selection'' (u_pk user) None None
             [(''selected'', Some (shown (TStr raw))), (''via'', Some (AStr ''query''))] (a_audit (aw_aff w))\<rparr>\<rparr>)"
  using assms
  by (simp add: sync_tenant_selection_def sync_member_selection_def py_seq_def py_bind_def user_can_switch_tenant_def
      admin_user_def admin_denied_def on_admin_def py_simps)

text \<open>Only \<^verbatim>\<open>same-origin\<close> and \<^verbatim>\<open>none\<close>, or a referer of the request's own scheme and host, are this site.\<close>

lemma same_origin_exact:
  "same_origin_navigation r = Inr True \<longleftrightarrow>
     (case rq_headers r ''Sec-Fetch-Site'' of
        Some site \<Rightarrow> site \<in> {''same-origin'', ''none''}
      | None \<Rightarrow> \<exists>referer host. rq_headers r ''Referer'' = Some referer \<and> referer \<noteq> [] \<and> ar_host r = Inr host \<and>
                 urlsplit referer = Inr (ar_scheme r, host))"
  by (auto simp: same_origin_navigation_def split: option.split sum.split prod.split)

subsection \<open>The tenant foreign key of a form\<close>

fun entry_fields :: "layout_entry \<Rightarrow> string list" where
  "entry_fields (OneField f) = [f]"
| "entry_fields (OnOneLine fs) = fs"

definition fieldset_fields :: "string option \<times> layout_entry list \<Rightarrow> string list" where
  "fieldset_fields fieldset = concat (map entry_fields (snd fieldset))"

lemma entry_without_fields: "concat (map entry_fields (entry_without field e)) = filter (\<lambda>f. f \<noteq> field) (entry_fields e)"
  by (cases e) (simp_all add: entry_without_def Let_def)

lemma entry_without_nonempty: "e \<in> set (entry_without field e') \<Longrightarrow> entry_fields e \<noteq> []"
  by (cases e') (auto simp: entry_without_def Let_def split: if_splits)

text \<open>
  A layout without a field names every other field, in the order and the fieldsets of the layout, and not that one; no
  line is left empty.
\<close>

lemma fieldsets_without_exact:
  "map fst (fieldsets_without fieldsets field) = map fst fieldsets"
  "map fieldset_fields (fieldsets_without fieldsets field) = map (\<lambda>fs. filter (\<lambda>f. f \<noteq> field) (fieldset_fields fs)) fieldsets"
  "fs \<in> set (fieldsets_without fieldsets field) \<Longrightarrow> e \<in> set (snd fs) \<Longrightarrow> entry_fields e \<noteq> []"
proof -
  have "concat (map entry_fields (concat (map (entry_without field) es))) = filter (\<lambda>f. f \<noteq> field) (concat (map entry_fields es))"
    for es by (induction es) (simp_all add: entry_without_fields)
  then show "map fieldset_fields (fieldsets_without fieldsets field) =
      map (\<lambda>fs. filter (\<lambda>f. f \<noteq> field) (fieldset_fields fs)) fieldsets"
    by (auto simp: fieldsets_without_def fieldset_fields_def)
  show "map fst (fieldsets_without fieldsets field) = map fst fieldsets"
    by (auto simp: fieldsets_without_def)
  show "fs \<in> set (fieldsets_without fieldsets field) \<Longrightarrow> e \<in> set (snd fs) \<Longrightarrow> entry_fields e \<noteq> []"
    by (auto simp: fieldsets_without_def) (metis entry_without_nonempty)
qed

text \<open>
  A hidden tenant is stamped: when the request has a tenant, the form excludes the tenant foreign key and no
  layout names it, and then the form's instance has that tenant while it is validated, and so has the row that is saved,
  every other attribute as it was given.
\<close>

theorem hidden_tenant_is_stamped:
  assumes t: "effective_tenant_id ad w = (Inr (Some t), w1)" and fk: "get_field model (md_tenant_fk cfg) = Some fk"
    and v: "to_python t = Inr v"
  shows "(\<exists>fields. fst (get_exclude ad cfg exclude w) = Inr (Some fields) \<and> md_tenant_fk cfg \<in> set fields) \<and>
         (\<exists>layout. fst (get_fieldsets ad cfg fieldsets w) = Inr layout \<and>
            md_tenant_fk cfg \<notin> set (concat (map fieldset_fields layout))) \<and>
         (\<exists>stamped form'. fst (get_form ad w) = Inr stamped \<and> form_init cfg to_python model stamped form = Inr form' \<and>
            fm_instance form' = (fm_instance form)(fd_attname fk := v)) \<and>
         save_model ad cfg to_python model save obj w = save (obj(fd_attname fk := v)) w1"
proof -
  have "md_tenant_fk cfg \<notin> set (concat (map fieldset_fields (fieldsets_without fieldsets (md_tenant_fk cfg))))"
    by (simp add: fieldsets_without_exact(2))
  then show ?thesis using assms
    by (simp add: get_exclude_def get_fieldsets_def get_form_def form_init_def save_model_def stamp_tenant_def py_bind_def py_simps Let_def)
qed

subsection \<open>One concrete admin\<close>

definition demo_admin :: "demo_pg_state model_admin" where
  "demo_admin = \<lparr>ad_site = demo_site True, ad_sel = demo_sel_cfg, ad_allow_tenant_switch = True,
     ad_session_key = ''rls_admin_tenant'', ad_query_param = ''rls_tenant'', ad_deny_without_tenant = True,
     ad_exists = (\<lambda>raw. py_ret (raw = ''7''))\<rparr>"

text \<open>The page of a member that a page of another site links to, with a tenant in the query string.\<close>

definition demo_admin_request :: admin_request where
  "demo_admin_request = \<lparr>rq_user = Some demo_member, rq_headers = [''Referer'' \<mapsto> ''https://other.example/page''],
     rq_session = Some [session_user_key \<mapsto> TStr ''5'', ''rls_tenant'' \<mapsto> TStr ''7''], rq_vary = None,
     ar_get = [''rls_tenant'' \<mapsto> ''__all__''], ar_scheme = ''https'', ar_host = Inr ''app.example''\<rparr>"

definition demo_admin_world :: "demo_pg_state admin_world" where
  "demo_admin_world = \<lparr>aw_request = demo_admin_request, aw_aff = demo_world\<lparr>a_state := init_state\<rparr>\<rparr>"

definition demo_super :: request_user where
  "demo_super = demo_member\<lparr>u_is_admin := True\<rparr>"

text \<open>A tenant admin who chose no tenant, and chooses tenant 7.\<close>

definition demo_super_world :: "demo_pg_state admin_world" where
  "demo_super_world = demo_admin_world\<lparr>aw_request := demo_admin_request\<lparr>rq_user := Some demo_super,
     rq_session := Some Map.empty, ar_get := [''rls_tenant'' \<mapsto> ''7'']\<rparr>\<rparr>"

lemma demo_admin_ok: "site_ok (ad_site demo_admin)" "tenant_query_ok demo_admin" "ad_deny_without_tenant demo_admin"
  "state_ok (admin_state demo_admin_world)" "state_ok (admin_state demo_super_world)"
  by (simp_all add: demo_admin_def demo_site_ok tenant_query_ok_def quiet_def py_simps demo_admin_world_def demo_super_world_def
      admin_state_def init_state_def state_ok_def heap_wf_def current_live_def cur_ctx_def default_ctx_def)

lemma demo_admin_users:
  "rq_user (aw_request demo_admin_world) = Some demo_member" "rq_user (aw_request demo_super_world) = Some demo_super"
  by (simp_all add: demo_admin_world_def demo_super_world_def demo_admin_request_def)

lemma demo_other_site: "same_origin_navigation (aw_request demo_admin_world) = Inr False"
  by (simp add: same_origin_navigation_def demo_admin_world_def demo_admin_request_def urlsplit_def url_scheme_def url_text_def
      char_class_defs is_scheme_char_def ascii_lower_def Let_def)

text \<open>A tenant admin who chose tenant 7 before.\<close>

definition demo_chosen_world :: "demo_pg_state admin_world" where
  "demo_chosen_world = demo_super_world\<lparr>aw_request := demo_admin_request\<lparr>rq_user := Some demo_super,
     rq_session := Some [''rls_admin_tenant'' \<mapsto> TStr ''7'']\<rparr>\<rparr>"

lemma admin_view_runs_as_its_user_witness:
  "admin_view demo_admin (py_get (\<lambda>w. get_rls_context_active (admin_state w))) demo_super_world =
     admin_view demo_admin (py_ret True) demo_super_world"
  by (rule admin_view_runs_as_its_user [OF demo_admin_ok(1,2,3,5) demo_admin_users(2)])
    (auto simp: runs_as_user_def sees_def py_simps)

lemma admin_view_gives_back_witness:
  "balanced (admin_state demo_super_world) (admin_state (snd (admin_view demo_admin (py_ret ''page'') demo_super_world)))"
  by (rule admin_view_gives_back [OF demo_admin_ok(1,2,3,5)]) (simp add: py_simps scoped_refl)

lemma switcher_stores_only_choices_witness:
  "stores (may_store demo_admin demo_super (aw_request demo_super_world)) (rq_session (aw_request demo_super_world))
     (rq_session (aw_request (snd (sync_tenant_selection demo_admin demo_super_world)))) \<and>
   rq_session (aw_request (snd (sync_tenant_selection demo_admin demo_super_world))) =
     Some [''rls_admin_tenant'' \<mapsto> TStr ''7'']"
  by (rule conjI [OF switcher_stores_only_choices [OF demo_admin_users(2)]])
    (simp add: demo_super_world_def demo_admin_def demo_super_def demo_admin_request_def demo_member_def
      sync_tenant_selection_def sync_admin_selection_def all_tenants_def user_can_switch_tenant_def can_switch_def admin_user_def
      is_known_tenant_def py_except_def on_admin_def set_session_def admin_session_def put_session_def py_bind_def py_simps)

lemma cross_site_link_refused_witness:
  "\<exists>w. sync_tenant_selection demo_admin demo_admin_world = (Inl permission_denied, w) \<and>
     rq_session (aw_request w) = rq_session (aw_request demo_admin_world)"
proof -
  have "can_switch demo_admin demo_member = Inr True"
    by (simp add: can_switch_def demo_admin_def selects_tenants_def other_tenants_def demo_selection_defs)
  moreover have "ar_get (aw_request demo_admin_world) (ad_query_param demo_admin) = Some ''__all__''"
    by (simp add: demo_admin_def demo_admin_world_def demo_admin_request_def)
  moreover have "\<not> u_is_admin demo_member" by (simp add: demo_member_def)
  ultimately show ?thesis
    using cross_site_link_refused [OF demo_admin_users(1) _ _ _ demo_other_site] by fastforce
qed

lemma demo_effective: "effective_tenant_id demo_admin demo_chosen_world = (Inr (Some (TStr ''7'')), demo_chosen_world)"
  by (simp add: effective_tenant_id_def demo_chosen_world_def demo_super_world_def demo_super_def demo_member_def demo_admin_def
      demo_admin_request_def admin_user_def admin_session_def py_bind_def py_simps)

lemma hidden_tenant_is_stamped_witness:
  "\<exists>fields. fst (get_exclude demo_admin demo_model_cfg None demo_chosen_world) = Inr (Some fields) \<and> ''tenant'' \<in> set fields"
  using hidden_tenant_is_stamped [OF demo_effective, of demo_note demo_model_cfg "demo_fk ''tenant'' ''app.Tenant'' 1"
      "\<lambda>_. Inr (Some (TInt 7))" "Some (TInt 7)"]
  by (simp add: get_field_def demo_model_defs)

end
