(* ===== verification/Tenant_Commands.thy ===== *)
theory Tenant_Commands
  imports Selection Tenant_Models "HOL-Library.Multiset"
begin

text \<open>
  \<^verbatim>\<open>management/commands/run_as_tenant.py\<close> and \<^verbatim>\<open>run_for_all_tenants.py\<close> (with \<^verbatim>\<open>management/_worker.py\<close>): a management
  command inside the context of one tenant, or of each tenant in turn or in a pool of worker processes.  Beside the
  database the world holds the console: what is written to the streams, and a clock in milliseconds.  The commands of
  the project, the queries for tenants, and how an exception is told are arguments; \<^verbatim>\<open>argparse\<close>'s declarations, the
  texts of \<^verbatim>\<open>CommandError\<close>s and the styling of lines are left out.
\<close>

subsection \<open>The console\<close>

datatype stream = SysStdout | SysStderr | StringOut | StringErr | Stream nat

datatype run_status = RunOk | RunFailed | RunSkipped

record tenant_run =
  tr_tenant :: tenant_id
  tr_label :: string
  tr_status :: run_status
  tr_seconds :: "nat option"
  tr_error :: "string option"
  tr_traceback :: "string option"
  tr_stdout :: "string option"
  tr_stderr :: "string option"

text \<open>What is written: text, or the line \<^verbatim>\<open>json.dumps(asdict(run))\<close>.\<close>

datatype written = Text stream string | JsonLine stream tenant_run

record console =
  co_written :: "written list"
  co_clock :: nat

type_synonym 'd shell = "('d \<times> console) aff"

record output_streams =
  ou_stdout :: stream
  ou_stderr :: stream
  ou_no_color :: bool
  ou_force_color :: bool

definition console_of :: "'d shell \<Rightarrow> console" where
  "console_of w = snd (a_db w)"

definition write_item :: "written \<Rightarrow> ('d shell, unit) py" where
  "write_item x = py_modify (\<lambda>w. w\<lparr>a_db := (fst (a_db w), (console_of w)\<lparr>co_written := co_written (console_of w) @ [x]\<rparr>)\<rparr>)"

text \<open>\<^verbatim>\<open>OutputWrapper.write\<close>: with the default ending, and with \<^verbatim>\<open>ending=""\<close>.\<close>

definition write_line :: "stream \<Rightarrow> string \<Rightarrow> ('d shell, unit) py" where
  "write_line stream text =
     write_item (Text stream (if text \<noteq> [] \<and> last text = newline then text else text @ [newline]))"

definition write_raw :: "stream \<Rightarrow> string \<Rightarrow> ('d shell, unit) py" where
  "write_raw stream text = write_item (Text stream text)"

subsection \<open>The inner command\<close>

text \<open>
  A command: whether its parser declares \<^verbatim>\<open>--database\<close>, and \<^verbatim>\<open>call_command()\<close> of it.  \<open>cs_exit_status\<close> is the status of a
  \<^verbatim>\<open>SystemExit\<close> that is neither \<^verbatim>\<open>None\<close> nor 0, as text.
\<close>

record 'd command =
  cm_has_database :: bool
  cm_call :: "output_streams \<Rightarrow> string list \<Rightarrow> ('d shell, unit) py"

record 'd command_site =
  cs_site :: "('d \<times> console) site"
  cs_commands :: "string \<Rightarrow> 'd command option"
  cs_get_tenant :: "string \<Rightarrow> string \<Rightarrow> string \<Rightarrow> ('d shell, tenant_id \<times> string) py"
  cs_tenants :: "(string \<rightharpoonup> string) \<Rightarrow> string \<Rightarrow> ('d shell, (tenant_id \<times> string) list) py"
  cs_describe :: "exn \<Rightarrow> string"
  cs_traceback :: "exn \<Rightarrow> string"
  cs_exit_status :: "exn \<Rightarrow> string option"

definition command_error :: exn where
  "command_error = OtherError ''CommandError''"

definition call_command :: "'d command_site \<Rightarrow> string \<Rightarrow> string list \<Rightarrow> output_streams \<Rightarrow> ('d shell, unit) py" where
  "call_command cs name args out =
     (case cs_commands cs name of None \<Rightarrow> py_raise command_error | Some c \<Rightarrow> cm_call c out args)"

definition check_alias :: "'d command_site \<Rightarrow> string \<Rightarrow> ('d shell, unit) py" where
  "check_alias cs alias =
     (let cfg = st_cfg (cs_site cs) in
      py_seq (py_except (connections_get (st_cursor (cs_site cs)) alias) (\<lambda>e. e = ConnectionDoesNotExist) (\<lambda>_. py_raise command_error))
        (py_require (\<not> (use_local_set cfg \<and> alias \<notin> set (databases cfg))) command_error))"

definition inner_args :: "'d command_site \<Rightarrow> string \<Rightarrow> string list \<Rightarrow> string option \<Rightarrow> string list checked" where
  "inner_args cs name args database =
     (case cs_commands cs name of
        None \<Rightarrow> Inl command_error
      | Some c \<Rightarrow>
          (let inner = (if take 1 args = [''--''] then tl args else args)
           in case database of
                None \<Rightarrow> Inr inner
              | Some db \<Rightarrow> Inr (if cm_has_database c then (''--database='' @ db) # inner else inner)))"

definition resolve_tenant :: "'d command_site \<Rightarrow> string \<Rightarrow> string \<Rightarrow> string \<Rightarrow> ('d shell, tenant_id \<times> string) py" where
  "resolve_tenant cs value lookup alias =
     py_except (attributed (\<lambda>origin. admin_context (cs_site cs) alias origin (cs_get_tenant cs value lookup alias)) None None)
       (\<lambda>e. e \<in> {OtherError ''ObjectDoesNotExist'', OtherError ''MultipleObjectsReturned'', OtherError ''FieldError'',
                validation_error, ValueError})
       (\<lambda>_. py_raise command_error)"

record run_options =
  op_database :: "string option"
  op_command_name :: string
  op_stdout :: "stream option"
  op_stderr :: "stream option"
  op_no_color :: bool
  op_force_color :: bool
  op_verbosity :: nat

definition stdout_of :: "('z) run_options_scheme \<Rightarrow> stream" where
  "stdout_of options = (case op_stdout options of None \<Rightarrow> SysStdout | Some s \<Rightarrow> s)"

definition stderr_of :: "('z) run_options_scheme \<Rightarrow> stream" where
  "stderr_of options = (case op_stderr options of None \<Rightarrow> SysStderr | Some s \<Rightarrow> s)"

definition output_options :: "('z) run_options_scheme \<Rightarrow> output_streams" where
  "output_options options = \<lparr>ou_stdout = stdout_of options, ou_stderr = stderr_of options,
     ou_no_color = op_no_color options, ou_force_color = op_force_color options\<rparr>"

definition alias_of :: "string option \<Rightarrow> string" where
  "alias_of database = (case database of None \<Rightarrow> ''default'' | Some db \<Rightarrow> if db = [] then ''default'' else db)"

subsection \<open>One tenant\<close>

record as_tenant_options = run_options +
  op_tenant :: "string option"
  op_admin :: bool
  op_lookup :: string

text \<open>The context a command runs in: a block, and what the command's report calls it.\<close>

type_synonym 'd command_block = "origin \<Rightarrow> ('d shell, unit) py \<Rightarrow> ('d shell, unit) py"

definition chosen_block :: "'d command_site \<Rightarrow> as_tenant_options \<Rightarrow> string \<Rightarrow> ('d shell, 'd command_block \<times> string) py" where
  "chosen_block cs options alias =
     (if op_admin options
      then py_ret (\<lambda>origin body. admin_context (cs_site cs) alias origin body, ''the admin context'')
      else case op_tenant options of
        Some value \<Rightarrow>
          py_bind (resolve_tenant cs value (op_lookup options) alias) (\<lambda>(pk, label).
            py_ret (\<lambda>origin body. tenant_context (cs_site cs) (Some pk) alias origin body,
              ''tenant '' @ label @ '' (pk='' @ tenant_str pk @ '')''))
      | None \<Rightarrow> py_raise command_error)"

definition handle_as_tenant :: "'d command_site \<Rightarrow> string list \<Rightarrow> as_tenant_options \<Rightarrow> ('d shell, unit) py" where
  "handle_as_tenant cs args options =
     (let alias = alias_of (op_database options); name = op_command_name options in
      py_seq (check_alias cs alias)
        (py_bind (\<lambda>w. (inner_args cs name args (op_database options), w)) (\<lambda>inner.
         py_bind (chosen_block cs options alias) (\<lambda>(block, target).
         py_seq (if op_verbosity options \<ge> 2
                 then write_line (stderr_of options)
                        (''Running '' @ name @ '' in '' @ target @ '' on database '' @ sq alias @ ''.'')
                 else py_ret ())
           (attributed block (Some ''command'') None (call_command cs name inner (output_options options)))))))"

subsection \<open>Every tenant\<close>

record all_tenants_options = run_options +
  op_filters :: "string list"
  op_parallel :: int
  op_json :: bool
  op_fail_fast :: bool
  op_traceback :: bool

text \<open>The text written to a stream between two states of the console.\<close>

definition captured :: "stream \<Rightarrow> written list \<Rightarrow> string" where
  "captured stream items = concat (map (\<lambda>x. case x of Text s t \<Rightarrow> if s = stream then t else [] | _ \<Rightarrow> []) items)"

definition is_captured :: "written \<Rightarrow> bool" where
  "is_captured x = (case x of Text s _ \<Rightarrow> s \<in> {StringOut, StringErr} | _ \<Rightarrow> False)"

text \<open>
  A command writes to the end of the console (what was there stays).  With \<open>capture\<close> its output goes to two strings of
  the run's own, which do not stay on the console.
\<close>

definition finish_run ::
  "'d command_site \<Rightarrow> tenant_id \<Rightarrow> string \<Rightarrow> bool \<Rightarrow> console \<Rightarrow> string option \<times> string option \<Rightarrow> ('d shell, tenant_run) py" where
  "finish_run cs tenant label capture started outcome = (\<lambda>w.
     let items = drop (length (co_written started)) (co_written (console_of w));
         run = \<lparr>tr_tenant = tenant, tr_label = label, tr_status = (if fst outcome = None then RunOk else RunFailed),
                tr_seconds = Some (co_clock (console_of w) - co_clock started), tr_error = fst outcome,
                tr_traceback = snd outcome, tr_stdout = (if capture then Some (captured StringOut items) else None),
                tr_stderr = (if capture then Some (captured StringErr items) else None)\<rparr>
     in (Inr run,
         if capture
         then w\<lparr>a_db := (fst (a_db w), (console_of w)\<lparr>co_written := co_written started @ filter (\<lambda>x. \<not> is_captured x) items\<rparr>)\<rparr>
         else w))"

definition run_for_tenant ::
  "'d command_site \<Rightarrow> string \<Rightarrow> string list \<Rightarrow> tenant_id \<Rightarrow> string \<Rightarrow> string \<Rightarrow> bool \<Rightarrow> output_streams \<Rightarrow>
     ('d shell, tenant_run) py" where
  "run_for_tenant cs name args tenant label alias capture streams =
     py_bind (py_get console_of) (\<lambda>started w.
       let out = (if capture then streams\<lparr>ou_stdout := StringOut, ou_stderr := StringErr\<rparr> else streams)
       in case attributed (\<lambda>origin. tenant_context (cs_site cs) (Some tenant) alias origin (call_command cs name args out))
                 (Some ''command'') None w of
            (Inr _, w1) \<Rightarrow> finish_run cs tenant label capture started (None, None) w1
          | (Inl e, w1) \<Rightarrow>
              if e = OtherError ''SystemExit''
              then finish_run cs tenant label capture started
                     (map_option (\<lambda>code. ''exited with status '' @ code) (cs_exit_status cs e), None) w1
              else if is_exception e
              then finish_run cs tenant label capture started (Some (cs_describe cs e), Some (cs_traceback cs e)) w1
              else (Inl e, w1))"

text \<open>\<^verbatim>\<open>item.partition("=")\<close>; a filter given twice counts once, the last value.\<close>

definition filter_of :: "string \<Rightarrow> (string \<times> string) checked" where
  "filter_of item =
     (let field = takeWhile (\<lambda>c. c \<noteq> CHR ''='') item; rest = drop (length field) item
      in if rest = [] \<or> field = [] then Inl command_error else Inr (field, tl rest))"

definition parse_filters :: "string list \<Rightarrow> (string \<rightharpoonup> string) checked" where
  "parse_filters filters = ck_bind (map_checked filter_of filters) (\<lambda>items. Inr (map_of (rev items)))"

definition list_tenants :: "'d command_site \<Rightarrow> (string \<rightharpoonup> string) \<Rightarrow> string \<Rightarrow> ('d shell, (tenant_id \<times> string) list) py" where
  "list_tenants cs filters alias =
     py_except (attributed (\<lambda>origin. admin_context (cs_site cs) alias origin (cs_tenants cs filters alias)) None None)
       (\<lambda>e. e \<in> {OtherError ''FieldError'', validation_error, ValueError}) (\<lambda>_. py_raise command_error)"

subsection \<open>The report\<close>

definition skipped_run :: "tenant_id \<Rightarrow> string \<Rightarrow> tenant_run" where
  "skipped_run tenant label = \<lparr>tr_tenant = tenant, tr_label = label, tr_status = RunSkipped, tr_seconds = None,
     tr_error = None, tr_traceback = None, tr_stdout = None, tr_stderr = None\<rparr>"

text \<open>Seconds rounded to milliseconds, as Python writes the number.\<close>

definition pad3 :: "nat \<Rightarrow> string" where
  "pad3 n = (if n < 10 then ''00'' else if n < 100 then ''0'' else '''') @ show_nat n"

definition show_seconds :: "nat \<Rightarrow> string" where
  "show_seconds ms =
     (let digits = rev (dropWhile (\<lambda>c. c = CHR ''0'') (rev (pad3 (ms mod 1000))))
      in show_nat (ms div 1000) @ ''.'' @ (if digits = [] then ''0'' else digits))"

definition where_of :: "tenant_run \<Rightarrow> string" where
  "where_of run = tr_label run @ '' (pk='' @ tenant_str (tr_tenant run) @ '')''"

definition write_header :: "all_tenants_options \<Rightarrow> tenant_id \<Rightarrow> string \<Rightarrow> ('d shell, unit) py" where
  "write_header options tenant label =
     (if op_verbosity options \<noteq> 0
      then write_line (stdout_of options) (''== '' @ label @ '' (pk='' @ tenant_str tenant @ '') =='') else py_ret ())"

definition write_captured :: "string option \<Rightarrow> stream \<Rightarrow> ('d shell, unit) py" where
  "write_captured text stream =
     (case text of None \<Rightarrow> py_ret () | Some t \<Rightarrow> if t = [] then py_ret () else write_raw stream t)"

definition report_outcome :: "all_tenants_options \<Rightarrow> tenant_run \<Rightarrow> ('d shell, unit) py" where
  "report_outcome options run =
     (case tr_status run of
        RunFailed \<Rightarrow>
          py_seq (write_line (stderr_of options) (where_of run @ '': FAILED'' @
                    (case tr_seconds run of None \<Rightarrow> '''' | Some s \<Rightarrow> '' in '' @ show_seconds s @ ''s'') @ '': '' @
                    (case tr_error run of None \<Rightarrow> ''None'' | Some e \<Rightarrow> e)))
            (if op_traceback options \<and> tr_traceback run \<notin> {None, Some []}
             then write_raw (stderr_of options) (the (tr_traceback run)) else py_ret ())
      | RunSkipped \<Rightarrow>
          if op_verbosity options \<noteq> 0 then write_line (stdout_of options) (where_of run @ '': skipped'') else py_ret ()
      | RunOk \<Rightarrow>
          if op_verbosity options \<noteq> 0
          then write_line (stdout_of options) (where_of run @ '': OK in '' @
                 (case tr_seconds run of None \<Rightarrow> ''None'' | Some s \<Rightarrow> show_seconds s) @ ''s'')
          else py_ret ())"

definition report_run :: "all_tenants_options \<Rightarrow> tenant_run \<Rightarrow> ('d shell, unit) py" where
  "report_run options run =
     (if op_json options then write_item (JsonLine (stdout_of options) run)
      else py_seq (if tr_stdout run = None then py_ret ()
                   else py_seq (write_header options (tr_tenant run) (tr_label run))
                       (py_seq (write_captured (tr_stdout run) (stdout_of options))
                          (write_captured (tr_stderr run) (stderr_of options))))
             (report_outcome options run))"

subsection \<open>The runs\<close>

text \<open>The runs that are recorded are the value.\<close>

fun run_serially ::
  "'d command_site \<Rightarrow> all_tenants_options \<Rightarrow> string \<Rightarrow> string list \<Rightarrow> string \<Rightarrow> bool \<Rightarrow> (tenant_id \<times> string) list \<Rightarrow>
     ('d shell, tenant_run list) py" where
  "run_serially cs options name inner alias stopped [] = py_ret []"
| "run_serially cs options name inner alias stopped ((pk, label) # tenants) =
     (if stopped
      then py_seq (report_run options (skipped_run pk label))
             (py_bind (run_serially cs options name inner alias stopped tenants) (\<lambda>runs. py_ret (skipped_run pk label # runs)))
      else py_seq (if op_json options then py_ret () else write_header options pk label)
             (py_bind (run_for_tenant cs name inner pk label alias (op_json options) (output_options options)) (\<lambda>run.
              py_seq (report_run options run)
             (py_bind (run_serially cs options name inner alias (tr_status run = RunFailed \<and> op_fail_fast options) tenants)
                (\<lambda>runs. py_ret (run # runs))))))"

text \<open>
  The pool: what \<^verbatim>\<open>as_completed\<close> yields, in its order, is an argument.  A future is that of a tenant by its index; it is
  cancelled, its pool broke (with what the exception says), or a worker ran it, in a world of the worker's own.
\<close>

datatype 'd fate = Cancelled | PoolBroke string | InWorker "'d shell"

definition worker_run :: "'d command_site \<Rightarrow> string \<Rightarrow> string list \<Rightarrow> tenant_id \<Rightarrow> string \<Rightarrow> string \<Rightarrow> ('d shell, tenant_run) py" where
  "worker_run cs name args tenant label alias =
     run_for_tenant cs name args tenant label alias True
       \<lparr>ou_stdout = SysStdout, ou_stderr = SysStderr, ou_no_color = False, ou_force_color = False\<rparr>"

definition broken_run :: "tenant_id \<Rightarrow> string \<Rightarrow> string \<Rightarrow> tenant_run" where
  "broken_run tenant label message = (skipped_run tenant label)\<lparr>tr_status := RunFailed,
     tr_error := Some (''the worker pool broke before this tenant finished (a worker process died, or failed to start): '' @ message)\<rparr>"

fun completed_runs ::
  "'d command_site \<Rightarrow> all_tenants_options \<Rightarrow> string \<Rightarrow> string list \<Rightarrow> string \<Rightarrow> (tenant_id \<times> string) list \<Rightarrow>
     (nat \<times> 'd fate) list \<Rightarrow> ('d shell, tenant_run list) py" where
  "completed_runs cs options name inner alias tenants [] = py_ret []"
| "completed_runs cs options name inner alias tenants ((i, fate) # futures) =
     (let rest = completed_runs cs options name inner alias tenants futures;
          (pk, label) = tenants ! i;
          done_with = (\<lambda>run. py_seq (report_run options run) (py_bind rest (\<lambda>runs. py_ret (run # runs))))
      in case fate of
           Cancelled \<Rightarrow> rest
         | PoolBroke message \<Rightarrow> done_with (broken_run pk label message)
         | InWorker v \<Rightarrow>
             (case fst (worker_run cs name inner pk label alias v) of Inl e \<Rightarrow> py_raise e | Inr run \<Rightarrow> done_with run))"

fun skip_cancelled :: "all_tenants_options \<Rightarrow> (tenant_id \<times> string) list \<Rightarrow> ('d shell, tenant_run list) py" where
  "skip_cancelled options [] = py_ret []"
| "skip_cancelled options ((pk, label) # tenants) =
     py_seq (report_run options (skipped_run pk label))
       (py_bind (skip_cancelled options tenants) (\<lambda>runs. py_ret (skipped_run pk label # runs)))"

definition cancelled_tenants :: "(tenant_id \<times> string) list \<Rightarrow> (nat \<times> 'd fate) list \<Rightarrow> (tenant_id \<times> string) list" where
  "cancelled_tenants tenants futures =
     map (\<lambda>i. tenants ! i) (filter (\<lambda>i. list_ex (\<lambda>(j, fate). j = i \<and> (case fate of Cancelled \<Rightarrow> True | _ \<Rightarrow> False)) futures) [0..<length tenants])"

definition run_in_workers ::
  "'d command_site \<Rightarrow> all_tenants_options \<Rightarrow> bool \<Rightarrow> string \<Rightarrow> string list \<Rightarrow> string \<Rightarrow> (tenant_id \<times> string) list \<Rightarrow>
     (nat \<times> 'd fate) list \<Rightarrow> ('d shell, tenant_run list) py" where
  "run_in_workers cs options has_settings_module name inner alias tenants futures =
     py_seq (py_require has_settings_module command_error)
       (py_bind (completed_runs cs options name inner alias tenants futures) (\<lambda>runs.
        py_bind (skip_cancelled options (cancelled_tenants tenants futures)) (\<lambda>skipped. py_ret (runs @ skipped))))"

definition summarize :: "all_tenants_options \<Rightarrow> string \<Rightarrow> tenant_run list \<Rightarrow> ('d shell, unit) py" where
  "summarize options name runs =
     (let failed = filter (\<lambda>run. tr_status run = RunFailed) runs;
          skipped = length (filter (\<lambda>run. tr_status run = RunSkipped) runs)
      in py_seq (if \<not> op_json options \<and> op_verbosity options \<noteq> 0
                 then write_line (stdout_of options) (name @ '': '' @ show_nat (length runs - length failed - skipped) @
                        '' tenant(s) succeeded, '' @ show_nat (length failed) @ '' failed, '' @ show_nat skipped @ '' skipped.'')
                 else py_ret ())
           (py_require (failed = []) command_error))"

definition run_the_tenants ::
  "'d command_site \<Rightarrow> bool \<Rightarrow> (nat \<times> 'd fate) list \<Rightarrow> all_tenants_options \<Rightarrow> string list \<Rightarrow> string \<Rightarrow>
     (tenant_id \<times> string) list \<Rightarrow> ('d shell, tenant_run list) py" where
  "run_the_tenants cs has_settings_module futures options inner alias tenants =
     (if op_parallel options = 1 then run_serially cs options (op_command_name options) inner alias False tenants
      else run_in_workers cs options has_settings_module (op_command_name options) inner alias tenants futures)"

definition handle_for_all ::
  "'d command_site \<Rightarrow> bool \<Rightarrow> (nat \<times> 'd fate) list \<Rightarrow> string list \<Rightarrow> all_tenants_options \<Rightarrow> ('d shell, unit) py" where
  "handle_for_all cs has_settings_module futures args options =
     (let alias = alias_of (op_database options); name = op_command_name options in
      py_seq (check_alias cs alias)
     (py_seq (py_require (\<not> op_parallel options < 1) command_error)
     (py_bind (\<lambda>w. (inner_args cs name args (op_database options), w)) (\<lambda>inner.
      py_bind (\<lambda>w. (parse_filters (op_filters options), w)) (\<lambda>filters.
      py_bind (list_tenants cs filters alias) (\<lambda>tenants.
        if tenants = []
        then (if \<not> op_json options \<and> op_verbosity options \<noteq> 0
              then write_line (stdout_of options) ''No tenants matched; nothing to run.'' else py_ret ())
        else py_bind (run_the_tenants cs has_settings_module futures options inner alias tenants) (summarize options name)))))))"

text \<open>A worker's settings: the parent's module, and the parent's name of each database both have.\<close>

record worker_settings =
  wk_module :: string
  wk_databases :: "string \<rightharpoonup> string"
  wk_set_up :: bool

definition init_worker :: "string \<Rightarrow> (string \<times> string) list \<Rightarrow> worker_settings \<Rightarrow> worker_settings" where
  "init_worker settings_module database_names s =
     s\<lparr>wk_module := settings_module,
       wk_databases := fold (\<lambda>(alias, name) m. if m alias = None then m else m(alias \<mapsto> name)) database_names (wk_databases s),
       wk_set_up := True\<rparr>"

subsection \<open>The context of a command\<close>

text \<open>The same project with another body for one of its commands.\<close>

definition with_call ::
  "'d command_site \<Rightarrow> string \<Rightarrow> (output_streams \<Rightarrow> string list \<Rightarrow> ('d shell, unit) py) \<Rightarrow> 'd command_site" where
  "with_call cs name call = cs\<lparr>cs_commands := (\<lambda>n. if n = name then map_option (\<lambda>c. c\<lparr>cm_call := call\<rparr>) (cs_commands cs n) else cs_commands cs n)\<rparr>"

lemma with_call_fields [simp]:
  "cs_site (with_call cs name call) = cs_site cs" "cs_tenants (with_call cs name call) = cs_tenants cs"
  "cs_get_tenant (with_call cs name call) = cs_get_tenant cs" "cs_describe (with_call cs name call) = cs_describe cs"
  "cs_traceback (with_call cs name call) = cs_traceback cs" "cs_exit_status (with_call cs name call) = cs_exit_status cs"
  by (simp_all add: with_call_def)

lemma with_call_args [simp]: "inner_args (with_call cs name call) name args database = inner_args cs name args database"
  by (simp add: inner_args_def with_call_def Let_def split: option.split)

lemma with_call_parts [simp]:
  "check_alias (with_call cs name call) alias = check_alias cs alias"
  "resolve_tenant (with_call cs name call) value lookup alias = resolve_tenant cs value lookup alias"
  "chosen_block (with_call cs name call) options alias = chosen_block cs options alias"
  "finish_run (with_call cs name call) = finish_run cs"
  by (simp_all add: check_alias_def resolve_tenant_def chosen_block_def finish_run_def fun_eq_iff split: option.split)

lemma call_command_with:
  "call_command (with_call cs name call) name args out =
     (case cs_commands cs name of None \<Rightarrow> py_raise command_error | Some c \<Rightarrow> call out args)"
  by (simp add: call_command_def with_call_def split: option.split)

text \<open>Trusted code: commands and queries give back tokens as the library does; the console is not the context.\<close>

definition trusted :: "'d command_site \<Rightarrow> bool" where
  "trusted cs \<longleftrightarrow> site_ok (cs_site cs) \<and> (\<forall>name args out. disciplined (call_command cs name args out)) \<and>
     (\<forall>value lookup alias. quiet (cs_get_tenant cs value lookup alias)) \<and> (\<forall>filters alias. quiet (cs_tenants cs filters alias))"

definition regains :: "('d aff, 'a) py \<Rightarrow> bool" where
  "regains m \<longleftrightarrow> (\<forall>w. state_ok (a_state w) \<longrightarrow> balanced (a_state w) (a_state (snd (m w))))"

lemma regainsD: "regains m \<Longrightarrow> state_ok (a_state w) \<Longrightarrow> m w = (r, w') \<Longrightarrow> balanced (a_state w) (a_state w')"
  by (metis regains_def snd_conv)

lemma balanced_runs: "balanced s t \<Longrightarrow> state_ok t"
  by (auto simp: balanced_def dest: scoped_state_ok)

lemma balanced_chain: "balanced s t \<Longrightarrow> balanced t u \<Longrightarrow> balanced s u"
  by (auto simp: balanced_def intro: scoped_trans)

named_theorems regains_intros "code that gives back the context"

lemma regains_quiet: "quiet m \<Longrightarrow> regains m"
  by (simp add: regains_def quiet_def balanced_refl)

lemma regains_basic [regains_intros]:
  "regains (py_ret x)" "regains (py_raise e)" "regains (py_require b e)" "regains (py_get f)" "regains (\<lambda>w. (r, w))"
  by (simp_all add: regains_def py_simps balanced_refl)

lemma regains_bind [regains_intros]:
  assumes "regains m" "\<And>x. regains (f x)"
  shows "regains (py_bind m f)"
  unfolding regains_def
proof (intro allI impI)
  fix w :: "'a aff"
  assume s: "state_ok (a_state w)"
  obtain r v where r: "m w = (r, v)" by (cases "m w")
  have b: "balanced (a_state w) (a_state v)" using regainsD [OF assms(1) s r] .
  show "balanced (a_state w) (a_state (snd (py_bind m f w)))"
    using r b assms(2) balanced_runs [OF b] balanced_chain [OF b] by (cases r) (auto simp: py_bind_def regains_def)
qed

lemma regains_seq [regains_intros]: "regains m \<Longrightarrow> regains n \<Longrightarrow> regains (py_seq m n)"
  unfolding py_seq_def by (intro regains_bind)

lemma regains_branches [regains_intros]:
  "regains m \<Longrightarrow> regains n \<Longrightarrow> regains (if b then m else n)"
  "regains m \<Longrightarrow> (\<And>x. regains (f x)) \<Longrightarrow> regains (case t of None \<Rightarrow> m | Some x \<Rightarrow> f x)"
  "(\<And>x y. regains (g x y)) \<Longrightarrow> regains (case p of (x, y) \<Rightarrow> g x y)"
  "(\<And>e. regains (h e)) \<Longrightarrow> (\<And>x. regains (f x)) \<Longrightarrow> regains (case q of Inl e \<Rightarrow> h e | Inr x \<Rightarrow> f x)"
  by (simp_all split: option.split prod.split sum.split)

lemma regains_except [regains_intros]: "regains m \<Longrightarrow> (\<And>e. regains (h e)) \<Longrightarrow> regains (py_except m sel h)"
  unfolding regains_def py_except_def
  by (auto split: prod.split sum.split) (metis balanced_chain balanced_runs snd_conv)+

lemma write_item_quiet [quiet_intros]: "quiet (write_item x)"
  unfolding write_item_def by (rule quiet_modify) simp

lemma writes_quiet [quiet_intros]:
  "quiet (write_line s t)" "quiet (write_raw s t)" "quiet (write_header options tenant label)" "quiet (write_captured text s)"
  unfolding write_line_def write_raw_def write_header_def write_captured_def
  by (auto split: option.split intro!: quiet_intros)

lemma report_quiet [quiet_intros]: "quiet (report_run options run)"
  unfolding report_run_def report_outcome_def
  by (cases "tr_status run") (simp_all, (intro quiet_intros conjI impI)+)

lemma regains_report [regains_intros]: "regains (report_run options run)"
  by (intro regains_quiet quiet_intros)

lemma finish_run_quiet: "a_state (snd (finish_run cs tenant label capture started outcome w)) = a_state w"
  by (simp add: finish_run_def Let_def)

lemma block_regains:
  assumes "site_ok st" "disciplined body"
  shows "regains (tenant_context st t u o' body)" "regains (admin_context st u o' body)"
  using assms tenant_cm.restores admin_cm.restores by (auto simp: regains_def)

lemma run_for_tenant_regains [regains_intros]:
  assumes "trusted cs"
  shows "regains (run_for_tenant cs name args tenant label alias capture streams)"
proof -
  let ?block = "\<lambda>out. attributed (\<lambda>origin. tenant_context (cs_site cs) (Some tenant) alias origin (call_command cs name args out)) (Some ''command'') None"
  have b: "regains (?block out)" for out
    unfolding attributed_def by (rule block_regains) (use assms in \<open>auto simp: trusted_def\<close>)
  show ?thesis
    unfolding run_for_tenant_def Let_def
    by (rule regains_bind [OF regains_basic(4)])
      (auto simp: regains_def finish_run_quiet dest: regainsD [OF b] split: prod.split sum.split)
qed

lemma run_serially_regains: "trusted cs \<Longrightarrow> regains (run_serially cs options name inner al stopped tenants)"
proof (induction cs options name inner al stopped tenants rule: run_serially.induct)
  case (2 cs options name inner al stopped pk label tenants)
  have "regains (write_header options pk label)" by (intro regains_quiet quiet_intros)
  then show ?case using 2 by (cases stopped) (auto intro!: regains_intros)
qed (simp add: regains_intros)

lemma skip_cancelled_regains: "regains (skip_cancelled options tenants)"
  by (induction options tenants rule: skip_cancelled.induct) (auto intro!: regains_intros)

lemma completed_runs_regains: "regains (completed_runs cs options name inner al tenants futures)"
  by (induction cs options name inner al tenants futures rule: completed_runs.induct)
    (auto simp: Let_def intro!: regains_intros split: fate.split prod.split sum.split)

lemma run_the_tenants_regains [regains_intros]:
  "trusted cs \<Longrightarrow> regains (run_the_tenants cs module futures options inner alias tenants)"
  unfolding run_the_tenants_def run_in_workers_def
  by (intro regains_intros run_serially_regains completed_runs_regains skip_cancelled_regains)

lemma trusted_parts:
  assumes "trusted cs"
  shows "regains (check_alias cs alias)" "regains (list_tenants cs filters alias)" "regains (resolve_tenant cs value lookup alias)"
    "regains (admin_context (cs_site cs) alias origin (call_command cs name args out))"
    "regains (tenant_context (cs_site cs) tenant alias origin (call_command cs name args out))"
proof -
  have ok: "site_ok (cs_site cs)" and q: "disciplined (cs_get_tenant cs value lookup alias)" "disciplined (cs_tenants cs filters alias)"
    and c: "disciplined (call_command cs name args out)"
    using assms by (auto simp: trusted_def intro: disciplined_quiet)
  have "regains (connections_get (st_cursor (cs_site cs)) alias)"
    by (simp add: regains_def connections_get_def py_simps balanced_refl)
  then show "regains (check_alias cs alias)" unfolding check_alias_def Let_def by (intro regains_intros)
  show "regains (list_tenants cs filters alias)" "regains (resolve_tenant cs value lookup alias)"
    unfolding list_tenants_def resolve_tenant_def attributed_def
    by (intro regains_intros block_regains [OF ok] q)+
  show "regains (admin_context (cs_site cs) alias origin (call_command cs name args out))"
    "regains (tenant_context (cs_site cs) tenant alias origin (call_command cs name args out))"
    using block_regains [OF ok c] by blast+
qed

lemma summarize_regains [regains_intros]: "regains (summarize options name runs)"
  unfolding summarize_def Let_def by (intro regains_intros regains_quiet quiet_intros)

text \<open>
  The commands give back the context: whatever the inner command does, for whichever tenants it runs and fails, and
  whether an option, a tenant or the alias is refused, the context variables after \<^verbatim>\<open>run_as_tenant\<close> and
  \<^verbatim>\<open>run_for_all_tenants\<close> are what they were before.
\<close>

theorem commands_give_back:
  assumes cs: "trusted cs" and w: "state_ok (a_state w)"
  shows "balanced (a_state w) (a_state (snd (handle_as_tenant cs args options w))) \<and>
         balanced (a_state w) (a_state (snd (handle_for_all cs module futures args all_options w)))"
proof -
  note parts = trusted_parts [OF cs]
  have block: "regains (py_bind (chosen_block cs options al) (\<lambda>(block, target). py_seq (line target)
      (attributed block (Some ''command'') None (call_command cs name inner out))))"
    if line: "\<And>target. regains (line target)" for al line name inner out
    unfolding chosen_block_def attributed_def
    by (auto simp: py_bind_assoc case_prod_unfold intro!: regains_intros line parts split: option.split)
  have "regains (handle_as_tenant cs args options)"
    unfolding handle_as_tenant_def Let_def by (intro regains_intros parts block regains_quiet quiet_intros)
  moreover have "regains (handle_for_all cs module futures args all_options)"
    unfolding handle_for_all_def Let_def by (intro regains_intros parts cs regains_quiet [OF writes_quiet(1)])
  ultimately show ?thesis using w by (simp add: regains_def)
qed

text \<open>
  A tenant's command runs in that tenant's context only: replacing the command by one that does the same in the contexts
  of the listed tenants changes nothing.
\<close>

lemma run_for_tenant_inside:
  assumes ok: "site_ok (cs_site cs)" and w: "state_ok (a_state w)"
    and same: "\<And>v out. state_ok (a_state v) \<Longrightarrow> sees (Some tenant) True (Some (gucs_for_tenant tenant)) (a_state v) \<Longrightarrow>
      call_command cs name args out v = call_command cs' name args out v"
    and cs': "cs' = with_call cs name call"
  shows "run_for_tenant cs name args tenant label alias capture streams w =
         run_for_tenant cs' name args tenant label alias capture streams w"
proof -
  have "tenant_context (cs_site cs) (Some tenant) u o' (call_command cs name args out) w =
      tenant_context (cs_site cs) (Some tenant) u o' (call_command cs' name args out) w" for u o' out
    by (rule tenant_cm.runs_inside [OF ok w]) (simp add: same)
  then show ?thesis by (simp add: run_for_tenant_def attributed_def cs' Let_def split: prod.split sum.split)
qed

theorem each_run_in_its_tenant:
  assumes cs: "trusted cs" and w: "state_ok (a_state w)"
    and same: "\<And>tenant label v out. (tenant, label) \<in> set tenants \<Longrightarrow> state_ok (a_state v) \<Longrightarrow>
      sees (Some tenant) True (Some (gucs_for_tenant tenant)) (a_state v) \<Longrightarrow>
      call_command cs name inner out v = call_command (with_call cs name call) name inner out v"
  shows "run_serially cs options name inner alias stopped tenants w =
         run_serially (with_call cs name call) options name inner alias stopped tenants w"
  using w same
proof (induction tenants arbitrary: stopped w)
  case (Cons t tenants)
  obtain pk label where t: "t = (pk, label)" by (cases t)
  let ?cs' = "with_call cs name call"
  have rest: "run_serially cs options name inner alias s tenants v = run_serially ?cs' options name inner alias s tenants v"
    if "state_ok (a_state v)" for s v
  proof (rule Cons.IH [OF that])
    fix tenant label and v' :: "'a shell" and out
    assume "(tenant, label) \<in> set tenants"
    then show "state_ok (a_state v') \<Longrightarrow> sees (Some tenant) True (Some (gucs_for_tenant tenant)) (a_state v') \<Longrightarrow>
        call_command cs name inner out v' = call_command ?cs' name inner out v'"
      by (intro Cons.prems(2) [of tenant label]) simp_all
  qed
  have after: "py_seq (report_run options run) (py_bind (run_serially cs options name inner alias s tenants) f) v =
      py_seq (report_run options run) (py_bind (run_serially ?cs' options name inner alias s tenants) f) v"
    if v: "state_ok (a_state v)" for run s f v
    unfolding py_seq_def
  proof (rule py_bind_cong)
    fix x v1
    assume "report_run options run v = (Inr x, v1)"
    then have "state_ok (a_state v1)" using regainsD [OF regains_report v] balanced_runs by blast
    from rest [OF this] show "py_bind (run_serially cs options name inner alias s tenants) f v1 =
        py_bind (run_serially ?cs' options name inner alias s tenants) f v1"
      by (simp only: py_bind_def)
  qed
  show ?case
  proof (cases stopped)
    case True
    then show ?thesis using after [OF Cons.prems(1)] t by simp
  next
    case False
    have head: "run_for_tenant cs name inner pk label alias c ss v = run_for_tenant ?cs' name inner pk label alias c ss v"
      if "state_ok (a_state v)" for c ss v
    proof (rule run_for_tenant_inside [OF _ that _ refl])
      show "site_ok (cs_site cs)" using cs by (simp add: trusted_def)
    next
      fix v' :: "'a shell" and out
      assume "state_ok (a_state v')" "sees (Some pk) True (Some (gucs_for_tenant pk)) (a_state v')"
      then show "call_command cs name inner out v' = call_command ?cs' name inner out v'"
        by (rule Cons.prems(2) [of pk label, rotated]) (simp add: t)
    qed
    have "py_bind (run_for_tenant cs name inner pk label alias c ss) (\<lambda>run. py_seq (report_run options run)
          (py_bind (run_serially cs options name inner alias (g run) tenants) (f run))) v =
        py_bind (run_for_tenant ?cs' name inner pk label alias c ss) (\<lambda>run. py_seq (report_run options run)
          (py_bind (run_serially ?cs' options name inner alias (g run) tenants) (f run))) v"
      if v: "state_ok (a_state v)" for c ss g f v
    proof -
      obtain r v' where r: "run_for_tenant cs name inner pk label alias c ss v = (r, v')"
        by (cases "run_for_tenant cs name inner pk label alias c ss v")
      have "state_ok (a_state v')" using regainsD [OF run_for_tenant_regains [OF cs] v r] by (rule balanced_runs)
      then show ?thesis using r head [OF v, of c ss] after by (cases r) (simp_all add: py_bind_def)
    qed
    note body = this
    have header: "quiet (if op_json options then py_ret () else write_header options pk label)" by (intro quiet_intros)
    have "py_seq (if op_json options then py_ret () else write_header options pk label) m w =
        py_seq (if op_json options then py_ret () else write_header options pk label) m' w"
      if "\<And>v. state_ok (a_state v) \<Longrightarrow> m v = m' v" for m m' :: "('a shell, tenant_run list) py"
      unfolding py_seq_def by (rule py_bind_cong, rule that) (use Cons.prems(1) in \<open>simp add: quietD [OF header]\<close>)
    note header_cong = this
    show ?thesis
      by (simp only: t run_serially.simps False if_False) (rule header_cong, rule body, assumption)
  qed
qed simp

text \<open>
  \<^verbatim>\<open>run_as_tenant\<close> runs its command in the admin context with \<^verbatim>\<open>--admin\<close>, and otherwise only in the context of a tenant
  the query for \<^verbatim>\<open>--tenant\<close> finds; with neither, it does not run.
\<close>

definition chosen_context :: "'d command_site \<Rightarrow> as_tenant_options \<Rightarrow> rls_state \<Rightarrow> bool" where
  "chosen_context cs options s \<longleftrightarrow>
     (if op_admin options then sees None True (Some admin_gucs) s
      else \<exists>value pk label v. op_tenant options = Some value \<and>
        fst (cs_get_tenant cs value (op_lookup options) (alias_of (op_database options)) v) = Inr (pk, label) \<and>
        sees (Some pk) True (Some (gucs_for_tenant pk)) s)"

lemma resolve_tenant_found:
  assumes "resolve_tenant cs value lookup al w = (Inr x, w')" "site_ok (cs_site cs)" "state_ok (a_state w)"
  shows "\<exists>v. fst (cs_get_tenant cs value lookup al v) = Inr x"
proof -
  have "admin_context (cs_site cs) al \<lparr>o_source = None, o_user = None\<rparr> (cs_get_tenant cs value lookup al) w = (Inr x, w')"
    using assms(1) by (auto simp: resolve_tenant_def py_except_def attributed_def py_simps split: prod.splits sum.splits if_splits)
  from admin_context_returns [OF this assms(2,3)] show ?thesis by (metis fst_conv)
qed

theorem as_tenant_runs_in_context:
  assumes cs: "trusted cs" and w: "state_ok (a_state w)"
    and same: "\<And>v inner out. state_ok (a_state v) \<Longrightarrow> chosen_context cs options (a_state v) \<Longrightarrow>
      call_command cs (op_command_name options) inner out v =
      call_command (with_call cs (op_command_name options) call) (op_command_name options) inner out v"
  shows "handle_as_tenant cs args options w = handle_as_tenant (with_call cs (op_command_name options) call) args options w"
proof -
  let ?n = "op_command_name options" and ?al = "alias_of (op_database options)"
  let ?cs' = "with_call cs ?n call"
  have ok: "site_ok (cs_site cs)" using cs by (simp add: trusted_def)
  note parts = trusted_parts [OF cs]
  have run: "block o' (call_command cs ?n inner out) v1 = block o' (call_command ?cs' ?n inner out) v1"
    if c: "chosen_block cs options ?al v = (Inr (block, target), v')" and v: "state_ok (a_state v)" "state_ok (a_state v1)"
    for block target v v' v1 o' inner out
  proof (cases "op_admin options")
    case True
    then have b: "block = admin_context (cs_site cs) ?al" using c by (auto simp: chosen_block_def py_simps)
    show ?thesis unfolding b by (rule admin_cm.runs_inside [OF ok v(2)]) (simp add: same chosen_context_def True)
  next
    case False
    then obtain val where t: "op_tenant options = Some val" using c by (auto simp: chosen_block_def py_simps split: option.splits)
    obtain q u where q: "resolve_tenant cs val (op_lookup options) ?al v = (q, u)"
      by (cases "resolve_tenant cs val (op_lookup options) ?al v")
    obtain pk label where x: "q = Inr (pk, label)" "block = tenant_context (cs_site cs) (Some pk) ?al"
      using c t False q by (cases q) (auto simp: chosen_block_def py_bind_def py_simps)
    obtain u' where "fst (cs_get_tenant cs val (op_lookup options) ?al u') = Inr (pk, label)"
      using resolve_tenant_found q x ok v by metis
    then show ?thesis unfolding x(2)
      by (intro tenant_cm.runs_inside [OF ok v(2)] same) (use t False in \<open>auto simp: chosen_context_def\<close>)
  qed
  have line: "state_ok (a_state v2)" if "state_ok (a_state v1)" "(if b then write_line s t else py_ret ()) v1 = (r, v2)" for b s t r v1 v2
    using that by (auto simp: py_simps split: if_splits dest!: quietD [OF writes_quiet(1)])
  have chosen: "regains (chosen_block cs options ?al)"
    unfolding chosen_block_def by (intro regains_intros parts)
  have tail: "py_bind (chosen_block cs options ?al) (\<lambda>(block, target). py_seq (if b then write_line s (f target) else py_ret ())
        (attributed block src u (call_command cs ?n inner out))) v =
      py_bind (chosen_block cs options ?al) (\<lambda>(block, target). py_seq (if b then write_line s (f target) else py_ret ())
        (attributed block src u (call_command ?cs' ?n inner out))) v"
    if v: "state_ok (a_state v)" for b s f src u inner out v
  proof (rule py_bind_cong)
    fix x v1
    assume c: "chosen_block cs options ?al v = (Inr x, v1)"
    obtain block target where x: "x = (block, target)" by (cases x)
    have v1: "state_ok (a_state v1)" using regainsD [OF chosen v c] by (rule balanced_runs)
    have "py_seq (if b then write_line s (f target) else py_ret ()) (block o' (call_command cs ?n inner out)) v1 =
        py_seq (if b then write_line s (f target) else py_ret ()) (block o' (call_command ?cs' ?n inner out)) v1" for o'
      unfolding py_seq_def by (rule py_bind_cong, rule run) (use c x v line [OF v1] in auto)
    then show "(case x of (block, target) \<Rightarrow> py_seq (if b then write_line s (f target) else py_ret ())
          (attributed block src u (call_command cs ?n inner out))) v1 =
        (case x of (block, target) \<Rightarrow> py_seq (if b then write_line s (f target) else py_ret ())
          (attributed block src u (call_command ?cs' ?n inner out))) v1"
      by (simp add: x attributed_def)
  qed
  have first: "state_ok (a_state v)" if "check_alias cs ?al w = (r, v)" for r v
    using regainsD [OF parts(1) w that] by (rule balanced_runs)
  show ?thesis
    unfolding handle_as_tenant_def Let_def py_seq_def [of "check_alias _ _"] with_call_parts with_call_args
    by (rule py_bind_cong, rule py_bind_cong) (auto dest: first intro: tail)
qed

subsection \<open>Every tenant has its outcome\<close>

definition run_key :: "tenant_run \<Rightarrow> tenant_id \<times> string" where
  "run_key run = (tr_tenant run, tr_label run)"

lemma run_for_tenant_key:
  "run_for_tenant cs name args tenant label al capture streams w = (Inr run, w') \<Longrightarrow>
     run_key run = (tenant, label) \<and> tr_status run \<noteq> RunSkipped"
  by (auto simp: run_for_tenant_def finish_run_def run_key_def Let_def py_simps split: prod.splits sum.splits if_splits)

lemma write_header_returns [simp]: "fst (write_header options tenant label w) = Inr ()"
  by (simp add: write_header_def write_line_def write_item_def py_simps)

lemma report_run_returns [simp]: "fst (report_run options run w) = Inr ()"
  by (auto simp: report_run_def report_outcome_def write_header_def write_captured_def write_line_def write_raw_def write_item_def
      py_seq_def py_bind_def py_simps split: option.split run_status.split)

lemma py_seq_returns: "fst (m w) = Inr () \<Longrightarrow> py_seq m n w = n (snd (m w))"
  by (simp add: py_seq_def py_bind_def split: prod.split sum.split) auto

lemmas outcome_steps = py_seq_returns py_bind_def [of "run_serially _ _ _ _ _ _ _"] py_bind_def [of "run_for_tenant _ _ _ _ _ _ _ _"]

lemma run_serially_stopped:
  "run_serially cs options name inner al True tenants w = (r, w') \<Longrightarrow> r = Inr (map (\<lambda>(pk, label). skipped_run pk label) tenants)"
proof (induction tenants arbitrary: w r w')
  case (Cons t tenants)
  obtain pk label where t: "t = (pk, label)" by (cases t)
  show ?case using Cons t
    by (auto simp: py_seq_returns py_bind_def py_simps split: prod.splits sum.splits)
qed (simp add: py_simps)

lemma serial_step:
  "run_serially cs options name inner al False ((pk, label) # tenants) w =
     py_bind (run_for_tenant cs name inner pk label al (op_json options) (output_options options)) (\<lambda>run.
       py_seq (report_run options run)
         (py_bind (run_serially cs options name inner al (tr_status run = RunFailed \<and> op_fail_fast options) tenants)
           (\<lambda>runs. py_ret (run # runs)))) (snd ((if op_json options then py_ret () else write_header options pk label) w))"
  by (simp add: py_seq_returns py_simps)

text \<open>
  Run in this process, each tenant has its outcome, in the order of the tenants: a tenant is skipped exactly when, with
  \<^verbatim>\<open>--fail-fast\<close>, a tenant before it failed.
\<close>

lemma serial_outcomes:
  assumes "run_serially cs options name inner al False tenants w = (Inr runs, w')"
  shows "map run_key runs = tenants \<and>
    (\<forall>i < length runs. tr_status (runs ! i) = RunSkipped \<longleftrightarrow>
       op_fail_fast options \<and> (\<exists>j < i. tr_status (runs ! j) = RunFailed))"
  using assms
proof (induction tenants arbitrary: w runs w')
  case (Cons t tenants)
  obtain pk label where t: "t = (pk, label)" by (cases t)
  obtain run rest v v1 v2 where run: "run_for_tenant cs name inner pk label al (op_json options) (output_options options) v = (Inr run, v1)"
    and rest: "run_serially cs options name inner al (tr_status run = RunFailed \<and> op_fail_fast options) tenants v2 = (Inr rest, w')"
    and runs: "runs = run # rest"
    using Cons.prems unfolding t serial_step
    by (auto simp: py_simps py_seq_returns elim!: py_bind_InrE)
  note key = run_for_tenant_key [OF run]
  show ?case
  proof (cases "tr_status run = RunFailed \<and> op_fail_fast options")
    case True
    then have r: "rest = map (\<lambda>(pk, label). skipped_run pk label) tenants" using run_serially_stopped rest by fastforce
    have "map run_key rest = tenants" by (auto simp: r run_key_def skipped_run_def intro!: nth_equalityI split: prod.split)
    moreover have "tr_status (rest ! i) = RunSkipped" if "i < length rest" for i
      using that by (simp add: r skipped_run_def split: prod.split)
    ultimately show ?thesis using True runs key t by (auto simp: nth_Cons split: nat.split)
  next
    case False
    then have "(tr_status run = RunFailed \<and> op_fail_fast options) = False" by simp
    then have "run_serially cs options name inner al False tenants v2 = (Inr rest, w')" using rest by (simp only:)
    from Cons.IH [OF this] show ?thesis using False runs key t
      by (auto simp: All_less_Suc2 Ex_less_Suc2)
  qed
qed (simp add: py_simps)

text \<open>An exception that nothing here catches: \<^verbatim>\<open>KeyboardInterrupt\<close> and its like.\<close>

definition is_interrupt :: "exn \<Rightarrow> bool" where
  "is_interrupt e \<longleftrightarrow> \<not> is_exception e \<and> e \<noteq> OtherError ''SystemExit''"

definition skipped_after_failure :: "bool \<Rightarrow> tenant_run list \<Rightarrow> bool" where
  "skipped_after_failure fail_fast runs \<longleftrightarrow> (\<forall>i < length runs.
     tr_status (runs ! i) = RunSkipped \<longleftrightarrow> fail_fast \<and> (\<exists>j < i. tr_status (runs ! j) = RunFailed))"

lemma run_for_tenant_raises:
  "run_for_tenant cs name args tenant label al capture streams w = (Inl e, w') \<Longrightarrow> is_interrupt e"
  by (auto simp: run_for_tenant_def finish_run_def is_interrupt_def Let_def py_simps split: prod.splits sum.splits if_splits)

lemma run_serially_raises:
  "run_serially cs options name inner al stopped tenants w = (Inl e, w') \<Longrightarrow> is_interrupt e"
proof (induction tenants arbitrary: stopped w w')
  case (Cons t tenants)
  obtain pk label where t: "t = (pk, label)" by (cases t)
  show ?case
  proof (cases stopped)
    case True
    then show ?thesis using Cons t by (auto simp: py_seq_returns py_bind_def py_simps split: prod.splits sum.splits)
  next
    case False
    let ?v = "snd ((if op_json options then py_ret () else write_header options pk label) w)"
    obtain q v where q: "run_for_tenant cs name inner pk label al (op_json options) (output_options options) ?v = (q, v)"
      by (cases "run_for_tenant cs name inner pk label al (op_json options) (output_options options) ?v")
    have "run_serially cs options name inner al False ((pk, label) # tenants) w = (Inl e, w')"
      using Cons.prems False unfolding t by (simp only:)
    note step = this [unfolded serial_step]
    show ?thesis
    proof (cases q)
      case (Inl e')
      then show ?thesis using step q run_for_tenant_raises [OF q [unfolded Inl]] by (simp add: py_bind_def)
    next
      case (Inr run)
      let ?rest = "run_serially cs options name inner al (tr_status run = RunFailed \<and> op_fail_fast options) tenants (snd (report_run options run v))"
      obtain p v' where p: "?rest = (p, v')" by (cases "?rest")
      then have e: "p = Inl e" using step q Inr by (cases p) (simp_all add: py_bind_def py_seq_returns py_simps)
      show ?thesis by (rule Cons.IH [OF p [unfolded e]])
    qed
  qed
qed (simp add: py_simps)

text \<open>
  One failing tenant does not keep another from its run: unless the whole command is interrupted (\<^verbatim>\<open>KeyboardInterrupt\<close>),
  \<^verbatim>\<open>run_for_all_tenants\<close> in this process returns with a run of each tenant, in their order; the tenants that are skipped
  are exactly those after one that failed with \<^verbatim>\<open>--fail-fast\<close>, so that without it every tenant's command has run.
\<close>

theorem every_tenant_runs:
  "case fst (run_serially cs options name inner alias False tenants w) of
     Inl e \<Rightarrow> is_interrupt e
   | Inr runs \<Rightarrow> map run_key runs = tenants \<and> skipped_after_failure (op_fail_fast options) runs"
proof -
  obtain r w' where r: "run_serially cs options name inner alias False tenants w = (r, w')"
    by (cases "run_serially cs options name inner alias False tenants w")
  show ?thesis
  proof (cases r)
    case (Inl e)
    then show ?thesis using r run_serially_raises [of cs options name inner "alias" False tenants w e w'] by simp
  next
    case (Inr runs)
    then show ?thesis using r serial_outcomes [of cs options name inner "alias" tenants w runs w']
      unfolding skipped_after_failure_def by simp
  qed
qed

definition is_cancelled :: "'d fate \<Rightarrow> bool" where
  "is_cancelled fate = (case fate of Cancelled \<Rightarrow> True | _ \<Rightarrow> False)"

lemma completed_runs_keys:
  "completed_runs cs options name inner al tenants futures w = (Inr runs, w') \<Longrightarrow>
     map run_key runs = map (\<lambda>f. tenants ! fst f) (filter (\<lambda>f. \<not> is_cancelled (snd f)) futures)"
proof (induction futures arbitrary: w runs w')
  case (Cons f futures)
  obtain i fate where f: "f = (i, fate)" by (cases f)
  obtain pk label where t: "tenants ! i = (pk, label)" by (cases "tenants ! i")
  have step: "run_key run = (pk, label) \<Longrightarrow>
      py_seq (report_run options run) (py_bind (completed_runs cs options name inner al tenants futures) (\<lambda>runs. py_ret (run # runs))) w
        = (Inr runs, w') \<Longrightarrow>
      map run_key runs = (pk, label) # map (\<lambda>f. tenants ! fst f) (filter (\<lambda>f. \<not> is_cancelled (snd f)) futures)" for run
    using Cons.IH by (auto simp: py_seq_returns py_simps elim!: py_bind_InrE)
  show ?case
  proof (cases fate)
    case Cancelled
    then show ?thesis using Cons f by (simp add: Let_def is_cancelled_def t)
  next
    case (PoolBroke message)
    have "run_key (broken_run pk label message) = (pk, label)" by (simp add: broken_run_def skipped_run_def run_key_def)
    from step [OF this] show ?thesis using Cons.prems f t PoolBroke by (simp add: Let_def is_cancelled_def)
  next
    case (InWorker v)
    obtain q v' where q: "worker_run cs name inner pk label al v = (q, v')" by (cases "worker_run cs name inner pk label al v")
    show ?thesis
    proof (cases q)
      case (Inl e)
      then show ?thesis using Cons.prems f t q InWorker by (simp add: Let_def py_simps)
    next
      case (Inr run)
      have "run_key run = (pk, label)" using q Inr by (simp add: worker_run_def run_for_tenant_key)
      then show ?thesis using Cons.prems f t q InWorker Inr step by (simp add: Let_def is_cancelled_def)
    qed
  qed
qed (simp add: py_simps)

lemma skip_cancelled_keys: "skip_cancelled options tenants w = (Inr runs, w') \<Longrightarrow> map run_key runs = tenants"
proof (induction tenants arbitrary: w runs w')
  case (Cons t tenants)
  then show ?case
    by (cases t) (auto simp: py_seq_returns py_simps run_key_def skipped_run_def elim!: py_bind_InrE)
qed (simp add: py_simps)

text \<open>The pool's promise: \<^verbatim>\<open>as_completed\<close> yields each future once.\<close>

definition yields_each :: "nat \<Rightarrow> (nat \<times> 'd fate) list \<Rightarrow> bool" where
  "yields_each n futures \<longleftrightarrow> mset (map fst futures) = mset [0..<n]"

lemma mset_positions:
  assumes y: "yields_each (length tenants) futures"
  shows "mset (map (\<lambda>f. tenants ! fst f) futures) = mset tenants"
proof -
  have "mset (map (\<lambda>f. tenants ! fst f) futures) = image_mset ((!) tenants) (mset (map fst futures))"
    by (simp add: multiset.map_comp comp_def)
  also have "\<dots> = mset (map ((!) tenants) [0..<length tenants])" using y by (simp add: yields_each_def)
  finally show ?thesis by (simp add: map_nth)
qed

lemma cancelled_positions:
  assumes y: "yields_each (length tenants) futures"
  shows "mset (cancelled_tenants tenants futures) = mset (map (\<lambda>f. tenants ! fst f) (filter (\<lambda>f. is_cancelled (snd f)) futures))"
proof -
  let ?P = "\<lambda>i. list_ex (\<lambda>(j, fate). j = i \<and> is_cancelled fate) futures"
  have d: "distinct (map fst futures)" using y mset_eq_imp_distinct_iff [of "map fst futures" "[0..<length tenants]"]
    by (simp add: yields_each_def)
  have P: "?P (fst f) \<longleftrightarrow> is_cancelled (snd f)" if f: "f \<in> set futures" for f
  proof
    assume "?P (fst f)"
    then obtain b where b: "(fst f, b) \<in> set futures" "is_cancelled b" by (auto simp: list_ex_iff)
    have "f = (fst f, b)" using d b f by (intro inj_onD [of fst "set futures"]) (simp_all add: distinct_map)
    then have "snd f = b" by (metis snd_conv)
    then show "is_cancelled (snd f)" using b by simp
  next
    assume "is_cancelled (snd f)"
    then show "?P (fst f)" using f by (auto simp: list_ex_iff intro!: bexI [of _ f] split: prod.split)
  qed
  have "mset (filter ?P [0..<length tenants]) = filter_mset ?P (mset (map fst futures))"
    using y by (simp add: yields_each_def)
  also have "\<dots> = mset (map fst (filter (\<lambda>f. ?P (fst f)) futures))" by (simp add: filter_mset_image_mset)
  also have "filter (\<lambda>f. ?P (fst f)) futures = filter (\<lambda>f. is_cancelled (snd f)) futures" using P by (intro filter_cong) auto
  finally have "image_mset ((!) tenants) (mset (filter ?P [0..<length tenants])) =
      image_mset ((!) tenants) (mset (map fst (filter (\<lambda>f. is_cancelled (snd f)) futures)))" by simp
  then show ?thesis
    by (simp add: cancelled_tenants_def is_cancelled_def [symmetric] multiset.map_comp comp_def)
qed

text \<open>
  However the tenants are run, in this process or in workers that finish in any order, break or are cancelled, each
  tenant has exactly one outcome in the report, and the command fails (\<^verbatim>\<open>CommandError\<close>) exactly when some tenant's
  outcome is a failure.
\<close>

theorem each_tenant_once:
  assumes run: "run_the_tenants cs module futures options inner alias tenants w = (Inr runs, w')"
    and pool: "op_parallel options \<noteq> 1 \<Longrightarrow> yields_each (length tenants) futures"
  shows "mset (map run_key runs) = mset tenants \<and>
    fst (summarize options name runs w') =
      (if list_ex (\<lambda>run. tr_status run = RunFailed) runs then Inl command_error else Inr ())"
proof
  show "mset (map run_key runs) = mset tenants"
  proof (cases "op_parallel options = 1")
    case True
    then have "map run_key runs = tenants" using run serial_outcomes [of cs options _ inner "alias" tenants w runs w'] by (simp add: run_the_tenants_def)
    then show ?thesis by simp
  next
    case False
    let ?c = "\<lambda>f. is_cancelled (snd f)"
    obtain finished skipped u v where r: "runs = finished @ skipped"
      and f: "completed_runs cs options (op_command_name options) inner alias tenants futures u = (Inr finished, v)"
      and c: "skip_cancelled options (cancelled_tenants tenants futures) v = (Inr skipped, w')"
      using run False by (auto simp: run_the_tenants_def run_in_workers_def py_simps elim!: py_seq_InrE py_bind_InrE)
    from r completed_runs_keys [OF f] skip_cancelled_keys [OF c] have "mset (map run_key runs) = mset (map (\<lambda>f. tenants ! fst f) (filter (\<lambda>f. \<not> ?c f) futures)) +
        mset (map (\<lambda>f. tenants ! fst f) (filter ?c futures))"
      using cancelled_positions [OF pool [OF False]] by (metis map_append mset_append)
    also have "\<dots> = mset (map (\<lambda>f. tenants ! fst f) futures)"
      by (simp add: image_mset_union [symmetric] multiset_partition [symmetric] add.commute)
    finally show ?thesis using mset_positions [OF pool [OF False]] by simp
  qed
  show "fst (summarize options name runs w') =
      (if list_ex (\<lambda>run. tr_status run = RunFailed) runs then Inl command_error else Inr ())"
    by (auto simp: summarize_def Let_def py_seq_returns write_line_def write_item_def py_simps filter_empty_conv list_ex_iff)
qed

subsection \<open>One concrete project\<close>

text \<open>The concrete driver, settings and cursor of \<open>Tenant_Context\<close>, beside a console.\<close>

definition beside :: "(demo_pg_state, 'a) py \<Rightarrow> (demo_pg_state \<times> console, 'a) py" where
  "beside m = (\<lambda>w. case m (fst w) of (r, d) \<Rightarrow> (r, (d, snd w)))"

definition demo_shell_driver :: "(demo_pg_state \<times> console) driver" where
  "demo_shell_driver = \<lparr>dr_status = (\<lambda>raw w. dr_status demo_driver raw (fst w)),
     dr_execute = (\<lambda>raw ac sql ps. beside (dr_execute demo_driver raw ac sql ps)),
     dr_send = (\<lambda>raw sql. beside (dr_send demo_driver raw sql)),
     dr_connect = (\<lambda>al. beside (dr_connect demo_driver al)), dr_close = (\<lambda>raw. beside (dr_close demo_driver raw))\<rparr>"

definition demo_shell_cursor :: "(demo_pg_state \<times> console) aff db" where
  "demo_shell_cursor = \<lparr>db_known = (\<lambda>u _. u = ''default''), db_in_atomic = (\<lambda>_ w. dp_open (fst (a_db w))),
     db_needs_rollback = (\<lambda>_ _. False), db_put_needs_rollback = (\<lambda>_ _ w. w),
     db_execute = (\<lambda>_ sql ps. py_bind (on_db (dr_execute demo_shell_driver 0 True sql ps)) (\<lambda>_. py_ret None))\<rparr>"

definition demo_shell_site :: "(demo_pg_state \<times> console) site" where
  "demo_shell_site = \<lparr>st_driver = demo_shell_driver, st_cfg = demo_cfg True, st_created = (\<lambda>_. py_ret ()),
     st_cursor = demo_shell_cursor, st_audits = (\<lambda>_. True)\<rparr>"

text \<open>A command that prints the GUC values it runs with, and one tenant, 7, with the slug \<^verbatim>\<open>acme\<close>.\<close>

definition demo_report :: "demo_pg_state command" where
  "demo_report = \<lparr>cm_has_database = True, cm_call = (\<lambda>out args.
     py_bind (py_get (\<lambda>w. get_context_gucs (a_state w))) (\<lambda>g.
       write_line (ou_stdout out) (case g of None \<Rightarrow> ''none'' | Some v \<Rightarrow> g_current_tenant v)))\<rparr>"

definition demo_project :: "demo_pg_state command_site" where
  "demo_project = \<lparr>cs_site = demo_shell_site, cs_commands = [''report'' \<mapsto> demo_report],
     cs_get_tenant = (\<lambda>_ _ _. py_ret (TInt 7, ''acme'')), cs_tenants = (\<lambda>_ _. py_ret [(TInt 7, ''acme''), (TInt 8, ''other'')]),
     cs_describe = (\<lambda>_. ''error''), cs_traceback = (\<lambda>_. ''traceback''), cs_exit_status = (\<lambda>_. None)\<rparr>"

definition demo_shell :: "demo_pg_state shell" where
  "demo_shell = \<lparr>a_state = init_state, a_conns = (\<lambda>_. None), a_depth = 0, a_audit = [],
     a_db = (demo_idle, \<lparr>co_written = [], co_clock = 0\<rparr>)\<rparr>"

lemma demo_shell_ok: "state_ok (a_state demo_shell)"
  by (simp add: demo_shell_def init_state_def state_ok_def heap_wf_def current_live_def cur_ctx_def default_ctx_def)

lemma demo_project_trusted: "trusted demo_project"
proof -
  have "site_ok demo_shell_site"
    unfolding site_ok_def demo_shell_site_def cursor_quiet_def demo_shell_cursor_def by (auto intro!: quiet_intros quiet_modify)
  moreover have "quiet (call_command demo_project name args out)" for name args out
    unfolding call_command_def demo_project_def demo_report_def by (auto intro!: quiet_intros split: option.split)
  ultimately show ?thesis by (auto simp: trusted_def demo_project_def intro: disciplined_quiet quiet_intros)
qed

definition demo_as_tenant :: as_tenant_options where
  "demo_as_tenant = \<lparr>op_database = None, op_command_name = ''report'', op_stdout = None, op_stderr = None, op_no_color = False,
     op_force_color = False, op_verbosity = 1, op_tenant = Some ''acme'', op_admin = False, op_lookup = ''slug''\<rparr>"

definition demo_all_tenants :: "int \<Rightarrow> all_tenants_options" where
  "demo_all_tenants n = \<lparr>op_database = None, op_command_name = ''report'', op_stdout = None, op_stderr = None, op_no_color = False,
     op_force_color = False, op_verbosity = 1, op_filters = [], op_parallel = n, op_json = False, op_fail_fast = True,
     op_traceback = False\<rparr>"

lemma commands_give_back_witness:
  "balanced (a_state demo_shell) (a_state (snd (handle_as_tenant demo_project [] demo_as_tenant demo_shell)))"
  using commands_give_back [OF demo_project_trusted demo_shell_ok] by blast

text \<open>The report of tenant 7 is that of a command that prints 7 always; likewise with \<^verbatim>\<open>run_as_tenant\<close>.\<close>

definition prints :: "string \<Rightarrow> output_streams \<Rightarrow> string list \<Rightarrow> ('d shell, unit) py" where
  "prints text out args = write_line (ou_stdout out) text"

lemma demo_report_in_tenant:
  "sees (Some t) True (Some (gucs_for_tenant t)) (a_state v) \<Longrightarrow>
     call_command demo_project ''report'' args out v =
     call_command (with_call demo_project ''report'' (prints (tenant_str t))) ''report'' args out v"
  by (simp add: call_command_def with_call_def demo_project_def demo_report_def prints_def sees_def gucs_for_tenant_def
      py_bind_def py_simps)

lemma each_run_in_its_tenant_witness:
  "run_serially demo_project (demo_all_tenants 1) ''report'' [] ''default'' False [(TInt 7, ''acme'')] demo_shell =
   run_serially (with_call demo_project ''report'' (prints (tenant_str (TInt 7)))) (demo_all_tenants 1) ''report'' [] ''default'' False
     [(TInt 7, ''acme'')] demo_shell"
  by (rule each_run_in_its_tenant [OF demo_project_trusted demo_shell_ok], rule demo_report_in_tenant) simp

lemma as_tenant_runs_in_context_witness:
  "handle_as_tenant demo_project [] demo_as_tenant demo_shell =
   handle_as_tenant (with_call demo_project (op_command_name demo_as_tenant) (prints (tenant_str (TInt 7)))) [] demo_as_tenant demo_shell"
proof (rule as_tenant_runs_in_context [OF demo_project_trusted demo_shell_ok])
  fix v :: "demo_pg_state shell" and inner out
  assume "chosen_context demo_project demo_as_tenant (a_state v)"
  then have "sees (Some (TInt 7)) True (Some (gucs_for_tenant (TInt 7))) (a_state v)"
    by (auto simp: chosen_context_def demo_as_tenant_def demo_project_def py_simps)
  from demo_report_in_tenant [OF this]
  show "call_command demo_project (op_command_name demo_as_tenant) inner out v =
      call_command (with_call demo_project (op_command_name demo_as_tenant) (prints (tenant_str (TInt 7))))
        (op_command_name demo_as_tenant) inner out v"
    by (simp add: demo_as_tenant_def)
qed

lemma each_tenant_once_witness:
  "\<exists>runs. fst (run_the_tenants demo_project True [(1, PoolBroke ''died''), (0, Cancelled)] (demo_all_tenants 2) [] ''default''
       [(TInt 7, ''acme''), (TInt 8, ''other'')] demo_shell) = Inr runs \<and>
     mset (map run_key runs) = {#(TInt 7, ''acme''), (TInt 8, ''other'')#}"
proof -
  let ?run = "run_the_tenants demo_project True [(1, PoolBroke ''died''), (0, Cancelled)] (demo_all_tenants 2) [] ''default''
       [(TInt 7, ''acme''), (TInt 8, ''other'')] demo_shell"
  have "cancelled_tenants [(TInt 7, ''acme''), (TInt 8, ''other'')] [(1, PoolBroke ''died''), (0, Cancelled :: demo_pg_state fate)] = [(TInt 7, ''acme'')]"
    by (simp add: cancelled_tenants_def upt_rec)
  then have "\<exists>runs. fst ?run = Inr runs"
    by (simp add: run_the_tenants_def run_in_workers_def demo_all_tenants_def py_seq_returns py_bind_def py_simps Let_def del: mset.simps)
  then obtain runs w' where r: "?run = (Inr runs, w')" by (metis prod.collapse)
  have y: "yields_each (length [(TInt 7, ''acme''), (TInt 8, ''other'')]) [(1, PoolBroke ''died''), (0, Cancelled :: demo_pg_state fate)]"
    by (simp add: yields_each_def upt_rec add_mset_commute)
  from each_tenant_once [OF r y] have "mset (map run_key runs) = mset [(TInt 7, ''acme''), (TInt 8, ''other'')]" by (rule conjunct1)
  then have "mset (map run_key runs) = {#(TInt 7, ''acme''), (TInt 8, ''other'')#}" by (simp only: mset.simps)
  then show ?thesis using r by (intro exI [of _ runs] conjI) (simp_all only: fst_conv)
qed

end
