(* ===== verification/Rls_Tables.thy ===== *)
theory Rls_Tables
  imports System_Checks Migration_Ops
begin

text \<open>
  The tables that must have a policy, as \<^verbatim>\<open>management/commands/check_rls.py\<close> collects them from the app registry for
  itself and for \<^verbatim>\<open>setup_m2m_rls\<close>: those of the protected models and of the automatic join tables.
\<close>

subsection \<open>The tables of the models\<close>

text \<open>\<^verbatim>\<open>apps.get_models()\<close>.\<close>

definition get_models :: "app_registry \<Rightarrow> dj_model list" where
  "get_models apps = List.map_filter (ap_models apps) (ap_listed apps)"

definition needs_policy :: "model_cfg \<Rightarrow> app_registry \<Rightarrow> dj_model \<Rightarrow> bool" where
  "needs_policy cfg apps m \<longleftrightarrow> \<not> dm_abstract m \<and> \<not> dm_proxy m \<and>
     (declares_rls_policy apps m \<or> external_model_fields cfg (label_lower m) \<noteq> None)"

text \<open>A dict by table: the last model of a table stands for it, at the place of the first.\<close>

definition collect_rls_models :: "model_cfg \<Rightarrow> app_registry \<Rightarrow> (string \<times> dj_model) list" where
  "collect_rls_models cfg apps =
     fold (\<lambda>m tables. if needs_policy cfg apps m then AList.update (dm_table m) m tables else tables) (get_models apps) []"

subsection \<open>The join tables\<close>

record m2m_info =
  mi_description :: string
  mi_field :: string
  mi_from_model :: dj_model
  mi_to_model :: dj_model
  mi_from_table :: string
  mi_to_table :: string
  mi_from_fk :: string
  mi_to_fk :: string
  mi_from_tenant_fk :: string
  mi_to_tenant_fk :: "string option"

definition m2m_info_of :: "model_cfg \<Rightarrow> app_registry \<Rightarrow> dj_model \<Rightarrow> dj_m2m \<Rightarrow> dj_model \<Rightarrow> m2m_info" where
  "m2m_info_of cfg apps m f to =
     \<lparr>mi_description = dm_name m @ ''.'' @ mm_name f @ '' (auto M2M)'', mi_field = mm_name f, mi_from_model = m,
      mi_to_model = to, mi_from_table = dm_table m, mi_to_table = dm_table to, mi_from_fk = mm_column f,
      mi_to_fk = mm_reverse f, mi_from_tenant_fk = side_tenant_fk cfg m,
      mi_to_tenant_fk = (if declares_rls_policy apps to then Some (side_tenant_fk cfg (concrete_of apps to)) else None)\<rparr>"

text \<open>One field, given what was found before it; a field's model and its through table are registered (else \<^verbatim>\<open>LookupError\<close>).\<close>

definition collect_field ::
  "model_cfg \<Rightarrow> app_registry \<Rightarrow> dj_model \<Rightarrow> dj_m2m \<Rightarrow> (string \<times> m2m_info) list \<Rightarrow> (string \<times> m2m_info) list checked" where
  "collect_field cfg apps m f tables =
     (case ap_models apps (mm_through f) of
        None \<Rightarrow> Inl LookupError
      | Some through \<Rightarrow>
          if \<not> dm_auto_created through then Inr tables
          else if map_of tables (dm_table through) \<noteq> None then Inr tables
          else (case mm_related f of
              ToLazy _ \<Rightarrow> Inr tables
            | ToModel label \<Rightarrow>
                (case ap_models apps label of
                   None \<Rightarrow> Inl LookupError
                 | Some to \<Rightarrow> Inr (tables @ [(dm_table through, m2m_info_of cfg apps m f to)]))))"

fun collect_fields ::
  "model_cfg \<Rightarrow> app_registry \<Rightarrow> dj_model \<Rightarrow> dj_m2m list \<Rightarrow> (string \<times> m2m_info) list \<Rightarrow> (string \<times> m2m_info) list checked" where
  "collect_fields cfg apps m [] tables = Inr tables"
| "collect_fields cfg apps m (f # fs) tables =
     ck_bind (collect_field cfg apps m f tables) (collect_fields cfg apps m fs)"

fun collect_models ::
  "model_cfg \<Rightarrow> app_registry \<Rightarrow> dj_model list \<Rightarrow> (string \<times> m2m_info) list \<Rightarrow> (string \<times> m2m_info) list checked" where
  "collect_models cfg apps [] tables = Inr tables"
| "collect_models cfg apps (m # ms) tables =
     (if \<not> declares_rls_policy apps m \<or> dm_abstract m then collect_models cfg apps ms tables
      else ck_bind (collect_fields cfg apps m (dm_m2m m) tables) (collect_models cfg apps ms))"

definition collect_m2m_tables :: "model_cfg \<Rightarrow> app_registry \<Rightarrow> (string \<times> m2m_info) list checked" where
  "collect_m2m_tables cfg apps = collect_models cfg apps (get_models apps) []"

subsection \<open>What is collected\<close>

text \<open>Every protected model's table is there.\<close>

lemma collect_rls_models_keys:
  "map_of (collect_rls_models cfg apps) t \<noteq> None \<longleftrightarrow>
     (\<exists>m \<in> set (get_models apps). needs_policy cfg apps m \<and> dm_table m = t)"
proof -
  have "map_of (fold (\<lambda>m tables. if needs_policy cfg apps m then AList.update (dm_table m) m tables else tables) ms ts) t \<noteq> None \<longleftrightarrow>
      map_of ts t \<noteq> None \<or> (\<exists>m \<in> set ms. needs_policy cfg apps m \<and> dm_table m = t)" for ms ts
    by (induction ms arbitrary: ts) (auto simp: update_conv')
  from this [of "get_models apps" "[]"] show ?thesis by (simp add: collect_rls_models_def)
qed

text \<open>Every automatic join table of a model that declares its policy is there, with the two sides of one of its fields.\<close>

definition joins :: "model_cfg \<Rightarrow> app_registry \<Rightarrow> dj_model \<Rightarrow> dj_m2m \<Rightarrow> string \<Rightarrow> m2m_info \<Rightarrow> bool" where
  "joins cfg apps m f t info \<longleftrightarrow>
     declares_rls_policy apps m \<and> \<not> dm_abstract m \<and> f \<in> set (dm_m2m m) \<and>
     (\<exists>through label to. ap_models apps (mm_through f) = Some through \<and> dm_auto_created through \<and> dm_table through = t \<and>
        mm_related f = ToModel label \<and> ap_models apps label = Some to \<and> info = m2m_info_of cfg apps m f to)"

definition tables_ok :: "model_cfg \<Rightarrow> app_registry \<Rightarrow> (dj_model \<Rightarrow> bool) \<Rightarrow> (string \<times> m2m_info) list \<Rightarrow> bool" where
  "tables_ok cfg apps P tables \<longleftrightarrow> distinct (map fst tables) \<and>
     (\<forall>(t, info) \<in> set tables. \<exists>m f. P m \<and> joins cfg apps m f t info)"

lemma tables_ok_mono: "tables_ok cfg apps P ts \<Longrightarrow> (\<And>m. P m \<Longrightarrow> Q m) \<Longrightarrow> tables_ok cfg apps Q ts"
  unfolding tables_ok_def by (fastforce split: prod.splits)

lemma collect_field_ok:
  assumes c: "collect_field cfg apps m f ts = Inr us" and m: "declares_rls_policy apps m" "\<not> dm_abstract m" "f \<in> set (dm_m2m m)" "P m"
    and ok: "tables_ok cfg apps P ts"
  shows "tables_ok cfg apps P us" "fst ` set ts \<subseteq> fst ` set us" "joins cfg apps m f t info \<Longrightarrow> t \<in> fst ` set us"
proof -
  consider "us = ts" "\<And>t info. joins cfg apps m f t info \<Longrightarrow> t \<in> fst ` set ts" | through label to where "ap_models apps (mm_through f) = Some through" "dm_auto_created through"
      "map_of ts (dm_table through) = None" "mm_related f = ToModel label" "ap_models apps label = Some to"
      "us = ts @ [(dm_table through, m2m_info_of cfg apps m f to)]"
  proof (cases "ap_models apps (mm_through f)")
    case None
    then show ?thesis using c by (simp add: collect_field_def)
  next
    case (Some through)
    show ?thesis
    proof (cases "dm_auto_created through \<and> map_of ts (dm_table through) = None \<and> (\<exists>label. mm_related f = ToModel label)")
      case True
      then show ?thesis using c Some that(2) by (auto simp: collect_field_def split: option.splits)
    next
      case False
      then have "us = ts" using c Some by (auto simp: collect_field_def split: if_splits related.splits)
      moreover have "t \<in> fst ` set ts" if "joins cfg apps m f t info" for t info
      proof -
        have "dm_auto_created through" "\<exists>label. mm_related f = ToModel label" "dm_table through = t"
          using \<open>joins cfg apps m f t info\<close> Some by (auto simp: joins_def)
        then have "map_of ts t \<noteq> None" using False by auto
        then show ?thesis by (simp add: map_of_eq_None_iff)
      qed
      ultimately show ?thesis by (rule that(1))
    qed
  qed
  then have "tables_ok cfg apps P us \<and> fst ` set ts \<subseteq> fst ` set us \<and> (\<forall>t info. joins cfg apps m f t info \<longrightarrow> t \<in> fst ` set us)"
  proof cases
    case 2
    then have "joins cfg apps m f (dm_table through) (m2m_info_of cfg apps m f to)" using m by (auto simp: joins_def)
    then have "tables_ok cfg apps P us" using 2 ok m(4) by (auto simp: tables_ok_def map_of_eq_None_iff)
    moreover have "fst ` set ts \<subseteq> fst ` set us" using 2 by auto
    moreover have "t \<in> fst ` set us" if "joins cfg apps m f t info" for t info using 2 that by (auto simp: joins_def)
    ultimately show ?thesis by blast
  qed (use ok in blast)
  then show "tables_ok cfg apps P us" "fst ` set ts \<subseteq> fst ` set us" "joins cfg apps m f t info \<Longrightarrow> t \<in> fst ` set us"
    by blast+
qed

lemma collect_fields_ok:
  assumes "collect_fields cfg apps m fs ts = Inr us" "declares_rls_policy apps m" "\<not> dm_abstract m" "set fs \<subseteq> set (dm_m2m m)" "P m"
    "tables_ok cfg apps P ts"
  shows "tables_ok cfg apps P us \<and> fst ` set ts \<subseteq> fst ` set us \<and>
    (\<forall>f \<in> set fs. \<forall>t info. joins cfg apps m f t info \<longrightarrow> t \<in> fst ` set us)"
  using assms
proof (induction fs arbitrary: ts)
  case (Cons f fs)
  obtain vs where vs: "collect_field cfg apps m f ts = Inr vs" "collect_fields cfg apps m fs vs = Inr us"
    using Cons.prems(1) by (auto simp: ck_bind_def split: sum.splits)
  have f: "f \<in> set (dm_m2m m)" using Cons.prems(4) by simp
  note step = collect_field_ok [where P = P, OF vs(1) Cons.prems(2,3) f Cons.prems(5,6)]
  have rest: "tables_ok cfg apps P us \<and> fst ` set vs \<subseteq> fst ` set us \<and>
      (\<forall>f \<in> set fs. \<forall>t info. joins cfg apps m f t info \<longrightarrow> t \<in> fst ` set us)"
    by (rule Cons.IH [OF vs(2) Cons.prems(2,3) _ Cons.prems(5) step(1)]) (use Cons.prems(4) in simp)
  have "t \<in> fst ` set us" if "g \<in> set (f # fs)" "joins cfg apps m g t info" for g t info
    using that rest step(3) by (metis set_ConsD subsetD)
  then show ?case using rest step(2) by (meson subset_trans)
qed simp

lemma collect_models_ok:
  assumes "collect_models cfg apps ms ts = Inr us" "\<forall>m \<in> set ms. P m" "tables_ok cfg apps P ts"
  shows "tables_ok cfg apps P us \<and> fst ` set ts \<subseteq> fst ` set us \<and>
    (\<forall>m \<in> set ms. \<forall>f t info. joins cfg apps m f t info \<longrightarrow> t \<in> fst ` set us)"
  using assms
proof (induction ms arbitrary: ts)
  case (Cons m ms)
  show ?case
  proof (cases "\<not> declares_rls_policy apps m \<or> dm_abstract m")
    case True
    then have "collect_models cfg apps ms ts = Inr us" using Cons.prems(1) by auto
    then show ?thesis using Cons.IH [of ts] Cons.prems True by (auto simp: joins_def)
  next
    case False
    then obtain vs where vs: "collect_fields cfg apps m (dm_m2m m) ts = Inr vs" "collect_models cfg apps ms vs = Inr us"
      using Cons.prems(1) by (auto simp: ck_bind_def split: sum.splits)
    have "P m" using Cons.prems(2) by simp
    note step = collect_fields_ok [OF vs(1) _ _ subset_refl this Cons.prems(3)]
    have v: "tables_ok cfg apps P vs" "fst ` set ts \<subseteq> fst ` set vs"
      "\<forall>f \<in> set (dm_m2m m). \<forall>t info. joins cfg apps m f t info \<longrightarrow> t \<in> fst ` set vs"
      using step False by blast+
    have rest: "tables_ok cfg apps P us \<and> fst ` set vs \<subseteq> fst ` set us \<and>
        (\<forall>m \<in> set ms. \<forall>f t info. joins cfg apps m f t info \<longrightarrow> t \<in> fst ` set us)"
      by (rule Cons.IH [OF vs(2) _ v(1)]) (use Cons.prems(2) in simp)
    have "t \<in> fst ` set us" if "n \<in> set (m # ms)" "joins cfg apps n f t info" for n f t info
      using that rest v(3) by (metis set_ConsD subsetD joins_def)
    then show ?thesis using rest v(2) by (meson subset_trans)
  qed
qed simp

text \<open>
  The join tables found are exactly those of the automatic many-to-many fields of the models that declare a policy, each
  once, with the two sides of one such field.
\<close>

theorem m2m_tables_exact:
  assumes "collect_m2m_tables cfg apps = Inr tables"
  shows "distinct (map fst tables) \<and>
    (\<forall>t. t \<in> set (map fst tables) \<longleftrightarrow> (\<exists>m f info. m \<in> set (get_models apps) \<and> joins cfg apps m f t info)) \<and>
    (\<forall>t info. map_of tables t = Some info \<longrightarrow> (\<exists>m f. m \<in> set (get_models apps) \<and> joins cfg apps m f t info))"
proof -
  have ok: "tables_ok cfg apps (\<lambda>m. m \<in> set (get_models apps)) tables \<and>
      (\<forall>m \<in> set (get_models apps). \<forall>f t info. joins cfg apps m f t info \<longrightarrow> t \<in> fst ` set tables)"
    using collect_models_ok [OF assms [unfolded collect_m2m_tables_def], of "\<lambda>m. m \<in> set (get_models apps)"]
    by (auto simp: tables_ok_def)
  then have entry: "\<exists>m f. m \<in> set (get_models apps) \<and> joins cfg apps m f t info" if "(t, info) \<in> set tables" for t info
    using that by (auto simp: tables_ok_def)
  have "(t \<in> set (map fst tables)) = (\<exists>m f info. m \<in> set (get_models apps) \<and> joins cfg apps m f t info)" for t
  proof
    assume "t \<in> set (map fst tables)"
    then obtain info where "(t, info) \<in> set tables" by auto
    then show "\<exists>m f info. m \<in> set (get_models apps) \<and> joins cfg apps m f t info" using entry by blast
  next
    assume "\<exists>m f info. m \<in> set (get_models apps) \<and> joins cfg apps m f t info"
    then have "t \<in> fst ` set tables" using ok by blast
    then show "t \<in> set (map fst tables)" by simp
  qed
  moreover have "distinct (map fst tables)" using ok by (simp add: tables_ok_def)
  ultimately show ?thesis using entry map_of_SomeD by metis
qed

subsection \<open>setup_m2m_rls\<close>

text \<open>
  \<^verbatim>\<open>management/commands/setup_m2m_rls.py\<close>: the policies of the join tables that have none.  \<open>ss_policies\<close> is the query of
  \<^verbatim>\<open>pg_policies\<close> (table and policy name), \<open>ss_execute\<close> that of one statement; the world is the database, and the lines
  printed are the value.  The settings are read anew.
\<close>

record 'w setup_site =
  ss_guc_tenant :: string
  ss_guc_admin :: string
  ss_pk_type :: string
  ss_policies :: "string list \<Rightarrow> ('w, (string \<times> string) list) py"
  ss_execute :: "string \<Rightarrow> ('w, unit) py"

datatype setup_line =
    NothingFound
  | AlreadyHas string string "string list"
  | StatementOf string string string
  | Applied string string
  | DryTotals nat nat
  | Totals nat nat

definition validated_setup :: "'w setup_site \<Rightarrow> unit checked" where
  "validated_setup ss =
     ck_bind (validate_pk_type (ss_pk_type ss)) (\<lambda>_.
     ck_bind (validate_guc_name_for_ddl (ss_guc_tenant ss)) (\<lambda>_. validate_guc_name_for_ddl (ss_guc_admin ss)))"

definition setup_sql :: "'w setup_site \<Rightarrow> string \<Rightarrow> m2m_info \<Rightarrow> string" where
  "setup_sql ss table info =
     build_m2m_create_sql table (bool_flag_sql (ss_guc_admin ss))
       (build_m2m_conditions (mi_from_fk info) (mi_from_table info) (Some (mi_from_tenant_fk info))
          (mi_to_fk info) (mi_to_table info) (mi_to_tenant_fk info) (ss_guc_tenant ss) (ss_pk_type ss))"

definition names_of :: "(string \<times> 'v) list \<Rightarrow> string \<Rightarrow> 'v list" where
  "names_of rows table = map snd (filter (\<lambda>row. fst row = table) rows)"

text \<open>The loop over the tables: the lines printed, and how many tables were applied and skipped.\<close>

fun setup_tables ::
  "'w setup_site \<Rightarrow> bool \<Rightarrow> bool \<Rightarrow> (string \<times> string) list \<Rightarrow> (string \<times> m2m_info) list \<Rightarrow>
     ('w, setup_line list \<times> nat \<times> nat) py" where
  "setup_tables ss dry_run verbose existing [] = py_ret ([], 0, 0)"
| "setup_tables ss dry_run verbose existing ((table, info) # tables) =
     (let policies = names_of existing table; sql = setup_sql ss table info;
          rest = setup_tables ss dry_run verbose existing tables
      in if policies \<noteq> []
         then py_bind rest (\<lambda>(out, applied, skipped).
                py_ret (AlreadyHas (mi_description info) table policies # out, applied, skipped + 1))
         else py_seq (if \<not> dry_run then ss_execute ss sql else py_ret ())
               (py_bind rest (\<lambda>(out, applied, skipped).
                  py_ret ((if verbose \<or> dry_run then [StatementOf (mi_description info) table sql] else []) @
                          (if \<not> dry_run then [Applied (mi_description info) table] else []) @ out, applied + 1, skipped))))"

definition handle_setup ::
  "'w setup_site \<Rightarrow> model_cfg \<Rightarrow> app_registry \<Rightarrow> bool \<Rightarrow> bool \<Rightarrow> ('w, setup_line list) py" where
  "handle_setup ss cfg apps dry_run verbose =
     py_bind (py_lift (collect_m2m_tables cfg apps)) (\<lambda>tables.
       if tables = [] then py_ret [NothingFound]
       else py_seq (py_except (py_lift (validated_setup ss)) (\<lambda>e. e = ValueError) (\<lambda>_. py_raise (OtherError ''CommandError'')))
         (py_bind (ss_policies ss (map fst tables)) (\<lambda>existing.
          py_bind (setup_tables ss dry_run verbose existing tables) (\<lambda>(out, applied, skipped).
            py_ret (out @ [if dry_run then DryTotals applied skipped else Totals applied skipped])))))"

text \<open>The tables it has to do.\<close>

definition without_policy :: "(string \<times> string) list \<Rightarrow> (string \<times> m2m_info) list \<Rightarrow> (string \<times> m2m_info) list" where
  "without_policy existing tables = filter (\<lambda>(t, _). names_of existing t = []) tables"

lemma setup_tables_runs:
  "(if dry_run then py_ret () else py_for (without_policy existing tables) (\<lambda>(t, info). ss_execute ss (setup_sql ss t info))) w =
     (map_sum id (\<lambda>_. ()) (fst (setup_tables ss dry_run verbose existing tables w)), snd (setup_tables ss dry_run verbose existing tables w))"
proof (induction tables arbitrary: w)
  case Nil
  then show ?case by (simp add: without_policy_def py_simps)
next
  case (Cons x tables)
  obtain table info where x: "x = (table, info)" by (cases x)
  note steps = x without_policy_def Let_def py_seq_def py_bind_def py_ret_def
  show ?case
  proof (cases "names_of existing table = [] \<and> \<not> dry_run")
    case False
    obtain p u where p: "setup_tables ss dry_run verbose existing tables w = (p, u)"
      by (cases "setup_tables ss dry_run verbose existing tables w")
    then show ?thesis using False Cons.IH [of w]
      by (cases p; cases dry_run; cases "names_of existing table = []") (auto simp: steps split: prod.split)
  next
    case True
    obtain q v where q: "ss_execute ss (setup_sql ss table info) w = (q, v)" by (cases "ss_execute ss (setup_sql ss table info) w")
    obtain p u where p: "setup_tables ss dry_run verbose existing tables v = (p, u)"
      by (cases "setup_tables ss dry_run verbose existing tables v")
    show ?thesis using True q p Cons.IH [of v] by (cases q; cases p) (auto simp: steps split: prod.split)
  qed
qed

text \<open>
  \<^verbatim>\<open>setup_m2m_rls\<close> executes the policy statement of every join table that has no policy, in the order of the tables, until one
  fails, and nothing else; a dry run executes none.
\<close>

theorem setup_applies_missing_policies:
  assumes tables: "collect_m2m_tables cfg apps = Inr tables" "tables \<noteq> []" and valid: "validated_setup ss = Inr ()"
    and query: "ss_policies ss (map fst tables) w = (Inr existing, w1)"
  shows "(map_sum id (\<lambda>_. ()) (fst (handle_setup ss cfg apps False verbose w)), snd (handle_setup ss cfg apps False verbose w)) =
           py_for (without_policy existing tables) (\<lambda>(t, info). ss_execute ss (setup_sql ss t info)) w1 \<and>
         snd (handle_setup ss cfg apps True verbose w) = w1"
proof -
  have run: "(map_sum id (\<lambda>_. ()) (fst (handle_setup ss cfg apps d verbose w)), snd (handle_setup ss cfg apps d verbose w)) =
      (if d then py_ret () else py_for (without_policy existing tables) (\<lambda>(t, info). ss_execute ss (setup_sql ss t info))) w1" for d
  proof -
    obtain p u where p: "setup_tables ss d verbose existing tables w1 = (p, u)" by (cases "setup_tables ss d verbose existing tables w1")
    have "handle_setup ss cfg apps d verbose w = (map_sum id (\<lambda>(out, applied, skipped).
        out @ [if d then DryTotals applied skipped else Totals applied skipped]) p, u)"
      using assms p
      by (cases p) (simp_all add: handle_setup_def py_lift_def py_seq_def py_except_def py_bind_def py_simps split: prod.split)
    then show ?thesis using setup_tables_runs [of d existing tables ss w1 verbose] p by (cases p) simp_all
  qed
  show ?thesis using run [of False] run [of True] by (simp add: py_simps)
qed

end
