(* ===== verification/Migration_Facts.thy ===== *)
theory Migration_Facts
  imports Rls_Tables "HOL-Library.Multiset" "HOL-Library.List_Lexorder" "HOL-Library.Product_Lexorder" "HOL-Library.Char_ord"
begin

text \<open>
  \<^verbatim>\<open>management/_rls_migrations.py\<close>: what the migrations on disk say about RLS, the fix for a table's problem, and the
  migrations \<^verbatim>\<open>check_rls --generate\<close> writes.  Django's loader is an argument: the graph, the record of applied
  migrations, the state they lead to, and the reading of a migration's number.  A hint is a constructor with what its
  text names.
\<close>

subsection \<open>Migrations\<close>

text \<open>A migration is known by its app's label and its name; an operation by what these functions look at.\<close>

type_synonym key = "string \<times> string"

datatype migration_op =
    AddM2m m2m_op
  | AddRls rls_op
  | CreateModel string "dj_constraint list"
  | AddConstraint string dj_constraint
  | SeparateDatabaseAndState "migration_op list"
  | OtherOperation

fun database_operations :: "migration_op list \<Rightarrow> migration_op list" where
  "database_operations [] = []"
| "database_operations (SeparateDatabaseAndState database # operations) = database_operations database @ database_operations operations"
| "database_operations (operation # operations) = operation # database_operations operations"

record model_state =
  ms_constraints :: "dj_constraint list"
  ms_fields :: "string list"

record loader =
  lo_alias :: string
  lo_operations :: "key \<Rightarrow> migration_op list"
  lo_leaves :: "string option \<Rightarrow> key list"
  lo_forwards_plan :: "key \<Rightarrow> key list"
  lo_applied :: "key list"
  lo_migrated_apps :: "string list"
  lo_state :: "key \<rightharpoonup> model_state"
  lo_parse_number :: "string \<Rightarrow> nat option"

definition model_key :: "dj_model \<Rightarrow> key" where
  "model_key m = (dm_app m, map ascii_lower (dm_name m))"

definition lower_name :: "string \<Rightarrow> string" where
  "lower_name s = map ascii_lower s"

text \<open>\<^verbatim>\<open>dict.fromkeys\<close> and \<^verbatim>\<open>update\<close>: a key stays where it came first.\<close>

definition add_keys :: "key list \<Rightarrow> key list \<Rightarrow> key list" where
  "add_keys = fold (\<lambda>k acc. if k \<in> set acc then acc else acc @ [k])"

definition migration_order :: "loader \<Rightarrow> key list" where
  "migration_order lo = fold (\<lambda>leaf acc. add_keys (lo_forwards_plan lo leaf) acc) (sort (lo_leaves lo None)) []"

subsection \<open>The facts\<close>

record facts =
  mf_loader :: loader
  mf_m2m_policies :: "(string \<times> key list) list"
  mf_rls_constraints :: "(key \<times> key list) list"
  mf_rls_policies :: "(key \<times> key list) list"
  mf_rls_policy_fields :: "(key \<times> string) list"

text \<open>\<^verbatim>\<open>d.setdefault(k, []).append(x)\<close>.\<close>

definition append_to :: "'k \<Rightarrow> 'v \<Rightarrow> ('k \<times> 'v list) list \<Rightarrow> ('k \<times> 'v list) list" where
  "append_to k x d = (case map_of d k of None \<Rightarrow> d @ [(k, [x])] | Some xs \<Rightarrow> AList.update k (xs @ [x]) d)"

definition listed_at :: "('k \<times> 'v list) list \<Rightarrow> 'k \<Rightarrow> 'v list" where
  "listed_at d k = (case map_of d k of None \<Rightarrow> [] | Some xs \<Rightarrow> xs)"

definition policy_target :: "key \<Rightarrow> rls_op \<Rightarrow> key" where
  "policy_target key op = (given_or (ro_app_label op) (fst key), lower_name (ro_model_name op))"

definition record_operation :: "key \<times> migration_op \<Rightarrow> facts \<Rightarrow> facts" where
  "record_operation entry f =
     (let key = fst entry in
      case snd entry of
        AddM2m op \<Rightarrow> f\<lparr>mf_m2m_policies := append_to (mo_m2m_table op) key (mf_m2m_policies f)\<rparr>
      | AddRls op \<Rightarrow> f\<lparr>mf_rls_policies := append_to (policy_target key op) key (mf_rls_policies f),
                      mf_rls_policy_fields := AList.update (policy_target key op) (ro_field op) (mf_rls_policy_fields f)\<rparr>
      | CreateModel name constraints \<Rightarrow>
          if first_policy constraints \<noteq> None
          then f\<lparr>mf_rls_constraints := append_to (fst key, lower_name name) key (mf_rls_constraints f)\<rparr> else f
      | AddConstraint name constraint \<Rightarrow>
          if first_policy [constraint] \<noteq> None
          then f\<lparr>mf_rls_constraints := append_to (fst key, lower_name name) key (mf_rls_constraints f)\<rparr> else f
      | _ \<Rightarrow> f)"

text \<open>The operations of every migration, on the database's side, in the order \<^verbatim>\<open>migrate\<close> would run them.\<close>

definition all_operations :: "loader \<Rightarrow> (key \<times> migration_op) list" where
  "all_operations lo = concat (map (\<lambda>key. map (Pair key) (database_operations (lo_operations lo key))) (migration_order lo))"

definition no_facts :: "loader \<Rightarrow> facts" where
  "no_facts lo = \<lparr>mf_loader = lo, mf_m2m_policies = [], mf_rls_constraints = [], mf_rls_policies = [], mf_rls_policy_fields = []\<rparr>"

definition migration_facts :: "loader \<Rightarrow> facts" where
  "migration_facts lo = fold record_operation (all_operations lo) (no_facts lo)"

definition is_migrated :: "facts \<Rightarrow> string \<Rightarrow> bool" where
  "is_migrated f app_label \<longleftrightarrow> app_label \<in> set (lo_migrated_apps (mf_loader f))"

definition is_applied :: "facts \<Rightarrow> key \<Rightarrow> bool" where
  "is_applied f key \<longleftrightarrow> key \<in> set (lo_applied (mf_loader f))"

definition model_state_of :: "facts \<Rightarrow> dj_model \<Rightarrow> model_state option" where
  "model_state_of f m = lo_state (mf_loader f) (model_key m)"

definition state_has_rls_constraint :: "facts \<Rightarrow> dj_model \<Rightarrow> bool" where
  "state_has_rls_constraint f m = (case model_state_of f m of None \<Rightarrow> False | Some s \<Rightarrow> first_policy (ms_constraints s) \<noteq> None)"

definition state_has_field :: "facts \<Rightarrow> dj_model \<Rightarrow> string \<Rightarrow> bool" where
  "state_has_field f m name = (case model_state_of f m of None \<Rightarrow> False | Some s \<Rightarrow> name \<in> set (ms_fields s))"

definition rls_constraint_migrations :: "facts \<Rightarrow> dj_model \<Rightarrow> key list" where
  "rls_constraint_migrations f m = listed_at (mf_rls_constraints f) (model_key m)"

definition rls_policy_migrations :: "facts \<Rightarrow> dj_model \<Rightarrow> key list" where
  "rls_policy_migrations f m = listed_at (mf_rls_policies f) (model_key m)"

definition rls_policy_field :: "facts \<Rightarrow> dj_model \<Rightarrow> string option" where
  "rls_policy_field f m = map_of (mf_rls_policy_fields f) (model_key m)"

definition rls_policy_models :: "facts \<Rightarrow> key list" where
  "rls_policy_models f = sort (map fst (mf_rls_policies f))"

definition m2m_policy_migrations :: "facts \<Rightarrow> string \<Rightarrow> key list" where
  "m2m_policy_migrations f table = listed_at (mf_m2m_policies f) table"

definition leaf_nodes :: "facts \<Rightarrow> string \<Rightarrow> key list" where
  "leaf_nodes f app_label = lo_leaves (mf_loader f) (Some app_label)"

subsection \<open>How to fix a table\<close>

datatype problem = TableMissing | RlsNotEnabled | RlsNotForced | NoPolicies | FieldMismatch

datatype hint =
    RlsOff string bool bool
  | NoConstraint string
  | NoMigrationAdds string
  | PendingConstraint key
  | CheckByHand string
  | ConstraintDropped key
  | ReadsAnotherField key string string
  | Unmanaged
  | PendingAddRlsPolicy key
  | NoAddRlsPolicy string string
  | AddRlsPolicyDropped key
  | GeneratedMigration key bool
  | PendingM2mPolicy key
  | M2mPolicyDropped key
  | NoMigrationCreatesField string string string
  | NoM2mMigration

definition rls_off_hint :: "string \<Rightarrow> problem set \<Rightarrow> hint" where
  "rls_off_hint table problems = RlsOff table (RlsNotEnabled \<in> problems) (RlsNotForced \<in> problems)"

definition policy_missing :: "problem set \<Rightarrow> bool" where
  "policy_missing problems \<longleftrightarrow> TableMissing \<in> problems \<or> NoPolicies \<in> problems"

definition pending :: "facts \<Rightarrow> key list \<Rightarrow> key list" where
  "pending f keys = filter (\<lambda>key. \<not> is_applied f key) keys"

definition protected_model_hint :: "facts \<Rightarrow> dj_model \<Rightarrow> problem set \<Rightarrow> bool \<Rightarrow> hint" where
  "protected_model_hint f m problems has_constraint =
     (let keys = rls_constraint_migrations f m in
      if \<not> has_constraint then NoConstraint (dm_app m)
      else if \<not> is_migrated f (dm_app m) \<or> \<not> state_has_rls_constraint f m then NoMigrationAdds (dm_app m)
      else case pending f keys of
        key # _ \<Rightarrow> PendingConstraint key
      | [] \<Rightarrow> if \<not> policy_missing problems then rls_off_hint (dm_table m) problems
             else if keys = [] then CheckByHand (dm_app m) else ConstraintDropped (last keys))"

text \<open>\<open>managed\<close> is \<^verbatim>\<open>Meta.managed\<close>; a field mismatch is reported only for a model an \<^verbatim>\<open>AddRLSPolicy\<close> targets.\<close>

definition external_model_hint :: "facts \<Rightarrow> (dj_model \<Rightarrow> bool) \<Rightarrow> dj_model \<Rightarrow> string \<Rightarrow> problem set \<Rightarrow> hint" where
  "external_model_hint f managed m tenant_fk problems =
     (let keys = rls_policy_migrations f m in
      if FieldMismatch \<in> problems then ReadsAnotherField (last keys) (the (rls_policy_field f m)) tenant_fk
      else if \<not> managed m \<and> policy_missing problems then Unmanaged
      else case pending f keys of
        key # _ \<Rightarrow> PendingAddRlsPolicy key
      | [] \<Rightarrow> if \<not> policy_missing problems then rls_off_hint (dm_table m) problems
             else if keys = [] then NoAddRlsPolicy (model_label m) tenant_fk else AddRlsPolicyDropped (last keys))"

definition model_hint :: "model_cfg \<Rightarrow> facts \<Rightarrow> (dj_model \<Rightarrow> bool) \<Rightarrow> dj_model \<Rightarrow> problem set \<Rightarrow> hint" where
  "model_hint cfg f managed m problems =
     (case get_tenant_fk_field cfg m of
        Some tenant_fk \<Rightarrow>
          if first_policy (dm_constraints m) = None then external_model_hint f managed m tenant_fk problems
          else protected_model_hint f m problems True
      | None \<Rightarrow> protected_model_hint f m problems False)"

definition m2m_hint :: "facts \<Rightarrow> string \<Rightarrow> m2m_info \<Rightarrow> problem set \<Rightarrow> (string \<rightharpoonup> hint) \<Rightarrow> hint" where
  "m2m_hint f table info problems generated =
     (case generated table of
        Some hint \<Rightarrow> hint
      | None \<Rightarrow>
          (let keys = m2m_policy_migrations f table; m = mi_from_model info in
           case pending f keys of
             key # _ \<Rightarrow> PendingM2mPolicy key
           | [] \<Rightarrow> if \<not> policy_missing problems then rls_off_hint table problems
                  else if keys \<noteq> [] then M2mPolicyDropped (last keys)
                  else if \<not> is_migrated f (dm_app m) \<or> \<not> state_has_field f m (mi_field info)
                  then NoMigrationCreatesField (dm_name m) (mi_field info) (dm_app m)
                  else NoM2mMigration))"

subsection \<open>The migrations to write\<close>

datatype skip_reason =
    AppHasNoMigrations string
  | NoMigrationCreates string string string
  | OtherPolicy "string list"
  | ConflictingMigrations string "key list"

record planned_migration =
  pm_app_label :: string
  pm_name :: string
  pm_dependency :: key
  pm_operations :: "m2m_op list"
  pm_tables :: "string list"

record plan_cfg =
  pc_guc_tenant :: string
  pc_guc_admin :: string
  pc_pk_type :: string

definition op_for :: "plan_cfg \<Rightarrow> string \<Rightarrow> m2m_info \<Rightarrow> m2m_op" where
  "op_for conf table info = \<lparr>mo_m2m_table = table, mo_from_model = model_label (mi_from_model info),
     mo_to_model = model_label (mi_to_model info), mo_from_fk = mi_from_fk info, mo_to_fk = mi_to_fk info,
     mo_from_tenant_fk = Some (mi_from_tenant_fk info), mo_to_tenant_fk = mi_to_tenant_fk info,
     mo_guc_tenant_var = pc_guc_tenant conf, mo_guc_admin_var = pc_guc_admin conf, mo_tenant_pk_type = pc_pk_type conf\<rparr>"

datatype table_plan = Covered | Skip skip_reason | Add m2m_op

definition plan_table ::
  "facts \<Rightarrow> (string \<Rightarrow> string list) \<Rightarrow> plan_cfg \<Rightarrow> string \<Rightarrow> m2m_info \<Rightarrow> table_plan checked" where
  "plan_table f policy_names conf table info =
     (let m = mi_from_model info; existing = policy_names table in
      if m2m_policy_migrations f table \<noteq> [] then Inr Covered
      else if \<not> is_migrated f (dm_app m) then Inr (Skip (AppHasNoMigrations (dm_app m)))
      else if \<not> state_has_field f m (mi_field info)
      then Inr (Skip (NoMigrationCreates (dm_name m) (mi_field info) (dm_app m)))
      else if existing \<noteq> [] \<and> m2m_policy_name table \<notin> set existing then Inr (Skip (OtherPolicy existing))
      else ck_bind (m2m_op_init (op_for conf table info)) (\<lambda>op. Inr (Add op)))"

text \<open>The loop over the tables: the operations by app, and what is skipped.\<close>

fun plan_tables ::
  "facts \<Rightarrow> (string \<Rightarrow> string list) \<Rightarrow> plan_cfg \<Rightarrow> (string \<times> m2m_info) list \<Rightarrow>
     (string \<times> m2m_op list) list \<Rightarrow> (string \<times> skip_reason) list \<Rightarrow>
     ((string \<times> m2m_op list) list \<times> (string \<times> skip_reason) list) checked" where
  "plan_tables f policy_names conf [] by_app skipped = Inr (by_app, skipped)"
| "plan_tables f policy_names conf ((table, info) # tables) by_app skipped =
     ck_bind (plan_table f policy_names conf table info) (\<lambda>plan.
       case plan of
         Covered \<Rightarrow> plan_tables f policy_names conf tables by_app skipped
       | Skip reason \<Rightarrow> plan_tables f policy_names conf tables by_app (skipped @ [(table, reason)])
       | Add op \<Rightarrow> plan_tables f policy_names conf tables (append_to (dm_app (mi_from_model info)) op by_app) skipped)"

definition pad4 :: "nat \<Rightarrow> string" where
  "pad4 n = (let digits = show_nat n in replicate (4 - length digits) (CHR ''0'') @ digits)"

definition plan_app :: "facts \<Rightarrow> string \<Rightarrow> string \<times> m2m_op list \<Rightarrow> planned_migration list \<times> (string \<times> skip_reason) list" where
  "plan_app f name entry =
     (let app_label = fst entry; operations = snd entry; tables = map mo_m2m_table operations in
      case leaf_nodes f app_label of
        [leaf] \<Rightarrow>
          (let number = (case lo_parse_number (mf_loader f) (snd leaf) of None \<Rightarrow> 0 | Some n \<Rightarrow> n) + 1
           in ([\<lparr>pm_app_label = app_label, pm_name = pad4 number @ ''_'' @ name, pm_dependency = leaf,
                 pm_operations = operations, pm_tables = tables\<rparr>], []))
      | leaves \<Rightarrow> ([], map (\<lambda>table. (table, ConflictingMigrations app_label (sort leaves))) tables))"

definition plan_m2m_migrations ::
  "facts \<Rightarrow> (string \<times> m2m_info) list \<Rightarrow> (string \<Rightarrow> string list) \<Rightarrow> string \<Rightarrow> plan_cfg \<Rightarrow>
     (planned_migration list \<times> (string \<times> skip_reason) list) checked" where
  "plan_m2m_migrations f tables policy_names name conf =
     ck_bind (plan_tables f policy_names conf tables [] []) (\<lambda>(by_app, skipped).
       Inr (concat (map (\<lambda>entry. fst (plan_app f name entry)) by_app),
            skipped @ concat (map (\<lambda>entry. snd (plan_app f name entry)) by_app)))"

subsection \<open>The order of the migrations\<close>

text \<open>Every migration comes after those it depends on.\<close>

definition in_order :: "(key \<Rightarrow> key set) \<Rightarrow> key list \<Rightarrow> bool" where
  "in_order needs ks \<longleftrightarrow> (\<forall>before k after. ks = before @ k # after \<longrightarrow> needs k \<subseteq> set before)"

lemma in_order_snoc: "in_order needs ks \<Longrightarrow> needs k \<subseteq> set ks \<Longrightarrow> in_order needs (ks @ [k])"
  unfolding in_order_def
proof (intro allI impI)
  fix before k' after
  assume o: "\<forall>before k after. ks = before @ k # after \<longrightarrow> needs k \<subseteq> set before" and k: "needs k \<subseteq> set ks"
    and e: "ks @ [k] = before @ k' # after"
  show "needs k' \<subseteq> set before"
  proof (cases after rule: rev_cases)
    case Nil
    then show ?thesis using e k by simp
  next
    case (snoc after' x)
    then have "ks = before @ k' # after'" using e by simp
    then show ?thesis using o by blast
  qed
qed

lemma add_keys_props:
  "set (add_keys ks acc) = set acc \<union> set ks" "distinct acc \<Longrightarrow> distinct (add_keys ks acc)"
  by (induction ks arbitrary: acc) (auto simp: add_keys_def)

lemma add_keys_in_order:
  assumes "in_order needs ks" "in_order needs acc"
  shows "in_order needs (add_keys ks acc)"
  using assms(1)
proof (induction ks rule: rev_induct)
  case Nil
  then show ?case using assms(2) by (simp add: add_keys_def)
next
  case (snoc k ks)
  have "in_order needs ks"
    unfolding in_order_def
  proof (intro allI impI)
    fix before k' after
    assume "ks = before @ k' # after"
    then have "ks @ [k] = before @ k' # (after @ [k])" by simp
    then show "needs k' \<subseteq> set before" using snoc.prems unfolding in_order_def by blast
  qed
  then have "in_order needs (add_keys ks acc)" by (rule snoc.IH)
  moreover have "needs k \<subseteq> set ks" using snoc.prems unfolding in_order_def by blast
  then have "needs k \<subseteq> set (add_keys ks acc)" by (auto simp: add_keys_props)
  ultimately have "in_order needs (add_keys ks acc @ [k])" by (rule in_order_snoc)
  moreover have "add_keys (ks @ [k]) acc = (if k \<in> set (add_keys ks acc) then add_keys ks acc else add_keys ks acc @ [k])"
    by (simp add: add_keys_def)
  ultimately show ?case using \<open>in_order needs (add_keys ks acc)\<close> by simp
qed

text \<open>
  The order of the migrations, in which "the latest" is sought, is one \<^verbatim>\<open>migrate\<close> can run them in: where the plan to each
  leaf names every migration after those it depends on, so does the whole list, with each migration of the plans once.
\<close>

theorem migration_order_is_dependency_order:
  assumes plans: "\<And>leaf. leaf \<in> set (lo_leaves lo None) \<Longrightarrow> in_order needs (lo_forwards_plan lo leaf)"
  shows "in_order needs (migration_order lo) \<and> distinct (migration_order lo) \<and>
         set (migration_order lo) = (\<Union>leaf \<in> set (lo_leaves lo None). set (lo_forwards_plan lo leaf))"
proof -
  have "in_order needs acc \<Longrightarrow> distinct acc \<Longrightarrow> (\<forall>leaf \<in> set ls. in_order needs (lo_forwards_plan lo leaf)) \<Longrightarrow>
      in_order needs (fold (\<lambda>leaf acc. add_keys (lo_forwards_plan lo leaf) acc) ls acc) \<and>
      distinct (fold (\<lambda>leaf acc. add_keys (lo_forwards_plan lo leaf) acc) ls acc) \<and>
      set (fold (\<lambda>leaf acc. add_keys (lo_forwards_plan lo leaf) acc) ls acc) =
        set acc \<union> (\<Union>leaf \<in> set ls. set (lo_forwards_plan lo leaf))" for ls acc
    by (induction ls arbitrary: acc) (auto simp: add_keys_props add_keys_in_order)
  from this [of "[]" "sort (lo_leaves lo None)"] show ?thesis
    using plans by (simp add: migration_order_def in_order_def)
qed

subsection \<open>The facts are exact\<close>

lemma listed_at_append_to: "listed_at (append_to k x d) k' = listed_at d k' @ (if k' = k then [x] else [])"
  by (auto simp: listed_at_def append_to_def update_conv' map_add_def split: option.split)

fun adds_m2m_policy :: "string \<Rightarrow> key \<times> migration_op \<Rightarrow> bool" where
  "adds_m2m_policy table (key, AddM2m op) = (mo_m2m_table op = table)"
| "adds_m2m_policy table _ = False"

fun adds_rls_policy :: "key \<Rightarrow> key \<times> migration_op \<Rightarrow> bool" where
  "adds_rls_policy target (key, AddRls op) = (policy_target key op = target)"
| "adds_rls_policy target _ = False"

fun adds_constraint :: "key \<Rightarrow> key \<times> migration_op \<Rightarrow> bool" where
  "adds_constraint target (key, CreateModel name constraints) = (first_policy constraints \<noteq> None \<and> (fst key, lower_name name) = target)"
| "adds_constraint target (key, AddConstraint name c) = (first_policy [c] \<noteq> None \<and> (fst key, lower_name name) = target)"
| "adds_constraint target _ = False"

fun policy_field_of :: "key \<times> migration_op \<Rightarrow> string" where
  "policy_field_of (key, AddRls op) = ro_field op"
| "policy_field_of _ = []"

lemma record_operation_facts:
  "listed_at (mf_m2m_policies (record_operation e f)) t = listed_at (mf_m2m_policies f) t @ (if adds_m2m_policy t e then [fst e] else [])"
  "listed_at (mf_rls_policies (record_operation e f)) k = listed_at (mf_rls_policies f) k @ (if adds_rls_policy k e then [fst e] else [])"
  "listed_at (mf_rls_constraints (record_operation e f)) k = listed_at (mf_rls_constraints f) k @ (if adds_constraint k e then [fst e] else [])"
  "map_of (mf_rls_policy_fields (record_operation e f)) k = (if adds_rls_policy k e then Some (policy_field_of e) else map_of (mf_rls_policy_fields f) k)"
  "mf_loader (record_operation e f) = mf_loader f"
  by (cases e; cases "snd e"; auto simp: record_operation_def listed_at_append_to update_conv')+

lemma fold_record:
  "listed_at (mf_m2m_policies (fold record_operation es f)) t = listed_at (mf_m2m_policies f) t @ map fst (filter (adds_m2m_policy t) es)"
  "listed_at (mf_rls_policies (fold record_operation es f)) k = listed_at (mf_rls_policies f) k @ map fst (filter (adds_rls_policy k) es)"
  "listed_at (mf_rls_constraints (fold record_operation es f)) k = listed_at (mf_rls_constraints f) k @ map fst (filter (adds_constraint k) es)"
  "mf_loader (fold record_operation es f) = mf_loader f"
  by (induction es arbitrary: f) (simp_all add: record_operation_facts)

lemma fold_record_field:
  "map_of (mf_rls_policy_fields (fold record_operation es f)) k =
     (case filter (adds_rls_policy k) es of [] \<Rightarrow> map_of (mf_rls_policy_fields f) k | x # xs \<Rightarrow> Some (policy_field_of (last (x # xs))))"
proof (induction es arbitrary: f)
  case (Cons e es)
  then show ?case by (cases "filter (adds_rls_policy k) es") (auto simp: record_operation_facts)
qed simp

text \<open>
  The facts are those of the migrations: a join table's, a model's policy's and a model's constraint's migrations are
  exactly the ones whose database side has such an operation for it, in dependency order, and the field of a model's
  policy is that of the last one.
\<close>

theorem migration_facts_exact:
  "m2m_policy_migrations (migration_facts lo) table = map fst (filter (adds_m2m_policy table) (all_operations lo)) \<and>
   rls_policy_migrations (migration_facts lo) m = map fst (filter (adds_rls_policy (model_key m)) (all_operations lo)) \<and>
   rls_constraint_migrations (migration_facts lo) m = map fst (filter (adds_constraint (model_key m)) (all_operations lo)) \<and>
   rls_policy_field (migration_facts lo) m =
     (case filter (adds_rls_policy (model_key m)) (all_operations lo) of
        [] \<Rightarrow> None | x # xs \<Rightarrow> Some (policy_field_of (last (x # xs))))"
  by (simp add: m2m_policy_migrations_def rls_policy_migrations_def rls_constraint_migrations_def rls_policy_field_def
      migration_facts_def fold_record fold_record_field no_facts_def) (simp add: listed_at_def split: list.split)

lemma policy_field_iff:
  "rls_policy_field (migration_facts lo) m = None \<longleftrightarrow> rls_policy_migrations (migration_facts lo) m = []"
  using migration_facts_exact [of lo "[]" m] by (cases "filter (adds_rls_policy (model_key m)) (all_operations lo)") simp_all

subsection \<open>The plan\<close>

definition uncovered :: "facts \<Rightarrow> (string \<times> m2m_info) list \<Rightarrow> (string \<times> m2m_info) list" where
  "uncovered f tables = filter (\<lambda>(t, _). m2m_policy_migrations f t = []) tables"

text \<open>The operations collected for the apps.\<close>

definition ops_of :: "(string \<times> m2m_op list) list \<Rightarrow> (string \<times> m2m_op) list" where
  "ops_of by_app = concat (map (\<lambda>(app, ops). map (Pair app) ops) by_app)"

lemma in_ops_of: "(a, op) \<in> set (ops_of by_app) \<longleftrightarrow> (\<exists>e \<in> set by_app. fst e = a \<and> op \<in> set (snd e))"
  by (induction by_app) (auto simp: ops_of_def)

lemma mset_append_to: "mset (ops_of (append_to a op by_app)) = add_mset (a, op) (mset (ops_of by_app))"
proof (cases "map_of by_app a")
  case None
  then show ?thesis by (simp add: append_to_def ops_of_def)
next
  case (Some ops)
  have "mset (ops_of (AList.update a (ops @ [op]) by_app)) = add_mset (a, op) (mset (ops_of by_app))" using Some
    by (induction by_app) (auto simp: ops_of_def split: if_splits)
  then show ?thesis using Some by (simp add: append_to_def)
qed

lemma m2m_op_init_same: "m2m_op_init op = Inr op' \<Longrightarrow> op' = op"
  by (simp add: m2m_op_init_Inr)

text \<open>An operation planned for an app: that of a table no migration covers, of a field of the app's model.\<close>

definition planned_for :: "facts \<Rightarrow> plan_cfg \<Rightarrow> (string \<times> m2m_info) list \<Rightarrow> string \<Rightarrow> m2m_op \<Rightarrow> bool" where
  "planned_for f conf tables app op \<longleftrightarrow> m2m_op_init op = Inr op \<and>
     (\<exists>(t, info) \<in> set (uncovered f tables). op = op_for conf t info \<and> app = dm_app (mi_from_model info) \<and>
        is_migrated f app \<and> state_has_field f (mi_from_model info) (mi_field info))"

lemma plan_table_cases:
  assumes "plan_table f pn conf t info = Inr plan"
  shows "(plan = Covered) = (m2m_policy_migrations f t \<noteq> [])"
    "plan = Add op \<Longrightarrow> m2m_op_init op = Inr op \<and> op = op_for conf t info \<and> m2m_policy_migrations f t = [] \<and>
       is_migrated f (dm_app (mi_from_model info)) \<and> state_has_field f (mi_from_model info) (mi_field info)"
  using assms
  by (auto simp: plan_table_def Let_def ck_bind_def split: if_splits sum.splits dest: m2m_op_init_same)

lemma plan_tables_result:
  assumes "plan_tables f pn conf tables by_app skipped = Inr (by_app', skipped')"
  shows "mset (map (\<lambda>(a, op). mo_m2m_table op) (ops_of by_app')) + mset (map fst skipped') =
      mset (map (\<lambda>(a, op). mo_m2m_table op) (ops_of by_app)) + mset (map fst skipped) + mset (map fst (uncovered f tables)) \<and>
    (\<forall>a op. (a, op) \<in> set (ops_of by_app') \<longrightarrow> (a, op) \<in> set (ops_of by_app) \<or> planned_for f conf tables a op)"
  using assms
proof (induction tables arbitrary: by_app skipped)
  case Nil
  then show ?case by (simp add: uncovered_def)
next
  case (Cons x tables)
  obtain t info where x: "x = (t, info)" by (cases x)
  have later: "planned_for f conf tables a op \<Longrightarrow> planned_for f conf (x # tables) a op" for a op
    by (auto simp: planned_for_def uncovered_def)
  obtain plan where plan: "plan_table f pn conf t info = Inr plan"
    using Cons.prems x by (cases "plan_table f pn conf t info") (auto simp: ck_bind_def)
  note cases = plan_table_cases [OF plan]
  show ?case
  proof (cases plan)
    case Covered
    then have "plan_tables f pn conf tables by_app skipped = Inr (by_app', skipped')"
      using Cons.prems x plan by (simp add: ck_bind_def)
    moreover have "uncovered f (x # tables) = uncovered f tables" using cases(1) Covered x by (simp add: uncovered_def)
    ultimately show ?thesis using Cons.IH [of by_app skipped] later by auto
  next
    case (Skip reason)
    then have "plan_tables f pn conf tables by_app (skipped @ [(t, reason)]) = Inr (by_app', skipped')"
      using Cons.prems x plan by (simp add: ck_bind_def)
    moreover have "uncovered f (x # tables) = x # uncovered f tables" using cases(1) Skip x by (simp add: uncovered_def)
    ultimately show ?thesis using Cons.IH [of by_app "skipped @ [(t, reason)]"] later x by auto
  next
    case (Add new)
    let ?a = "dm_app (mi_from_model info)"
    have new: "m2m_op_init new = Inr new" "new = op_for conf t info" "m2m_policy_migrations f t = []" "is_migrated f ?a"
      "state_has_field f (mi_from_model info) (mi_field info)"
      using cases(2) [OF Add] by auto
    have here: "planned_for f conf (x # tables) ?a new" using new x by (auto simp: planned_for_def uncovered_def)
    have ops: "set (ops_of (append_to ?a new by_app)) = insert (?a, new) (set (ops_of by_app))"
      using arg_cong [OF mset_append_to [of ?a new by_app], of set_mset] by simp
    have table: "mo_m2m_table new = t" using new(2) by (simp add: op_for_def)
    have "plan_tables f pn conf tables (append_to ?a new by_app) skipped = Inr (by_app', skipped')"
      using Cons.prems x plan Add by (simp add: ck_bind_def)
    note rest = Cons.IH [OF this]
    have un: "map fst (uncovered f (x # tables)) = t # map fst (uncovered f tables)" using new(3) x by (simp add: uncovered_def)
    have "mset (map (\<lambda>(a, op). mo_m2m_table op) (ops_of (append_to ?a new by_app))) =
        add_mset t (mset (map (\<lambda>(a, op). mo_m2m_table op) (ops_of by_app)))"
      by (simp add: mset_append_to table)
    moreover have "(a, op) \<in> set (ops_of by_app) \<or> planned_for f conf (x # tables) a op" if "(a, op) \<in> set (ops_of by_app')" for a op
      using conjunct2 [OF rest, rule_format, OF that] here later [of a op] by (auto simp: ops)
    ultimately show ?thesis using conjunct1 [OF rest] by (simp add: un)
  qed
qed

text \<open>What a planned migration promises.\<close>

definition planned_ok :: "facts \<Rightarrow> plan_cfg \<Rightarrow> (string \<times> m2m_info) list \<Rightarrow> planned_migration \<Rightarrow> bool" where
  "planned_ok f conf tables p \<longleftrightarrow> leaf_nodes f (pm_app_label p) = [pm_dependency p] \<and>
     pm_tables p = map mo_m2m_table (pm_operations p) \<and>
     (\<forall>op \<in> set (pm_operations p). planned_for f conf tables (pm_app_label p) op)"

lemma plan_app_result:
  "concat (map pm_tables (fst (plan_app f name e))) @ map fst (snd (plan_app f name e)) = map mo_m2m_table (snd e)"
  "p \<in> set (fst (plan_app f name e)) \<Longrightarrow> leaf_nodes f (fst e) = [pm_dependency p] \<and> pm_app_label p = fst e \<and>
     pm_operations p = snd e \<and> pm_tables p = map mo_m2m_table (snd e)"
  by (auto simp: plan_app_def Let_def comp_def split: list.splits)

text \<open>
  The plan covers the join tables: each table that no migration gives a policy is in exactly one planned migration or has a
  reason why not, and no other table is; a planned migration is of the app of the tables' models, comes after the app's one
  leaf, and holds for each of its tables the \<^verbatim>\<open>AddM2MRLSPolicy\<close> of its two sides with the settings' names.
\<close>

theorem plan_covers_the_tables:
  assumes plan: "plan_m2m_migrations f tables policy_names name conf = Inr (planned, skipped)"
  shows "mset (concat (map pm_tables planned) @ map fst skipped) = mset (map fst (uncovered f tables)) \<and>
    list_all (planned_ok f conf tables) planned"
proof
  obtain by_app sk where t: "plan_tables f policy_names conf tables [] [] = Inr (by_app, sk)"
    and p: "planned = concat (map (\<lambda>e. fst (plan_app f name e)) by_app)"
    and s: "skipped = sk @ concat (map (\<lambda>e. snd (plan_app f name e)) by_app)"
    using plan by (auto simp: plan_m2m_migrations_def ck_bind_def split: sum.splits)
  note result = plan_tables_result [OF t]
  have "mset (concat (map pm_tables (concat (map (\<lambda>e. fst (plan_app f name e)) es)))) +
      mset (map fst (concat (map (\<lambda>e. snd (plan_app f name e)) es))) = mset (map (\<lambda>(a, op). mo_m2m_table op) (ops_of es))" for es
  proof (induction es)
    case (Cons e es)
    have "mset (concat (map pm_tables (fst (plan_app f name e)))) + mset (map fst (snd (plan_app f name e))) =
        mset (map (\<lambda>(a, op). mo_m2m_table op) (map (Pair (fst e)) (snd e)))"
      using arg_cong [OF plan_app_result(1) [of f name e], of mset] by (simp add: multiset.map_comp comp_def)
    then show ?case using Cons by (cases e) (simp add: ops_of_def ac_simps)
  qed (simp add: ops_of_def)
  then show "mset (concat (map pm_tables planned) @ map fst skipped) = mset (map fst (uncovered f tables))"
    using result unfolding p s by (simp add: ops_of_def ac_simps)
  show "list_all (planned_ok f conf tables) planned"
    unfolding list_all_iff
  proof
    fix p'
    assume "p' \<in> set planned"
    then obtain e where e: "e \<in> set by_app" "p' \<in> set (fst (plan_app f name e))" using p by auto
    have "(fst e, op) \<in> set (ops_of by_app)" if "op \<in> set (snd e)" for op
      using e(1) that by (auto simp: in_ops_of)
    moreover have "ops_of [] = []" by (simp add: ops_of_def)
    ultimately have "planned_for f conf tables (fst e) op" if "op \<in> set (snd e)" for op
      using conjunct2 [OF result, rule_format, of "fst e" op] that by simp
    then show "planned_ok f conf tables p'" using plan_app_result(2) [OF e(2)] by (simp add: planned_ok_def)
  qed
qed

text \<open>
  A second \<^verbatim>\<open>--generate\<close> writes nothing again: once a planned migration is on disk, in the order of the migrations, each of
  its tables is covered, so no plan names it.
\<close>

theorem generated_migration_covers:
  assumes written: "key \<in> set (migration_order lo)" "lo_operations lo key = map AddM2m (pm_operations p)"
    and p: "planned_ok f conf tables p" and t: "t \<in> set (pm_tables p)"
    and again: "plan_m2m_migrations (migration_facts lo) tables' policy_names name conf' = Inr (planned, skipped)"
  shows "t \<notin> set (concat (map pm_tables planned)) \<and> t \<notin> set (map fst skipped)"
proof -
  obtain op where op: "op \<in> set (pm_operations p)" "mo_m2m_table op = t" using p t by (auto simp: planned_ok_def)
  have db: "database_operations (map AddM2m ops) = map AddM2m ops" for ops by (induction ops) simp_all
  have "(key, AddM2m op) \<in> set (all_operations lo)"
    using written op(1) by (auto simp: all_operations_def db intro!: bexI [of _ key])
  then have "(key, AddM2m op) \<in> set (filter (adds_m2m_policy t) (all_operations lo))" using op(2) by simp
  then have "key \<in> set (map fst (filter (adds_m2m_policy t) (all_operations lo)))" by (metis fst_conv image_eqI set_map)
  moreover have "m2m_policy_migrations (migration_facts lo) t = map fst (filter (adds_m2m_policy t) (all_operations lo))"
    by (rule conjunct1 [OF migration_facts_exact])
  ultimately have "m2m_policy_migrations (migration_facts lo) t \<noteq> []" by (metis list.set(1) empty_iff)
  then have "t \<notin> set (map fst (uncovered (migration_facts lo) tables'))" by (auto simp: uncovered_def)
  then show ?thesis using arg_cong [OF conjunct1 [OF plan_covers_the_tables [OF again]], of set_mset] by auto
qed

subsection \<open>One concrete project\<close>

text \<open>
  The notes of \<open>Tenant_Models\<close>, with one migration that makes the model and its tags, and none for the join table; an
  operation inside \<^verbatim>\<open>SeparateDatabaseAndState\<close> counts by its database side.
\<close>

definition demo_loader :: loader where
  "demo_loader = \<lparr>lo_alias = ''default'', lo_operations = (\<lambda>_. [SeparateDatabaseAndState [CreateModel ''Note'' [demo_policy]], OtherOperation]),
     lo_leaves = (\<lambda>_. [(''app'', ''0001_initial'')]), lo_forwards_plan = (\<lambda>leaf. [leaf]), lo_applied = [(''app'', ''0001_initial'')],
     lo_migrated_apps = [''app''], lo_state = [(''app'', ''note'') \<mapsto> \<lparr>ms_constraints = [demo_policy], ms_fields = [''tenant'', ''tags'']\<rparr>],
     lo_parse_number = (\<lambda>_. Some 1)\<rparr>"

definition demo_info :: m2m_info where
  "demo_info = m2m_info_of demo_model_cfg demo_apps demo_note
     \<lparr>mm_name = ''tags'', mm_through = ''app.Note_tags'', mm_related = ToModel ''app.Tag'', mm_column = ''note_id'', mm_reverse = ''tag_id''\<rparr>
     (demo_model ''Tag'' [demo_policy] [demo_fk ''tenant'' ''app.Tenant'' 4] [] False)"

lemma demo_tables: "collect_m2m_tables demo_model_cfg demo_apps = Inr [(''app_Note_tags'', demo_info)]"
  by (simp add: collect_m2m_tables_def get_models_def map_filter_def demo_apps_def demo_note_def demo_model_def declares_rls_policy_def
      concrete_of_def demo_policy_def collect_field_def demo_info_def)

lemma m2m_tables_exact_witness: "distinct (map fst [(''app_Note_tags'', demo_info)])"
  using m2m_tables_exact [OF demo_tables] by blast

definition demo_plan_cfg :: plan_cfg where
  "demo_plan_cfg = \<lparr>pc_guc_tenant = ''rls.current_tenant'', pc_guc_admin = ''rls.is_admin'', pc_pk_type = ''int''\<rparr>"

lemma demo_planned:
  "plan_m2m_migrations (migration_facts demo_loader) [(''app_Note_tags'', demo_info)] (\<lambda>_. []) ''m2m_rls_policies'' demo_plan_cfg =
     Inr ([\<lparr>pm_app_label = ''app'', pm_name = ''0002_m2m_rls_policies'', pm_dependency = (''app'', ''0001_initial''),
            pm_operations = [op_for demo_plan_cfg ''app_Note_tags'' demo_info], pm_tables = [''app_Note_tags'']\<rparr>], [])"
proof -
  let ?f = "migration_facts demo_loader"
  have "all_operations demo_loader =
      [((''app'', ''0001_initial''), CreateModel ''Note'' [demo_policy]), ((''app'', ''0001_initial''), OtherOperation)]"
    by (simp add: all_operations_def migration_order_def demo_loader_def add_keys_def)
  then have none: "m2m_policy_migrations ?f ''app_Note_tags'' = []"
    by (simp add: conjunct1 [OF migration_facts_exact])
  have lo: "mf_loader ?f = demo_loader" by (simp add: migration_facts_def fold_record no_facts_def)
  have m: "mi_from_model demo_info = demo_note" "mi_field demo_info = ''tags''" by (simp_all add: demo_info_def m2m_info_of_def)
  have app: "dm_app demo_note = ''app''" "model_key demo_note = (''app'', ''note'')"
    by (simp_all add: demo_note_def demo_model_def model_key_def ascii_lower_def char_of_eq_iff take_bit_nat_eq_self)
  have "m2m_op_init (op_for demo_plan_cfg ''app_Note_tags'' demo_info) = Inr (op_for demo_plan_cfg ''app_Note_tags'' demo_info)"
    by (simp add: m2m_op_init_def model_path_ok_def strip_final_newline_def newline_def op_for_def demo_plan_cfg_def demo_info_def m2m_info_of_def demo_model_defs model_label_def side_tenant_fk_def
        get_tenant_fk_field_def declares_rls_policy_def concrete_of_def validate_tenant_fk_def allowed_pk_types_def guc_char_def
        char_class_defs)
  then have "plan_table ?f (\<lambda>_. []) demo_plan_cfg ''app_Note_tags'' demo_info = Inr (Add (op_for demo_plan_cfg ''app_Note_tags'' demo_info))"
    using none lo m app by (simp add: plan_table_def is_migrated_def state_has_field_def model_state_of_def demo_loader_def)
  then show ?thesis using m app lo
    by (simp add: plan_m2m_migrations_def append_to_def plan_app_def leaf_nodes_def demo_loader_def pad4_def numeral_3_eq_3 show_nat.simps digit_char_def
        char_of_eq_iff take_bit_nat_eq_self op_for_def)
qed

lemma plan_covers_the_tables_witness:
  "list_all (planned_ok (migration_facts demo_loader) demo_plan_cfg [(''app_Note_tags'', demo_info)])
     [\<lparr>pm_app_label = ''app'', pm_name = ''0002_m2m_rls_policies'', pm_dependency = (''app'', ''0001_initial''),
        pm_operations = [op_for demo_plan_cfg ''app_Note_tags'' demo_info], pm_tables = [''app_Note_tags'']\<rparr>]"
  using plan_covers_the_tables [OF demo_planned] by (rule conjunct2)

end
