(* ===== verification/Check_Rls.thy ===== *)
theory Check_Rls
  imports Migration_Facts
begin

text \<open>
  \<^verbatim>\<open>management/commands/check_rls.py\<close>: the check that every table that must have a policy has one, with the hints and
  \<^verbatim>\<open>--generate\<close>.  The catalogue's queries, the loading of the migrations (in a savepoint where the command asks for
  one), \<^verbatim>\<open>apps.get_model\<close> and the writing of a migration's file are arguments.  A line that is printed is a
  constructor with what its text names; the styling and the code formatters are left out.
\<close>

subsection \<open>The command's world\<close>

record issue =
  is_table :: string
  is_label :: string
  is_problem :: problem

record policy_row =
  pr_table :: string
  pr_name :: string
  pr_cmd :: string
  pr_using :: "string option"
  pr_check :: "string option"

datatype check_line =
    M2mHeading
  | PoliciesOf string string "string list"
  | Detail string
  | CatalogueFailed exn
  | MigrationsUnreadable exn
  | Unlisted dj_model key string
  | MigrationFor planned_migration bool
  | NotGenerated string skip_reason
  | NothingToGenerate
  | IssuesFound nat
  | IssueLine issue
  | HowToFix
  | HintFor string string hint
  | AllVerified nat
  | NoProtectedModels

record 'w check_run =
  ck_world :: 'w
  ck_out :: "check_line list"

record 'w check_site =
  cr_cfg :: model_cfg
  cr_apps :: app_registry
  cr_managed :: "dj_model \<Rightarrow> bool"
  cr_get_model :: "key \<Rightarrow> dj_model option"
  cr_conf :: plan_cfg
  cr_status :: "string list \<Rightarrow> ('w, (string \<times> bool \<times> bool) list) py"
  cr_policies :: "string list \<Rightarrow> ('w, policy_row list) py"
  cr_loader :: "('w, loader) py"
  cr_atomic :: "('w, loader) py \<Rightarrow> ('w, loader) py"
  cr_write :: "planned_migration \<Rightarrow> ('w, unit) py"

record check_options =
  co_quiet :: bool
  co_verbose :: bool
  co_generate :: bool
  co_dry_run :: bool
  co_name :: "string option"

definition on_world :: "('w, 'a) py \<Rightarrow> ('w check_run, 'a) py" where
  "on_world m = (\<lambda>w. case m (ck_world w) of (r, v) \<Rightarrow> (r, w\<lparr>ck_world := v\<rparr>))"

definition print_line :: "check_line \<Rightarrow> ('w check_run, unit) py" where
  "print_line l = py_modify (\<lambda>w. w\<lparr>ck_out := ck_out w @ [l]\<rparr>)"

definition print_lines :: "check_line list \<Rightarrow> ('w check_run, unit) py" where
  "print_lines ls = py_modify (\<lambda>w. w\<lparr>ck_out := ck_out w @ ls\<rparr>)"

definition check_rls_error :: exn where
  "check_rls_error = OtherError ''CommandError''"

definition system_exit :: exn where
  "system_exit = OtherError ''SystemExit''"

subsection \<open>The status of the tables\<close>

text \<open>A dict of the rows: the last one of a table counts.\<close>

definition status_issues :: "(string \<times> bool \<times> bool) list \<Rightarrow> string \<times> string \<Rightarrow> issue list" where
  "status_issues rows entry =
     (let issue = (\<lambda>p. \<lparr>is_table = fst entry, is_label = snd entry, is_problem = p\<rparr>)
      in case map_of (rev rows) (fst entry) of
           None \<Rightarrow> [issue TableMissing]
         | Some (enabled, forced) \<Rightarrow>
             (if \<not> enabled then [issue RlsNotEnabled] else []) @ (if \<not> forced then [issue RlsNotForced] else []))"

definition check_rls_status ::
  "'w check_site \<Rightarrow> (string \<times> string) list \<Rightarrow> ('w check_run, issue list) py" where
  "check_rls_status cs tables =
     py_bind (on_world (cr_status cs (map fst tables))) (\<lambda>rows. py_ret (concat (map (status_issues rows) tables)))"

text \<open>\<^verbatim>\<open>expr.strip().splitlines()\<close>, at the line boundaries among the Latin-1 characters.\<close>

definition is_line_end :: "char \<Rightarrow> bool" where
  "is_line_end c \<longleftrightarrow> (let n = (of_char c :: nat) in (10 \<le> n \<and> n \<le> 13) \<or> (28 \<le> n \<and> n \<le> 30) \<or> n = 133)"

fun split_lines :: "string \<Rightarrow> string \<Rightarrow> string list" where
  "split_lines acc [] = (if acc = [] then [] else [rev acc])"
| "split_lines acc (c # cs) =
     (if c = CHR 0x0D \<and> cs \<noteq> [] \<and> hd cs = CHR 0x0A then rev acc # split_lines [] (tl cs)
      else if is_line_end c then rev acc # split_lines [] cs
      else split_lines (c # acc) cs)"

definition strip :: "string \<Rightarrow> string" where
  "strip s = rev (dropWhile is_space (rev (dropWhile is_space s)))"

definition clause_lines :: "string \<Rightarrow> string option \<Rightarrow> check_line list" where
  "clause_lines label expr =
     (case expr of
        None \<Rightarrow> []
      | Some e \<Rightarrow> Detail (''      '' @ label @ '':'') #
          map (\<lambda>line. Detail (if line \<noteq> [] then ''        '' @ line else [])) (split_lines [] (strip e)))"

definition policy_details :: "policy_row list \<Rightarrow> check_line list" where
  "policy_details policies =
     concat (map (\<lambda>p. Detail (''    '' @ pr_name p @ '' ['' @ pr_cmd p @ '']'') #
       clause_lines ''USING'' (pr_using p) @ clause_lines ''WITH CHECK'' (pr_check p)) policies)"

definition policies_of :: "policy_row list \<Rightarrow> string \<Rightarrow> policy_row list" where
  "policies_of rows table = filter (\<lambda>row. pr_table row = table) rows"

definition policy_issues :: "policy_row list \<Rightarrow> string \<times> string \<Rightarrow> issue list" where
  "policy_issues rows entry =
     (if policies_of rows (fst entry) = [] then [\<lparr>is_table = fst entry, is_label = snd entry, is_problem = NoPolicies\<rparr>] else [])"

definition policy_lines :: "bool \<Rightarrow> bool \<Rightarrow> policy_row list \<Rightarrow> string \<times> string \<Rightarrow> check_line list" where
  "policy_lines hush verbose rows entry =
     (let policies = policies_of rows (fst entry)
      in if policies = [] \<or> hush then []
         else PoliciesOf (snd entry) (fst entry) (map pr_name policies) # (if verbose then policy_details policies else []))"

definition check_policies ::
  "'w check_site \<Rightarrow> bool \<Rightarrow> bool \<Rightarrow> (string \<times> string) list \<Rightarrow> ('w check_run, issue list \<times> (string \<Rightarrow> string list)) py" where
  "check_policies cs hush verbose tables =
     py_bind (on_world (cr_policies cs (map fst tables))) (\<lambda>rows.
       py_seq (print_lines (concat (map (policy_lines hush verbose rows) tables)))
         (py_ret (concat (map (policy_issues rows) tables), \<lambda>t. map pr_name (policies_of rows t))))"

definition check_group ::
  "'w check_site \<Rightarrow> bool \<Rightarrow> bool \<Rightarrow> (string \<times> string) list \<Rightarrow> ('w check_run, issue list \<times> (string \<Rightarrow> string list)) py" where
  "check_group cs hush verbose tables =
     py_bind (check_rls_status cs tables) (\<lambda>issues.
     py_bind (check_policies cs hush verbose tables) (\<lambda>(missing, names). py_ret (issues @ missing, names)))"

definition check_tables ::
  "'w check_site \<Rightarrow> bool \<Rightarrow> bool \<Rightarrow> (string \<times> dj_model) list \<Rightarrow> (string \<times> m2m_info) list \<Rightarrow>
     ('w check_run, issue list \<times> (string \<Rightarrow> string list)) py" where
  "check_tables cs hush verbose models joins_found =
     py_bind (if models \<noteq> [] then check_group cs hush verbose (map (\<lambda>(t, m). (t, dm_name m)) models)
              else py_ret ([], \<lambda>_. [])) (\<lambda>(issues, names).
       if joins_found = [] then py_ret (issues, names)
       else py_seq (if \<not> hush then print_line M2mHeading else py_ret ())
              (py_bind (check_group cs hush verbose (map (\<lambda>(t, i). (t, mi_description i)) joins_found)) (\<lambda>(more, names').
                 py_ret (issues @ more, \<lambda>t. if names' t \<noteq> [] then names' t else names t))))"

subsection \<open>The migrations\<close>

definition facts_of :: "'w check_site \<Rightarrow> bool \<Rightarrow> ('w check_run, facts option) py" where
  "facts_of cs required =
     (if required then py_bind (on_world (cr_loader cs)) (\<lambda>lo. py_ret (Some (migration_facts lo)))
      else py_except (py_bind (on_world (cr_atomic cs (cr_loader cs))) (\<lambda>lo. py_ret (Some (migration_facts lo))))
             is_exception (\<lambda>e. py_seq (print_line (MigrationsUnreadable e)) (py_ret None)))"

definition field_mismatch :: "model_cfg \<Rightarrow> facts \<Rightarrow> dj_model \<Rightarrow> bool" where
  "field_mismatch cfg f m =
     (case external_model_fields cfg (label_lower m) of
        None \<Rightarrow> False
      | Some entry \<Rightarrow>
          if first_policy (dm_constraints m) \<noteq> None then False
          else (case rls_policy_field f m of None \<Rightarrow> False | Some field \<Rightarrow> field \<noteq> entry))"

definition check_external_policy_fields :: "model_cfg \<Rightarrow> facts \<Rightarrow> (string \<times> dj_model) list \<Rightarrow> issue list" where
  "check_external_policy_fields cfg f models =
     map (\<lambda>(t, m). \<lparr>is_table = t, is_label = dm_name m, is_problem = FieldMismatch\<rparr>) (filter (\<lambda>(_, m). field_mismatch cfg f m) models)"

definition unlisted_line :: "'w check_site \<Rightarrow> facts \<Rightarrow> key \<Rightarrow> check_line list" where
  "unlisted_line cs f key =
     (case cr_get_model cs key of
        None \<Rightarrow> []
      | Some m \<Rightarrow>
          if external_model_fields (cr_cfg cs) (label_lower m) \<noteq> None \<or> dm_proxy m then []
          else if first_policy (dm_constraints m) \<noteq> None then []
          else [Unlisted m (last (rls_policy_migrations f m)) (the (rls_policy_field f m))])"

definition warn_about_unlisted_policies :: "'w check_site \<Rightarrow> facts \<Rightarrow> ('w check_run, unit) py" where
  "warn_about_unlisted_policies cs f = print_lines (concat (map (unlisted_line cs f) (rls_policy_models f)))"

definition write_migration :: "'w check_site \<Rightarrow> bool \<Rightarrow> planned_migration \<Rightarrow> ('w check_run, unit) py" where
  "write_migration cs dry_run p =
     py_seq (print_line (MigrationFor p dry_run))
       (if dry_run then py_ret ()
        else py_except (on_world (cr_write cs p)) (\<lambda>e. e = OtherError ''FileExistsError'') (\<lambda>_. py_raise check_rls_error))"

definition generated_hints :: "bool \<Rightarrow> planned_migration list \<Rightarrow> string \<rightharpoonup> hint" where
  "generated_hints dry_run planned =
     map_of (rev (concat (map (\<lambda>p. map (\<lambda>t. (t, GeneratedMigration (pm_app_label p, pm_name p) dry_run)) (pm_tables p)) planned)))"

definition generate ::
  "'w check_site \<Rightarrow> facts \<Rightarrow> (string \<times> m2m_info) list \<Rightarrow> (string \<Rightarrow> string list) \<Rightarrow> string \<Rightarrow> bool \<Rightarrow> bool \<Rightarrow>
     ('w check_run, string \<rightharpoonup> hint) py" where
  "generate cs f joins_found names name dry_run hush =
     py_bind (py_except (py_lift (plan_m2m_migrations f joins_found names name (cr_conf cs)))
                (\<lambda>e. e = ValueError) (\<lambda>_. py_raise check_rls_error)) (\<lambda>(planned, skipped).
       py_seq (py_for planned (write_migration cs dry_run))
      (py_seq (print_lines (map (\<lambda>(t, reason). NotGenerated t reason) skipped))
      (py_seq (if planned = [] \<and> skipped = [] \<and> \<not> hush then print_line NothingToGenerate else py_ret ())
         (py_ret (generated_hints dry_run planned)))))"

subsection \<open>The command\<close>

text \<open>The problems by table, in the order of the first issue of each, with its label.\<close>

definition problems_by_table :: "issue list \<Rightarrow> (string \<times> string \<times> problem set) list" where
  "problems_by_table issues =
     map (\<lambda>t. (t, is_label (the (find (\<lambda>i. is_table i = t) issues)), set (map is_problem (filter (\<lambda>i. is_table i = t) issues))))
       (rev (remdups (rev (map is_table issues))))"

definition hint_for ::
  "'w check_site \<Rightarrow> (string \<times> dj_model) list \<Rightarrow> (string \<times> m2m_info) list \<Rightarrow> facts \<Rightarrow> (string \<rightharpoonup> hint) \<Rightarrow> string \<Rightarrow> problem set \<Rightarrow> hint" where
  "hint_for cs models joins_found f generated table problems =
     (case map_of joins_found table of
        Some info \<Rightarrow> m2m_hint f table info problems generated
      | None \<Rightarrow> model_hint (cr_cfg cs) f (cr_managed cs) (the (map_of models table)) problems)"

definition write_hints ::
  "'w check_site \<Rightarrow> issue list \<Rightarrow> (string \<times> dj_model) list \<Rightarrow> (string \<times> m2m_info) list \<Rightarrow> facts option \<Rightarrow> (string \<rightharpoonup> hint) \<Rightarrow>
     ('w check_run, unit) py" where
  "write_hints cs issues models joins_found found generated =
     (case found of
        None \<Rightarrow> py_ret ()
      | Some f \<Rightarrow> print_lines (HowToFix #
          map (\<lambda>(t, label, problems). HintFor label t (hint_for cs models joins_found f generated t problems)) (problems_by_table issues)))"

definition is_identifier :: "string \<Rightarrow> bool" where
  "is_identifier s \<longleftrightarrow> s \<noteq> [] \<and> ident_start (hd s) \<and> list_all ident_char s"

definition migration_name :: "check_options \<Rightarrow> string" where
  "migration_name options = given_or (co_name options) ''m2m_rls_policies''"

definition finish_check ::
  "'w check_site \<Rightarrow> check_options \<Rightarrow> (string \<times> dj_model) list \<Rightarrow> (string \<times> m2m_info) list \<Rightarrow> issue list \<Rightarrow> facts option \<Rightarrow>
     (string \<rightharpoonup> hint) \<Rightarrow> ('w check_run, unit) py" where
  "finish_check cs options models joins_found issues found generated =
     (if issues \<noteq> []
      then py_seq (print_lines (IssuesFound (length issues) # map IssueLine issues))
             (py_seq (write_hints cs issues models joins_found found generated) (py_raise system_exit))
      else if \<not> co_quiet options then print_line (AllVerified (length models + length joins_found)) else py_ret ())"

definition verify_tables ::
  "'w check_site \<Rightarrow> check_options \<Rightarrow> (string \<times> dj_model) list \<Rightarrow> (string \<times> m2m_info) list \<Rightarrow> ('w check_run, unit) py" where
  "verify_tables cs options models joins_found =
     py_bind (py_except (check_tables cs (co_quiet options) (co_verbose options) models joins_found) is_db_error
                (\<lambda>e. py_seq (print_line (CatalogueFailed e)) (py_raise system_exit))) (\<lambda>(issues, names).
     py_bind (facts_of cs (co_generate options)) (\<lambda>found.
     py_seq (case found of None \<Rightarrow> py_ret () | Some f \<Rightarrow> warn_about_unlisted_policies cs f)
       (let all_issues = issues @ (case found of None \<Rightarrow> [] | Some f \<Rightarrow> check_external_policy_fields (cr_cfg cs) f models)
        in py_bind (case found of
                      Some f \<Rightarrow> if co_generate options
                        then generate cs f joins_found names (migration_name options) (co_dry_run options) (co_quiet options)
                        else py_ret Map.empty
                    | None \<Rightarrow> py_ret Map.empty)
             (finish_check cs options models joins_found all_issues found))))"

definition handle_check :: "'w check_site \<Rightarrow> check_options \<Rightarrow> ('w check_run, unit) py" where
  "handle_check cs options =
     py_seq (py_require (co_generate options \<or> \<not> co_dry_run options \<and> co_name options = None) check_rls_error)
    (py_seq (py_require (case co_name options of None \<Rightarrow> True | Some n \<Rightarrow> is_identifier n) check_rls_error)
    (py_bind (py_lift (collect_m2m_tables (cr_cfg cs) (cr_apps cs))) (\<lambda>joins_found.
       let models = collect_rls_models (cr_cfg cs) (cr_apps cs)
       in if models = [] \<and> joins_found = []
          then py_bind (facts_of cs (co_generate options)) (\<lambda>found.
               py_seq (case found of None \<Rightarrow> py_ret () | Some f \<Rightarrow> warn_about_unlisted_policies cs f)
                 (if \<not> co_quiet options then print_line NoProtectedModels else py_ret ()))
          else verify_tables cs options models joins_found)))"

subsection \<open>The check passes exactly for protected tables\<close>

text \<open>A table PostgreSQL protects: it is there, row security is on and forced, and it has a policy.\<close>

definition table_protected :: "(string \<times> bool \<times> bool) list \<Rightarrow> policy_row list \<Rightarrow> string \<Rightarrow> bool" where
  "table_protected status policies t \<longleftrightarrow> map_of (rev status) t = Some (True, True) \<and> policies_of policies t \<noteq> []"

text \<open>A catalogue and migrations that stay as they are while the command runs.\<close>

definition steady :: "'w check_site \<Rightarrow> (string \<times> bool \<times> bool) list \<Rightarrow> policy_row list \<Rightarrow> loader \<Rightarrow> bool" where
  "steady cs status policies lo \<longleftrightarrow>
     (\<forall>ts w. cr_status cs ts w = (Inr (filter (\<lambda>row. fst row \<in> set ts) status), w)) \<and>
     (\<forall>ts w. cr_policies cs ts w = (Inr (filter (\<lambda>row. pr_table row \<in> set ts) policies), w)) \<and>
     (\<forall>w. cr_loader cs w = (Inr lo, w)) \<and> (\<forall>w. cr_atomic cs (cr_loader cs) w = (Inr lo, w))"

lemma py_step: "m w = (Inr x, w') \<Longrightarrow> f x w' = r \<Longrightarrow> py_bind m f w = r"
  by (simp add: py_bind_def)

lemma py_seq_step: "m w = (Inr (), w') \<Longrightarrow> n w' = r \<Longrightarrow> py_seq m n w = r"
  by (simp add: py_seq_def py_bind_def)

lemma map_of_kept: "t \<in> S \<Longrightarrow> map_of (filter (\<lambda>row. fst row \<in> S) rows) t = map_of rows t"
  by (induction rows) auto

lemma policies_of_kept: "t \<in> S \<Longrightarrow> policies_of (filter (\<lambda>row. pr_table row \<in> S) rows) t = policies_of rows t"
  by (auto simp: policies_of_def intro!: filter_cong)

lemma status_issues_none:
  "t \<in> S \<Longrightarrow> status_issues (filter (\<lambda>row. fst row \<in> S) rows) (t, label) = [] \<longleftrightarrow> map_of (rev rows) t = Some (True, True)"
  by (auto simp: status_issues_def Let_def rev_filter map_of_kept split: option.split)

lemma policy_issues_none:
  "t \<in> S \<Longrightarrow> policy_issues (filter (\<lambda>row. pr_table row \<in> S) rows) (t, label) = [] \<longleftrightarrow> policies_of rows t \<noteq> []"
  by (simp add: policy_issues_def policies_of_kept)

lemma check_group_snapshot:
  assumes "steady cs status policies lo"
  shows "\<exists>issues names w'. check_group cs hush verbose tables w = (Inr (issues, names), w') \<and>
    (issues = [] \<longleftrightarrow> (\<forall>t \<in> set (map fst tables). table_protected status policies t))"
proof -
  let ?s = "filter (\<lambda>row. fst row \<in> set (map fst tables)) status" and ?p = "filter (\<lambda>row. pr_table row \<in> set (map fst tables)) policies"
  have s: "cr_status cs (map fst tables) v = (Inr ?s, v)" and p: "cr_policies cs (map fst tables) v = (Inr ?p, v)" for v
    using assms by (simp_all add: steady_def)
  have "concat (map (status_issues ?s) tables) @ concat (map (policy_issues ?p) tables) = [] \<longleftrightarrow>
      (\<forall>(t, label) \<in> set tables. status_issues ?s (t, label) = [] \<and> policy_issues ?p (t, label) = [])"
    by auto
  also have "\<dots> \<longleftrightarrow> (\<forall>(t, label) \<in> set tables. table_protected status policies t)"
  proof -
    have "status_issues ?s (t, label) = [] \<and> policy_issues ?p (t, label) = [] \<longleftrightarrow> table_protected status policies t"
      if "(t, label) \<in> set tables" for t label
    proof -
      have "t \<in> set (map fst tables)" using that by force
      then show ?thesis using status_issues_none policy_issues_none by (simp add: table_protected_def)
    qed
    then show ?thesis by blast
  qed
  finally show ?thesis
    by (simp add: check_group_def check_rls_status_def check_policies_def on_world_def s p py_bind_def py_seq_def print_lines_def py_simps)
      (auto simp: case_prod_unfold)
qed

lemma check_tables_snapshot:
  assumes "steady cs status policies lo"
  shows "\<exists>issues names w'. check_tables cs hush verbose models joins_found w = (Inr (issues, names), w') \<and>
    (issues = [] \<longleftrightarrow> (\<forall>t \<in> set (map fst models) \<union> set (map fst joins_found). table_protected status policies t))"
proof -
  let ?ms = "map (\<lambda>(t, m). (t, dm_name m)) models" and ?js = "map (\<lambda>(t, i). (t, mi_description i)) joins_found"
  have ms: "set (map fst ?ms) = set (map fst models)" and js: "set (map fst ?js) = set (map fst joins_found)"
    by (simp_all add: image_image case_prod_unfold)
  obtain iss ns v where a: "(if models \<noteq> [] then check_group cs hush verbose ?ms else py_ret ([], \<lambda>_. [])) w = (Inr (iss, ns), v)"
    "iss = [] \<longleftrightarrow> (\<forall>t \<in> set (map fst models). table_protected status policies t)"
  proof (cases "models = []")
    case True
    then show ?thesis by (intro that [of "[]" "\<lambda>_. []" w]) (simp_all add: py_simps)
  next
    case False
    then show ?thesis using check_group_snapshot [OF assms, of hush verbose ?ms w] that unfolding ms by auto
  qed
  show ?thesis
  proof (cases "joins_found = []")
    case True
    then show ?thesis using a by (simp add: check_tables_def py_bind_def py_simps)
  next
    case False
    let ?v = "snd ((if \<not> hush then print_line M2mHeading else py_ret ()) v)"
    obtain js ns' v' where b: "check_group cs hush verbose ?js ?v = (Inr (js, ns'), v')"
      "js = [] \<longleftrightarrow> (\<forall>t \<in> set (map fst joins_found). table_protected status policies t)"
      using check_group_snapshot [OF assms, of hush verbose ?js ?v] unfolding js by blast
    have heading: "(if \<not> hush then print_line M2mHeading else py_ret ()) v = (Inr (), ?v)"
      by (simp add: print_line_def py_simps)
    have "check_tables cs hush verbose models joins_found w =
        (Inr (iss @ js, \<lambda>t. if ns' t \<noteq> [] then ns' t else ns t), v')"
      unfolding check_tables_def
      by (rule py_step, rule a(1), simp only: prod.case False if_False, rule py_seq_step, rule heading, rule py_step, rule b(1))
        (simp add: py_ret_def)
    moreover have "iss @ js = [] \<longleftrightarrow> (\<forall>t \<in> set (map fst models) \<union> set (map fst joins_found). table_protected status policies t)"
      using a(2) b(2) by (simp only: append_is_Nil_conv ball_Un)
    ultimately show ?thesis by blast
  qed
qed

text \<open>Every table that must have a policy is protected, and no listed model's policy reads another field than its entry.\<close>

definition all_protected ::
  "'w check_site \<Rightarrow> (string \<times> bool \<times> bool) list \<Rightarrow> policy_row list \<Rightarrow> loader \<Rightarrow> (string \<times> m2m_info) list \<Rightarrow> bool" where
  "all_protected cs status policies lo joins_found \<longleftrightarrow>
     (\<forall>m \<in> set (get_models (cr_apps cs)). needs_policy (cr_cfg cs) (cr_apps cs) m \<longrightarrow> table_protected status policies (dm_table m)) \<and>
     (\<forall>t \<in> set (map fst joins_found). table_protected status policies t) \<and>
     (\<forall>m \<in> snd ` set (collect_rls_models (cr_cfg cs) (cr_apps cs)). \<not> field_mismatch (cr_cfg cs) (migration_facts lo) m)"

lemma rls_model_tables:
  "(\<forall>t \<in> set (map fst (collect_rls_models cfg apps)). P t) \<longleftrightarrow>
     (\<forall>m \<in> set (get_models apps). needs_policy cfg apps m \<longrightarrow> P (dm_table m))"
proof -
  have "t \<in> set (map fst (collect_rls_models cfg apps)) \<longleftrightarrow> (\<exists>m \<in> set (get_models apps). needs_policy cfg apps m \<and> dm_table m = t)" for t
    using collect_rls_models_keys [of cfg apps t] by (simp add: map_of_eq_None_iff)
  then show ?thesis by metis
qed

lemma write_hints_returns: "fst (write_hints cs issues models joins_found found generated w) = Inr ()"
  by (simp add: write_hints_def print_lines_def py_simps split: option.split)

lemma finish_check_result:
  "fst (finish_check cs options models joins_found issues found generated w) = (if issues = [] then Inr () else Inl system_exit)"
proof -
  have "fst (py_seq (print_lines ls) (py_seq m (py_raise e)) v) = Inl e" if "\<And>u. fst (m u) = Inr ()" for ls m e and v :: "'a check_run"
    using that [of "snd (print_lines ls v)"] by (auto simp: py_seq_def py_bind_def print_lines_def py_simps split: prod.split sum.split)
  from this [OF write_hints_returns] show ?thesis
    by (cases "issues = []") (auto simp: finish_check_def print_line_def py_ret_def py_modify_def)
qed

text \<open>
  \<^verbatim>\<open>check_rls\<close> passes exactly when the database protects what the project says it must: every table of a model that
  declares a policy or is listed in \<^verbatim>\<open>EXTERNAL_MODELS\<close> and every automatic join table has row security on, forced, and a
  policy, and no listed model's policy was built on another field; otherwise it exits with status 1.
\<close>

theorem check_passes_exactly:
  assumes snap: "steady cs status policies lo" and options: "\<not> co_generate options" "\<not> co_dry_run options" "co_name options = None"
    and joins_found: "collect_m2m_tables (cr_cfg cs) (cr_apps cs) = Inr joins_found"
  shows "fst (handle_check cs options w) = (if all_protected cs status policies lo joins_found then Inr () else Inl system_exit)"
proof -
  let ?models = "collect_rls_models (cr_cfg cs) (cr_apps cs)" and ?f = "migration_facts lo"
  have facts: "facts_of cs False v = (Inr (Some ?f), v)" for v
    using snap by (simp add: facts_of_def steady_def on_world_def py_except_def py_bind_def py_simps)
  have warn: "warn_about_unlisted_policies cs ?f v = (Inr (), v\<lparr>ck_out := ck_out v @ concat (map (unlisted_line cs ?f) (rls_policy_models ?f))\<rparr>)" for v
    by (simp add: warn_about_unlisted_policies_def print_lines_def py_simps)
  show ?thesis
  proof (cases "?models = [] \<and> joins_found = []")
    case True
    then have "all_protected cs status policies lo joins_found"
      using rls_model_tables [of "cr_cfg cs" "cr_apps cs" "table_protected status policies"] by (simp add: all_protected_def)
    then show ?thesis using True options joins_found facts warn
      by (simp add: handle_check_def py_lift_def py_seq_def py_bind_def py_simps print_line_def Let_def)
  next
    case False
    obtain iss names v where c: "check_tables cs (co_quiet options) (co_verbose options) ?models joins_found w = (Inr (iss, names), v)"
      "iss = [] \<longleftrightarrow> (\<forall>t \<in> set (map fst ?models) \<union> set (map fst joins_found). table_protected status policies t)"
      using check_tables_snapshot [OF snap, of "co_quiet options" "co_verbose options" ?models joins_found w]
      by (elim exE conjE) (rule that)
    let ?mm = "check_external_policy_fields (cr_cfg cs) ?f ?models"
    have "handle_check cs options w = verify_tables cs options ?models joins_found w"
    proof -
      have req: "py_require b e w = (Inr (), w)" if b for b e using that by (simp add: py_require_def)
      have lift: "py_lift (collect_m2m_tables (cr_cfg cs) (cr_apps cs)) w = (Inr joins_found, w)"
        using joins_found by (simp add: py_lift_def py_ret_def)
      show ?thesis
        unfolding handle_check_def Let_def
        by (rule py_seq_step, rule req, simp add: options, rule py_seq_step, rule req, simp add: options, rule py_step, rule lift)
          (simp only: False if_False)
    qed
    also have "\<dots> = finish_check cs options ?models joins_found (iss @ ?mm) (Some ?f) Map.empty
        (v\<lparr>ck_out := ck_out v @ concat (map (unlisted_line cs ?f) (rls_policy_models ?f))\<rparr>)"
    proof -
      have first: "py_except (check_tables cs (co_quiet options) (co_verbose options) ?models joins_found) is_db_error h w = (Inr (iss, names), v)"
        for h using c(1) by (simp add: py_except_def)
      have none: "(if co_generate options then g else py_ret Map.empty) u = (Inr Map.empty, u)" for u :: "'a check_run" and g
        using options(1) by (simp add: py_ret_def)
      have found: "facts_of cs (co_generate options) v = (Inr (Some ?f), v)" using facts options(1) by simp
      show ?thesis
        unfolding verify_tables_def Let_def
        apply (rule py_step)
        apply (rule first)
        apply (simp only: prod.case)
        apply (rule py_step)
        apply (rule found)
        apply (simp only: option.case)
        apply (rule py_seq_step)
        apply (rule warn)
        apply (rule py_step)
        apply (rule none)
        apply (rule refl)
        done
    qed
    finally have run: "fst (handle_check cs options w) = (if iss @ ?mm = [] then Inr () else Inl system_exit)"
      by (simp only: finish_check_result)
    have "?mm = [] \<longleftrightarrow> (\<forall>m \<in> snd ` set ?models. \<not> field_mismatch (cr_cfg cs) ?f m)"
      by (auto simp: check_external_policy_fields_def filter_empty_conv)
    then have "iss @ ?mm = [] \<longleftrightarrow> all_protected cs status policies lo joins_found"
      using c(2) rls_model_tables [of "cr_cfg cs" "cr_apps cs" "table_protected status policies"] by (auto simp: all_protected_def)
    then show ?thesis using run by simp
  qed
qed

text \<open>A check that could not run does not pass.\<close>

lemma failed_query_exits:
  assumes "collect_m2m_tables (cr_cfg cs) (cr_apps cs) = Inr joins_found" "collect_rls_models (cr_cfg cs) (cr_apps cs) \<noteq> []"
    and options: "\<not> co_dry_run options" "co_name options = None"
    and failed: "\<And>ts v. \<exists>e v'. cr_status cs ts v = (Inl e, v') \<and> is_db_error e"
  shows "fst (handle_check cs options w) = Inl system_exit"
proof -
  obtain e v' where e: "cr_status cs (map fst (map (\<lambda>(t, m). (t, dm_name m)) (collect_rls_models (cr_cfg cs) (cr_apps cs)))) (ck_world w) = (Inl e, v')"
    "is_db_error e" using failed by blast
  then show ?thesis using assms(1-4)
    by (simp add: handle_check_def verify_tables_def check_tables_def check_group_def check_rls_status_def on_world_def py_lift_def
        py_seq_def py_bind_def py_except_def print_line_def py_simps Let_def)
qed

text \<open>
  The policy a generated migration creates is the one \<^verbatim>\<open>setup_m2m_rls\<close> creates, where the migration state has the tables of
  the two models.
\<close>

lemma setup_creates_the_operations_policy:
  assumes "op_resolve_table to_state (model_label (mi_from_model info)) = Inr (mi_from_table info)"
    and "op_resolve_table to_state (model_label (mi_to_model info)) = Inr (mi_to_table info)"
    and "pc_guc_tenant conf = ss_guc_tenant ss" "pc_guc_admin conf = ss_guc_admin ss" "pc_pk_type conf = ss_pk_type ss"
  shows "m2m_op_sql to_state (op_for conf table info) = Inr (setup_sql ss table info)"
  using assms by (simp add: m2m_op_sql_def op_for_def setup_sql_def Let_def)

subsection \<open>One concrete check\<close>

text \<open>The project of \<open>Migration_Facts\<close>, on a database where the join table has no policy, and on one where it has.\<close>

definition demo_policy_row :: "string \<Rightarrow> policy_row" where
  "demo_policy_row t = \<lparr>pr_table = t, pr_name = ''p'', pr_cmd = ''ALL'', pr_using = Some ''true'', pr_check = None\<rparr>"

definition demo_check_site :: "policy_row list \<Rightarrow> unit check_site" where
  "demo_check_site policies = \<lparr>cr_cfg = demo_model_cfg, cr_apps = demo_apps, cr_managed = (\<lambda>_. True), cr_get_model = (\<lambda>_. None),
     cr_conf = demo_plan_cfg,
     cr_status = (\<lambda>ts. py_ret (filter (\<lambda>row. fst row \<in> set ts)
       [(''app_Note'', True, True), (''app_Project'', True, True), (''app_Tag'', True, True), (''app_Note_tags'', True, True)])),
     cr_policies = (\<lambda>ts. py_ret (filter (\<lambda>row. pr_table row \<in> set ts) policies)),
     cr_loader = py_ret demo_loader, cr_atomic = (\<lambda>m. m), cr_write = (\<lambda>_. py_ret ())\<rparr>"

definition demo_check_options :: check_options where
  "demo_check_options = \<lparr>co_quiet = False, co_verbose = False, co_generate = False, co_dry_run = False, co_name = None\<rparr>"

lemma demo_snapshot:
  "steady (demo_check_site policies)
     [(''app_Note'', True, True), (''app_Project'', True, True), (''app_Tag'', True, True), (''app_Note_tags'', True, True)] policies demo_loader"
  by (simp add: steady_def demo_check_site_def py_simps)

lemma demo_models: "get_models demo_apps =
    [demo_note, demo_model ''Project'' [demo_policy] [demo_fk ''tenant'' ''app.Tenant'' 3] [] False,
     demo_model ''Tag'' [demo_policy] [demo_fk ''tenant'' ''app.Tenant'' 4] [] False]"
  by (simp add: get_models_def map_filter_def demo_apps_def)

lemma check_passes_exactly_witness:
  "fst (handle_check (demo_check_site (map demo_policy_row [''app_Note'', ''app_Project'', ''app_Tag''])) demo_check_options \<lparr>ck_world = (), ck_out = []\<rparr>) =
     Inl system_exit \<and>
   fst (handle_check (demo_check_site (map demo_policy_row [''app_Note'', ''app_Project'', ''app_Tag'', ''app_Note_tags''])) demo_check_options
     \<lparr>ck_world = (), ck_out = []\<rparr>) = Inr ()"
proof -
  have site: "cr_cfg (demo_check_site ps) = demo_model_cfg" "cr_apps (demo_check_site ps) = demo_apps" for ps
    by (simp_all add: demo_check_site_def)
  have options: "\<not> co_generate demo_check_options" "\<not> co_dry_run demo_check_options" "co_name demo_check_options = None"
    by (simp_all add: demo_check_options_def)
  have tables: "collect_m2m_tables (cr_cfg (demo_check_site ps)) (cr_apps (demo_check_site ps)) = Inr [(''app_Note_tags'', demo_info)]" for ps
    by (simp add: site demo_tables)
  have no_field: "\<not> field_mismatch demo_model_cfg f m" for f m
    by (simp add: field_mismatch_def external_model_fields_def normalized_external_models_def demo_model_cfg_def)
  note exact = check_passes_exactly [OF demo_snapshot options tables]
  show ?thesis
    by (simp add: exact all_protected_def site table_protected_def policies_of_def demo_policy_row_def demo_models no_field demo_model_def demo_note_def)
qed

end
