(* ===== verification/Test_Helpers.thy ===== *)
theory Test_Helpers
  imports Tenant_Models
begin

text \<open>
  \<^verbatim>\<open>tenants/testing.py\<close>: the blocks and assertions a test suite uses.  The queries of the catalogue and the count of a
  table's rows run through Django's cursor, and so through the guard: they are arguments, as is the quoting of a name.
\<close>

record 'd test_site =
  ts_site :: "'d site"
  ts_quote :: "string \<Rightarrow> string"
  ts_count :: "string \<Rightarrow> string \<Rightarrow> ('d aff, nat) py"
  ts_role :: "string \<Rightarrow> ('d aff, (string \<times> bool \<times> bool) option) py"
  ts_rls :: "string \<Rightarrow> string \<Rightarrow> ('d aff, (bool \<times> bool) option) py"
  ts_policy :: "string \<Rightarrow> string \<Rightarrow> string \<Rightarrow> ('d aff, bool) py"

definition assertion_error :: exn where
  "assertion_error = OtherError ''AssertionError''"

definition py_assert :: "bool \<Rightarrow> ('w, unit) py" where
  "py_assert b = py_require b assertion_error"

subsection \<open>The blocks\<close>

definition rls_bypass :: "'d test_site \<Rightarrow> string \<Rightarrow> ('d aff, 'a) py \<Rightarrow> ('d aff, 'a) py" where
  "rls_bypass ts using = admin_context (ts_site ts) using direct_origin"

definition rls_as_tenant :: "'d test_site \<Rightarrow> tenant_id option \<Rightarrow> string \<Rightarrow> ('d aff, 'a) py \<Rightarrow> ('d aff, 'a) py" where
  "rls_as_tenant ts tenant using = tenant_context (ts_site ts) tenant using direct_origin"

definition async_rls_bypass :: "'d test_site \<Rightarrow> string \<Rightarrow> bool \<Rightarrow> ('d aff, 'a) py \<Rightarrow> ('d aff, 'a) py" where
  "async_rls_bypass ts using cancelled = async_admin_context (ts_site ts) using cancelled direct_origin"

definition async_rls_as_tenant ::
  "'d test_site \<Rightarrow> tenant_id option \<Rightarrow> string \<Rightarrow> bool \<Rightarrow> ('d aff, 'a) py \<Rightarrow> ('d aff, 'a) py" where
  "async_rls_as_tenant ts tenant using cancelled = async_tenant_context (ts_site ts) tenant using cancelled direct_origin"

subsection \<open>The assertions about the catalogue\<close>

text \<open>The connection's current role, as \<^verbatim>\<open>pg_roles\<close> has it: its name, \<^verbatim>\<open>rolsuper\<close> and \<^verbatim>\<open>rolbypassrls\<close>.\<close>

definition bypass_reasons :: "bool \<Rightarrow> bool \<Rightarrow> string list" where
  "bypass_reasons is_superuser bypasses_rls =
     (if is_superuser then [''is a PostgreSQL superuser''] else []) @
     (if bypasses_rls then [''has the BYPASSRLS attribute''] else [])"

definition assert_rls_enforced :: "'d test_site \<Rightarrow> string \<Rightarrow> ('d aff, unit) py" where
  "assert_rls_enforced ts using =
     py_seq (connections_get (st_cursor (ts_site ts)) using)
    (py_bind (ts_role ts using) (\<lambda>row.
       case row of
         None \<Rightarrow> py_raise assertion_error
       | Some (role, is_superuser, bypasses_rls) \<Rightarrow> py_assert (bypass_reasons is_superuser bypasses_rls = [])))"

definition assert_rls_enabled :: "'d test_site \<Rightarrow> string \<Rightarrow> string \<Rightarrow> ('d aff, unit) py" where
  "assert_rls_enabled ts table_name using =
     py_seq (connections_get (st_cursor (ts_site ts)) using)
    (py_bind (ts_rls ts using table_name) (\<lambda>row.
       case row of
         None \<Rightarrow> py_raise assertion_error
       | Some (enabled, forced) \<Rightarrow> py_seq (py_assert enabled) (py_assert forced)))"

definition assert_rls_policy_exists :: "'d test_site \<Rightarrow> string \<Rightarrow> string option \<Rightarrow> string \<Rightarrow> ('d aff, unit) py" where
  "assert_rls_policy_exists ts table_name policy_name using =
     (let policy = (case policy_name of None \<Rightarrow> table_name @ ''_tenant_isolation_policy'' | Some p \<Rightarrow> p)
      in py_seq (connections_get (st_cursor (ts_site ts)) using)
           (py_bind (ts_policy ts using table_name policy) py_assert))"

subsection \<open>The assertion that nothing is seen without a context\<close>

definition no_context_for_the_guard :: "('d aff, 'a) py \<Rightarrow> ('d aff, 'a) py" where
  "no_context_for_the_guard body = (\<lambda>w.
     case set_context_gucs None True (a_state w) of
       (entered, s) \<Rightarrow> py_finally body (\<lambda>_. on_state (reset_context_gucs entered)) (w\<lparr>a_state := s\<rparr>))"

definition count_rows :: "'d test_site \<Rightarrow> dj_model \<Rightarrow> string \<Rightarrow> ('d aff, nat) py" where
  "count_rows ts m using =
     py_seq (connections_get (st_cursor (ts_site ts)) using)
       (ts_count ts using (''SELECT COUNT(*) FROM '' @ ts_quote ts (dm_table m)))"

definition count_without_context :: "'d test_site \<Rightarrow> dj_model \<Rightarrow> string \<Rightarrow> ('d aff, nat) py" where
  "count_without_context ts m using =
     (let st = ts_site ts; no_context = guc_items (st_cfg st) [] []; is_local = use_local_set (st_cfg st)
      in if writes_gucs (st_cfg st) using is_local
         then rls_context (st_cursor st) no_context is_local using (count_rows ts m using)
         else no_context_for_the_guard (rls_context (st_cursor st) no_context False using (count_rows ts m using)))"

definition assert_rls_blocks_without_context :: "'d test_site \<Rightarrow> dj_model \<Rightarrow> string \<Rightarrow> ('d aff, unit) py" where
  "assert_rls_blocks_without_context ts m using =
     py_bind (admin_context (ts_site ts) using silent_origin (count_rows ts m using)) (\<lambda>seen.
     py_seq (py_assert (0 < seen))
       (py_bind (count_without_context ts m using) (\<lambda>count. py_assert (count = 0))))"

subsection \<open>Their asynchronous counterparts\<close>

text \<open>One hop, which runs the synchronous assertion on the thread that has the connection, in a copy of the context.\<close>

definition aassert_rls_enforced :: "'d test_site \<Rightarrow> string \<Rightarrow> ('d aff, unit) py" where
  "aassert_rls_enforced ts using = assert_rls_enforced ts using"

definition aassert_rls_enabled :: "'d test_site \<Rightarrow> string \<Rightarrow> string \<Rightarrow> ('d aff, unit) py" where
  "aassert_rls_enabled ts table_name using = assert_rls_enabled ts table_name using"

definition aassert_rls_policy_exists :: "'d test_site \<Rightarrow> string \<Rightarrow> string option \<Rightarrow> string \<Rightarrow> ('d aff, unit) py" where
  "aassert_rls_policy_exists ts table_name policy_name using = assert_rls_policy_exists ts table_name policy_name using"

definition aassert_rls_blocks_without_context :: "'d test_site \<Rightarrow> dj_model \<Rightarrow> string \<Rightarrow> ('d aff, unit) py" where
  "aassert_rls_blocks_without_context ts m using = assert_rls_blocks_without_context ts m using"

subsection \<open>What an assertion that passes says\<close>

lemma assertion_error_not_db [simp]: "assertion_error \<noteq> DatabaseError"
  by (simp add: assertion_error_def)

text \<open>An assertion passes exactly when its query answers what it asserts.\<close>

lemma catalogue_assertions_exact:
  assumes "db_known (st_cursor (ts_site ts)) u w"
  shows "fst (assert_rls_enforced ts u w) = Inr () \<longleftrightarrow> (\<exists>role. fst (ts_role ts u w) = Inr (Some (role, False, False)))"
    and "fst (assert_rls_enabled ts t u w) = Inr () \<longleftrightarrow> fst (ts_rls ts u t w) = Inr (Some (True, True))"
    and "fst (assert_rls_policy_exists ts t p u w) = Inr () \<longleftrightarrow>
      fst (ts_policy ts u t (case p of None \<Rightarrow> t @ ''_tenant_isolation_policy'' | Some n \<Rightarrow> n) w) = Inr True"
  using assms
  by (auto simp: assert_rls_enforced_def assert_rls_enabled_def assert_rls_policy_exists_def py_assert_def bypass_reasons_def
      connections_get_def py_require_def py_seq_def py_bind_def py_raise_def py_ret_def Let_def
      split: prod.splits sum.splits option.splits if_splits)

text \<open>The counting leaves the context variables alone, as a query does.\<close>

definition test_ok :: "'d test_site \<Rightarrow> bool" where
  "test_ok ts \<longleftrightarrow> site_ok (ts_site ts) \<and> (\<forall>u sql. quiet (ts_count ts u sql))"

lemma quiet_count_rows [quiet_intros]: "test_ok ts \<Longrightarrow> quiet (count_rows ts m u)"
  by (auto simp: test_ok_def count_rows_def intro!: quiet_intros)

lemma quiet_rls_context:
  assumes "cursor_quiet db" and "quiet body"
  shows "quiet (rls_context db vs l u body)"
  using assms unfolding rls_context_def set_all_def
  by (auto intro!: quiet_intros split: prod.split)

text \<open>Only the holder of the values is changed in the block without them, and it is put back.\<close>

lemma set_gucs_enters:
  assumes "state_ok s" and "set_context_gucs v True s = (t, s1)"
  shows "state_ok s1 \<and> get_context_gucs s1 = v \<and> get_current_tenant_id s1 = get_current_tenant_id s \<and>
    (\<exists>s2. reset_context_gucs t s1 = (Inr (), s2) \<and> balanced s s2)"
proof -
  have t: "t = \<lparr>gt_token = \<lparr>t_id = tokens s, t_ctx = cur s, t_old = c_gucs (cur_ctx s)\<rparr>, gt_live = serials s\<rparr>"
    and s1: "cur s1 = cur s" "tokens s1 = Suc (tokens s)" "used s1 = used s" "serials s1 = Suc (serials s)"
      "heap s1 = (heap s)(serials s \<mapsto> \<lparr>l_values = v, l_block = True, l_alive = True, l_serial = serials s\<rparr>)"
      "cur_ctx s1 = (cur_ctx s)\<lparr>c_gucs := Some (serials s)\<rparr>"
    using assms(2)
    by (auto simp: set_context_gucs_def new_live_def cv_set_def upd_ctx_def cur_ctx_def put_gucs_def Let_def)
  have in_ok: "state_ok s1"
    using assms(1) s1 by (auto simp: state_ok_def heap_wf_def current_live_def)
  moreover have "get_context_gucs s1 = v" "get_current_tenant_id s1 = get_current_tenant_id s"
    using s1 by (simp_all add: get_context_gucs_def values_of_def current_live_def get_current_tenant_id_def)
  moreover obtain s2 where "reset_context_gucs t s1 = (Inr (), s2)" "balanced s s2"
  proof -
    let ?e = "end_live (serials s) s1"
    let ?v = "upd_ctx (put_gucs (c_gucs (cur_ctx s))) (?e\<lparr>used := (used ?e)(tokens s := True)\<rparr>)"
    have unused: "\<not> used s (tokens s)" using assms(1) by (simp add: state_ok_def)
    have live: "current_live ?e = Some (serials s)" using s1 by (simp add: current_live_def)
    have run: "reset_context_gucs t s1 = (Inr (), ?v)"
      using t s1 unused live by (simp add: reset_context_gucs_def Let_def cv_reset_def end_if_newer_def)
    have frame: "cur ?v = cur s" "serials ?v = Suc (serials s)" "tokens ?v = Suc (tokens s)"
      "used ?v = (used s)(tokens s := True)" "cur_ctx ?v = cur_ctx s" "\<forall>a < serials s. heap ?v a = heap s a"
      using s1 by (simp_all add: put_gucs_def heap_end_live)
    have "heap_wf ?v" using in_ok heap_grows_end_live [of s1 "serials s"] by (simp add: heap_grows_def heap_wf_def state_ok_def)
    then have "balanced s ?v"
      using frame assms(1) by (auto simp: balanced_def scoped_def tokened_def state_ok_def current_live_def)
    with run that show thesis by blast
  qed
  ultimately show ?thesis by blast
qed

lemma no_context_balanced:
  assumes "quiet body" and "state_ok (a_state w)"
  shows "balanced (a_state w) (a_state (snd (no_context_for_the_guard body w)))"
proof -
  obtain t s1 where t: "set_context_gucs None True (a_state w) = (t, s1)" by (cases "set_context_gucs None True (a_state w)")
  obtain s2 where s2: "reset_context_gucs t s1 = (Inr (), s2)" "balanced (a_state w) s2"
    using set_gucs_enters [OF assms(2) t] by blast
  obtain r w2 where r: "body (w\<lparr>a_state := s1\<rparr>) = (r, w2)" by (cases "body (w\<lparr>a_state := s1\<rparr>)")
  then have "a_state w2 = s1" using quietD [OF assms(1) r] by simp
  then show ?thesis using t r s2 by (simp add: no_context_for_the_guard_def py_finally_def on_state_run)
qed

lemma count_without_balanced:
  assumes ok: "test_ok ts" and s: "state_ok (a_state w)"
  shows "balanced (a_state w) (a_state (snd (count_without_context ts m u w)))"
proof -
  have q: "quiet (rls_context (st_cursor (ts_site ts)) vs l u (count_rows ts m u))" for vs l
    using ok by (intro quiet_rls_context quiet_count_rows) (simp_all add: test_ok_def site_ok_def)
  show ?thesis
    using quietD [OF q] no_context_balanced [OF q s] s unfolding count_without_context_def Let_def
    by (cases "rls_context (st_cursor (ts_site ts)) (guc_items (st_cfg (ts_site ts)) [] []) (use_local_set (st_cfg (ts_site ts)))
      u (count_rows ts m u) w") (auto simp: balanced_refl)
qed

text \<open>
  The assertion that a table is closed leaves the caller's context as it was, also when it fails, and when the count or the
  clearing of the variables fails.
\<close>

theorem blocking_assertion_keeps_context:
  assumes ok: "test_ok ts" and s: "state_ok (a_state w)"
  shows "balanced (a_state w) (a_state (snd (assert_rls_blocks_without_context ts m u w)))"
proof -
  let ?admin = "admin_context (ts_site ts) u silent_origin (count_rows ts m u)"
  have site: "site_ok (ts_site ts)" using ok by (simp add: test_ok_def)
  have disc: "disciplined (count_rows ts m u)" using ok by (intro disciplined_quiet quiet_count_rows)
  obtain r w1 where r: "?admin w = (r, w1)" by (cases "?admin w")
  have b1: "balanced (a_state w) (a_state w1)" using admin_cm.restores [where u = u and o' = silent_origin, OF site disc s] r by simp
  then have s1: "state_ok (a_state w1)" by (simp add: balanced_def scoped_def tokened_def)
  obtain c w2 where c: "count_without_context ts m u w1 = (c, w2)" by (cases "count_without_context ts m u w1")
  have "balanced (a_state w1) (a_state w2)" using count_without_balanced [OF ok s1, of m u] c by simp
  with b1 have "balanced (a_state w) (a_state w2)" by (auto simp: balanced_def intro: scoped_trans)
  with b1 show ?thesis using r c
    by (cases r; cases c) (auto simp: assert_rls_blocks_without_context_def py_assert_def py_require_def py_bind_def py_seq_def
        py_raise_def py_ret_def)
qed

text \<open>What the count without a context runs in: where the guard would apply the caller's context, it finds none.\<close>

lemma count_without_cong:
  assumes s: "state_ok (a_state w)" and ok: "test_ok ts" and guarded: "\<not> writes_gucs (st_cfg (ts_site ts)) u (use_local_set (st_cfg (ts_site ts)))"
    and c: "\<And>w1. state_ok (a_state w1) \<Longrightarrow> get_context_gucs (a_state w1) = None \<Longrightarrow> count_rows ts m u w1 = count_rows (ts\<lparr>ts_count := c\<rparr>) m u w1"
  shows "count_without_context ts m u w = count_without_context (ts\<lparr>ts_count := c\<rparr>) m u w"
proof -
  let ?db = "st_cursor (ts_site ts)" and ?vs = "guc_items (st_cfg (ts_site ts)) [] []"
  have db: "cursor_quiet ?db" using ok by (simp add: test_ok_def site_ok_def)
  obtain t s1 where t: "set_context_gucs None True (a_state w) = (t, s1)" by (cases "set_context_gucs None True (a_state w)")
  note inside = set_gucs_enters [OF s t]
  have snap: "quiet (snapshot ?db (map fst ?vs) u)" and sets: "quiet (set_all ?db ?vs False u)"
    using db by (auto simp: set_all_def intro!: quiet_intros split: prod.split)
  have "rls_context ?db ?vs False u (count_rows ts m u) (w\<lparr>a_state := s1\<rparr>) =
      rls_context ?db ?vs False u (count_rows (ts\<lparr>ts_count := c\<rparr>) m u) (w\<lparr>a_state := s1\<rparr>)"
    unfolding rls_context_def
  proof (rule py_bind_cong)
    fix previous w2
    assume "snapshot ?db (map fst ?vs) u (w\<lparr>a_state := s1\<rparr>) = (Inr previous, w2)"
    then have w2: "a_state w2 = s1" using quietD [OF snap] by fastforce
    have "py_seq (set_all ?db ?vs False u) (count_rows ts m u) w2 =
        py_seq (set_all ?db ?vs False u) (count_rows (ts\<lparr>ts_count := c\<rparr>) m u) w2"
      unfolding py_seq_def
    proof (rule py_bind_cong)
      fix x w3
      assume "set_all ?db ?vs False u w2 = (Inr x, w3)"
      then have "a_state w3 = s1" using quietD [OF sets] w2 by fastforce
      then show "count_rows ts m u w3 = count_rows (ts\<lparr>ts_count := c\<rparr>) m u w3" using c inside by simp
    qed
    then show "py_finally (py_seq (set_all ?db ?vs False u) (count_rows ts m u)) (restoring ?db previous False u) w2 =
        py_finally (py_seq (set_all ?db ?vs False u) (count_rows (ts\<lparr>ts_count := c\<rparr>) m u)) (restoring ?db previous False u) w2"
      by (simp add: py_finally_def)
  qed
  then show ?thesis using guarded t
    by (simp add: count_without_context_def Let_def no_context_for_the_guard_def py_finally_def)
qed

text \<open>
  Where the library applies the context to each statement, the two counts of the assertion run in the admin context and
  without any values: whatever the caller's context is, its values have no part in what is asserted.
\<close>

theorem assertion_counts_in_its_contexts:
  assumes ok: "test_ok ts" and s: "state_ok (a_state w)"
    and guarded: "\<not> writes_gucs (st_cfg (ts_site ts)) u (use_local_set (st_cfg (ts_site ts)))"
    and same: "\<And>sql w1. state_ok (a_state w1) \<Longrightarrow> sees None True (Some admin_gucs) (a_state w1) \<or> get_context_gucs (a_state w1) = None \<Longrightarrow>
      ts_count ts u sql w1 = c u sql w1"
  shows "assert_rls_blocks_without_context ts m u w = assert_rls_blocks_without_context (ts\<lparr>ts_count := c\<rparr>) m u w"
proof -
  let ?ts = "ts\<lparr>ts_count := c\<rparr>"
  have site: "site_ok (ts_site ts)" using ok by (simp add: test_ok_def)
  have rows: "count_rows ts m u w1 = count_rows ?ts m u w1"
    if "state_ok (a_state w1)" "sees None True (Some admin_gucs) (a_state w1) \<or> get_context_gucs (a_state w1) = None" for w1
    using same [OF that] by (simp add: count_rows_def py_seq_def py_bind_def connections_get_def py_require_def split: prod.split sum.split)
  have disc: "disciplined (count_rows ts m u)" using ok by (intro disciplined_quiet quiet_count_rows)
  have admin: "admin_context (ts_site ts) u silent_origin (count_rows ts m u) w = admin_context (ts_site ts) u silent_origin (count_rows ?ts m u) w"
    by (rule admin_cm.runs_inside [OF site s]) (rule rows, simp_all)
  let ?rest = "\<lambda>ts seen. py_seq (py_assert (0 < seen)) (py_bind (count_without_context ts m u) (\<lambda>count. py_assert (count = 0)))"
  have "assert_rls_blocks_without_context ?ts m u w =
      py_bind (admin_context (ts_site ts) u silent_origin (count_rows ts m u)) (?rest ?ts) w"
    by (simp add: assert_rls_blocks_without_context_def py_bind_def admin)
  moreover have "assert_rls_blocks_without_context ts m u w =
      py_bind (admin_context (ts_site ts) u silent_origin (count_rows ts m u)) (?rest ?ts) w"
    unfolding assert_rls_blocks_without_context_def
  proof (rule py_bind_cong)
    fix seen w1
    assume "admin_context (ts_site ts) u silent_origin (count_rows ts m u) w = (Inr seen, w1)"
    then have "state_ok (a_state w1)"
      using admin_cm.restores [where u = u and o' = silent_origin, OF site disc s] by (simp add: balanced_def scoped_def tokened_def)
    then have "count_without_context ts m u w1 = count_without_context ?ts m u w1"
      by (rule count_without_cong [OF _ ok guarded]) (rule rows, simp_all)
    then show "py_seq (py_assert (0 < seen)) (py_bind (count_without_context ts m u) (\<lambda>count. py_assert (count = 0))) w1 =
        py_seq (py_assert (0 < seen)) (py_bind (count_without_context ?ts m u) (\<lambda>count. py_assert (count = 0))) w1"
      by (simp add: py_seq_def py_bind_def py_assert_def py_require_def py_ret_def py_raise_def)
  qed
  ultimately show ?thesis by simp
qed

text \<open>
  Where it writes the values to the session, the assertion passes exactly when the admin sees rows and a session whose two
  variables are empty sees none; the variables have their values again afterwards.
\<close>

theorem blocking_assertion_exact:
  assumes writes: "writes_gucs (st_cfg (ts_site ts)) u (use_local_set (st_cfg (ts_site ts)))"
    and laws: "guc_laws (st_cursor (ts_site ts)) u fine acc view"
    and names: "acc (guc_is_admin (st_cfg (ts_site ts)))" "acc (guc_current_tenant (st_cfg (ts_site ts)))"
      "guc_is_admin (st_cfg (ts_site ts)) \<noteq> guc_current_tenant (st_cfg (ts_site ts))"
    and admin: "admin_context (ts_site ts) u silent_origin (count_rows ts m u) w = (Inr seen, w1)"
    and writable: "guc_writable (st_cursor (ts_site ts)) u fine (use_local_set (st_cfg (ts_site ts))) w1"
    and counting: "body_keeps (st_cursor (ts_site ts)) u fine (use_local_set (st_cfg (ts_site ts))) (count_rows ts m u)"
  shows "\<exists>w2. view w2 = (view w1)(guc_is_admin (st_cfg (ts_site ts)) := [], guc_current_tenant (st_cfg (ts_site ts)) := []) \<and>
    (fst (assert_rls_blocks_without_context ts m u w) = Inr () \<longleftrightarrow> 0 < seen \<and> fst (count_rows ts m u w2) = Inr 0) \<and>
    (\<forall>n \<in> {guc_is_admin (st_cfg (ts_site ts)), guc_current_tenant (st_cfg (ts_site ts))}.
       view (snd (assert_rls_blocks_without_context ts m u w)) n = view w1 n)"
proof -
  let ?cfg = "st_cfg (ts_site ts)" and ?db = "st_cursor (ts_site ts)"
  let ?vs = "guc_items ?cfg ([] :: string) []" and ?count = "count_rows ts m u" and ?l = "use_local_set ?cfg"
  have vs: "?vs = [(guc_is_admin ?cfg, []), (guc_current_tenant ?cfg, [])]" using names(3) by (simp add: guc_items_def)
  have "block_outcome ?db u fine view ?vs ?count w1 (rls_context ?db ?vs ?l u ?count w1)"
    using names by (intro rls_context_restores [OF laws _ _ writable counting]) (simp_all add: vs)
  then obtain w2 w3 w4 r where o: "view w2 = assigned ?vs (view w1)" "?count w2 = (r, w3)" "rls_context ?db ?vs ?l u ?count w1 = (r, w4)"
    "\<forall>n. view w4 n = (if n \<in> fst ` set ?vs then view w1 n else view w3 n)"
    unfolding block_outcome_def by (elim exE conjE) (rule that)
  have v: "view w2 = (view w1)(guc_is_admin ?cfg := [], guc_current_tenant ?cfg := [])"
    using o(1) names(3) by (auto simp: vs assigned_def fun_eq_iff)
  have run: "assert_rls_blocks_without_context ts m u w =
      (if 0 < seen then (case r of Inl e \<Rightarrow> (Inl e, w4) | Inr n \<Rightarrow> (if n = 0 then Inr () else Inl assertion_error, w4))
       else (Inl assertion_error, w1))"
    using admin o(3) writes
    by (simp add: assert_rls_blocks_without_context_def count_without_context_def Let_def py_assert_def py_require_def py_bind_def
        py_seq_def py_raise_def py_ret_def split: sum.split)
  have kept: "view w4 n = view w1 n" if "n \<in> {guc_is_admin ?cfg, guc_current_tenant ?cfg}" for n
    using o(4) that by (auto simp: vs)
  show ?thesis
    using v o(2) kept run by (intro exI [of _ w2]) (auto split: sum.splits if_splits)
qed

subsection \<open>Concrete test sites\<close>

text \<open>On the guarded alias of \<open>Tenant_Context\<close>; the second count differs for a caller inside \<^verbatim>\<open>tenant_context(1)\<close>.\<close>

definition demo_test_site :: "demo_pg_state test_site" where
  "demo_test_site = \<lparr>ts_site = demo_site True, ts_quote = (\<lambda>t. t),
     ts_count = (\<lambda>_ _. py_get (\<lambda>w. if get_context_gucs (a_state w) = Some admin_gucs then 2 else 0)),
     ts_role = (\<lambda>_. py_ret (Some (''app'', False, False))), ts_rls = (\<lambda>_ _. py_ret (Some (True, True))),
     ts_policy = (\<lambda>_ _ _. py_ret True)\<rparr>"

definition demo_other_count :: "string \<Rightarrow> string \<Rightarrow> (demo_pg_state aff, nat) py" where
  "demo_other_count = (\<lambda>_ _. py_get (\<lambda>w. if get_context_gucs (a_state w) = Some admin_gucs then 2
     else if get_context_gucs (a_state w) = None then 0 else 9))"

lemma demo_test_ok: "test_ok demo_test_site"
  using demo_site_ok by (auto simp: test_ok_def demo_test_site_def intro!: quiet_intros)

lemma blocking_assertion_keeps_context_witness:
  "balanced (a_state demo_world) (a_state (snd (assert_rls_blocks_without_context demo_test_site demo_note ''default'' demo_world)))"
  by (rule blocking_assertion_keeps_context [OF demo_test_ok demo_state_ok])

lemma assertion_counts_in_its_contexts_witness:
  "assert_rls_blocks_without_context demo_test_site demo_note ''default'' demo_world =
   assert_rls_blocks_without_context (demo_test_site\<lparr>ts_count := demo_other_count\<rparr>) demo_note ''default'' demo_world"
  by (rule assertion_counts_in_its_contexts [OF demo_test_ok demo_state_ok])
    (auto simp: demo_test_site_def demo_other_count_def demo_site_def demo_cfg_def writes_gucs_def sees_def py_get_def)

text \<open>On an alias the library does not guard, over the session of \<open>Rls_Context\<close>: an admin sees two rows.\<close>

definition session_cursor :: "demo_session aff db" where
  "session_cursor = \<lparr>db_known = (\<lambda>_ _. True), db_in_atomic = (\<lambda>_ w. demo_atomic (a_db w)),
     db_needs_rollback = (\<lambda>_ w. demo_marked (a_db w)), db_put_needs_rollback = (\<lambda>_ b w. w\<lparr>a_db := (a_db w)\<lparr>demo_marked := b\<rparr>\<rparr>),
     db_execute = (\<lambda>_ sql params. on_db (demo_execute sql params))\<rparr>"

definition session_driver :: "demo_session driver" where
  "session_driver = \<lparr>dr_status = (\<lambda>_ _. Inr Idle), dr_execute = (\<lambda>_ _ _ _. py_ret ()), dr_send = (\<lambda>_ _. py_ret ()),
     dr_connect = (\<lambda>_. py_ret 0), dr_close = (\<lambda>_. py_ret ())\<rparr>"

definition session_site :: "demo_session test_site" where
  "session_site = \<lparr>ts_site = \<lparr>st_driver = session_driver, st_cfg = (demo_cfg False)\<lparr>databases := []\<rparr>, st_created = (\<lambda>_. py_ret ()),
       st_cursor = session_cursor, st_audits = (\<lambda>_. True)\<rparr>,
     ts_quote = (\<lambda>t. t), ts_count = (\<lambda>_ _. py_get (\<lambda>w. if demo_gucs (a_db w) ''rls.is_admin'' = ''true'' then 2 else 0)),
     ts_role = (\<lambda>_. py_ret None), ts_rls = (\<lambda>_ _. py_ret None), ts_policy = (\<lambda>_ _ _. py_ret False)\<rparr>"

definition session_world :: "demo_session aff" where
  "session_world = \<lparr>a_state = init_state, a_conns = (\<lambda>_. None), a_depth = 0, a_audit = [], a_db = demo_start\<rparr>"

lemma session_laws: "guc_laws session_cursor u (\<lambda>_. True) guc_name_ok (\<lambda>w. demo_gucs (a_db w))"
proof -
  have 1: "set_config_sql \<noteq> current_setting_sql"
    by (simp add: current_setting_sql_def set_config_sql_def)
  show ?thesis
    by (auto simp: guc_laws_def guc_write_law_def session_cursor_def on_db_def demo_execute_def 1
        set_local_sql_distinct set_local_sql_name)
qed

lemma session_names: "guc_name_ok ''rls.is_admin''" "guc_name_ok ''rls.current_tenant''"
  by (simp_all add: guc_char_def char_class_defs)

lemma session_get:
  "guc_name_ok n \<Longrightarrow> \<not> demo_marked (a_db w) \<Longrightarrow>
   get_guc session_cursor n u w = (Inr (if demo_gucs (a_db w) n = [] then None else Some (demo_gucs (a_db w) n)), w)"
  using get_guc_law [OF session_laws] by (simp add: session_cursor_def)

lemma session_set:
  assumes "guc_name_ok n" and "\<not> demo_marked (a_db w)"
  shows "set_guc session_cursor n v False u w = (Inr (), w\<lparr>a_db := (a_db w)\<lparr>demo_gucs := (demo_gucs (a_db w))(n := v)\<rparr>\<rparr>)"
proof -
  have 1: "set_config_sql \<noteq> current_setting_sql"
    by (simp add: current_setting_sql_def set_config_sql_def)
  show ?thesis using assms
    by (simp add: set_guc_def py_require_def py_seq_def py_bind_def py_ret_def py_get_def connections_get_def session_cursor_def on_db_def
      demo_execute_def 1)
qed

lemma session_written:
  assumes "m (w\<lparr>a_depth := Suc (a_depth w)\<rparr>) = (Inr x, v)" and "a_conns v = (\<lambda>_. None)"
  shows "write_values (ts_site session_site) u values False m w = (Inr x, v\<lparr>a_depth := a_depth w\<rparr>)"
  using assms by (simp add: write_values_def writing_def record_write_def raw_of_def)

lemma session_admin:
  "\<exists>w1. admin_context (ts_site session_site) ''default'' silent_origin (count_rows session_site demo_note ''default'') session_world =
     (Inr 2, w1) \<and> \<not> demo_marked (a_db w1)"
proof -
  have cursor: "st_cursor (ts_site session_site) = session_cursor" "connections_get session_cursor u w = (Inr (), w)" for u w
    by (simp_all add: session_site_def connections_get_def session_cursor_def py_require_def py_ret_def)
  have cfg: "use_local_set (st_cfg (ts_site session_site)) = False" "databases (st_cfg (ts_site session_site)) = []"
      "guc_is_admin (st_cfg (ts_site session_site)) = ''rls.is_admin''" "guc_current_tenant (st_cfg (ts_site session_site)) = ''rls.current_tenant''"
    by (simp_all add: session_site_def demo_cfg_def)
  have count: "count_rows session_site demo_note u w = (Inr (if demo_gucs (a_db w) ''rls.is_admin'' = ''true'' then 2 else 0), w)" for u w
    by (simp add: count_rows_def cursor py_seq_def py_bind_def) (simp add: session_site_def py_get_def)
  have restore: "restore_gucs session_cursor [(''rls.is_admin'', None), (''rls.current_tenant'', None)] False u exc w =
      (Inr True, w\<lparr>a_db := (a_db w)\<lparr>demo_gucs := (demo_gucs (a_db w))(''rls.is_admin'' := [], ''rls.current_tenant'' := [])\<rparr>\<rparr>)"
    if "\<not> demo_marked (a_db w)" for u exc w
  proof -
    have "restore_loop session_cursor [(''rls.is_admin'', None), (''rls.current_tenant'', None)] False u exc True w =
        (Inr True, w\<lparr>a_db := (a_db w)\<lparr>demo_gucs := (demo_gucs (a_db w))(''rls.is_admin'' := [], ''rls.current_tenant'' := [])\<rparr>\<rparr>)"
      using that by (simp add: restore_guc_def clear_guc_def session_set session_names py_ret_def del: guc_name_ok.simps)
    moreover have put: "db_put_needs_rollback session_cursor u False v = v" "db_needs_rollback session_cursor u v = False"
      if "\<not> demo_marked (a_db v)" for v
      using that by (simp_all add: session_cursor_def)
    ultimately show ?thesis using that
      by (simp add: restore_gucs_def py_seq_def py_bind_def py_get_def py_modify_def py_finally_def py_ret_def cursor put
        del: restore_loop.simps)
  qed
  have saved: "snapshot_gucs (ts_site session_site) u w = (Inr [(''rls.is_admin'', None), (''rls.current_tenant'', None)], w)"
    if "\<not> demo_marked (a_db w)" "demo_gucs (a_db w) ''rls.is_admin'' = []" "demo_gucs (a_db w) ''rls.current_tenant'' = []" for u w
    using that
    by (simp add: snapshot_gucs_def cursor cfg session_get session_names py_bind_def py_ret_def guc_items_def del: guc_name_ok.simps)
  have settled: "settle (ts_site session_site) o' c w = (Inr (), w)" for o' c w
    by (simp add: settle_def settle_other_aliases_def cfg py_ret_def)
  obtain b s1 where b: "enter_rls_state True None (Some admin_gucs) init_state = (b, s1)"
    by (cases "enter_rls_state True None (Some admin_gucs) init_state")
  have ok: "state_ok init_state" by (simp add: init_state_def state_ok_def heap_wf_def current_live_def cur_ctx_def default_ctx_def)
  obtain s3 where s3: "exit_rls_state b s1 = (Inr (), s3)" "balanced init_state s3"
    using exit_rls_state_balanced [OF ok b scoped_refl [OF enter_state_ok [OF ok b]]] by blast
  then have out: "current_live s3 = None"
    by (simp add: balanced_def current_live_def init_state_def cur_ctx_def default_ctx_def)
  let ?w = "\<lambda>s gucs. session_world\<lparr>a_db := demo_start\<lparr>demo_gucs := gucs\<rparr>, a_state := s\<rparr>"
  let ?admin = "(demo_gucs demo_start)(''rls.is_admin'' := ''true'', ''rls.current_tenant'' := [])"
  have enters: "write_values (ts_site session_site) ''default'' (TVals admin_gucs) False
      (py_seq (set_guc session_cursor ''rls.is_admin'' (g_is_admin admin_gucs) False ''default'')
         (clear_guc session_cursor ''rls.current_tenant'' False ''default'')) (session_world\<lparr>a_state := s1\<rparr>) = (Inr (), ?w s1 ?admin)"
  proof -
    let ?y = "session_world\<lparr>a_state := s1\<rparr>"
    have "py_seq (set_guc session_cursor ''rls.is_admin'' (g_is_admin admin_gucs) False ''default'')
        (clear_guc session_cursor ''rls.current_tenant'' False ''default'') (?y\<lparr>a_depth := Suc (a_depth ?y)\<rparr>) = (Inr (), (?w s1 ?admin)\<lparr>a_depth := 1\<rparr>)"
      by (simp add: py_seq_def py_bind_def clear_guc_def session_set session_names session_world_def demo_start_def admin_gucs_def
        del: guc_name_ok.simps)
    then show ?thesis by (subst session_written [where w = ?y], assumption) (simp_all add: session_world_def)
  qed
  have silent: "log_context (ts_site session_site) e silent_origin t u w = w" for e t u w
    by (simp add: log_context_def context_event_def silent_origin_def)
  have leaves: "restore_tenant_gucs (ts_site session_site) (Some [(''rls.is_admin'', None), (''rls.current_tenant'', None)]) False ''default''
      False None None (?w s3 ?admin) = (Inr (), (?w s3 (?admin(''rls.is_admin'' := [], ''rls.current_tenant'' := []))))"
  proof -
    let ?saved = "[(''rls.is_admin'', None), (''rls.current_tenant'', None)]"
    have "restore_gucs session_cursor ?saved False ''default'' False ((?w s3 ?admin)\<lparr>a_depth := Suc (a_depth (?w s3 ?admin))\<rparr>) =
        (Inr True, (?w s3 (?admin(''rls.is_admin'' := [], ''rls.current_tenant'' := [])))\<lparr>a_depth := 1\<rparr>)"
      by (subst restore) (simp_all add: demo_start_def session_world_def)
    then have "write_values (ts_site session_site) u v False (restore_gucs session_cursor ?saved False ''default'' False) (?w s3 ?admin) =
        (Inr True, ?w s3 (?admin(''rls.is_admin'' := [], ''rls.current_tenant'' := [])))" for u v
      by (subst session_written [where w = "?w s3 ?admin"], assumption) (simp_all add: session_world_def)
    then show ?thesis
      by (simp add: restore_tenant_gucs_def restore_snapshot_def ended_def out cursor settled py_finally_def py_bind_def py_seq_def py_ret_def Let_def)
  qed
  have start: "a_state session_world = init_state" "\<not> demo_marked (a_db session_world)" "demo_gucs (a_db session_world) ''rls.is_admin'' = []"
      "demo_gucs (a_db session_world) ''rls.current_tenant'' = []" "raw_of u session_world = None" "current_live init_state = None" for u
    by (simp_all add: session_world_def demo_start_def raw_of_def init_state_def current_live_def cur_ctx_def default_ctx_def)
  have counted: "count_rows session_site demo_note ''default'' (?w s1 ?admin) = (Inr 2, ?w s1 ?admin)"
    by (simp add: count)
  have "run_block (ts_site session_site) None admin_gucs
      (write_values (ts_site session_site) ''default'' (TVals admin_gucs) False
        (py_seq (set_guc session_cursor ''rls.is_admin'' (g_is_admin admin_gucs) False ''default'')
           (clear_guc session_cursor ''rls.current_tenant'' False ''default'')))
      (\<lambda>exc. restore_tenant_gucs (ts_site session_site) (Some [(''rls.is_admin'', None), (''rls.current_tenant'', None)]) False ''default'' exc None None)
      ''default'' silent_origin (count_rows session_site demo_note ''default'') session_world =
      (Inr 2, ?w s3 (?admin(''rls.is_admin'' := [], ''rls.current_tenant'' := [])))"
    by (simp add: run_block_def start b enters silent counted Let_def leave_block_def py_finally_def on_state_def s3 leaves py_modify_def
      del: fun_upd_apply)
  then show ?thesis
    by (simp add: admin_context_def context_block_def cfg writes_gucs_def py_bind_def py_get_def py_ret_def session_of_def py_seq_def
      cursor saved start Let_def demo_start_def)
qed

lemma blocking_assertion_exact_witness:
  "fst (assert_rls_blocks_without_context session_site demo_note ''default'' session_world) = Inr ()"
proof -
  let ?st = "ts_site session_site"
  have st: "st_cursor ?st = session_cursor" "use_local_set (st_cfg ?st) = False" "guc_is_admin (st_cfg ?st) = ''rls.is_admin''"
      "guc_current_tenant (st_cfg ?st) = ''rls.current_tenant''" "writes_gucs (st_cfg ?st) ''default'' False"
    by (simp_all add: session_site_def demo_cfg_def writes_gucs_def)
  have count: "count_rows session_site demo_note u w = (Inr (if demo_gucs (a_db w) ''rls.is_admin'' = ''true'' then 2 else 0), w)" for u w
    by (simp add: count_rows_def session_site_def session_cursor_def connections_get_def py_simps py_seq_def py_bind_def)
  have keeps: "body_keeps session_cursor ''default'' (\<lambda>_. True) False (count_rows session_site demo_note ''default'')"
    by (simp add: body_keeps_def)
  obtain w1 where w1: "admin_context ?st ''default'' silent_origin (count_rows session_site demo_note ''default'') session_world = (Inr 2, w1)"
      "\<not> demo_marked (a_db w1)"
    using session_admin by blast
  have writable: "guc_writable session_cursor ''default'' (\<lambda>_. True) False w1"
    using w1(2) by (simp add: guc_writable_def session_cursor_def)
  obtain w2 where w2: "demo_gucs (a_db w2) = (demo_gucs (a_db w1))(''rls.is_admin'' := [], ''rls.current_tenant'' := [])"
      "fst (assert_rls_blocks_without_context session_site demo_note ''default'' session_world) = Inr () \<longleftrightarrow>
       0 < (2 :: nat) \<and> fst (count_rows session_site demo_note ''default'' w2) = Inr 0"
    using blocking_assertion_exact [where ts = session_site and u = "''default''" and view = "\<lambda>w. demo_gucs (a_db w)", unfolded st,
        OF st(5) session_laws session_names _ w1(1) writable keeps] by auto
  then show ?thesis by (simp add: count)
qed

end
