(* ===== verification/Pytest_Plugin.thy ===== *)
theory Pytest_Plugin
  imports Tracker
begin

text \<open>
  \<^verbatim>\<open>pytest_plugin.py\<close>: the fixtures that run a test as a role row-level security applies to.  A connection (Django's wrapper)
  is a number; the statements sent to it, what Django and psycopg say of it and \<^verbatim>\<open>connections[alias]\<close> are arguments.
  Besides the database's world there are the receivers of \<^verbatim>\<open>connection_created\<close> and the list \<^verbatim>\<open>switched\<close> of the fixture.
\<close>

subsection \<open>The options\<close>

text \<open>\<^verbatim>\<open>_ROLE_NAME\<close>: \<^verbatim>\<open>[a-z_][a-z0-9_]{0,62}\<close>, matched as a whole.\<close>

definition is_lower_letter :: "char \<Rightarrow> bool" where
  "is_lower_letter c \<longleftrightarrow> (let n = (of_char c :: nat) in 97 \<le> n \<and> n \<le> 122)"

definition role_start :: "char \<Rightarrow> bool" where
  "role_start c \<longleftrightarrow> is_lower_letter c \<or> c = CHR ''_''"

definition role_char :: "char \<Rightarrow> bool" where
  "role_char c \<longleftrightarrow> role_start c \<or> is_digit c"

fun role_name_ok :: "string \<Rightarrow> bool" where
  "role_name_ok [] = False"
| "role_name_ok (c # cs) = (role_start c \<and> list_all role_char cs \<and> length cs \<le> 62)"

record ini_options =
  in_role :: string
  in_aliases :: "string list"

definition default_options :: ini_options where
  "default_options = \<lparr>in_role = ''rls_test_role'', in_aliases = [''default'']\<rparr>"

text \<open>\<^verbatim>\<open>dict.fromkeys\<close>: each alias once, where it came first.\<close>

definition aliases :: "ini_options \<Rightarrow> string list" where
  "aliases config = rev (remdups (rev (in_aliases config)))"

definition usage_error :: exn where
  "usage_error = OtherError ''UsageError''"

definition pytest_configure :: "ini_options \<Rightarrow> unit checked" where
  "pytest_configure config =
     ck_bind (check (role_name_ok (in_role config)) usage_error) (\<lambda>_. check (aliases config \<noteq> []) usage_error)"

subsection \<open>The role\<close>

record 'w role_site =
  ps_connection :: "string \<Rightarrow> ('w, nat) py"
  ps_alias :: "nat \<Rightarrow> string"
  ps_fetch :: "nat \<Rightarrow> string \<Rightarrow> string list \<Rightarrow> ('w, bool option option) py"
  ps_execute :: "nat \<Rightarrow> string \<Rightarrow> ('w, unit) py"
  ps_schemas :: "nat \<Rightarrow> ('w, string list) py"
  ps_atomic :: "nat \<Rightarrow> ('w, unit) py \<Rightarrow> ('w, unit) py"
  ps_in_atomic :: "nat \<Rightarrow> 'w \<Rightarrow> bool"
  ps_open :: "nat \<Rightarrow> 'w \<Rightarrow> bool"
  ps_closed_in_transaction :: "nat \<Rightarrow> 'w \<Rightarrow> bool"
  ps_status :: "nat \<Rightarrow> 'w \<Rightarrow> tx_status"

text \<open>\<open>ps_fetch\<close> is the first column of the first row, if there is one; \<^verbatim>\<open>bool(row and row[0])\<close>.\<close>

definition truthy_row :: "bool option option \<Rightarrow> bool" where
  "truthy_row row \<longleftrightarrow> row = Some (Some True)"

definition bypasses_sql :: "string \<Rightarrow> string" where
  "bypasses_sql role = ''SELECT rolsuper OR rolbypassrls FROM pg_roles WHERE rolname = '' @ role"

definition bypasses_rls :: "'w role_site \<Rightarrow> nat \<Rightarrow> string \<Rightarrow> ('w, bool) py" where
  "bypasses_rls ps conn role = py_bind (ps_fetch ps conn (bypasses_sql role) []) (\<lambda>row. py_ret (truthy_row row))"

definition failed :: exn where
  "failed = OtherError ''Failed''"

definition create_role :: "'w role_site \<Rightarrow> nat \<Rightarrow> string \<Rightarrow> ('w, unit) py" where
  "create_role ps conn role =
     py_except (ps_atomic ps conn (ps_execute ps conn (''CREATE ROLE '' @ role @ '' NOLOGIN'')))
       (\<lambda>e. e = DatabaseError)
       (\<lambda>e. py_bind (ps_fetch ps conn ''SELECT 1 FROM pg_roles WHERE rolname = %s'' [role]) (\<lambda>row.
              if row = None then py_raise e else py_ret ()))"

definition grant_in_schema :: "'w role_site \<Rightarrow> nat \<Rightarrow> string \<Rightarrow> string \<Rightarrow> ('w, unit) py" where
  "grant_in_schema ps conn role schema =
     py_seq (ps_execute ps conn (''GRANT USAGE ON SCHEMA '' @ schema @ '' TO '' @ role))
       (py_for [''TABLES'', ''SEQUENCES''] (\<lambda>kind.
          py_seq (ps_execute ps conn (''GRANT ALL ON ALL '' @ kind @ '' IN SCHEMA '' @ schema @ '' TO '' @ role))
            (ps_execute ps conn (''ALTER DEFAULT PRIVILEGES IN SCHEMA '' @ schema @ '' GRANT ALL ON '' @ kind @ '' TO '' @ role))))"

definition prepare_role :: "'w role_site \<Rightarrow> nat \<Rightarrow> string \<Rightarrow> ('w, unit) py" where
  "prepare_role ps conn role =
     py_bind (bypasses_rls ps conn ''current_user'') (\<lambda>bypasses.
       if \<not> bypasses then py_ret ()
       else py_bind (ps_fetch ps conn (bypasses_sql ''%s'') [role]) (\<lambda>row.
         py_seq (case row of
                   None \<Rightarrow> create_role ps conn role
                 | Some flag \<Rightarrow> py_require (flag \<noteq> Some True) failed)
           (py_bind (ps_schemas ps conn) (\<lambda>schemas. py_for schemas (grant_in_schema ps conn role)))))"

definition switch_role :: "'w role_site \<Rightarrow> nat \<Rightarrow> string \<Rightarrow> ('w, bool) py" where
  "switch_role ps conn role =
     py_bind (bypasses_rls ps conn ''current_user'') (\<lambda>bypasses.
       py_seq (if bypasses then ps_execute ps conn (''SET ROLE '' @ role) else py_ret ()) (py_ret bypasses))"

definition in_failed_transaction :: "'w role_site \<Rightarrow> nat \<Rightarrow> 'w \<Rightarrow> bool" where
  "in_failed_transaction ps conn w \<longleftrightarrow> ps_status ps conn w = InError"

definition fail_inside_a_test_transaction :: "'w role_site \<Rightarrow> nat \<Rightarrow> ('w, unit) py" where
  "fail_inside_a_test_transaction ps conn = (\<lambda>w. py_require (\<not> ps_in_atomic ps conn w) failed w)"

subsection \<open>The receivers\<close>

record receiver =
  re_aliases :: "string list"
  re_role :: string
  re_on_this_thread :: bool
  re_thread :: nat
  re_records :: bool

record 'w plugin =
  pl_world :: 'w
  pl_receivers :: "receiver list"
  pl_switched :: "nat list"

definition on_database :: "('w, 'a) py \<Rightarrow> ('w plugin, 'a) py" where
  "on_database m = (\<lambda>w. case m (pl_world w) of (r, v) \<Rightarrow> (r, w\<lparr>pl_world := v\<rparr>))"

definition record_switched :: "nat \<Rightarrow> ('w plugin, unit) py" where
  "record_switched conn = py_modify (\<lambda>w. w\<lparr>pl_switched := pl_switched w @ [conn]\<rparr>)"

definition receive :: "'w role_site \<Rightarrow> nat \<Rightarrow> nat \<Rightarrow> receiver \<Rightarrow> ('w plugin, unit) py" where
  "receive ps thread conn r =
     (if (thread = re_thread r) \<noteq> re_on_this_thread r then py_ret ()
      else if ps_alias ps conn \<notin> set (re_aliases r) then py_ret ()
      else py_bind (on_database (switch_role ps conn (re_role r))) (\<lambda>switched.
             if \<not> switched then py_ret ()
             else py_bind (py_get pl_switched) (\<lambda>conns.
               if re_records r \<and> conn \<notin> set conns then record_switched conn else py_ret ())))"

text \<open>What opening a connection on a thread runs: Django sends \<^verbatim>\<open>connection_created\<close> to the receivers.\<close>

definition connection_opened :: "'w role_site \<Rightarrow> nat \<Rightarrow> nat \<Rightarrow> ('w plugin, unit) py" where
  "connection_opened ps thread conn = py_bind (py_get pl_receivers) (\<lambda>rs. py_for rs (receive ps thread conn))"

subsection \<open>The fixtures\<close>

definition rls_role :: "'w role_site \<Rightarrow> ini_options \<Rightarrow> ('w, string) py" where
  "rls_role ps config =
     py_seq
       (py_for (aliases config) (\<lambda>alias.
          py_bind (ps_connection ps alias) (\<lambda>conn.
          py_bind (py_get (ps_in_atomic ps conn)) (\<lambda>in_atomic.
          py_bind (if in_atomic then bypasses_rls ps conn ''current_user'' else py_ret False) (\<lambda>bypasses.
          py_seq (if bypasses then fail_inside_a_test_transaction ps conn else py_ret ())
            (prepare_role ps conn (in_role config)))))))
       (py_ret (in_role config))"

definition forbidden :: exn where
  "forbidden = OtherError ''DatabaseOperationForbidden''"

definition switch_alias :: "'w role_site \<Rightarrow> string \<Rightarrow> string \<Rightarrow> ('w plugin, unit) py" where
  "switch_alias ps role alias =
     py_bind (on_database (ps_connection ps alias)) (\<lambda>conn.
       py_except
         (py_bind (on_database (switch_role ps conn role)) (\<lambda>switched. if switched then record_switched conn else py_ret ()))
         (\<lambda>e. e = forbidden) (\<lambda>_. py_ret ()))"

definition reset_role :: "'w role_site \<Rightarrow> nat \<Rightarrow> ('w, unit) py" where
  "reset_role ps conn = (\<lambda>w.
     if \<not> ps_open ps conn w \<or> ps_closed_in_transaction ps conn w then (Inr (), w)
     else if in_failed_transaction ps conn w then (Inr (), w)
     else ps_execute ps conn ''RESET ROLE'' w)"

definition reopened_receiver :: "string list \<Rightarrow> string \<Rightarrow> nat \<Rightarrow> receiver" where
  "reopened_receiver als role thread =
     \<lparr>re_aliases = als, re_role = role, re_on_this_thread = True, re_thread = thread, re_records = True\<rparr>"

definition connect :: "receiver \<Rightarrow> ('w plugin, unit) py" where
  "connect r = py_modify (\<lambda>w. w\<lparr>pl_receivers := pl_receivers w @ [r]\<rparr>)"

definition disconnect :: "receiver \<Rightarrow> ('w plugin, unit) py" where
  "disconnect r = py_modify (\<lambda>w. w\<lparr>pl_receivers := remove1 r (pl_receivers w)\<rparr>)"

definition enforce_rls :: "'w role_site \<Rightarrow> ini_options \<Rightarrow> string \<Rightarrow> nat \<Rightarrow> ('w plugin, 'a) py \<Rightarrow> ('w plugin, 'a) py" where
  "enforce_rls ps config role thread test =
     (let r = reopened_receiver (aliases config) role thread
      in py_seq (py_modify (\<lambda>w. w\<lparr>pl_switched := []\<rparr>))
        (py_finally
          (py_seq (py_for (aliases config) (switch_alias ps role)) (py_seq (connect r) test))
          (\<lambda>_. py_seq (disconnect r)
                 (py_bind (py_get pl_switched) (\<lambda>conns. py_for conns (\<lambda>conn. on_database (reset_role ps conn)))))))"

definition enforce_rls_on_other_threads ::
  "ini_options \<Rightarrow> string \<Rightarrow> nat \<Rightarrow> ('w plugin, 'a) py \<Rightarrow> ('w plugin, 'a) py" where
  "enforce_rls_on_other_threads config role thread test =
     (let r = (reopened_receiver (aliases config) role thread)\<lparr>re_on_this_thread := False, re_records := False\<rparr>
      in py_seq (connect r) (py_finally test (\<lambda>_. disconnect r)))"

subsection \<open>What the fixture relies on\<close>

text \<open>
  A connection that takes statements.  \<open>roles\<close> is the role \<^verbatim>\<open>SET ROLE\<close> has set on each (\<open>None\<close>: the login role), \<open>login\<close>
  says which login roles bypass row-level security, and the roles \<open>plain\<close> do not.  The catalogue tells so, and the two
  statements change the role of their connection and nothing else of this.
\<close>

definition usable :: "'w role_site \<Rightarrow> 'w \<Rightarrow> nat \<Rightarrow> bool" where
  "usable ps w c \<longleftrightarrow> ps_open ps c w \<and> \<not> ps_closed_in_transaction ps c w \<and> \<not> in_failed_transaction ps c w"

definition bypassing :: "(nat \<Rightarrow> bool) \<Rightarrow> string set \<Rightarrow> nat \<Rightarrow> string option \<Rightarrow> bool" where
  "bypassing login plain c role = (case role of None \<Rightarrow> login c | Some r \<Rightarrow> r \<notin> plain)"

definition role_laws :: "'w role_site \<Rightarrow> ('w \<Rightarrow> nat \<Rightarrow> string option) \<Rightarrow> (nat \<Rightarrow> bool) \<Rightarrow> string set \<Rightarrow> bool" where
  "role_laws ps roles login plain \<longleftrightarrow>
     (\<forall>c w. usable ps w c \<longrightarrow>
        ps_fetch ps c (bypasses_sql ''current_user'') [] w = (Inr (Some (Some (bypassing login plain c (roles w c)))), w) \<and>
        (\<forall>r. \<exists>w'. ps_execute ps c (''SET ROLE '' @ r) w = (Inr (), w') \<and> roles w' = (roles w)(c := Some r) \<and> usable ps w' = usable ps w) \<and>
        (\<exists>w'. ps_execute ps c ''RESET ROLE'' w = (Inr (), w') \<and> roles w' = (roles w)(c := None) \<and> usable ps w' = usable ps w))"

lemma bypasses_law:
  "role_laws ps roles login plain \<Longrightarrow> usable ps w c \<Longrightarrow>
   bypasses_rls ps c ''current_user'' w = (Inr (bypassing login plain c (roles w c)), w)"
  by (simp add: role_laws_def bypasses_rls_def py_bind_def py_ret_def truthy_row_def)

lemma switch_law:
  assumes laws: "role_laws ps roles login plain" and c: "usable ps w c" and role: "role \<in> plain"
  shows "\<exists>w'. switch_role ps c role w = (Inr (bypassing login plain c (roles w c)), w') \<and> usable ps w' = usable ps w \<and>
    roles w' = (if bypassing login plain c (roles w c) then (roles w)(c := Some role) else roles w) \<and>
    \<not> bypassing login plain c (roles w' c)"
proof -
  obtain w' where w': "ps_execute ps c (''SET ROLE '' @ role) w = (Inr (), w')" "roles w' = (roles w)(c := Some role)" "usable ps w' = usable ps w"
    using laws c unfolding role_laws_def by blast
  show ?thesis
  proof (cases "bypassing login plain c (roles w c)")
    case True
    then show ?thesis using w' role
      by (intro exI [of _ w']) (simp add: switch_role_def py_bind_def py_seq_def py_ret_def bypasses_law [OF laws c] bypassing_def)
  next
    case False
    then show ?thesis
      by (intro exI [of _ w]) (simp add: switch_role_def py_bind_def py_seq_def py_ret_def bypasses_law [OF laws c])
  qed
qed

lemma reset_law:
  assumes laws: "role_laws ps roles login plain"
  shows "\<exists>w'. reset_role ps c w = (Inr (), w') \<and> usable ps w' = usable ps w \<and>
    roles w' = (if usable ps w c then (roles w)(c := None) else roles w)"
proof (cases "usable ps w c")
  case True
  then obtain w' where "ps_execute ps c ''RESET ROLE'' w = (Inr (), w')" "roles w' = (roles w)(c := None)" "usable ps w' = usable ps w"
    using laws unfolding role_laws_def by blast
  then show ?thesis using True by (simp add: reset_role_def usable_def)
next
  case False
  then show ?thesis by (auto simp: reset_role_def usable_def)
qed

lemma resets_law:
  assumes laws: "role_laws ps roles login plain"
  shows "\<exists>w'. py_for conns (\<lambda>c. on_database (reset_role ps c)) w = (Inr (), w') \<and> pl_receivers w' = pl_receivers w \<and>
    pl_switched w' = pl_switched w \<and> usable ps (pl_world w') = usable ps (pl_world w) \<and>
    roles (pl_world w') = (\<lambda>c. if c \<in> set conns \<and> usable ps (pl_world w) c then None else roles (pl_world w) c)"
proof (induction conns arbitrary: w)
  case Nil
  then show ?case by (simp add: py_ret_def)
next
  case (Cons c conns)
  obtain v where v: "reset_role ps c (pl_world w) = (Inr (), v)" "usable ps v = usable ps (pl_world w)"
    "roles v = (if usable ps (pl_world w) c then (roles (pl_world w))(c := None) else roles (pl_world w))"
    using reset_law [OF laws] by blast
  have step: "on_database (reset_role ps c) w = (Inr (), w\<lparr>pl_world := v\<rparr>)" using v by (simp add: on_database_def)
  obtain w' where w': "py_for conns (\<lambda>c. on_database (reset_role ps c)) (w\<lparr>pl_world := v\<rparr>) = (Inr (), w')"
      "pl_receivers w' = pl_receivers w" "pl_switched w' = pl_switched w" "usable ps (pl_world w') = usable ps v"
      "roles (pl_world w') = (\<lambda>d. if d \<in> set conns \<and> usable ps v d then None else roles v d)"
    using Cons.IH [of "w\<lparr>pl_world := v\<rparr>"] by (auto cong: if_cong)
  have "roles (pl_world w') = (\<lambda>d. if d \<in> set (c # conns) \<and> usable ps (pl_world w) d then None else roles (pl_world w) d)"
    using w'(5) v(2,3) by (auto simp: fun_eq_iff)
  then show ?case using step w' v by (intro exI [of _ w']) (simp add: py_seq_def py_bind_def)
qed

text \<open>The aliases: a connection the test may use takes statements, another one refuses them.\<close>

definition reachable_aliases :: "'w role_site \<Rightarrow> (string \<Rightarrow> nat) \<Rightarrow> 'w \<Rightarrow> string list \<Rightarrow> bool" where
  "reachable_aliases ps conns w als \<longleftrightarrow>
     (\<forall>al \<in> set als. (\<forall>v. ps_connection ps al v = (Inr (conns al), v)) \<and>
        (usable ps w (conns al) \<or>
         \<not> usable ps w (conns al) \<and> (\<forall>v. ps_fetch ps (conns al) (bypasses_sql ''current_user'') [] v = (Inl forbidden, v))))"

lemma switch_alias_law:
  assumes laws: "role_laws ps roles login plain" and al: "reachable_aliases ps conns (pl_world w) [al]" and role: "role \<in> plain"
  shows "\<exists>w'. switch_alias ps role al w = (Inr (), w') \<and> pl_receivers w' = pl_receivers w \<and>
    usable ps (pl_world w') = usable ps (pl_world w) \<and>
    (if usable ps (pl_world w) (conns al) \<and> bypassing login plain (conns al) (roles (pl_world w) (conns al))
     then pl_switched w' = pl_switched w @ [conns al] \<and> roles (pl_world w') = (roles (pl_world w))(conns al := Some role)
     else pl_switched w' = pl_switched w \<and> roles (pl_world w') = roles (pl_world w))"
proof (cases "usable ps (pl_world w) (conns al)")
  case True
  obtain v where "switch_role ps (conns al) role (pl_world w) = (Inr (bypassing login plain (conns al) (roles (pl_world w) (conns al))), v)"
      "usable ps v = usable ps (pl_world w)"
      "roles v = (if bypassing login plain (conns al) (roles (pl_world w) (conns al)) then (roles (pl_world w))(conns al := Some role) else roles (pl_world w))"
    using switch_law [OF laws True role] by blast
  then show ?thesis using al True
    by (simp add: switch_alias_def reachable_aliases_def on_database_def py_bind_def py_except_def record_switched_def py_modify_def py_ret_def)
next
  case False
  then show ?thesis using al
    by (simp add: switch_alias_def reachable_aliases_def on_database_def py_bind_def py_except_def switch_role_def bypasses_rls_def py_ret_def)
qed

lemma switch_aliases_law:
  assumes laws: "role_laws ps roles login plain" and als: "reachable_aliases ps conns (pl_world w) als" and role: "role \<in> plain"
  shows "\<exists>w' sw. py_for als (switch_alias ps role) w = (Inr (), w') \<and> pl_receivers w' = pl_receivers w \<and>
    pl_switched w' = pl_switched w @ sw \<and> usable ps (pl_world w') = usable ps (pl_world w) \<and>
    roles (pl_world w') = (\<lambda>c. if c \<in> set sw then Some role else roles (pl_world w) c) \<and>
    (\<forall>c \<in> set sw. usable ps (pl_world w) c \<and> bypassing login plain c (roles (pl_world w) c)) \<and>
    (\<forall>al \<in> set als. usable ps (pl_world w) (conns al) \<longrightarrow> \<not> bypassing login plain (conns al) (roles (pl_world w') (conns al)))"
  using als
proof (induction als arbitrary: w)
  case Nil
  then show ?case by (simp add: py_ret_def)
next
  case (Cons al als)
  have first: "reachable_aliases ps conns (pl_world w) [al]" using Cons.prems by (simp add: reachable_aliases_def)
  obtain v where v: "switch_alias ps role al w = (Inr (), v)" "pl_receivers v = pl_receivers w" "usable ps (pl_world v) = usable ps (pl_world w)"
    and sw: "if usable ps (pl_world w) (conns al) \<and> bypassing login plain (conns al) (roles (pl_world w) (conns al))
     then pl_switched v = pl_switched w @ [conns al] \<and> roles (pl_world v) = (roles (pl_world w))(conns al := Some role)
     else pl_switched v = pl_switched w \<and> roles (pl_world v) = roles (pl_world w)"
    using switch_alias_law [OF laws first role] by blast
  have "reachable_aliases ps conns (pl_world v) als" using Cons.prems v(3) by (simp add: reachable_aliases_def)
  from Cons.IH [OF this] obtain w' rest where w': "py_for als (switch_alias ps role) v = (Inr (), w')" "pl_receivers w' = pl_receivers v"
      "pl_switched w' = pl_switched v @ rest" "usable ps (pl_world w') = usable ps (pl_world v)"
      "roles (pl_world w') = (\<lambda>c. if c \<in> set rest then Some role else roles (pl_world v) c)"
      "\<forall>c \<in> set rest. usable ps (pl_world v) c \<and> bypassing login plain c (roles (pl_world v) c)"
      "\<forall>al \<in> set als. usable ps (pl_world v) (conns al) \<longrightarrow> \<not> bypassing login plain (conns al) (roles (pl_world w') (conns al))"
    by blast
  have run: "py_for (al # als) (switch_alias ps role) w = (Inr (), w')" using v(1) w'(1) by (simp add: py_seq_def py_bind_def)
  have set_role: "\<not> bypassing login plain c (Some role)" for c using role by (simp add: bypassing_def)
  define sw' where "sw' = (if usable ps (pl_world w) (conns al) \<and> bypassing login plain (conns al) (roles (pl_world w) (conns al))
    then conns al # rest else rest)"
  have "pl_switched w' = pl_switched w @ sw'" using w'(3) sw by (auto simp: sw'_def)
  moreover have "roles (pl_world w') = (\<lambda>c. if c \<in> set sw' then Some role else roles (pl_world w) c)"
    using w'(5) sw by (auto simp: sw'_def fun_eq_iff)
  moreover have "\<forall>c \<in> set sw'. usable ps (pl_world w) c \<and> bypassing login plain c (roles (pl_world w) c)"
    using w'(6) sw v(3) set_role by (auto simp: sw'_def split: if_splits)
  moreover have "usable ps (pl_world w) (conns al) \<longrightarrow> \<not> bypassing login plain (conns al) (roles (pl_world w') (conns al))"
    using w'(5) sw set_role by (auto split: if_splits)
  ultimately show ?case using run v w' by (intro exI [of _ w'] exI [of _ sw']) auto
qed

subsection \<open>The fixture enforces, and gives back\<close>

text \<open>
  The test under \<^verbatim>\<open>enforce_rls\<close> starts on connections that row-level security applies to, on every alias it may use; however it
  ends, each connection the fixture or its receiver switched has its login role again when it can take the statement
  (else it is closed, or the rollback gives the role back), the receiver is gone, and the test's own outcome stands.
\<close>

theorem enforce_rls_outcome:
  assumes laws: "role_laws ps roles login plain" and als: "reachable_aliases ps conns (pl_world w) (in_aliases config)" and role: "role \<in> plain"
  shows "\<exists>w1 r w2 w3. test w1 = (r, w2) \<and> enforce_rls ps config role thread test w = (r, w3) \<and>
    pl_receivers w1 = pl_receivers w @ [reopened_receiver (aliases config) role thread] \<and>
    list_all (\<lambda>al. usable ps (pl_world w) (conns al) \<longrightarrow>
      bypasses_rls ps (conns al) ''current_user'' (pl_world w1) = (Inr False, pl_world w1)) (in_aliases config) \<and>
    roles (pl_world w1) = (\<lambda>c. if c \<in> set (pl_switched w1) then Some role else roles (pl_world w) c) \<and>
    pl_receivers w3 = remove1 (reopened_receiver (aliases config) role thread) (pl_receivers w2) \<and>
    roles (pl_world w3) = (\<lambda>c. if c \<in> set (pl_switched w2) \<and> usable ps (pl_world w2) c then None else roles (pl_world w2) c)"
proof -
  let ?r = "reopened_receiver (aliases config) role thread" and ?start = "w\<lparr>pl_switched := []\<rparr>"
  have members: "set (aliases config) = set (in_aliases config)" by (simp add: aliases_def)
  then have "reachable_aliases ps conns (pl_world ?start) (aliases config)" using als by (simp add: reachable_aliases_def)
  from switch_aliases_law [OF laws this role] obtain v sw where v:
    "py_for (aliases config) (switch_alias ps role) ?start = (Inr (), v)" "pl_receivers v = pl_receivers w" "pl_switched v = sw"
    "usable ps (pl_world v) = usable ps (pl_world w)" "roles (pl_world v) = (\<lambda>c. if c \<in> set sw then Some role else roles (pl_world w) c)"
    "\<forall>al \<in> set (aliases config). usable ps (pl_world w) (conns al) \<longrightarrow> \<not> bypassing login plain (conns al) (roles (pl_world v) (conns al))"
    by (auto cong: if_cong)
  define w1 where "w1 = v\<lparr>pl_receivers := pl_receivers v @ [?r]\<rparr>"
  obtain r w2 where test: "test w1 = (r, w2)" by (cases "test w1")
  obtain w3 where w3: "py_for (pl_switched w2) (\<lambda>c. on_database (reset_role ps c)) (w2\<lparr>pl_receivers := remove1 ?r (pl_receivers w2)\<rparr>) = (Inr (), w3)"
      "pl_receivers w3 = remove1 ?r (pl_receivers w2)"
      "roles (pl_world w3) = (\<lambda>c. if c \<in> set (pl_switched w2) \<and> usable ps (pl_world w2) c then None else roles (pl_world w2) c)"
    using resets_law [OF laws, of "pl_switched w2" "w2\<lparr>pl_receivers := remove1 ?r (pl_receivers w2)\<rparr>"] by (auto cong: if_cong)
  have "enforce_rls ps config role thread test w = (r, w3)"
    using v(1) test w3(1)
    by (simp add: enforce_rls_def Let_def py_seq_def py_modify_def py_bind_def py_finally_def connect_def disconnect_def py_get_def w1_def)
  moreover have "list_all (\<lambda>al. usable ps (pl_world w) (conns al) \<longrightarrow>
      bypasses_rls ps (conns al) ''current_user'' (pl_world w1) = (Inr False, pl_world w1)) (in_aliases config)"
    using v(4,6) members bypasses_law [OF laws] by (simp add: list_all_iff w1_def)
  ultimately show ?thesis using test v w3 by (intro exI [of _ w1] exI [of _ r] exI [of _ w2] exI [of _ w3]) (simp add: w1_def)
qed

text \<open>A connection that is opened on the test's thread while the fixture is active is enforced as it opens.\<close>

lemma receives_law:
  assumes laws: "role_laws ps roles login plain" and "usable ps (pl_world w) c" and "\<forall>r \<in> set rs. re_role r \<in> plain"
  shows "\<exists>w'. py_for rs (receive ps thread c) w = (Inr (), w') \<and> usable ps (pl_world w') = usable ps (pl_world w) \<and>
    (bypassing login plain c (roles (pl_world w') c) \<longrightarrow> bypassing login plain c (roles (pl_world w) c) \<and>
       (\<forall>r \<in> set rs. (thread = re_thread r) = re_on_this_thread r \<longrightarrow> ps_alias ps c \<notin> set (re_aliases r)))"
  using assms(2,3)
proof (induction rs arbitrary: w)
  case Nil
  then show ?case by (simp add: py_ret_def)
next
  case (Cons r rs)
  let ?heard = "(thread = re_thread r) = re_on_this_thread r \<and> ps_alias ps c \<in> set (re_aliases r)"
  obtain v where v: "receive ps thread c r w = (Inr (), v)" "usable ps (pl_world v) = usable ps (pl_world w)"
    "if ?heard then \<not> bypassing login plain c (roles (pl_world v) c) else v = w"
  proof (cases ?heard)
    case False
    then show thesis by (intro that [of w]) (auto simp: receive_def py_ret_def)
  next
    case True
    have "re_role r \<in> plain" using Cons.prems by simp
    from switch_law [OF laws Cons.prems(1) this] obtain u where u:
      "switch_role ps c (re_role r) (pl_world w) = (Inr (bypassing login plain c (roles (pl_world w) c)), u)"
      "usable ps u = usable ps (pl_world w)" "\<not> bypassing login plain c (roles u c)" by blast
    show thesis using True u
      by (intro that [of "snd (receive ps thread c r w)"])
        (auto simp: receive_def py_bind_def on_database_def record_switched_def py_modify_def py_get_def py_ret_def)
  qed
  have "usable ps (pl_world v) c" using v(2) Cons.prems by simp
  from Cons.IH [OF this] Cons.prems(2) obtain w' where w': "py_for rs (receive ps thread c) v = (Inr (), w')"
      "usable ps (pl_world w') = usable ps (pl_world v)"
      "bypassing login plain c (roles (pl_world w') c) \<longrightarrow> bypassing login plain c (roles (pl_world v) c) \<and>
       (\<forall>r \<in> set rs. (thread = re_thread r) = re_on_this_thread r \<longrightarrow> ps_alias ps c \<notin> set (re_aliases r))" by auto
  then show ?case using v by (intro exI [of _ w']) (auto simp: py_seq_def py_bind_def split: if_splits)
qed

theorem reopened_connection_is_enforced:
  assumes laws: "role_laws ps roles login plain" and c: "usable ps (pl_world w) c" "ps_alias ps c \<in> set (in_aliases config)"
    and receivers: "\<forall>r \<in> set (pl_receivers w). re_role r \<in> plain"
    and active: "reopened_receiver (aliases config) role thread \<in> set (pl_receivers w)"
  shows "\<exists>w'. connection_opened ps thread c w = (Inr (), w') \<and> bypasses_rls ps c ''current_user'' (pl_world w') = (Inr False, pl_world w')"
proof -
  obtain w' where w': "py_for (pl_receivers w) (receive ps thread c) w = (Inr (), w')" "usable ps (pl_world w') = usable ps (pl_world w)"
    "bypassing login plain c (roles (pl_world w') c) \<longrightarrow>
       (\<forall>r \<in> set (pl_receivers w). (thread = re_thread r) = re_on_this_thread r \<longrightarrow> ps_alias ps c \<notin> set (re_aliases r))"
    using receives_law [OF laws c(1) receivers] by blast
  have "ps_alias ps c \<in> set (re_aliases (reopened_receiver (aliases config) role thread))"
    "(thread = re_thread (reopened_receiver (aliases config) role thread)) = re_on_this_thread (reopened_receiver (aliases config) role thread)"
    using c(2) by (simp_all add: reopened_receiver_def aliases_def)
  then have "\<not> bypassing login plain c (roles (pl_world w') c)" using w'(3) active by blast
  moreover have "usable ps (pl_world w') c" using w'(2) c(1) by simp
  ultimately show ?thesis using w'(1) bypasses_law [OF laws, of "pl_world w'" c]
    by (intro exI [of _ w']) (simp add: connection_opened_def py_bind_def py_get_def)
qed

text \<open>
  The configuration is accepted exactly when the role's name is one lowercase identifier that PostgreSQL does not cut, so
  that it can stand in a statement as it is, and there is an alias to switch.
\<close>

theorem configured_role_is_one_name:
  "pytest_configure config = Inr () \<longleftrightarrow>
     in_role config \<noteq> [] \<and> length (in_role config) \<le> 63 \<and> list_all role_char (in_role config) \<and> \<not> is_digit (hd (in_role config)) \<and>
     in_aliases config \<noteq> []"
proof -
  have start: "role_start c \<longleftrightarrow> role_char c \<and> \<not> is_digit c" for c
    by (auto simp: role_char_def role_start_def is_lower_letter_def is_digit_def Let_def)
  have "role_name_ok s \<longleftrightarrow> s \<noteq> [] \<and> length s \<le> 63 \<and> list_all role_char s \<and> \<not> is_digit (hd s)" for s
    by (cases s) (auto simp: start)
  then show ?thesis by (auto simp: pytest_configure_def check_def ck_bind_def aliases_def)
qed

text \<open>A role that bypasses row-level security is refused before a statement is sent.\<close>

lemma bypassing_role_is_refused:
  assumes "ps_fetch ps c (bypasses_sql ''current_user'') [] w = (Inr (Some (Some True)), w1)"
    and "ps_fetch ps c (bypasses_sql ''%s'') [role] w1 = (Inr (Some (Some True)), w2)"
  shows "prepare_role ps c role w = (Inl failed, w2)"
  using assms by (simp add: prepare_role_def bypasses_rls_def py_bind_def py_seq_def py_ret_def truthy_row_def py_require_def)

subsection \<open>A concrete run\<close>

text \<open>The world is the role of each connection; every login role bypasses row-level security.\<close>

definition demo_role_site :: "(nat \<Rightarrow> string option) role_site" where
  "demo_role_site = \<lparr>ps_connection = (\<lambda>al. py_ret (if al = ''default'' then 0 else 1)), ps_alias = (\<lambda>c. if c = 0 then ''default'' else ''other''),
     ps_fetch = (\<lambda>c _ _ w. (Inr (Some (Some (case w c of None \<Rightarrow> True | Some r \<Rightarrow> r \<noteq> ''rls_test_role''))), w)),
     ps_execute = (\<lambda>c sql w. (Inr (), if sql = ''RESET ROLE'' then w(c := None) else if take 9 sql = ''SET ROLE '' then w(c := Some (drop 9 sql)) else w)),
     ps_schemas = (\<lambda>_. py_ret [''public'']), ps_atomic = (\<lambda>_ m. m), ps_in_atomic = (\<lambda>_ _. False), ps_open = (\<lambda>_ _. True),
     ps_closed_in_transaction = (\<lambda>_ _. False), ps_status = (\<lambda>_ _. Idle)\<rparr>"

definition demo_plugin :: "(nat \<Rightarrow> string option) plugin" where
  "demo_plugin = \<lparr>pl_world = (\<lambda>_. None), pl_receivers = [], pl_switched = []\<rparr>"

lemma demo_role_laws: "role_laws demo_role_site (\<lambda>w. w) (\<lambda>_. True) {''rls_test_role''}"
proof -
  have "bypassing (\<lambda>_. True) {''rls_test_role''} c role = (case role of None \<Rightarrow> True | Some r \<Rightarrow> r \<noteq> ''rls_test_role'')" for c role
    by (simp add: bypassing_def split: option.split)
  moreover have "usable demo_role_site = (\<lambda>_ _. True)" by (simp add: fun_eq_iff usable_def demo_role_site_def in_failed_transaction_def)
  ultimately show ?thesis by (simp add: role_laws_def demo_role_site_def)
qed

text \<open>A test that asks whether its connection bypasses row-level security.\<close>

lemma enforce_rls_outcome_witness:
  "fst (enforce_rls demo_role_site default_options ''rls_test_role'' 1 (on_database (bypasses_rls demo_role_site 0 ''current_user'')) demo_plugin) = Inr False"
proof -
  let ?test = "on_database (bypasses_rls demo_role_site 0 ''current_user'')"
  have als: "reachable_aliases demo_role_site (\<lambda>al. if al = ''default'' then 0 else 1) (pl_world demo_plugin) (in_aliases default_options)"
    by (simp add: reachable_aliases_def default_options_def demo_role_site_def usable_def in_failed_transaction_def py_ret_def)
  have open_conn: "usable demo_role_site v 0" for v by (simp add: usable_def demo_role_site_def in_failed_transaction_def)
  obtain w1 r w2 w3 where o: "?test w1 = (r, w2)" "enforce_rls demo_role_site default_options ''rls_test_role'' 1 ?test demo_plugin = (r, w3)"
    "list_all (\<lambda>al. usable demo_role_site (pl_world demo_plugin) (if al = ''default'' then 0 else 1) \<longrightarrow>
      bypasses_rls demo_role_site (if al = ''default'' then 0 else 1) ''current_user'' (pl_world w1) = (Inr False, pl_world w1)) (in_aliases default_options)"
    using enforce_rls_outcome [OF demo_role_laws als, of "''rls_test_role''" ?test 1] by auto
  then have "bypasses_rls demo_role_site 0 ''current_user'' (pl_world w1) = (Inr False, pl_world w1)"
    by (simp add: default_options_def open_conn)
  then show ?thesis using o(1,2) by (simp add: on_database_def)
qed

lemma reopened_connection_is_enforced_witness:
  "\<exists>w'. connection_opened demo_role_site 1 0
       (demo_plugin\<lparr>pl_receivers := [reopened_receiver (aliases default_options) ''rls_test_role'' 1]\<rparr>) = (Inr (), w') \<and>
     bypasses_rls demo_role_site 0 ''current_user'' (pl_world w') = (Inr False, pl_world w')"
  by (rule reopened_connection_is_enforced [OF demo_role_laws, where config = default_options and role = "''rls_test_role''"])
    (simp_all add: usable_def demo_role_site_def in_failed_transaction_def default_options_def reopened_receiver_def)

end
