(* ===== verification/Prefetches.thy ===== *)
theory Prefetches
  imports Managers "HOL-Library.Sublist"
begin

text \<open>
  The tenant filters of \<^verbatim>\<open>prefetch_related()\<close> in \<^verbatim>\<open>tenants/managers.py\<close>, and its asynchronous iterator.  A path is the list
  of its names.  The descriptor a name has on a model is Django's: an argument, like the fetch mode of a fresh queryset.
\<close>

subsection \<open>Lookups\<close>

text \<open>
  A lookup is a path or a \<^verbatim>\<open>Prefetch\<close>: \<^verbatim>\<open>prefetch_through\<close>, the \<^verbatim>\<open>to_attr\<close>, and the queryset, with its own lookups.
\<close>

datatype lookup =
    PathLookup "string list"
  | Prefetch "string list" "string option" "prefetch_rows option"
and prefetch_rows =
    PrefetchRows dj_model "condition list" "string option" "lookup list"

fun rows_model :: "prefetch_rows \<Rightarrow> dj_model" where
  "rows_model (PrefetchRows m filters mode lookups) = m"

fun prefetch_through :: "lookup \<Rightarrow> string list" where
  "prefetch_through (PathLookup path) = path"
| "prefetch_through (Prefetch path to_attr rows) = path"

fun to_attr_of :: "lookup \<Rightarrow> string option" where
  "to_attr_of (PathLookup path) = None"
| "to_attr_of (Prefetch path to_attr rows) = to_attr"

text \<open>\<^verbatim>\<open>prefetch_to\<close>: the last name is the \<^verbatim>\<open>to_attr\<close>'s, if there is one.\<close>

definition prefetch_to :: "lookup \<Rightarrow> string list" where
  "prefetch_to l = (case to_attr_of l of None \<Rightarrow> prefetch_through l | Some a \<Rightarrow> butlast (prefetch_through l) @ [a])"

text \<open>What a class has under a name; a relation's model may be an unresolved lazy reference.\<close>

datatype descriptor =
    ForwardManyToOne related
  | ReverseOneToOne related
  | ManyToMany bool related related
  | ReverseManyToOne bool related
  | OtherDescriptor

record 'd prefetch_env =
  pe_orm :: "'d orm"
  pe_descriptor :: "dj_model \<Rightarrow> string \<Rightarrow> descriptor option"
  pe_default_mode :: "string option"

text \<open>\<open>ManyToMany reverse rel_model model\<close> are \<^verbatim>\<open>descriptor.reverse\<close> and the two models of its \<^verbatim>\<open>rel\<close>.\<close>

definition prefetch_hop :: "'d prefetch_env \<Rightarrow> dj_model option \<Rightarrow> string \<Rightarrow> dj_model option \<times> bool" where
  "prefetch_hop env m name =
     (case Option.bind m (\<lambda>m. pe_descriptor env m name) of
        Some d \<Rightarrow>
          (let found = (case d of
               ForwardManyToOne target \<Rightarrow> Some (target, True)
             | ReverseOneToOne target \<Rightarrow> Some (target, True)
             | ManyToMany reverse rel_model target \<Rightarrow> Some (if reverse then rel_model else target, False)
             | ReverseManyToOne to_one_rel target \<Rightarrow> if to_one_rel then Some (target, False) else None
             | OtherDescriptor \<Rightarrow> None)
           in case found of
                Some (ToModel label, unscoped) \<Rightarrow>
                  (case ap_models (or_apps (pe_orm env)) label of Some t \<Rightarrow> (Some t, unscoped) | None \<Rightarrow> (None, False))
              | _ \<Rightarrow> (None, False))
      | None \<Rightarrow> (None, False))"

definition tenant_rows :: "'d prefetch_env \<Rightarrow> dj_model \<Rightarrow> tenant_id \<Rightarrow> string option \<Rightarrow> prefetch_rows" where
  "tenant_rows env m tenant mode =
     PrefetchRows m (case tenant_attname (pe_orm env) m of None \<Rightarrow> [] | Some att \<Rightarrow> [AttrIs [] att (Some tenant)]) mode []"

subsection \<open>The walk over a lookup\<close>

text \<open>
  \<^verbatim>\<open>with_queryset\<close> and \<^verbatim>\<open>targets\<close>, which the lookups of a whole prefetch share; \<open>known\<close> is a target, with the mode of its objects.
\<close>

type_synonym known = "dj_model \<times> string option"

record walk_state =
  ws_with_queryset :: "string list set"
  ws_targets :: "string list \<rightharpoonup> known"

text \<open>\<^verbatim>\<open>get_current_prefetch_to(level)\<close>, which ends in the \<^verbatim>\<open>to_attr\<close> at the last level.\<close>

definition hop_path :: "string list \<Rightarrow> string option \<Rightarrow> string \<Rightarrow> string list \<Rightarrow> string list" where
  "hop_path behind to_attr name names =
     behind @ [if names = [] then (case to_attr of None \<Rightarrow> name | Some a \<Rightarrow> a) else name]"

text \<open>The objects a hop reaches: those an earlier lookup fetched, or else those of the descriptor.\<close>

definition reached :: "'d prefetch_env \<Rightarrow> known option \<Rightarrow> dj_model option \<Rightarrow> bool \<Rightarrow> string option \<Rightarrow> known option" where
  "reached env earlier resolved unscoped mode =
     (case earlier of
        Some k \<Rightarrow> Some k
      | None \<Rightarrow> map_option (\<lambda>m. (m, if unscoped then mode else pe_default_mode env)) resolved)"

text \<open>
  The loop over the hops of a lookup, of which \<open>done\<close> are behind: the lookups inserted, and for the last hop, where it is
  reached and needs a filter, its model and mode.
\<close>

fun scope_hops ::
  "'d prefetch_env \<Rightarrow> tenant_id \<Rightarrow> string list \<Rightarrow> string list \<Rightarrow> string option \<Rightarrow> string list \<Rightarrow> dj_model option \<Rightarrow> string option \<Rightarrow>
     walk_state \<Rightarrow> lookup list \<times> known option \<times> walk_state" where
  "scope_hops env tenant outer behind to_attr [] current mode ws = ([], None, ws)"
| "scope_hops env tenant outer behind to_attr (name # names) current mode ws =
     (let path = hop_path behind to_attr name names;
          (resolved, unscoped) = prefetch_hop env current name
      in case reached env (ws_targets ws (outer @ path)) resolved unscoped mode of
           None \<Rightarrow> ([], None, ws)
         | Some (m, mode') \<Rightarrow>
             (let ws1 = ws\<lparr>ws_targets := (ws_targets ws)(outer @ path \<mapsto> (m, mode'))\<rparr>;
                  needs_scope = (unscoped \<and> is_rls_protected (pe_orm env) m \<and> outer @ path \<notin> ws_with_queryset ws)
              in if names = [] then ([], if needs_scope then Some (m, mode') else None, ws1)
                 else if needs_scope
                 then (case scope_hops env tenant outer path to_attr names (Some m) mode'
                             (ws1\<lparr>ws_with_queryset := insert (outer @ path) (ws_with_queryset ws)\<rparr>) of
                         (inserted, leaf, ws2) \<Rightarrow> (Prefetch path None (Some (tenant_rows env m tenant mode')) # inserted, leaf, ws2))
                 else scope_hops env tenant outer path to_attr names (Some m) mode' ws1))"

text \<open>The loop over the lookups: the rewritten ones, and whether one changed.\<close>

fun scope_lookups ::
  "'d prefetch_env \<Rightarrow> tenant_id \<Rightarrow> dj_model \<Rightarrow> string option \<Rightarrow> string list \<Rightarrow> lookup list \<Rightarrow> walk_state \<Rightarrow>
     lookup list \<times> bool \<times> walk_state" where
  "scope_lookups env tenant m mode outer [] ws = ([], False, ws)"
| "scope_lookups env tenant m mode outer (PathLookup path # rest) ws =
     (let (inserted, leaf, ws1) = scope_hops env tenant outer [] None path (Some m) mode ws;
          (result, changed, ws2) = (case leaf of
             None \<Rightarrow> (PathLookup path, inserted \<noteq> [], ws1)
           | Some (t, mode') \<Rightarrow> (Prefetch path None (Some (tenant_rows env t tenant mode')), True,
               ws1\<lparr>ws_with_queryset := insert (outer @ path) (ws_with_queryset ws1)\<rparr>));
          (rewritten, changed_rest, ws3) = scope_lookups env tenant m mode outer rest ws2
      in (inserted @ result # rewritten, changed \<or> changed_rest, ws3))"
| "scope_lookups env tenant m mode outer (Prefetch path to_attr None # rest) ws =
     (let to = prefetch_to (Prefetch path to_attr None);
          (inserted, leaf, ws1) = scope_hops env tenant outer [] to_attr path (Some m) mode ws;
          (result, changed, ws2) = (case leaf of
             None \<Rightarrow> (Prefetch path to_attr None, inserted \<noteq> [], ws1)
           | Some (t, mode') \<Rightarrow> (Prefetch path to_attr (Some (tenant_rows env t tenant mode')), True,
               ws1\<lparr>ws_with_queryset := insert (outer @ to) (ws_with_queryset ws1)\<rparr>));
          (rewritten, changed_rest, ws3) = scope_lookups env tenant m mode outer rest ws2
      in (inserted @ result # rewritten, changed \<or> changed_rest, ws3))"
| "scope_lookups env tenant m mode outer (Prefetch path to_attr (Some (PrefetchRows q filters inner_mode inner)) # rest) ws =
     (let to = prefetch_to (Prefetch path to_attr None);
          (inserted, leaf, ws1) = scope_hops env tenant outer [] to_attr path (Some m) mode ws;
          (scoped_inner, changed_inner, ws2) = scope_lookups env tenant q inner_mode (outer @ to) inner
             (ws1\<lparr>ws_with_queryset := insert (outer @ to) (ws_with_queryset ws1),
                  ws_targets := (ws_targets ws1)(outer @ to \<mapsto> (q, inner_mode))\<rparr>);
          result = Prefetch path to_attr (Some (PrefetchRows q filters inner_mode (if changed_inner then scoped_inner else inner)));
          (rewritten, changed_rest, ws3) = scope_lookups env tenant m mode outer rest ws2
      in (inserted @ result # rewritten, inserted \<noteq> [] \<or> changed_inner \<or> changed_rest, ws3))"

definition scoped_prefetch_lookups ::
  "'d prefetch_env \<Rightarrow> dj_model \<Rightarrow> lookup list \<Rightarrow> tenant_id \<Rightarrow> string option \<Rightarrow> lookup list" where
  "scoped_prefetch_lookups env m lookups tenant mode =
     (case scope_lookups env tenant m mode [] lookups \<lparr>ws_with_queryset = {}, ws_targets = Map.empty\<rparr> of
        (rewritten, changed, _) \<Rightarrow> if changed then rewritten else lookups)"

subsection \<open>The queryset's lookups\<close>

text \<open>\<open>lookups\<close> are its \<^verbatim>\<open>_prefetch_related_lookups\<close> and \<open>mode\<close> is its \<^verbatim>\<open>_fetch_mode\<close>.\<close>

definition prefetch_tenant :: "queryset \<Rightarrow> rls_state \<Rightarrow> tenant_id option" where
  "prefetch_tenant qs s =
     (case q_user qs of
        None \<Rightarrow> get_current_tenant_id s
      | Some user \<Rightarrow> if u_is_admin user then None else u_tenant user)"

definition tenant_prefetch_lookups ::
  "'d prefetch_env \<Rightarrow> queryset \<Rightarrow> lookup list \<Rightarrow> string option \<Rightarrow> rls_state \<Rightarrow> lookup list" where
  "tenant_prefetch_lookups env qs lookups mode s =
     (if lookups = [] \<or> q_shared qs then lookups
      else case prefetch_tenant qs s of
        None \<Rightarrow> lookups
      | Some tenant \<Rightarrow> scoped_prefetch_lookups env (q_model qs) lookups tenant mode)"

text \<open>\<open>prefetch\<close> is Django's \<^verbatim>\<open>prefetch_related_objects\<close> on the cached rows.\<close>

definition prefetch_related_objects ::
  "'d prefetch_env \<Rightarrow> queryset \<Rightarrow> lookup list \<Rightarrow> string option \<Rightarrow> bool \<Rightarrow> (lookup list \<Rightarrow> ('d aff, unit) py) \<Rightarrow> ('d aff, queryset) py" where
  "prefetch_related_objects env qs lookups mode has_rows prefetch =
     py_seq (if has_rows
             then py_bind (py_get (\<lambda>w. tenant_prefetch_lookups env qs lookups mode (a_state w))) prefetch
             else py_ret ())
       (py_ret (qs\<lparr>q_prefetch_done := True\<rparr>))"

subsection \<open>The asynchronous iterator\<close>

text \<open>Each chunk is pulled from \<^verbatim>\<open>iterator()\<close> in one hop; the caller's loop body runs between the hops.\<close>

definition aiterator ::
  "nat \<Rightarrow> 'd orm \<Rightarrow> queryset \<Rightarrow> int \<Rightarrow> (nat \<Rightarrow> ('d, 'r list) sql) \<Rightarrow> ('d, 'r list) sql \<Rightarrow> ('r list \<Rightarrow> ('d aff, unit) py) \<Rightarrow> ('d aff, bool) py" where
  "aiterator fuel env qs chunk_size pull all_rows consume =
     (case q_user qs of
        None \<Rightarrow> py_seq (check_strict_mode env qs) (py_bind (all_rows qs) (\<lambda>rows. py_seq (consume rows) (py_ret True)))
      | Some _ \<Rightarrow> py_seq (py_require (0 < chunk_size) ValueError)
          (iterator fuel env qs (Some (nat chunk_size)) pull all_rows consume))"

subsection \<open>What is prefetched through which queryset\<close>

text \<open>
  The hops of the lookups onto protected models that Django would fetch through a base manager, with their models: the walk
  without the rewriting.
\<close>

fun walk_hops ::
  "'d prefetch_env \<Rightarrow> string list \<Rightarrow> string list \<Rightarrow> string option \<Rightarrow> string list \<Rightarrow> dj_model option \<Rightarrow> string option \<Rightarrow>
     (string list \<rightharpoonup> known) \<Rightarrow> (string list \<times> dj_model) list \<times> (string list \<rightharpoonup> known)" where
  "walk_hops env outer behind to_attr [] current mode targets = ([], targets)"
| "walk_hops env outer behind to_attr (name # names) current mode targets =
     (let path = hop_path behind to_attr name names;
          (resolved, unscoped) = prefetch_hop env current name
      in case reached env (targets (outer @ path)) resolved unscoped mode of
           None \<Rightarrow> ([], targets)
         | Some (m, mode') \<Rightarrow>
             (case walk_hops env outer path to_attr names (Some m) mode' (targets(outer @ path \<mapsto> (m, mode'))) of
                (hops, targets') \<Rightarrow> ((if unscoped \<and> is_rls_protected (pe_orm env) m then [(outer @ path, m)] else []) @ hops, targets')))"

fun base_hops ::
  "'d prefetch_env \<Rightarrow> dj_model \<Rightarrow> string option \<Rightarrow> string list \<Rightarrow> lookup list \<Rightarrow> (string list \<rightharpoonup> known) \<Rightarrow>
     (string list \<times> dj_model) list \<times> (string list \<rightharpoonup> known)" where
  "base_hops env m mode outer [] targets = ([], targets)"
| "base_hops env m mode outer (PathLookup path # rest) targets =
     (case walk_hops env outer [] None path (Some m) mode targets of (hops, targets1) \<Rightarrow>
        (case base_hops env m mode outer rest targets1 of (others, targets2) \<Rightarrow> (hops @ others, targets2)))"
| "base_hops env m mode outer (Prefetch path to_attr None # rest) targets =
     (case walk_hops env outer [] to_attr path (Some m) mode targets of (hops, targets1) \<Rightarrow>
        (case base_hops env m mode outer rest targets1 of (others, targets2) \<Rightarrow> (hops @ others, targets2)))"
| "base_hops env m mode outer (Prefetch path to_attr (Some (PrefetchRows q filters inner_mode inner)) # rest) targets =
     (let to = prefetch_to (Prefetch path to_attr None) in
      case walk_hops env outer [] to_attr path (Some m) mode targets of (hops, targets1) \<Rightarrow>
        (case base_hops env q inner_mode (outer @ to) inner (targets1(outer @ to \<mapsto> (q, inner_mode))) of (inside, targets2) \<Rightarrow>
           (case base_hops env m mode outer rest targets2 of (others, targets3) \<Rightarrow> (hops @ inside @ others, targets3))))"

text \<open>The querysets the lookups carry, by path: the model, the filters and the mode.\<close>

type_synonym carried = "string list \<times> dj_model \<times> condition list \<times> string option"

fun querysets :: "string list \<Rightarrow> lookup list \<Rightarrow> carried list" where
  "querysets outer [] = []"
| "querysets outer (PathLookup path # rest) = querysets outer rest"
| "querysets outer (Prefetch path to_attr None # rest) = querysets outer rest"
| "querysets outer (Prefetch path to_attr (Some (PrefetchRows q filters mode inner)) # rest) =
     (let to = outer @ prefetch_to (Prefetch path to_attr None)
      in (to, q, filters, mode) # querysets to inner @ querysets outer rest)"

lemma querysets_append: "querysets outer (xs @ ys) = querysets outer xs @ querysets outer ys"
  by (induction outer xs rule: querysets.induct) (simp_all add: Let_def)

definition tenant_only :: "'d prefetch_env \<Rightarrow> tenant_id \<Rightarrow> dj_model \<Rightarrow> condition list" where
  "tenant_only env tenant m = (case tenant_attname (pe_orm env) m of None \<Rightarrow> [] | Some att \<Rightarrow> [AttrIs [] att (Some tenant)])"

lemma tenant_rows_carried: "tenant_rows env m tenant mode = PrefetchRows m (tenant_only env tenant m) mode []"
  by (simp add: tenant_rows_def tenant_only_def)

definition own_rows :: "'d prefetch_env \<Rightarrow> tenant_id \<Rightarrow> (string list \<times> dj_model) list \<Rightarrow> carried \<Rightarrow> bool" where
  "own_rows env tenant hops c = (case c of (p, m, filters, mode) \<Rightarrow> (p, m) \<in> set hops \<and> filters = tenant_only env tenant m)"

text \<open>The path of the last hop.\<close>

definition last_path :: "string list \<Rightarrow> string option \<Rightarrow> string list \<Rightarrow> string list" where
  "last_path behind to_attr names = behind @ (case to_attr of None \<Rightarrow> names | Some a \<Rightarrow> butlast names @ [a])"

lemma last_path_prefetch_to: "last_path [] to_attr path = prefetch_to (Prefetch path to_attr rows)"
  by (simp add: last_path_def prefetch_to_def split: option.split)

lemma last_path_step:
  "names \<noteq> [] \<Longrightarrow> last_path behind to_attr (name # names) = last_path (behind @ [name]) to_attr names"
  by (cases to_attr) (simp_all add: last_path_def)

lemma scope_hops_walk:
  assumes "scope_hops env tenant outer behind to_attr names current mode ws = (ins, leaf, ws')"
    and "walk_hops env outer behind to_attr names current mode (ws_targets ws) = (hops, targets)"
  shows "targets = ws_targets ws' \<and> ws_with_queryset ws' = ws_with_queryset ws \<union> fst ` set (querysets outer ins) \<and>
    (\<forall>p m. (p, m) \<in> set hops \<longrightarrow> p \<in> ws_with_queryset ws' \<or> leaf \<noteq> None \<and> p = outer @ last_path behind to_attr names) \<and>
    list_all (own_rows env tenant hops) (querysets outer ins) \<and>
    (\<forall>m mode'. leaf = Some (m, mode') \<longrightarrow> (outer @ last_path behind to_attr names, m) \<in> set hops)"
  using assms
proof (induction names arbitrary: behind current mode ws ins leaf ws' hops targets)
  case Nil
  then show ?case by auto
next
  case (Cons name names)
  define path where "path = hop_path behind to_attr name names"
  obtain resolved unscoped where hop: "prefetch_hop env current name = (resolved, unscoped)" by (cases "prefetch_hop env current name")
  define found where "found = reached env (ws_targets ws (outer @ path)) resolved unscoped mode"
  note steps = hop path_def [symmetric] found_def [symmetric] Let_def
  show ?case
  proof (cases found)
    case None
    then have "hops = []" "targets = ws_targets ws" using Cons.prems(2) by (simp_all add: steps)
    moreover have "ins = []" "leaf = None" "ws' = ws" using None Cons.prems(1) by (simp_all add: steps)
    ultimately show ?thesis by simp
  next
    case (Some k)
    obtain m mode' where k: "k = (m, mode')" by (cases k)
    let ?ws1 = "ws\<lparr>ws_targets := (ws_targets ws)(outer @ path \<mapsto> (m, mode'))\<rparr>"
    let ?needs = "unscoped \<and> is_rls_protected (pe_orm env) m \<and> outer @ path \<notin> ws_with_queryset ws"
    obtain rest targets' where w: "walk_hops env outer path to_attr names (Some m) mode' (ws_targets ?ws1) = (rest, targets')"
      by (cases "walk_hops env outer path to_attr names (Some m) mode' (ws_targets ?ws1)")
    have hops: "hops = (if unscoped \<and> is_rls_protected (pe_orm env) m then [(outer @ path, m)] else []) @ rest" "targets = targets'"
      using Cons.prems(2) Some k w by (simp_all add: steps)
    let ?ws2 = "?ws1\<lparr>ws_with_queryset := insert (outer @ path) (ws_with_queryset ws)\<rparr>"
    have run: "(ins, leaf, ws') = (if names = [] then ([], if ?needs then Some (m, mode') else None, ?ws1)
        else if ?needs then (case scope_hops env tenant outer path to_attr names (Some m) mode' ?ws2 of
                         (inserted, leaf, ws2) \<Rightarrow> (Prefetch path None (Some (tenant_rows env m tenant mode')) # inserted, leaf, ws2))
        else scope_hops env tenant outer path to_attr names (Some m) mode' ?ws1)"
      using Cons.prems(1) Some k by (simp add: steps del: scope_hops.simps(1) split del: if_split)
    show ?thesis
    proof (cases "names = []")
      case True
      have last: "last_path behind to_attr [name] = path" using True by (simp add: path_def hop_path_def last_path_def split: option.split)
      have "(ins, leaf, ws') = ([], if ?needs then Some (m, mode') else None, ?ws1)"
        using run True by simp
      then show ?thesis using hops w True last by (auto simp: own_rows_def)
    next
      case False
      have last: "last_path behind to_attr (name # names) = last_path path to_attr names"
        using False by (simp add: path_def hop_path_def last_path_step)
      show ?thesis
      proof (cases ?needs)
        case True
        obtain ins' leaf' ws2 where s: "scope_hops env tenant outer path to_attr names (Some m) mode' ?ws2 = (ins', leaf', ws2)"
          by (cases "scope_hops env tenant outer path to_attr names (Some m) mode' ?ws2")
        have e: "ins = Prefetch path None (Some (tenant_rows env m tenant mode')) # ins'" "leaf = leaf'" "ws' = ws2"
          using run False True s by simp_all
        have "walk_hops env outer path to_attr names (Some m) mode' (ws_targets ?ws2) = (rest, targets')" using w by simp
        from Cons.IH [OF s this] show ?thesis using e hops last True
          by (auto simp: tenant_rows_carried prefetch_to_def own_rows_def list_all_iff Let_def split: prod.splits)
      next
        case False
        then have s: "scope_hops env tenant outer path to_attr names (Some m) mode' ?ws1 = (ins, leaf, ws')"
          using run \<open>names \<noteq> []\<close> by (simp only: if_False)
        from Cons.IH [OF s w] show ?thesis using hops last False
          by (auto simp: own_rows_def list_all_iff split: prod.splits)
      qed
    qed
  qed
qed

text \<open>What a lookup says of its own: the path it follows and the name it stores under.\<close>

definition shape :: "lookup \<Rightarrow> string list \<times> string option" where
  "shape l = (prefetch_through l, to_attr_of l)"

definition rewriting ::
  "'d prefetch_env \<Rightarrow> tenant_id \<Rightarrow> string list \<Rightarrow> lookup list \<Rightarrow> walk_state \<Rightarrow> lookup list \<Rightarrow> bool \<Rightarrow> walk_state \<Rightarrow>
     (string list \<times> dj_model) list \<Rightarrow> (string list \<rightharpoonup> known) \<Rightarrow> bool" where
  "rewriting env tenant outer ls ws out changed ws' hops targets \<longleftrightarrow>
     targets = ws_targets ws' \<and> ws_with_queryset ws' = ws_with_queryset ws \<union> fst ` set (querysets outer out) \<and>
     fst ` set hops \<subseteq> ws_with_queryset ws' \<and>
     list_all (\<lambda>c. c \<in> set (querysets outer ls) \<or> own_rows env tenant hops c) (querysets outer out) \<and>
     (\<not> changed \<longrightarrow> out = ls) \<and> subseq (map shape ls) (map shape out)"

lemma rewritingD:
  assumes "rewriting env tenant outer ls ws out changed ws' hops targets"
  shows "targets = ws_targets ws'" "ws_with_queryset ws' = ws_with_queryset ws \<union> fst ` set (querysets outer out)"
    "fst ` set hops \<subseteq> ws_with_queryset ws'"
    "list_all (\<lambda>c. c \<in> set (querysets outer ls) \<or> own_rows env tenant hops c) (querysets outer out)"
    "\<not> changed \<Longrightarrow> out = ls" "subseq (map shape ls) (map shape out)"
  using assms unfolding rewriting_def by argo+

lemma own_rows_append:
  "own_rows env tenant (hops @ hops') c \<longleftrightarrow> own_rows env tenant hops c \<or> own_rows env tenant hops' c"
  by (auto simp: own_rows_def split: prod.splits)

lemma subseq_append_left: "subseq xs ys \<Longrightarrow> subseq xs (zs @ ys)"
  by (induction zs) auto

text \<open>A lookup without a queryset: a path, or a \<^verbatim>\<open>Prefetch\<close> that only names where to store.\<close>

lemma plain_lookup_rewritten:
  assumes plain: "prefetch_through l = path" "to_attr_of l = to_attr" "querysets outer (l # ls) = querysets outer ls"
      "querysets outer [l] = []"
    and walk: "scope_hops env tenant outer [] to_attr path (Some m) mode ws = (ins, leaf, ws1)"
      "walk_hops env outer [] to_attr path (Some m) mode (ws_targets ws) = (hops1, targets1)"
    and result: "result = (case leaf of None \<Rightarrow> l | Some (t, mode') \<Rightarrow> Prefetch path to_attr (Some (tenant_rows env t tenant mode')))"
      "ws2 = (case leaf of None \<Rightarrow> ws1 | Some _ \<Rightarrow> ws1\<lparr>ws_with_queryset := insert (outer @ last_path [] to_attr path) (ws_with_queryset ws1)\<rparr>)"
      "changed1 = (leaf \<noteq> None \<or> ins \<noteq> [])"
    and rest: "rewriting env tenant outer ls ws2 out changed ws' hops2 targets2"
  shows "rewriting env tenant outer (l # ls) ws (ins @ result # out) (changed1 \<or> changed) ws' (hops1 @ hops2) targets2"
proof -
  note w = scope_hops_walk [OF walk]
  note r = rest [unfolded rewriting_def]
  have shape: "shape result = shape l" using plain result by (auto simp: shape_def split: option.split)
  have q: "querysets outer (ins @ result # out) = querysets outer ins @ querysets outer [result] @ querysets outer out"
    using querysets_append [of outer "[result]" out] by (simp add: querysets_append)
  have one: "fst ` set (querysets outer [result]) = (if leaf = None then {} else {outer @ last_path [] to_attr path})"
    "list_all (own_rows env tenant hops1) (querysets outer [result])"
    using result(1) plain w
    by (auto simp: tenant_rows_carried last_path_prefetch_to [where rows = None] own_rows_def Let_def split: option.splits)
  have first: "p \<in> ws_with_queryset ws2" if p: "p \<in> fst ` set hops1" for p
  proof -
    obtain x where "(p, x) \<in> set hops1" using p by auto
    with w have "p \<in> ws_with_queryset ws1 \<or> leaf \<noteq> None \<and> p = outer @ last_path [] to_attr path" by blast
    then show ?thesis using result(2) by (auto split: option.splits)
  qed
  have "fst ` set (hops1 @ hops2) \<subseteq> ws_with_queryset ws'"
    using first r by auto
  moreover have "ws_with_queryset ws' = ws_with_queryset ws \<union> fst ` set (querysets outer (ins @ result # out))"
    using w r result(2) one(1) unfolding q by (auto split: option.splits)
  moreover have "list_all (\<lambda>c. c \<in> set (querysets outer (l # ls)) \<or> own_rows env tenant (hops1 @ hops2) c) (querysets outer (ins @ result # out))"
  proof -
    have "list_all (own_rows env tenant hops1) (querysets outer ins @ querysets outer [result])" using w one(2) by simp
    moreover have "list_all (\<lambda>c. c \<in> set (querysets outer ls) \<or> own_rows env tenant hops2 c) (querysets outer out)" using r by blast
    ultimately show ?thesis unfolding q plain(3) own_rows_append by (auto simp: list_all_iff)
  qed
  moreover have "subseq (map shape (l # ls)) (map shape (ins @ result # out))"
    using r shape by (simp add: subseq_append_left)
  moreover have "\<not> (changed1 \<or> changed) \<longrightarrow> ins @ result # out = l # ls" using r result by (cases leaf) auto
  ultimately show ?thesis using r by (simp add: rewriting_def)
qed

text \<open>A \<^verbatim>\<open>Prefetch\<close> with a queryset: its own lookups are rewritten in turn.\<close>

lemma queryset_lookup_rewritten:
  assumes to_def: "to = last_path [] to_attr path"
    and walk: "scope_hops env tenant outer [] to_attr path (Some m) mode ws = (ins, leaf, ws1)"
      "walk_hops env outer [] to_attr path (Some m) mode (ws_targets ws) = (hops1, targets1)"
    and inner: "rewriting env tenant (outer @ to) inner
       (ws1\<lparr>ws_with_queryset := insert (outer @ to) (ws_with_queryset ws1), ws_targets := targets\<rparr>) inner' changed1 ws2 hops2 targets2"
    and rest: "rewriting env tenant outer ls ws2 out changed ws' hops3 targets3"
  shows "rewriting env tenant outer (Prefetch path to_attr (Some (PrefetchRows q filters inner_mode inner)) # ls) ws
    (ins @ Prefetch path to_attr (Some (PrefetchRows q filters inner_mode (if changed1 then inner' else inner))) # out)
    (ins \<noteq> [] \<or> changed1 \<or> changed) ws' (hops1 @ hops2 @ hops3) targets3"
proof -
  note w = scope_hops_walk [OF walk]
  let ?l = "\<lambda>inner. Prefetch path to_attr (Some (PrefetchRows q filters inner_mode inner))"
  have wq1: "ws_with_queryset ws1 = ws_with_queryset ws \<union> fst ` set (querysets outer ins)" and own1: "list_all (own_rows env tenant hops1) (querysets outer ins)"
    using w by blast+
  note i = rewritingD [OF inner] and r = rewritingD [OF rest]
  have wq2: "ws_with_queryset ws2 = insert (outer @ to) (ws_with_queryset ws1) \<union> fst ` set (querysets (outer @ to) inner')"
    using i(2) by simp
  have hops2: "fst ` set hops2 \<subseteq> ws_with_queryset ws2" and same: "\<not> changed1 \<Longrightarrow> inner' = inner" by (rule i(3), rule i(5))
  have new: "(if changed1 then inner' else inner) = inner'" using same by simp
  have to: "prefetch_to (Prefetch path to_attr None) = to" by (simp add: to_def last_path_prefetch_to [where rows = None])
  have q: "querysets outer (ins @ ?l inner' # out) = querysets outer ins @ (outer @ to, q, filters, inner_mode) # querysets (outer @ to) inner' @ querysets outer out"
    by (simp add: querysets_append to Let_def)
  have l: "querysets outer (?l inner # ls) = (outer @ to, q, filters, inner_mode) # querysets (outer @ to) inner @ querysets outer ls"
    by (simp add: to Let_def)
  have first: "p \<in> ws_with_queryset ws2" if p: "p \<in> fst ` set hops1" for p
  proof -
    obtain x where "(p, x) \<in> set hops1" using p by auto
    with w have "p \<in> ws_with_queryset ws1 \<or> p = outer @ to" unfolding to_def by blast
    then show ?thesis using wq2 by blast
  qed
  have hops: "fst ` set (hops1 @ hops2 @ hops3) \<subseteq> ws_with_queryset ws'"
    using first hops2 r(3) r(2) by (simp add: image_Un subset_iff)
  have wq: "ws_with_queryset ws' = ws_with_queryset ws \<union> fst ` set (querysets outer (ins @ ?l inner' # out))"
    unfolding r(2) wq2 wq1 q by (simp add: image_Un Un_assoc)
  let ?ok = "\<lambda>c. c \<in> set (querysets outer (?l inner # ls)) \<or> own_rows env tenant (hops1 @ hops2 @ hops3) c"
  have "list_all ?ok (querysets outer ins)" by (rule list.pred_mono_strong [OF own1]) (simp add: own_rows_append)
  moreover have "list_all ?ok (querysets (outer @ to) inner')"
    by (rule list.pred_mono_strong [OF i(4)]) (auto simp only: own_rows_append l set_simps set_append)
  moreover have "list_all ?ok (querysets outer out)"
    by (rule list.pred_mono_strong [OF r(4)]) (auto simp only: own_rows_append l set_simps set_append)
  moreover have "?ok (outer @ to, q, filters, inner_mode)" unfolding l by simp
  ultimately have own: "list_all ?ok (querysets outer (ins @ ?l inner' # out))" unfolding q by simp
  have "subseq (map shape (?l inner # ls)) (map shape (ins @ ?l inner' # out))"
    using r(6) by (simp add: subseq_append_left shape_def)
  moreover have "ins @ ?l inner' # out = ?l inner # ls" if "\<not> (ins \<noteq> [] \<or> changed1 \<or> changed)"
    using that same r(5) by simp
  ultimately show ?thesis using hops wq own r(1) unfolding new rewriting_def by blast
qed

lemma scope_lookups_rewriting:
  "scope_lookups env tenant m mode outer ls ws = (out, changed, ws') \<Longrightarrow>
   base_hops env m mode outer ls (ws_targets ws) = (hops, targets) \<Longrightarrow>
   rewriting env tenant outer ls ws out changed ws' hops targets"
proof (induction env tenant m mode outer ls ws arbitrary: out changed ws' hops targets rule: scope_lookups.induct)
  case (1 env tenant m mode outer ws)
  then show ?case by (auto simp: rewriting_def)
next
  case (2 env tenant m mode outer path rest ws)
  obtain ins leaf ws1 where s: "scope_hops env tenant outer [] None path (Some m) mode ws = (ins, leaf, ws1)"
    by (cases "scope_hops env tenant outer [] None path (Some m) mode ws")
  obtain hops1 targets1 where w: "walk_hops env outer [] None path (Some m) mode (ws_targets ws) = (hops1, targets1)"
    by (cases "walk_hops env outer [] None path (Some m) mode (ws_targets ws)")
  define result where "result = (case leaf of None \<Rightarrow> PathLookup path | Some (t, mode') \<Rightarrow> Prefetch path None (Some (tenant_rows env t tenant mode')))"
  define ws2 where "ws2 = (case leaf of None \<Rightarrow> ws1 | Some _ \<Rightarrow> ws1\<lparr>ws_with_queryset := insert (outer @ last_path [] None path) (ws_with_queryset ws1)\<rparr>)"
  have t: "ws_targets ws2 = targets1" using scope_hops_walk [OF s w] by (auto simp: ws2_def split: option.split)
  obtain out2 changed2 ws3 where o: "scope_lookups env tenant m mode outer rest ws2 = (out2, changed2, ws3)"
    by (cases "scope_lookups env tenant m mode outer rest ws2")
  obtain hops2 targets2 where h: "base_hops env m mode outer rest targets1 = (hops2, targets2)"
    by (cases "base_hops env m mode outer rest targets1")
  have step: "(case leaf of None \<Rightarrow> (PathLookup path, ins \<noteq> [], ws1)
      | Some (t, mode') \<Rightarrow> (Prefetch path None (Some (tenant_rows env t tenant mode')), True,
          ws1\<lparr>ws_with_queryset := insert (outer @ path) (ws_with_queryset ws1)\<rparr>)) = (result, leaf \<noteq> None \<or> ins \<noteq> [], ws2)"
    by (simp add: result_def ws2_def last_path_def split: option.split)
  have "rewriting env tenant outer rest ws2 out2 changed2 ws3 hops2 targets2"
    by (rule "2.IH" [OF s [symmetric] refl refl step [symmetric] refl refl o]) (simp add: t h)
  then have "rewriting env tenant outer (PathLookup path # rest) ws (ins @ result # out2) ((leaf \<noteq> None \<or> ins \<noteq> []) \<or> changed2) ws3 (hops1 @ hops2) targets2"
    by (intro plain_lookup_rewritten [OF _ _ _ _ s w result_def ws2_def refl]) simp_all
  moreover have "(out, changed, ws') = (ins @ result # out2, (leaf \<noteq> None \<or> ins \<noteq> []) \<or> changed2, ws3)"
    using "2.prems"(1) by (simp add: s step o del: split_paired_All)
  moreover have "(hops, targets) = (hops1 @ hops2, targets2)" using "2.prems"(2) by (simp add: w h)
  ultimately show ?case by simp
next
  case (3 env tenant m mode outer path to_attr rest ws)
  obtain ins leaf ws1 where s: "scope_hops env tenant outer [] to_attr path (Some m) mode ws = (ins, leaf, ws1)"
    by (cases "scope_hops env tenant outer [] to_attr path (Some m) mode ws")
  obtain hops1 targets1 where w: "walk_hops env outer [] to_attr path (Some m) mode (ws_targets ws) = (hops1, targets1)"
    by (cases "walk_hops env outer [] to_attr path (Some m) mode (ws_targets ws)")
  define result where "result = (case leaf of None \<Rightarrow> Prefetch path to_attr None
    | Some (t, mode') \<Rightarrow> Prefetch path to_attr (Some (tenant_rows env t tenant mode')))"
  define ws2 where "ws2 = (case leaf of None \<Rightarrow> ws1 | Some _ \<Rightarrow> ws1\<lparr>ws_with_queryset := insert (outer @ last_path [] to_attr path) (ws_with_queryset ws1)\<rparr>)"
  have t: "ws_targets ws2 = targets1" using scope_hops_walk [OF s w] by (auto simp: ws2_def split: option.split)
  obtain out2 changed2 ws3 where o: "scope_lookups env tenant m mode outer rest ws2 = (out2, changed2, ws3)"
    by (cases "scope_lookups env tenant m mode outer rest ws2")
  obtain hops2 targets2 where h: "base_hops env m mode outer rest targets1 = (hops2, targets2)"
    by (cases "base_hops env m mode outer rest targets1")
  have step: "(case leaf of None \<Rightarrow> (Prefetch path to_attr None, ins \<noteq> [], ws1)
      | Some (t, mode') \<Rightarrow> (Prefetch path to_attr (Some (tenant_rows env t tenant mode')), True,
          ws1\<lparr>ws_with_queryset := insert (outer @ prefetch_to (Prefetch path to_attr None)) (ws_with_queryset ws1)\<rparr>)) =
      (result, leaf \<noteq> None \<or> ins \<noteq> [], ws2)"
    by (simp add: result_def ws2_def last_path_prefetch_to [where rows = None] split: option.split)
  have "rewriting env tenant outer rest ws2 out2 changed2 ws3 hops2 targets2"
    by (rule "3.IH" [OF refl s [symmetric] refl refl step [symmetric] refl refl o]) (simp add: t h)
  then have "rewriting env tenant outer (Prefetch path to_attr None # rest) ws (ins @ result # out2)
      ((leaf \<noteq> None \<or> ins \<noteq> []) \<or> changed2) ws3 (hops1 @ hops2) targets2"
    by (intro plain_lookup_rewritten [OF _ _ _ _ s w result_def ws2_def refl]) simp_all
  moreover have "(out, changed, ws') = (ins @ result # out2, (leaf \<noteq> None \<or> ins \<noteq> []) \<or> changed2, ws3)"
    using "3.prems"(1) by (simp add: s step o Let_def)
  moreover have "(hops, targets) = (hops1 @ hops2, targets2)" using "3.prems"(2) by (simp add: w h)
  ultimately show ?case by simp
next
  case (4 env tenant m mode outer path to_attr q filters inner_mode inner rest ws)
  define to where "to = last_path [] to_attr path"
  have to: "prefetch_to (Prefetch path to_attr None) = to" by (simp add: to_def last_path_prefetch_to [where rows = None])
  obtain ins leaf ws1 where s: "scope_hops env tenant outer [] to_attr path (Some m) mode ws = (ins, leaf, ws1)"
    by (cases "scope_hops env tenant outer [] to_attr path (Some m) mode ws")
  obtain hops1 targets1 where w: "walk_hops env outer [] to_attr path (Some m) mode (ws_targets ws) = (hops1, targets1)"
    by (cases "walk_hops env outer [] to_attr path (Some m) mode (ws_targets ws)")
  have t1: "ws_targets ws1 = targets1" using scope_hops_walk [OF s w] by simp
  let ?ws = "ws1\<lparr>ws_with_queryset := insert (outer @ to) (ws_with_queryset ws1), ws_targets := (ws_targets ws1)(outer @ to \<mapsto> (q, inner_mode))\<rparr>"
  obtain inner' changed1 ws2 where i: "scope_lookups env tenant q inner_mode (outer @ to) inner ?ws = (inner', changed1, ws2)"
    by (cases "scope_lookups env tenant q inner_mode (outer @ to) inner ?ws")
  obtain hops2 targets2 where hi: "base_hops env q inner_mode (outer @ to) inner (targets1(outer @ to \<mapsto> (q, inner_mode))) = (hops2, targets2)"
    by (cases "base_hops env q inner_mode (outer @ to) inner (targets1(outer @ to \<mapsto> (q, inner_mode)))")
  obtain out2 changed2 ws3 where o: "scope_lookups env tenant m mode outer rest ws2 = (out2, changed2, ws3)"
    by (cases "scope_lookups env tenant m mode outer rest ws2")
  obtain hops3 targets3 where h: "base_hops env m mode outer rest targets2 = (hops3, targets3)"
    by (cases "base_hops env m mode outer rest targets2")
  have inside: "rewriting env tenant (outer @ to) inner ?ws inner' changed1 ws2 hops2 targets2"
    by (rule "4.IH"(1) [OF to [symmetric] s [symmetric] refl refl i]) (simp add: t1 hi del: fun_upd_apply)
  then have t2: "ws_targets ws2 = targets2" by (simp add: rewriting_def)
  have after: "rewriting env tenant outer rest ws2 out2 changed2 ws3 hops3 targets3"
    by (rule "4.IH"(2) [OF to [symmetric] s [symmetric] refl refl i [symmetric] refl refl refl o]) (simp add: t2 h)
  have "rewriting env tenant outer (Prefetch path to_attr (Some (PrefetchRows q filters inner_mode inner)) # rest) ws
    (ins @ Prefetch path to_attr (Some (PrefetchRows q filters inner_mode (if changed1 then inner' else inner))) # out2)
    (ins \<noteq> [] \<or> changed1 \<or> changed2) ws3 (hops1 @ hops2 @ hops3) targets3"
    by (rule queryset_lookup_rewritten [OF to_def s w inside after])
  moreover have "(out, changed, ws') = (ins @ Prefetch path to_attr (Some (PrefetchRows q filters inner_mode (if changed1 then inner' else inner))) # out2,
      ins \<noteq> [] \<or> changed1 \<or> changed2, ws3)"
    using "4.prems"(1) by (simp add: s to i o Let_def)
  moreover have "(hops, targets) = (hops1 @ hops2 @ hops3, targets3)" using "4.prems"(2) by (simp add: w to hi h Let_def)
  ultimately show ?case by simp
qed

text \<open>
  Whatever the lookups are: every hop onto a protected model that Django would fetch through a base manager has a queryset; a
  queryset is one of the caller's, or selects the tenant's rows of such a hop's model; and the lookups are the caller's, in
  their order, with others only in between.
\<close>

theorem prefetches_are_scoped:
  "case base_hops env m mode [] lookups Map.empty of (hops, _) \<Rightarrow>
     list_all (\<lambda>(p, _). p \<in> fst ` set (querysets [] (scoped_prefetch_lookups env m lookups tenant mode))) hops \<and>
     list_all (\<lambda>c. c \<in> set (querysets [] lookups) \<or> own_rows env tenant hops c)
       (querysets [] (scoped_prefetch_lookups env m lookups tenant mode)) \<and>
     subseq (map shape lookups) (map shape (scoped_prefetch_lookups env m lookups tenant mode))"
proof -
  let ?ws = "\<lparr>ws_with_queryset = {}, ws_targets = Map.empty\<rparr>"
  obtain out changed ws' where o: "scope_lookups env tenant m mode [] lookups ?ws = (out, changed, ws')"
    by (cases "scope_lookups env tenant m mode [] lookups ?ws")
  obtain hops targets where h: "base_hops env m mode [] lookups Map.empty = (hops, targets)"
    by (cases "base_hops env m mode [] lookups Map.empty")
  have r: "rewriting env tenant [] lookups ?ws out changed ws' hops targets"
    by (rule scope_lookups_rewriting [OF o]) (simp add: h)
  then have "scoped_prefetch_lookups env m lookups tenant mode = out"
    using o by (auto simp: scoped_prefetch_lookups_def rewriting_def)
  moreover have "list_all (\<lambda>(p, _). p \<in> fst ` set (querysets [] out)) hops"
    using r by (auto simp: rewriting_def list_all_iff)
  ultimately show ?thesis using r h by (simp add: rewriting_def)
qed

text \<open>With no tenant, for an admin and in a queryset with shared rows, the lookups stay as they are; \<^verbatim>\<open>aiterator()\<close> is \<^verbatim>\<open>iterator()\<close>.\<close>

lemma prefetches_unscoped:
  "q_shared qs \<or> prefetch_tenant qs s = None \<Longrightarrow> tenant_prefetch_lookups env qs lookups mode s = lookups"
  by (auto simp: tenant_prefetch_lookups_def split: option.split)

lemma aiterator_is_iterator:
  "0 < chunk_size \<Longrightarrow> aiterator fuel env qs chunk_size pull all_rows consume = iterator fuel env qs (Some (nat chunk_size)) pull all_rows consume"
  by (cases "q_user qs") (simp_all add: aiterator_def iterator_def py_seq_def py_bind_def py_require_def fun_eq_iff)

text \<open>For instance the notes behind a forward foreign key, for tenant 7.\<close>

definition demo_prefetch_env :: "demo_pg_state prefetch_env" where
  "demo_prefetch_env = \<lparr>pe_orm = demo_orm,
     pe_descriptor = (\<lambda>m name. if name = ''note'' then Some (ForwardManyToOne (ToModel ''app.Note'')) else None), pe_default_mode = None\<rparr>"

lemma demo_prefetch:
  "scoped_prefetch_lookups demo_prefetch_env demo_note [PathLookup [''note'']] (TInt 7) None =
   [Prefetch [''note''] None (Some (PrefetchRows demo_note [AttrIs [] ''tenant_id'' (Some (TInt 7))] None []))]"
proof -
  have "prefetch_hop demo_prefetch_env (Some demo_note) ''note'' = (Some demo_note, True)"
    by (simp add: prefetch_hop_def demo_prefetch_env_def demo_orm_def demo_apps_def)
  moreover have "is_rls_protected demo_orm demo_note" "tenant_attname demo_orm demo_note = Some ''tenant_id''"
    by (simp_all add: is_rls_protected_def tenant_attname_def tenant_field_def demo_orm_def get_tenant_fk_field_def concrete_of_def
      model_label_def get_field_def demo_model_defs)
  ultimately show ?thesis
    by (simp add: scoped_prefetch_lookups_def hop_path_def reached_def Let_def tenant_rows_def) (simp add: demo_prefetch_env_def)
qed

end
